(* ===== verification/Prelude.thy ===== *)
theory Prelude
  imports Main
begin

text \<open>
  Shared vocabulary of the development: the model's basic types, the two result
  monads (a pure one for code that raises, and a state-passing one whose state survives an
  exception, as a Python object's does), Python's \<open>or\<close> on optional strings,
  the hexadecimal digest predicate, and generic lemmas about lists and maps that the
  component theories use.
\<close>

section \<open>Names\<close>

text \<open>
  A UUID is its canonical 36-character text, so \<open>str(u)\<close> is the identity. A Python
  string is the sequence of its UTF-8 bytes. A timestamp is a number of microseconds.
\<close>

type_synonym uuid = string
type_synonym time = int

abbreviation seconds :: "int \<Rightarrow> time" where
  "seconds n \<equiv> n * 1000000"

named_theorems monad_simps \<open>unfolding of the two result monads\<close>
named_theorems model_defs \<open>definitions the component proofs unfold together\<close>

section \<open>Results\<close>

text \<open>A computation that raises \<open>e\<close> is \<open>Inl e\<close>; one that returns \<open>a\<close> is \<open>Inr a\<close>.\<close>

fun bind_r :: "'err + 'ok \<Rightarrow> ('ok \<Rightarrow> 'err + 'res) \<Rightarrow> 'err + 'res" where
  "bind_r (Inl raised) _ = Inl raised"
| "bind_r (Inr value) rest = rest value"

definition check_r :: "bool \<Rightarrow> 'e \<Rightarrow> 'e + unit" where
  "check_r b e = (if b then Inr () else Inl e)"

lemmas bind_r_simps [monad_simps] = bind_r.simps

lemma bind_r_def: "bind_r m f = (case m of Inl e \<Rightarrow> Inl e | Inr a \<Rightarrow> f a)"
  by (cases m) simp_all

lemma bind_r_Inr [monad_simps]:
  "bind_r m f = Inr b \<longleftrightarrow> (\<exists>a. m = Inr a \<and> f a = Inr b)"
  by (cases m) auto

lemma bind_r_InrE:
  assumes "bind_r m f = Inr b"
  obtains a where "m = Inr a" and "f a = Inr b"
  using assms by (auto simp: bind_r_Inr)

lemma check_r_Inr [simp]: "check_r b e = Inr u \<longleftrightarrow> b"
  by (simp add: check_r_def)

lemma check_r_Inl [simp]: "check_r b e = Inl e' \<longleftrightarrow> \<not> b \<and> e' = e"
  by (auto simp: check_r_def)

lemma bind_check_r [simp]: "bind_r (check_r b e) f = (if b then f () else Inl e)"
  by (simp add: check_r_def)

fun ok :: "'e + 'a \<Rightarrow> bool" where
  "ok (Inl _) = False"
| "ok (Inr _) = True"

lemma ok_iff: "ok r \<longleftrightarrow> (\<exists>a. r = Inr a)"
  by (cases r) auto

text \<open>
  A stateful computation: the state after an exception is the state at the raise, not the
  one at the start. \<open>atomic\<close> adds the rollback a database transaction gives.
\<close>

type_synonym ('s, 'e, 'a) sx = "'s \<Rightarrow> ('e + 'a) \<times> 's"

definition return_s :: "'a \<Rightarrow> ('s, 'e, 'a) sx" where
  "return_s a = (\<lambda>s. (Inr a, s))"

definition raise_s :: "'e \<Rightarrow> ('s, 'e, 'a) sx" where
  "raise_s e = (\<lambda>s. (Inl e, s))"

definition get_s :: "('s, 'e, 's) sx" where
  "get_s = (\<lambda>s. (Inr s, s))"

definition put_s :: "'s \<Rightarrow> ('s, 'e, unit) sx" where
  "put_s t = (\<lambda>s. (Inr (), t))"

definition check_s :: "bool \<Rightarrow> 'e \<Rightarrow> ('s, 'e, unit) sx" where
  "check_s b e = (\<lambda>s. (if b then Inr () else Inl e, s))"

definition bind_s :: "('s, 'e, 'a) sx \<Rightarrow> ('a \<Rightarrow> ('s, 'e, 'b) sx) \<Rightarrow> ('s, 'e, 'b) sx" where
  "bind_s m f = (\<lambda>s. case m s of (Inl e, s') \<Rightarrow> (Inl e, s') | (Inr a, s') \<Rightarrow> f a s')"

definition atomic_s :: "('s, 'e, 'a) sx \<Rightarrow> ('s, 'e, 'a) sx" where
  "atomic_s m = (\<lambda>s. case m s of (Inl e, _) \<Rightarrow> (Inl e, s) | (Inr a, s') \<Rightarrow> (Inr a, s'))"

lemmas sx_defs [monad_simps] =
  return_s_def raise_s_def get_s_def put_s_def check_s_def bind_s_def

lemma atomic_s_Inl [simp]: "m s = (Inl e, s') \<Longrightarrow> atomic_s m s = (Inl e, s)"
  by (simp add: atomic_s_def)

lemma atomic_s_Inr [simp]: "m s = (Inr a, s') \<Longrightarrow> atomic_s m s = (Inr a, s')"
  by (simp add: atomic_s_def)

lemma atomic_s_result: "fst (atomic_s m s) = fst (m s)"
  by (auto simp: atomic_s_def split: prod.split sum.split)

lemma atomic_s_rollback: "fst (atomic_s m s) = Inl e \<Longrightarrow> snd (atomic_s m s) = s"
  by (auto simp: atomic_s_def split: prod.splits sum.splits)

lemma bind_s_Inr_iff:
  "bind_s m f s = (Inr b, t) \<longleftrightarrow> (\<exists>a s'. m s = (Inr a, s') \<and> f a s' = (Inr b, t))"
  by (auto simp: bind_s_def split: prod.splits sum.splits)

section \<open>Python's \<open>or\<close> on optional strings\<close>

text \<open>\<open>a or b\<close> is \<open>b\<close> when \<open>a\<close> is \<open>None\<close> or the empty string.\<close>

definition py_or :: "string option \<Rightarrow> string option \<Rightarrow> string option" where
  "py_or a b = (case a of None \<Rightarrow> b | Some s \<Rightarrow> if s = [] then b else Some s)"

lemma py_or_simps [simp]:
  "py_or None b = b"
  "s \<noteq> [] \<Longrightarrow> py_or (Some s) b = Some s"
  "py_or (Some []) b = b"
  by (simp_all add: py_or_def)

definition coalesce :: "'a option \<Rightarrow> 'a option \<Rightarrow> 'a option" where
  "coalesce a b = (case a of None \<Rightarrow> b | Some _ \<Rightarrow> a)"

lemma coalesce_simps [simp]:
  "coalesce None b = b"
  "coalesce (Some x) b = Some x"
  by (simp_all add: coalesce_def)

lemma py_or_coalesce: "a \<noteq> Some [] \<Longrightarrow> py_or a b = coalesce a b"
  by (cases a) auto

section \<open>Decimal and hexadecimal text\<close>

text \<open>
  The number of code points of a string held as its UTF-8 bytes: the bytes that are not
  continuation bytes.
\<close>

definition ulen :: "string \<Rightarrow> nat" where
  "ulen s = length (filter (\<lambda>c. \<not> (128 \<le> (of_char c :: nat) \<and> (of_char c :: nat) < 192)) s)"

lemma ulen_le_length: "ulen s \<le> length s"
  unfolding ulen_def by (rule length_filter_le)

text \<open>A \<open>Field(min_length=lo, max_length=hi)\<close> constraint.\<close>

definition sized :: "nat \<Rightarrow> nat \<Rightarrow> string \<Rightarrow> bool" where
  "sized lo hi s \<longleftrightarrow> lo \<le> ulen s \<and> ulen s \<le> hi"

definition opt_all :: "('a \<Rightarrow> bool) \<Rightarrow> 'a option \<Rightarrow> bool" where
  "opt_all P x = (case x of None \<Rightarrow> True | Some y \<Rightarrow> P y)"

lemma opt_all_simps [simp]: "opt_all P None" "opt_all P (Some y) = P y"
  by (simp_all add: opt_all_def)

fun nat_digits :: "nat \<Rightarrow> string" where
  "nat_digits n =
     (if n < 10 then [char_of (48 + n)] else nat_digits (n div 10) @ [char_of (48 + n mod 10)])"

declare nat_digits.simps [simp del]

definition str_int :: "int \<Rightarrow> string" where
  "str_int i = (if i < 0 then CHR ''-'' # nat_digits (nat (- i)) else nat_digits (nat i))"

definition lower_hex :: "char \<Rightarrow> bool" where
  "lower_hex c \<longleftrightarrow> c \<in> set ''0123456789abcdef''"

text \<open>The pattern \<open>^[a-f0-9]{64}$\<close> (under \<open>fullmatch\<close>).\<close>

definition hex64 :: "string \<Rightarrow> bool" where
  "hex64 s \<longleftrightarrow> length s = 64 \<and> list_all lower_hex s"

section \<open>Tables\<close>

text \<open>
  A database table is the list of its rows. \<open>sql_update\<close> is \<open>UPDATE ... WHERE\<close>, whose
  \<open>RETURNING\<close> rows are the updated ones; \<open>sql_row\<close> is the row a unique key selects.
\<close>

definition sql_update :: "('r \<Rightarrow> bool) \<Rightarrow> ('r \<Rightarrow> 'r) \<Rightarrow> 'r list \<Rightarrow> 'r list" where
  "sql_update P f rows = map (\<lambda>r. if P r then f r else r) rows"

definition sql_returning :: "('r \<Rightarrow> bool) \<Rightarrow> ('r \<Rightarrow> 'r) \<Rightarrow> 'r list \<Rightarrow> 'r option" where
  "sql_returning P f rows = map_option f (List.find P rows)"

definition sql_row :: "('r \<Rightarrow> 'k) \<Rightarrow> 'k \<Rightarrow> 'r list \<Rightarrow> 'r option" where
  "sql_row key k rows = List.find (\<lambda>r. key r = k) rows"

lemma sql_row_Some: "sql_row key k rows = Some r \<Longrightarrow> key r = k \<and> r \<in> set rows"
  unfolding sql_row_def by (induction rows) (auto split: if_splits)

lemma sql_row_None: "sql_row key k rows = None \<longleftrightarrow> k \<notin> key ` set rows"
  unfolding sql_row_def by (induction rows) auto

lemma sql_row_unique:
  "distinct (map key rows) \<Longrightarrow> r \<in> set rows \<Longrightarrow> sql_row key (key r) rows = Some r"
  unfolding sql_row_def by (induction rows) (auto simp: image_iff)

lemma sql_row_append:
  "sql_row key k (rows @ [r]) =
     (case sql_row key k rows of Some x \<Rightarrow> Some x | None \<Rightarrow> if key r = k then Some r else None)"
  unfolding sql_row_def by (induction rows) auto

lemma sql_row_update:
  assumes "\<And>r. P r \<Longrightarrow> key (f r) = key r"
  shows "sql_row key k (sql_update P f rows) =
    map_option (\<lambda>r. if P r then f r else r) (sql_row key k rows)"
  unfolding sql_row_def sql_update_def using assms by (induction rows) auto

lemma sql_update_keys:
  assumes "\<And>r. P r \<Longrightarrow> key (f r) = key r"
  shows "map key (sql_update P f rows) = map key rows"
  unfolding sql_update_def using assms by (induction rows) auto

lemma find_key_conj:
  assumes "distinct (map key rows)"
  shows "List.find (\<lambda>r. key r = k \<and> Q r) rows =
    (case List.find (\<lambda>r. key r = k) rows of None \<Rightarrow> None | Some r \<Rightarrow> if Q r then Some r else None)"
  using assms
proof (induction rows)
  case (Cons a rows)
  have "List.find (\<lambda>r. key r = key a \<and> Q r) rows = None"
    using Cons.prems by (auto simp: find_None_iff image_iff)
  then show ?case using Cons by auto
qed simp

lemma sql_returning_key:
  assumes "distinct (map key rows)" and "\<And>r. P r \<longleftrightarrow> key r = k \<and> Q r"
  shows "sql_returning P f rows =
    (case sql_row key k rows of None \<Rightarrow> None | Some r \<Rightarrow> if Q r then Some (f r) else None)"
proof -
  have "P = (\<lambda>r. key r = k \<and> Q r)" using assms(2) by auto
  then show ?thesis
    using find_key_conj [OF assms(1), of k Q]
    by (simp add: sql_returning_def sql_row_def split: option.splits)
qed

lemma sql_update_none: "\<forall>r \<in> set rows. \<not> P r \<Longrightarrow> sql_update P f rows = rows"
  unfolding sql_update_def by (simp add: map_idI)

text \<open>
  An update whose condition selects one key changes that row alone, returns it, keeps the
  key unique, and changes nothing when no row satisfies the condition.
\<close>

lemma sql_update_keyed:
  assumes "distinct (map key rows)" and "\<And>r. key (f r) = key r" and P: "\<And>r. P r \<longleftrightarrow> key r = k \<and> Q r"
  shows "sql_row key k' (sql_update P f rows) =
      (case sql_row key k' rows of None \<Rightarrow> None
       | Some r \<Rightarrow> if k' = k \<and> Q r then Some (f r) else Some r)"
    and "distinct (map key (sql_update P f rows))"
    and "(\<forall>r. sql_row key k rows = Some r \<longrightarrow> \<not> Q r) \<Longrightarrow> sql_update P f rows = rows"
    and "sql_returning P f rows =
      (case sql_row key k rows of None \<Rightarrow> None | Some r \<Rightarrow> if Q r then Some (f r) else None)"
proof -
  show "sql_row key k' (sql_update P f rows) =
      (case sql_row key k' rows of None \<Rightarrow> None
       | Some r \<Rightarrow> if k' = k \<and> Q r then Some (f r) else Some r)"
    using sql_row_update [of P key f k' rows] sql_row_Some [of key k' rows] assms(2,3)
    by (auto split: option.splits)
  show "distinct (map key (sql_update P f rows))"
    using assms(1,2) by (simp add: sql_update_keys)
  show "(\<forall>r. sql_row key k rows = Some r \<longrightarrow> \<not> Q r) \<Longrightarrow> sql_update P f rows = rows"
    using sql_row_unique [OF assms(1)] by (intro sql_update_none) (auto simp: P)
  show "sql_returning P f rows =
      (case sql_row key k rows of None \<Rightarrow> None | Some r \<Rightarrow> if Q r then Some (f r) else None)"
    by (rule sql_returning_key [OF assms(1) P])
qed

section \<open>Lists and maps\<close>

lemma find_Some_conj:
  "List.find P xs = Some x \<Longrightarrow> P x \<and> x \<in> set xs"
  by (induction xs) (auto split: if_splits)

lemma find_None_conj:
  "List.find P xs = None \<longleftrightarrow> (\<forall>x \<in> set xs. \<not> P x)"
  by (induction xs) auto

lemma find_append_new:
  "List.find P (xs @ [y]) = (case List.find P xs of Some x \<Rightarrow> Some x | None \<Rightarrow> if P y then Some y else None)"
  by (induction xs) (auto split: option.split)

text \<open>Replacing the first element equal to \<open>x\<close>: Python's \<open>xs[xs.index(x)] = y\<close>.\<close>

fun replace_first :: "'a \<Rightarrow> 'a \<Rightarrow> 'a list \<Rightarrow> 'a list" where
  "replace_first x y [] = []"
| "replace_first x y (z # zs) = (if z = x then y # zs else z # replace_first x y zs)"

lemma length_replace_first [simp]: "length (replace_first x y zs) = length zs"
  by (induction zs) auto

lemma set_replace_first:
  "x \<in> set zs \<Longrightarrow> y \<in> set (replace_first x y zs)"
  by (induction zs) auto

lemma set_replace_first_subset:
  "set (replace_first x y zs) \<subseteq> insert y (set zs)"
  by (induction zs) auto

lemma map_replace_first_same:
  "f x = f y \<Longrightarrow> map f (replace_first x y zs) = map f zs"
  by (induction zs) auto

lemma replace_first_distinct:
  "distinct (map f zs) \<Longrightarrow> x \<in> set zs \<Longrightarrow> z \<in> set (replace_first x y zs) \<Longrightarrow> f z \<noteq> f x \<Longrightarrow> z \<in> set zs \<or> z = y"
  using set_replace_first_subset by fastforce

lemma other_replace_first:
  "z \<in> set zs \<Longrightarrow> z \<noteq> x \<Longrightarrow> z \<in> set (replace_first x y zs)"
  by (induction zs) auto

lemma find_key_replace_first:
  assumes "key u = key m" and "List.find (\<lambda>x. key x = key m) xs = Some m"
  shows "List.find (\<lambda>x. key x = k) (replace_first m u xs) =
    (if k = key m then Some u else List.find (\<lambda>x. key x = k) xs)"
  using assms(2)
proof (induction xs)
  case (Cons z zs)
  then show ?case using assms(1) by (cases "key z = key m") auto
qed simp

end
