(* ===== verification/Hashing.thy ===== *)
theory Hashing
  imports Prelude Complex_Main "HOL-Library.Word" "HOL-Library.Char_ord" "HOL-Library.List_Lexorder"
begin

text \<open>
  The hash functions of the standard library the program calls (\<open>hashlib.sha256\<close>,
  \<open>hmac\<close>) over byte strings, and the domain-separated content digests of
  \<^verbatim>\<open>src/recallops/canonical.py\<close>. The canonicalisation \<open>rfc8785.dumps\<close> is
  third-party code: it is the argument \<open>jcs\<close> of every definition that uses it.
\<close>

unbundle bit_operations_syntax

section \<open>JSON values\<close>

datatype json =
    JNull
  | JBool bool
  | JInt int
  | JNum real
  | JStr string
  | JArr "json list"
  | JObj "(string \<times> json) list"

type_synonym jcs = "json \<Rightarrow> string"

definition jopt :: "string option \<Rightarrow> json" where
  "jopt x = (case x of None \<Rightarrow> JNull | Some s \<Rightarrow> JStr s)"

section \<open>SHA-256\<close>

type_synonym u8 = "8 word"
type_synonym u32 = "32 word"

definition bytes_of :: "string \<Rightarrow> u8 list" where
  "bytes_of s = map of_char s"

definition be32 :: "u32 \<Rightarrow> u8 list" where
  "be32 w = [ucast (drop_bit 24 w), ucast (drop_bit 16 w), ucast (drop_bit 8 w), ucast w]"

text \<open>The round constants (the fractional parts of the cube roots of the first 64 primes), in decimal.\<close>

definition sha_const :: "u32 list" where
  "sha_const = [
    1116352408, 1899447441, 3049323471, 3921009573, 961987163, 1508970993,
    2453635748, 2870763221, 3624381080, 310598401, 607225278, 1426881987,
    1925078388, 2162078206, 2614888103, 3248222580, 3835390401, 4022224774,
    264347078, 604807628, 770255983, 1249150122, 1555081692, 1996064986,
    2554220882, 2821834349, 2952996808, 3210313671, 3336571891, 3584528711,
    113926993, 338241895, 666307205, 773529912, 1294757372, 1396182291,
    1695183700, 1986661051, 2177026350, 2456956037, 2730485921, 2820302411,
    3259730800, 3345764771, 3516065817, 3600352804, 4094571909, 275423344,
    430227734, 506948616, 659060556, 883997877, 958139571, 1322822218,
    1537002063, 1747873779, 1955562222, 2024104815, 2227730452, 2361852424,
    2428436474, 2756734187, 3204031479, 3329325298]"

type_synonym sha_state = "u32 \<times> u32 \<times> u32 \<times> u32 \<times> u32 \<times> u32 \<times> u32 \<times> u32"

definition sha_init :: sha_state where
  "sha_init = (1779033703, 3144134277, 1013904242, 2773480762,
     1359893119, 2600822924, 528734635, 1541459225)"

definition sha_pad :: "u8 list \<Rightarrow> u8 list" where
  "sha_pad m = (let n = length m; b = (of_nat (8 * n) :: 64 word) in
     m @ [0x80] @ replicate ((119 - n mod 64) mod 64) 0
       @ map (\<lambda>k. ucast (drop_bit (8 * (7 - k)) b)) [0..<8])"

fun words_be :: "u8 list \<Rightarrow> u32 list" where
  "words_be (a # b # c # d # rest) =
     (push_bit 24 (ucast a) OR push_bit 16 (ucast b) OR push_bit 8 (ucast c) OR ucast d)
       # words_be rest"
| "words_be _ = []"

definition small0 :: "u32 \<Rightarrow> u32" where
  "small0 x = word_rotr 7 x XOR word_rotr 18 x XOR drop_bit 3 x"

definition small1 :: "u32 \<Rightarrow> u32" where
  "small1 x = word_rotr 17 x XOR word_rotr 19 x XOR drop_bit 10 x"

fun schedule :: "nat \<Rightarrow> u32 list \<Rightarrow> u32 list" where
  "schedule 0 w = w"
| "schedule (Suc k) w = (let n = length w in
     schedule k (w @ [small1 (w ! (n - 2)) + w ! (n - 7) + small0 (w ! (n - 15)) + w ! (n - 16)]))"

fun sha_round :: "u32 \<times> u32 \<Rightarrow> sha_state \<Rightarrow> sha_state" where
  "sha_round (kt, wt) (a, b, c, d, e, f, g, h) =
    (let t1 = h + (word_rotr 6 e XOR word_rotr 11 e XOR word_rotr 25 e)
                + ((e AND f) XOR ((NOT e) AND g)) + kt + wt;
         t2 = (word_rotr 2 a XOR word_rotr 13 a XOR word_rotr 22 a)
                + ((a AND b) XOR (a AND c) XOR (b AND c))
     in (t1 + t2, a, b, c, d + t1, e, f, g))"

fun sha_add :: "sha_state \<Rightarrow> sha_state \<Rightarrow> sha_state" where
  "sha_add (a, b, c, d, e, f, g, h) (a', b', c', d', e', f', g', h') =
     (a + a', b + b', c + c', d + d', e + e', f + f', g + g', h + h')"

definition sha_block :: "u32 list \<Rightarrow> sha_state \<Rightarrow> sha_state" where
  "sha_block w st = sha_add st (fold sha_round (zip sha_const (schedule 48 w)) st)"

fun sha_blocks :: "nat \<Rightarrow> u32 list \<Rightarrow> sha_state \<Rightarrow> sha_state" where
  "sha_blocks 0 w st = st"
| "sha_blocks (Suc n) w st = sha_blocks n (drop 16 w) (sha_block (take 16 w) st)"

fun sha_bytes :: "sha_state \<Rightarrow> u8 list" where
  "sha_bytes (a, b, c, d, e, f, g, h) = concat (map be32 [a, b, c, d, e, f, g, h])"

definition sha256 :: "u8 list \<Rightarrow> u8 list" where
  "sha256 m = (let w = words_be (sha_pad m) in sha_bytes (sha_blocks (length w div 16) w sha_init))"

section \<open>Hexadecimal digests\<close>

definition nibble :: "nat \<Rightarrow> char" where
  "nibble n = ''0123456789abcdef'' ! n"

definition hex_byte :: "u8 \<Rightarrow> string" where
  "hex_byte b = [nibble (unat b div 16), nibble (unat b mod 16)]"

definition hexdigest :: "u8 list \<Rightarrow> string" where
  "hexdigest bs = concat (map hex_byte bs)"

definition sha256_hex :: "string \<Rightarrow> string" where
  "sha256_hex s = hexdigest (sha256 (bytes_of s))"

lemma nibble_lower_hex: "n < 16 \<Longrightarrow> lower_hex (nibble n)"
  unfolding lower_hex_def nibble_def by (rule nth_mem) simp

lemma unat_u8: "unat (b :: u8) < 256"
proof -
  have "unat b < 2 ^ LENGTH(8)" by (rule unsigned_less)
  then show ?thesis by simp
qed

lemma hex_byte_lower: "list_all lower_hex (hex_byte b)"
  using unat_u8 [of b] by (simp add: hex_byte_def nibble_lower_hex)

lemma hexdigest_lower: "list_all lower_hex (hexdigest bs)"
  unfolding hexdigest_def by (induction bs) (auto simp: hex_byte_lower)

lemma length_hexdigest: "length (hexdigest bs) = 2 * length bs"
  unfolding hexdigest_def by (induction bs) (auto simp: hex_byte_def)

lemma length_sha256 [simp]: "length (sha256 m) = 32"
proof -
  obtain a b c d e f g h where
    "sha_blocks (length (words_be (sha_pad m)) div 16) (words_be (sha_pad m)) sha_init
       = (a, b, c, d, e, f, g, h)"
    by (metis prod.exhaust)
  then show ?thesis by (simp add: sha256_def Let_def be32_def)
qed

lemma hex64_sha256_hex [simp]: "hex64 (sha256_hex s)"
  by (simp add: hex64_def sha256_hex_def hexdigest_lower length_hexdigest)

section \<open>SHA-1 and name-based UUIDs\<close>

text \<open>\<open>uuid.uuid5\<close>: the SHA-1 hash of the namespace and the name, with the version and
  variant bits set, as text.\<close>

type_synonym sha1_state = "u32 \<times> u32 \<times> u32 \<times> u32 \<times> u32"

definition sha1_init :: sha1_state where
  "sha1_init = (0x67452301, 0xefcdab89, 0x98badcfe, 0x10325476, 0xc3d2e1f0)"

fun sha1_schedule :: "nat \<Rightarrow> u32 list \<Rightarrow> u32 list" where
  "sha1_schedule 0 w = w"
| "sha1_schedule (Suc k) w = (let n = length w in
     sha1_schedule k
       (w @ [word_rotl 1 (w ! (n - 3) XOR w ! (n - 8) XOR w ! (n - 14) XOR w ! (n - 16))]))"

fun sha1_round :: "nat \<times> u32 \<Rightarrow> sha1_state \<Rightarrow> sha1_state" where
  "sha1_round (t, wt) (a, b, c, d, e) =
    (let (f, k) =
       (if t < 20 then ((b AND c) OR ((NOT b) AND d), 0x5a827999)
        else if t < 40 then (b XOR c XOR d, 0x6ed9eba1)
        else if t < 60 then ((b AND c) OR (b AND d) OR (c AND d), 0x8f1bbcdc)
        else (b XOR c XOR d, 0xca62c1d6))
     in (word_rotl 5 a + f + e + k + wt, a, word_rotl 30 b, c, d))"

fun sha1_add :: "sha1_state \<Rightarrow> sha1_state \<Rightarrow> sha1_state" where
  "sha1_add (a, b, c, d, e) (a', b', c', d', e') = (a + a', b + b', c + c', d + d', e + e')"

fun sha1_blocks :: "nat \<Rightarrow> u32 list \<Rightarrow> sha1_state \<Rightarrow> sha1_state" where
  "sha1_blocks 0 w st = st"
| "sha1_blocks (Suc n) w st = sha1_blocks n (drop 16 w)
     (sha1_add st (fold sha1_round (enumerate 0 (sha1_schedule 64 (take 16 w))) st))"

fun sha1_bytes :: "sha1_state \<Rightarrow> u8 list" where
  "sha1_bytes (a, b, c, d, e) = concat (map be32 [a, b, c, d, e])"

definition sha1 :: "u8 list \<Rightarrow> u8 list" where
  "sha1 m = (let w = words_be (sha_pad m) in sha1_bytes (sha1_blocks (length w div 16) w sha1_init))"

definition uuid_text :: "u8 list \<Rightarrow> uuid" where
  "uuid_text b = (let h = hexdigest b in
     take 8 h @ ''-'' @ take 4 (drop 8 h) @ ''-'' @ take 4 (drop 12 h) @ ''-''
       @ take 4 (drop 16 h) @ ''-'' @ drop 20 h)"

definition uuid5_bytes :: "u8 list \<Rightarrow> u8 list" where
  "uuid5_bytes d = (let b = take 16 d in
     b[6 := (b ! 6 AND 0x0f) OR 0x50, 8 := (b ! 8 AND 0x3f) OR 0x80])"

definition namespace_url :: "u8 list" where
  "namespace_url = [0x6b, 0xa7, 0xb8, 0x11, 0x9d, 0xad, 0x11, 0xd1,
                    0x80, 0xb4, 0x00, 0xc0, 0x4f, 0xd4, 0x30, 0xc8]"

definition namespace_dns :: "u8 list" where
  "namespace_dns = [0x6b, 0xa7, 0xb8, 0x10, 0x9d, 0xad, 0x11, 0xd1,
                    0x80, 0xb4, 0x00, 0xc0, 0x4f, 0xd4, 0x30, 0xc8]"

definition uuid5 :: "u8 list \<Rightarrow> string \<Rightarrow> uuid" where
  "uuid5 ns name = uuid_text (uuid5_bytes (sha1 (ns @ bytes_of name)))"

section \<open>Keyed hashing and content digests\<close>

definition zero_pad :: "u8 list \<Rightarrow> u8 list" where
  "zero_pad k = k @ replicate (64 - length k) 0"

definition hmac_key :: "u8 list \<Rightarrow> u8 list" where
  "hmac_key k = zero_pad (if 64 < length k then sha256 k else k)"

definition hmac_sha256 :: "string \<Rightarrow> string \<Rightarrow> string" where
  "hmac_sha256 key msg = (let k = hmac_key (bytes_of key) in
     hexdigest (sha256 (map (\<lambda>b. b XOR 0x5c) k @ sha256 (map (\<lambda>b. b XOR 0x36) k @ bytes_of msg))))"

lemma hex64_hmac [simp]: "hex64 (hmac_sha256 k m)"
  by (simp add: hex64_def hmac_sha256_def Let_def hexdigest_lower length_hexdigest)

definition ascii_char :: "char \<Rightarrow> bool" where
  "ascii_char c \<longleftrightarrow> (of_char c :: nat) < 128"

datatype digest_error = BadDigestDomain

definition nul :: char where
  "nul = char_of (0 :: nat)"

text \<open>
  \<open>content_digest(domain, value)\<close>: a domain that is empty, not ASCII or holds a NUL is
  refused; otherwise the hash of \<open>domain + b"\x00" + canonical_bytes(value)\<close>.
\<close>

definition domain_hash :: "jcs \<Rightarrow> string \<Rightarrow> json \<Rightarrow> string" where
  "domain_hash jcs dm v = sha256_hex (dm @ [nul] @ jcs v)"

definition content_digest :: "jcs \<Rightarrow> string \<Rightarrow> json \<Rightarrow> digest_error + string" where
  "content_digest jcs dm v =
     (if \<not> list_all ascii_char dm \<or> nul \<in> set dm \<or> dm = [] then Inl BadDigestDomain
      else Inr (domain_hash jcs dm v))"

lemma hex64_domain_hash [simp]: "hex64 (domain_hash jcs dm v)"
  by (simp add: domain_hash_def)

text \<open>
  The NUL separator makes the hashed text determine the domain: two accepted domains give
  the same text only when both the domain and the canonical bytes agree.
\<close>

lemma domain_text_inject:
  assumes "nul \<notin> set d1" and "nul \<notin> set d2" and "d1 @ [nul] @ x = d2 @ [nul] @ y"
  shows "d1 = d2 \<and> x = y"
  using assms
proof (induction d1 arbitrary: d2)
  case Nil
  then show ?case by (cases d2) auto
next
  case (Cons c d1)
  then show ?case by (cases d2) auto
qed

section \<open>The standard library's JSON text\<close>

text \<open>
  \<open>json.dumps(v, sort_keys=True, separators=(",", ":"), ensure_ascii=True)\<close>: everything but
  printable ASCII is escaped, code points above the basic plane as a surrogate pair. The text of
  a float (\<open>float.__repr__\<close>) is the argument \<open>frepr\<close>.
\<close>

definition hex4 :: "nat \<Rightarrow> string" where
  "hex4 n = [nibble (n div 4096 mod 16), nibble (n div 256 mod 16), nibble (n div 16 mod 16), nibble (n mod 16)]"

definition unicode_escape :: "nat \<Rightarrow> string" where
  "unicode_escape n =
     (if n < 65536 then [CHR 0x5C, CHR ''u''] @ hex4 n
      else [CHR 0x5C, CHR ''u''] @ hex4 (55296 + (n - 65536) div 1024)
         @ [CHR 0x5C, CHR ''u''] @ hex4 (56320 + (n - 65536) mod 1024))"

definition escape_point :: "nat \<Rightarrow> string" where
  "escape_point n =
     (if n = 34 then [CHR 0x5C, CHR 0x22]
      else if n = 92 then [CHR 0x5C, CHR 0x5C]
      else if n = 10 then [CHR 0x5C, CHR ''n'']
      else if n = 13 then [CHR 0x5C, CHR ''r'']
      else if n = 9 then [CHR 0x5C, CHR ''t'']
      else if n = 12 then [CHR 0x5C, CHR ''f'']
      else if n = 8 then [CHR 0x5C, CHR ''b'']
      else if 32 \<le> n \<and> n \<le> 126 then [char_of n]
      else unicode_escape n)"

fun utf8_points :: "nat list \<Rightarrow> nat list" where
  "utf8_points [] = []"
| "utf8_points (a # r) =
     (if a < 128 then a # utf8_points r
      else case r of
        [] \<Rightarrow> []
      | b # r2 \<Rightarrow>
          if a < 224 then ((a mod 32) * 64 + b mod 64) # utf8_points r2
          else case r2 of
            [] \<Rightarrow> []
          | c # r3 \<Rightarrow>
              if a < 240 then ((a mod 16) * 4096 + (b mod 64) * 64 + c mod 64) # utf8_points r3
              else case r3 of
                [] \<Rightarrow> []
              | d # r4 \<Rightarrow>
                  ((a mod 8) * 262144 + (b mod 64) * 4096 + (c mod 64) * 64 + d mod 64) # utf8_points r4)"

definition json_string :: "string \<Rightarrow> string" where
  "json_string s = CHR 0x22 # concat (map escape_point (utf8_points (map of_char s))) @ [CHR 0x22]"

fun join_comma :: "string list \<Rightarrow> string" where
  "join_comma [] = []"
| "join_comma [x] = x"
| "join_comma (x # y # zs) = x @ '','' @ join_comma (y # zs)"

fun json_dumps :: "(real \<Rightarrow> string) \<Rightarrow> json \<Rightarrow> string" where
  "json_dumps frepr JNull = ''null''"
| "json_dumps frepr (JBool b) = (if b then ''true'' else ''false'')"
| "json_dumps frepr (JInt i) = str_int i"
| "json_dumps frepr (JNum x) = frepr x"
| "json_dumps frepr (JStr s) = json_string s"
| "json_dumps frepr (JArr js) = ''['' @ join_comma (map (json_dumps frepr) js) @ '']''"
| "json_dumps frepr (JObj kvs) = ''{'' @ join_comma (map (\<lambda>(k, t). json_string k @ '':'' @ t)
     (sort_key fst (map (\<lambda>(k, v). (k, json_dumps frepr v)) kvs))) @ ''}''"

lemma json_dumps_example:
  "json_dumps (\<lambda>_. ''0.5'') (JObj [(''b'', JArr [JInt (- 3), JNull]), (''a'', JStr (map char_of [10, 195, 169 :: nat])),
     (''c'', JNum 1)]) =
   ''{'' @ [CHR 0x22] @ ''a'' @ [CHR 0x22] @ '':'' @ [CHR 0x22, CHR 0x5C, CHR ''n'', CHR 0x5C] @ ''u00e9'' @ [CHR 0x22]
     @ '','' @ [CHR 0x22] @ ''b'' @ [CHR 0x22] @ '':[-3,null],'' @ [CHR 0x22] @ ''c'' @ [CHR 0x22] @ '':0.5}''"
  by code_simp

end
