(* ===== verification/Retry.thy ===== *)
theory Retry
  imports Prelude Complex_Main
begin

text \<open>
  \<^verbatim>\<open>src/recallops/db_retry.py\<close>: the retry of a complete database transaction after a
  serialization failure. An operation is a function of the state it runs on; the model
  records the delays slept, in seconds, in order.
\<close>

datatype 'e db_error = SerializationFailure | DbOther 'e | BadMaxAttempts

type_synonym ('s, 'e, 'a) db_op = "('s, 'e db_error, 'a) sx"

definition max_serialization_attempts :: nat where
  "max_serialization_attempts = 6"

definition retry_delay :: "nat \<Rightarrow> real" where
  "retry_delay attempt = 0.01 * 2 ^ attempt"

text \<open>
  \<open>for attempt in range(max_attempts)\<close>, with \<open>attempt\<close> counted up and the attempts
  left counted down.
\<close>

fun retry_loop ::
  "('s, 'e, 'a) db_op \<Rightarrow> nat \<Rightarrow> nat \<Rightarrow> 's \<Rightarrow> ('e db_error + 'a) \<times> 's \<times> real list" where
  "retry_loop op attempt 0 s = (Inl SerializationFailure, s, [])"
| "retry_loop op attempt (Suc left) s =
    (case op s of
       (Inl SerializationFailure, s') \<Rightarrow>
         if left = 0 then (Inl SerializationFailure, s', [])
         else (case retry_loop op (Suc attempt) left s' of
                 (r, t, delays) \<Rightarrow> (r, t, retry_delay attempt # delays))
     | (r, s') \<Rightarrow> (r, s', []))"

definition run_serializable ::
  "nat \<Rightarrow> ('s, 'e, 'a) db_op \<Rightarrow> 's \<Rightarrow> ('e db_error + 'a) \<times> 's \<times> real list" where
  "run_serializable max_attempts op s =
     (if max_attempts < 1 then (Inl BadMaxAttempts, s, [])
      else retry_loop op 0 max_attempts s)"

text \<open>The state after \<open>k\<close> runs of the operation, and the outcome of the run that follows.\<close>

fun state_after_runs :: "('s, 'e, 'a) db_op \<Rightarrow> nat \<Rightarrow> 's \<Rightarrow> 's" where
  "state_after_runs op 0 s = s"
| "state_after_runs op (Suc k) s = state_after_runs op k (snd (op s))"

definition run_outcome :: "('s, 'e, 'a) db_op \<Rightarrow> nat \<Rightarrow> 's \<Rightarrow> 'e db_error + 'a" where
  "run_outcome op k s = fst (op (state_after_runs op k s))"

lemma run_outcome_simps:
  "run_outcome op 0 s = fst (op s)"
  "run_outcome op (Suc k) s = run_outcome op k (snd (op s))"
  by (simp_all add: run_outcome_def)

definition retry_spec ::
  "('s, 'e, 'a) db_op \<Rightarrow> nat \<Rightarrow> nat \<Rightarrow> 's \<Rightarrow> nat \<Rightarrow> ('e db_error + 'a) \<times> 's \<times> real list \<Rightarrow> bool" where
  "retry_spec op attempt n s k r \<longleftrightarrow>
     k < n \<and> (\<forall>i < k. run_outcome op i s = Inl SerializationFailure) \<and>
     (run_outcome op k s \<noteq> Inl SerializationFailure \<or> Suc k = n) \<and>
     r = (run_outcome op k s, state_after_runs op (Suc k) s,
          map (\<lambda>i. retry_delay (attempt + i)) [0..<k])"

lemma retry_spec_step:
  assumes "op s = (Inl SerializationFailure, s')" and "retry_spec op (Suc attempt) n s' k (r, t, ds)"
  shows "retry_spec op attempt (Suc n) s (Suc k) (r, t, retry_delay attempt # ds)"
proof -
  have "map (\<lambda>i. retry_delay (attempt + i)) [0..<Suc k] =
      retry_delay attempt # map (\<lambda>i. retry_delay (Suc attempt + i)) [0..<k]"
    by (subst upt_conv_Cons) (simp_all add: map_Suc_upt [symmetric] del: upt_Suc)
  with assms show ?thesis
    by (auto simp: retry_spec_def run_outcome_simps less_Suc_eq_0_disj simp del: upt_Suc)
qed

lemma retry_loop_spec: "0 < n \<Longrightarrow> \<exists>k. retry_spec op attempt n s k (retry_loop op attempt n s)"
proof (induction n arbitrary: attempt s)
  case (Suc n)
  obtain r s' where op: "op s = (r, s')" by (cases "op s")
  show ?case
  proof (cases "r = Inl SerializationFailure \<and> n \<noteq> 0")
    case True
    obtain r' t ds where rec: "retry_loop op (Suc attempt) n s' = (r', t, ds)"
      by (metis prod.exhaust)
    with Suc.IH [of "Suc attempt" s'] True obtain k where "retry_spec op (Suc attempt) n s' k (r', t, ds)"
      by auto
    then show ?thesis using retry_spec_step [of op s s'] op True rec by force
  next
    case False
    then have "retry_spec op attempt (Suc n) s 0 (retry_loop op attempt (Suc n) s)"
      using op by (auto simp: retry_spec_def run_outcome_simps split: sum.split db_error.split)
    then show ?thesis by blast
  qed
qed simp

text \<open>
  C13. \<open>run_serializable\<close> returns the outcome of the first run that is not a serialization
  failure, or the failure of the last of \<open>max_attempts\<close> runs; it runs the operation at
  most \<open>max_attempts\<close> times, and sleeps \<open>0.01 * 2 ^ i\<close> seconds after the \<open>i\<close>-th run
  that fails, never after the last one.
\<close>

theorem run_serializable_correct:
  assumes "0 < n"
  shows "\<exists>k < n. (\<forall>i < k. run_outcome op i s = Inl SerializationFailure) \<and>
    (run_outcome op k s \<noteq> Inl SerializationFailure \<or> Suc k = n) \<and>
    run_serializable n op s =
      (run_outcome op k s, state_after_runs op (Suc k) s, map retry_delay [0..<k])"
  using retry_loop_spec [of n op 0 s] assms
  by (auto simp: run_serializable_def retry_spec_def)

text \<open>An operation that fails twice to serialize and then returns what it read.\<close>

definition contended_op :: "(nat, unit, nat) db_op" where
  "contended_op n = ((if n < 2 then Inl SerializationFailure else Inr n), n + 1)"

lemma run_serializable_correct_witness:
  "\<exists>k < 6. run_serializable 6 contended_op 0 =
     (run_outcome contended_op k 0, state_after_runs contended_op (Suc k) 0, map retry_delay [0..<k]) \<and>
     run_outcome contended_op k 0 = Inr 2"
proof -
  have "fst (run_serializable 6 contended_op 0) = Inr 2"
    by (simp add: run_serializable_def contended_op_def numeral_eq_Suc)
  with run_serializable_correct [of 6 contended_op 0] show ?thesis by fastforce
qed

end
