(* ===== verification/Workflow.thy ===== *)
theory Workflow
  imports Prelude
begin

text \<open>
  The data and the repositories of \<^verbatim>\<open>src/recallops/workflow.py\<close>: the incident
  workflow's states, its snapshots and capability manifest, the in-memory repository (a
  dictionary) and the Postgres repository (a table), and the contract both keep, as the
  locale \<open>workflow_repository\<close>, of which each is an interpretation.
\<close>

section \<open>States, channels and capabilities\<close>

datatype workflow_state =
    INVESTIGATING
  | AWAITING_OPERATOR_APPROVAL
  | APPROVED_AWAITING_EXECUTION
  | OBSERVING_POSTCHECK
  | POSTCHECK_READY
  | POSTCHECK_UNAVAILABLE
  | PENDING_REVIEW
  | REVIEWED

fun state_value :: "workflow_state \<Rightarrow> string" where
  "state_value INVESTIGATING = ''INVESTIGATING''"
| "state_value AWAITING_OPERATOR_APPROVAL = ''AWAITING_OPERATOR_APPROVAL''"
| "state_value APPROVED_AWAITING_EXECUTION = ''APPROVED_AWAITING_EXECUTION''"
| "state_value OBSERVING_POSTCHECK = ''OBSERVING_POSTCHECK''"
| "state_value POSTCHECK_READY = ''POSTCHECK_READY''"
| "state_value POSTCHECK_UNAVAILABLE = ''POSTCHECK_UNAVAILABLE''"
| "state_value PENDING_REVIEW = ''PENDING_REVIEW''"
| "state_value REVIEWED = ''REVIEWED''"

datatype request_channel = WEBMCP | UI | SYSTEM

fun channel_value :: "request_channel \<Rightarrow> string" where
  "channel_value WEBMCP = ''webmcp''"
| "channel_value UI = ''ui''"
| "channel_value SYSTEM = ''system''"

lemma state_value_inject [simp]: "state_value a = state_value b \<longleftrightarrow> a = b"
  by (cases a; cases b) simp_all

lemma channel_value_inject [simp]: "channel_value a = channel_value b \<longleftrightarrow> a = b"
  by (cases a; cases b) simp_all

fun capabilities :: "workflow_state \<Rightarrow> string list" where
  "capabilities INVESTIGATING = [''inspect_incident'', ''propose_mitigation'']"
| "capabilities AWAITING_OPERATOR_APPROVAL = [''inspect_incident'']"
| "capabilities APPROVED_AWAITING_EXECUTION = [''inspect_incident'']"
| "capabilities OBSERVING_POSTCHECK = [''inspect_incident'']"
| "capabilities POSTCHECK_READY = [''inspect_incident'', ''record_postcheck_assessment'']"
| "capabilities POSTCHECK_UNAVAILABLE = [''inspect_incident'']"
| "capabilities PENDING_REVIEW = [''inspect_incident'']"
| "capabilities REVIEWED = [''inspect_incident'', ''recall_reviewed_memory'']"

record workflow_snapshot =
  wf_id :: uuid
  wf_tenant :: string
  wf_state :: workflow_state
  wf_epoch :: int
  wf_active :: bool
  wf_proposal_hash :: "string option"
  wf_operator :: "string option"
  wf_reviewer :: "string option"
  wf_created :: time
  wf_updated :: time

text \<open>The field constraints of \<open>WorkflowSnapshot\<close>.\<close>

definition valid_snapshot :: "workflow_snapshot \<Rightarrow> bool" where
  "valid_snapshot w \<longleftrightarrow> sized 1 80 (wf_tenant w) \<and> 1 \<le> wf_epoch w \<and>
     opt_all hex64 (wf_proposal_hash w) \<and>
     opt_all (sized 0 200) (wf_operator w) \<and> opt_all (sized 0 200) (wf_reviewer w)"

definition available_tools :: "workflow_snapshot \<Rightarrow> string list" where
  "available_tools w = (if wf_active w then capabilities (wf_state w) else [])"

definition wf_key :: "workflow_snapshot \<Rightarrow> string \<times> uuid" where
  "wf_key w = (wf_tenant w, wf_id w)"

fun authority_owner :: "workflow_state \<Rightarrow> string" where
  "authority_owner INVESTIGATING = ''AGENT''"
| "authority_owner AWAITING_OPERATOR_APPROVAL = ''HUMAN_OPERATOR''"
| "authority_owner APPROVED_AWAITING_EXECUTION = ''HUMAN_OPERATOR''"
| "authority_owner POSTCHECK_UNAVAILABLE = ''HUMAN_OPERATOR''"
| "authority_owner OBSERVING_POSTCHECK = ''SYSTEM''"
| "authority_owner POSTCHECK_READY = ''AGENT''"
| "authority_owner PENDING_REVIEW = ''HUMAN_REVIEWER''"
| "authority_owner REVIEWED = ''GOVERNED_MEMORY''"

record capability_manifest =
  cm_workflow_id :: uuid
  cm_state :: workflow_state
  cm_epoch :: int
  cm_active :: bool
  cm_owner :: string
  cm_available :: "string list"
  cm_protected :: "string list"

definition protected_tools :: "string list" where
  "protected_tools = [''approve_proposal'', ''apply_sandbox_mitigation'', ''retry_observation'',
     ''activate_memory'', ''reject_memory'', ''reset_demo'']"

definition manifest :: "workflow_snapshot \<Rightarrow> capability_manifest" where
  "manifest w = \<lparr>cm_workflow_id = wf_id w, cm_state = wf_state w, cm_epoch = wf_epoch w,
     cm_active = wf_active w,
     cm_owner = (if wf_active w then authority_owner (wf_state w) else ''NONE''),
     cm_available = available_tools w, cm_protected = protected_tools\<rparr>"

section \<open>The repository protocol\<close>

text \<open>The messages of the \<open>WorkflowConflict\<close>s the two repositories raise.\<close>

datatype wf_error = WorkflowNotFound | WorkflowInactive | StaleWorkflow

record 's workflow_repo =
  repo_ensure :: "workflow_snapshot \<Rightarrow> ('s, wf_error, workflow_snapshot) sx"
  repo_get :: "'s \<Rightarrow> uuid \<Rightarrow> string \<Rightarrow> workflow_snapshot option"
  repo_transition :: "uuid \<Rightarrow> string \<Rightarrow> int \<Rightarrow> workflow_state \<Rightarrow> workflow_state \<Rightarrow>
    string option \<Rightarrow> string option \<Rightarrow> time \<Rightarrow> ('s, wf_error, workflow_snapshot) sx"
  repo_invalidate :: "uuid \<Rightarrow> string \<Rightarrow> int \<Rightarrow> time \<Rightarrow> ('s, wf_error, workflow_snapshot) sx"

text \<open>
  The abstract effect of a transition and of an invalidation on a snapshot, and the
  condition under which a repository accepts one.
\<close>

definition advance ::
  "workflow_state \<Rightarrow> string option \<Rightarrow> string option \<Rightarrow> time \<Rightarrow> workflow_snapshot \<Rightarrow> workflow_snapshot" where
  "advance target op rv now w = w\<lparr>wf_state := target, wf_epoch := wf_epoch w + 1,
     wf_operator := py_or op (wf_operator w), wf_reviewer := py_or rv (wf_reviewer w),
     wf_updated := now\<rparr>"

definition close_snapshot :: "time \<Rightarrow> workflow_snapshot \<Rightarrow> workflow_snapshot" where
  "close_snapshot now w = w\<lparr>wf_active := False, wf_epoch := wf_epoch w + 1, wf_updated := now\<rparr>"

definition current_at :: "int \<Rightarrow> workflow_state \<Rightarrow> workflow_snapshot \<Rightarrow> bool" where
  "current_at epoch st w \<longleftrightarrow> wf_active w \<and> wf_epoch w = epoch \<and> wf_state w = st"

lemma advance_fields [simp]:
  "wf_id (advance t op rv now w) = wf_id w"
  "wf_tenant (advance t op rv now w) = wf_tenant w"
  "wf_state (advance t op rv now w) = t"
  "wf_epoch (advance t op rv now w) = wf_epoch w + 1"
  "wf_active (advance t op rv now w) = wf_active w"
  "wf_proposal_hash (advance t op rv now w) = wf_proposal_hash w"
  "wf_operator (advance t op rv now w) = py_or op (wf_operator w)"
  "wf_reviewer (advance t op rv now w) = py_or rv (wf_reviewer w)"
  "wf_created (advance t op rv now w) = wf_created w"
  by (simp_all add: advance_def)

lemma close_snapshot_fields [simp]:
  "wf_id (close_snapshot now w) = wf_id w"
  "wf_tenant (close_snapshot now w) = wf_tenant w"
  "wf_state (close_snapshot now w) = wf_state w"
  "wf_epoch (close_snapshot now w) = wf_epoch w + 1"
  "wf_active (close_snapshot now w) = False"
  "wf_operator (close_snapshot now w) = wf_operator w"
  "wf_reviewer (close_snapshot now w) = wf_reviewer w"
  by (simp_all add: close_snapshot_def)

locale workflow_repository =
  fixes repo :: "'s workflow_repo"
    and inv :: "'s \<Rightarrow> bool"
  assumes ensure_law: "inv s \<Longrightarrow> \<exists>s'. repo_ensure repo w s =
        (Inr (case repo_get repo s (wf_id w) (wf_tenant w) of None \<Rightarrow> w | Some c \<Rightarrow> c), s') \<and> inv s' \<and>
        (\<forall>i t. repo_get repo s' i t =
          (if i = wf_id w \<and> t = wf_tenant w \<and> repo_get repo s i t = None then Some w
           else repo_get repo s i t))"
    and get_key: "inv s \<Longrightarrow> repo_get repo s i t = Some w \<Longrightarrow> wf_id w = i \<and> wf_tenant w = t"
    and transition_accept: "inv s \<Longrightarrow> repo_get repo s i t = Some c \<Longrightarrow> current_at ep st c \<Longrightarrow>
        op \<noteq> Some [] \<Longrightarrow> rv \<noteq> Some [] \<Longrightarrow>
        \<exists>s'. repo_transition repo i t ep st tgt op rv now s = (Inr (advance tgt op rv now c), s') \<and>
          inv s' \<and> (\<forall>i' t'. repo_get repo s' i' t' =
            (if i' = i \<and> t' = t then Some (advance tgt op rv now c) else repo_get repo s i' t'))"
    and transition_refuse: "inv s \<Longrightarrow> \<forall>c. repo_get repo s i t = Some c \<longrightarrow> \<not> current_at ep st c \<Longrightarrow>
        \<exists>e. repo_transition repo i t ep st tgt op rv now s = (Inl e, s)"
    and invalidate_accept: "inv s \<Longrightarrow> repo_get repo s i t = Some c \<Longrightarrow> wf_active c \<Longrightarrow> wf_epoch c = ep \<Longrightarrow>
        \<exists>s'. repo_invalidate repo i t ep now s = (Inr (close_snapshot now c), s') \<and> inv s' \<and>
          (\<forall>i' t'. repo_get repo s' i' t' =
            (if i' = i \<and> t' = t then Some (close_snapshot now c) else repo_get repo s i' t'))"
    and invalidate_refuse: "inv s \<Longrightarrow>
        \<forall>c. repo_get repo s i t = Some c \<longrightarrow> \<not> (wf_active c \<and> wf_epoch c = ep) \<Longrightarrow>
        \<exists>e. repo_invalidate repo i t ep now s = (Inl e, s)"
begin

lemma transition_Inr_iff:
  assumes "inv s" and "op \<noteq> Some []" and "rv \<noteq> Some []"
  shows "(\<exists>s'. repo_transition repo i t ep st tgt op rv now s = (Inr w, s')) \<longleftrightarrow>
    (\<exists>c. repo_get repo s i t = Some c \<and> current_at ep st c \<and> w = advance tgt op rv now c)"
proof (cases "\<exists>c. repo_get repo s i t = Some c \<and> current_at ep st c")
  case True
  then obtain c where c: "repo_get repo s i t = Some c" "current_at ep st c" by blast
  with transition_accept [OF assms(1) c assms(2,3), of tgt now] show ?thesis by auto
next
  case False
  with transition_refuse [OF assms(1), of i t ep st tgt op rv now] show ?thesis by auto
qed

text \<open>A second transition that presents the epoch of an accepted one is refused.\<close>

lemma epoch_single_use:
  assumes "inv s" and "op \<noteq> Some []" and "rv \<noteq> Some []"
    and win: "repo_transition repo i t ep st tgt op rv now s = (Inr w, s')"
  shows "\<exists>e. repo_transition repo i t ep st2 tgt2 op2 rv2 now2 s' = (Inl e, s')"
proof -
  have "\<exists>s'. repo_transition repo i t ep st tgt op rv now s = (Inr w, s')" using win by blast
  then obtain c where c: "repo_get repo s i t = Some c" "current_at ep st c"
    unfolding transition_Inr_iff [OF assms(1-3)] by blast
  from transition_accept [OF assms(1) c assms(2,3), of tgt now] win
  have "inv s'" and "repo_get repo s' i t = Some (advance tgt op rv now c)" by auto
  moreover have "\<not> current_at ep st2 (advance tgt op rv now c)"
    using c(2) by (simp add: current_at_def)
  ultimately show ?thesis using transition_refuse [of s' i t ep st2 tgt2 op2 rv2 now2] by simp
qed

end

section \<open>The in-memory repository\<close>

text \<open>\<open>InMemoryWorkflowRepository\<close>: a dictionary keyed by tenant and workflow.\<close>

type_synonym mem_workflows = "string \<times> uuid \<Rightarrow> workflow_snapshot option"

definition mem_ensure :: "workflow_snapshot \<Rightarrow> (mem_workflows, wf_error, workflow_snapshot) sx" where
  "mem_ensure w = (\<lambda>m. case m (wf_tenant w, wf_id w) of
       Some c \<Rightarrow> (Inr c, m)
     | None \<Rightarrow> (Inr w, m((wf_tenant w, wf_id w) \<mapsto> w)))"

definition mem_get :: "mem_workflows \<Rightarrow> uuid \<Rightarrow> string \<Rightarrow> workflow_snapshot option" where
  "mem_get m i t = m (t, i)"

definition mem_transition ::
  "uuid \<Rightarrow> string \<Rightarrow> int \<Rightarrow> workflow_state \<Rightarrow> workflow_state \<Rightarrow> string option \<Rightarrow> string option \<Rightarrow> time
     \<Rightarrow> (mem_workflows, wf_error, workflow_snapshot) sx" where
  "mem_transition i t ep st tgt op rv now = (\<lambda>m. case m (t, i) of
       None \<Rightarrow> (Inl WorkflowNotFound, m)
     | Some c \<Rightarrow>
         if \<not> wf_active c then (Inl WorkflowInactive, m)
         else if wf_epoch c \<noteq> ep \<or> wf_state c \<noteq> st then (Inl StaleWorkflow, m)
         else let u = c\<lparr>wf_state := tgt, wf_epoch := wf_epoch c + 1,
                       wf_operator := py_or op (wf_operator c),
                       wf_reviewer := py_or rv (wf_reviewer c), wf_updated := now\<rparr>
              in (Inr u, m((t, i) \<mapsto> u)))"

definition mem_invalidate ::
  "uuid \<Rightarrow> string \<Rightarrow> int \<Rightarrow> time \<Rightarrow> (mem_workflows, wf_error, workflow_snapshot) sx" where
  "mem_invalidate i t ep now = (\<lambda>m. case m (t, i) of
       None \<Rightarrow> (Inl WorkflowNotFound, m)
     | Some c \<Rightarrow>
         if \<not> wf_active c \<or> wf_epoch c \<noteq> ep then (Inl StaleWorkflow, m)
         else let u = c\<lparr>wf_active := False, wf_epoch := wf_epoch c + 1, wf_updated := now\<rparr>
              in (Inr u, m((t, i) \<mapsto> u)))"

definition mem_repo :: "mem_workflows workflow_repo" where
  "mem_repo = \<lparr>repo_ensure = mem_ensure, repo_get = mem_get,
     repo_transition = mem_transition, repo_invalidate = mem_invalidate\<rparr>"

lemmas mem_repo_defs [model_defs] =
  mem_repo_def mem_ensure_def mem_get_def mem_transition_def mem_invalidate_def

definition mem_keyed :: "mem_workflows \<Rightarrow> bool" where
  "mem_keyed m \<longleftrightarrow> (\<forall>k w. m k = Some w \<longrightarrow> wf_key w = k)"

interpretation mem: workflow_repository mem_repo mem_keyed
proof (unfold_locales, goal_cases)
  case (1 s w)
  then show ?case by (auto simp: mem_repo_defs mem_keyed_def wf_key_def split: option.splits)
next
  case (2 s i t w)
  then show ?case by (auto simp: mem_repo_defs mem_keyed_def wf_key_def)
next
  case (3 s i t c ep st op rv tgt now)
  then show ?case
    by (auto simp: mem_repo_defs mem_keyed_def wf_key_def current_at_def advance_def Let_def)
next
  case (4 s i t ep st tgt op rv now)
  then show ?case by (auto simp: mem_repo_defs current_at_def split: option.split)
next
  case (5 s i t c ep now)
  then show ?case by (auto simp: mem_repo_defs mem_keyed_def wf_key_def close_snapshot_def Let_def)
next
  case (6 s i t ep now)
  then show ?case by (auto simp: mem_repo_defs split: option.split)
qed

section \<open>The Postgres repository\<close>

text \<open>
  \<open>PostgresWorkflowRepository\<close>: the table \<open>webmcp_workflows\<close>, whose primary key is the
  workflow and the tenant. \<open>INSERT ... ON CONFLICT DO UPDATE SET workflow_id=excluded.workflow_id
  RETURNING\<close> returns the stored row; an \<open>UPDATE ... RETURNING\<close> that matches no row is the
  conflict. A row read back is the row that was written.
\<close>

type_synonym pg_workflows = "workflow_snapshot list"

definition pg_ensure :: "workflow_snapshot \<Rightarrow> (pg_workflows, wf_error, workflow_snapshot) sx" where
  "pg_ensure w = (\<lambda>rows. case sql_row wf_key (wf_key w) rows of
       Some r \<Rightarrow> (Inr (r\<lparr>wf_id := wf_id w\<rparr>),
                  sql_update (\<lambda>r. wf_key r = wf_key w) (\<lambda>r. r\<lparr>wf_id := wf_id w\<rparr>) rows)
     | None \<Rightarrow> (Inr w, rows @ [w]))"

definition pg_get :: "pg_workflows \<Rightarrow> uuid \<Rightarrow> string \<Rightarrow> workflow_snapshot option" where
  "pg_get rows i t = sql_row wf_key (t, i) rows"

definition pg_transition ::
  "uuid \<Rightarrow> string \<Rightarrow> int \<Rightarrow> workflow_state \<Rightarrow> workflow_state \<Rightarrow> string option \<Rightarrow> string option \<Rightarrow> time
     \<Rightarrow> (pg_workflows, wf_error, workflow_snapshot) sx" where
  "pg_transition i t ep st tgt op rv now = (\<lambda>rows.
     let P = (\<lambda>r. wf_key r = (t, i) \<and> wf_active r \<and> wf_epoch r = ep \<and> wf_state r = st);
         f = (\<lambda>r. r\<lparr>wf_state := tgt, wf_epoch := wf_epoch r + 1,
                   wf_operator := coalesce op (wf_operator r),
                   wf_reviewer := coalesce rv (wf_reviewer r), wf_updated := now\<rparr>)
     in case sql_returning P f rows of
          None \<Rightarrow> (Inl StaleWorkflow, sql_update P f rows)
        | Some r \<Rightarrow> (Inr r, sql_update P f rows))"

definition pg_invalidate ::
  "uuid \<Rightarrow> string \<Rightarrow> int \<Rightarrow> time \<Rightarrow> (pg_workflows, wf_error, workflow_snapshot) sx" where
  "pg_invalidate i t ep now = (\<lambda>rows.
     let P = (\<lambda>r. wf_key r = (t, i) \<and> wf_active r \<and> wf_epoch r = ep);
         f = (\<lambda>r. r\<lparr>wf_active := False, wf_epoch := wf_epoch r + 1, wf_updated := now\<rparr>)
     in case sql_returning P f rows of
          None \<Rightarrow> (Inl StaleWorkflow, sql_update P f rows)
        | Some r \<Rightarrow> (Inr r, sql_update P f rows))"

definition pg_repo :: "pg_workflows workflow_repo" where
  "pg_repo = \<lparr>repo_ensure = pg_ensure, repo_get = pg_get,
     repo_transition = pg_transition, repo_invalidate = pg_invalidate\<rparr>"

definition pg_unique :: "pg_workflows \<Rightarrow> bool" where
  "pg_unique rows \<longleftrightarrow> distinct (map wf_key rows)"

lemma wf_key_updates [simp]:
  "wf_key (advance tgt op rv now w) = wf_key w"
  "wf_key (close_snapshot now w) = wf_key w"
  by (simp_all add: wf_key_def)

definition at_epoch :: "string \<Rightarrow> uuid \<Rightarrow> (workflow_snapshot \<Rightarrow> bool) \<Rightarrow> workflow_snapshot \<Rightarrow> bool" where
  "at_epoch t i Q r \<longleftrightarrow> wf_key r = (t, i) \<and> Q r"

definition pg_advance ::
  "workflow_state \<Rightarrow> string option \<Rightarrow> string option \<Rightarrow> time \<Rightarrow> workflow_snapshot \<Rightarrow> workflow_snapshot" where
  "pg_advance tgt op rv now r = r\<lparr>wf_state := tgt, wf_epoch := wf_epoch r + 1,
      wf_operator := coalesce op (wf_operator r),
      wf_reviewer := coalesce rv (wf_reviewer r), wf_updated := now\<rparr>"

lemma pg_advance_eq:
  "op \<noteq> Some [] \<Longrightarrow> rv \<noteq> Some [] \<Longrightarrow> pg_advance tgt op rv now = advance tgt op rv now"
  by (auto simp: pg_advance_def advance_def py_or_coalesce)

lemma wf_key_pg_advance [simp]: "wf_key (pg_advance tgt op rv now w) = wf_key w"
  by (simp add: wf_key_def pg_advance_def)

lemma pg_transition_alt:
  "pg_transition i t ep st tgt op rv now rows =
    (let P = at_epoch t i (current_at ep st); f = pg_advance tgt op rv now in
     ((case sql_returning P f rows of None \<Rightarrow> Inl StaleWorkflow | Some r \<Rightarrow> Inr r), sql_update P f rows))"
  by (simp add: pg_transition_def at_epoch_def [abs_def] current_at_def pg_advance_def [abs_def] Let_def
      split: option.split)

lemma pg_invalidate_alt:
  "pg_invalidate i t ep now rows =
    (let P = at_epoch t i (\<lambda>r. wf_active r \<and> wf_epoch r = ep); f = close_snapshot now in
     ((case sql_returning P f rows of None \<Rightarrow> Inl StaleWorkflow | Some r \<Rightarrow> Inr r), sql_update P f rows))"
  by (simp add: pg_invalidate_def at_epoch_def [abs_def] close_snapshot_def [abs_def] Let_def
      split: option.split)

lemmas pg_keyed = sql_update_keyed [where key = wf_key, OF _ _ at_epoch_def]

lemma sql_row_key_eq: "sql_row wf_key (t, i) rows = Some w \<Longrightarrow> wf_id w = i \<and> wf_tenant w = t"
  using sql_row_Some [of wf_key "(t, i)" rows w] by (simp add: wf_key_def)

lemma pg_ensure_alt: "pg_ensure w rows =
   (case sql_row wf_key (wf_key w) rows of
       Some r \<Rightarrow> (Inr r, rows)
     | None \<Rightarrow> (Inr w, rows @ [w]))"
proof -
  have "sql_update (\<lambda>r. wf_key r = wf_key w) (\<lambda>r. r\<lparr>wf_id := wf_id w\<rparr>) rows = rows"
    unfolding sql_update_def by (auto intro!: map_idI simp: wf_key_def)
  then show ?thesis
    by (auto simp: pg_ensure_def wf_key_def dest!: sql_row_key_eq split: option.split)
qed

interpretation pg: workflow_repository pg_repo pg_unique
proof (unfold_locales, goal_cases)
  case (1 s w)
  show ?case
  proof (cases "sql_row wf_key (wf_key w) s")
    case None
    then have "distinct (map wf_key (s @ [w]))" using 1 by (simp add: pg_unique_def sql_row_None)
    with None show ?thesis
      by (auto simp: pg_repo_def pg_get_def pg_ensure_alt pg_unique_def sql_row_append wf_key_def
          split: option.splits)
  next
    case (Some r)
    then show ?thesis using 1
      by (auto simp: pg_repo_def pg_get_def pg_ensure_alt wf_key_def)
  qed
next
  case (2 s i t w)
  then show ?case by (auto simp: pg_repo_def pg_get_def dest: sql_row_key_eq)
next
  case (3 s i t c ep st op rv tgt now)
  then show ?case
    by (simp add: pg_repo_def pg_get_def pg_transition_alt pg_advance_eq pg_unique_def pg_keyed Let_def
        split: option.split)
next
  case (4 s i t ep st tgt op rv now)
  then show ?case
    by (auto simp: pg_repo_def pg_get_def pg_transition_alt pg_unique_def pg_keyed Let_def
        split: option.split)
next
  case (5 s i t c ep now)
  then show ?case
    by (simp add: pg_repo_def pg_get_def pg_invalidate_alt pg_unique_def pg_keyed Let_def
        split: option.split)
next
  case (6 s i t ep now)
  then show ?case
    by (auto simp: pg_repo_def pg_get_def pg_invalidate_alt pg_unique_def pg_keyed Let_def
        split: option.split)
qed

section \<open>The two repositories agree\<close>

datatype repo_call =
    CallEnsure workflow_snapshot
  | CallTransition uuid string int workflow_state workflow_state "string option" "string option" time
  | CallInvalidate uuid string int time

fun issue_call :: "'s workflow_repo \<Rightarrow> repo_call \<Rightarrow> ('s, wf_error, workflow_snapshot) sx" where
  "issue_call r (CallEnsure w) = repo_ensure r w"
| "issue_call r (CallTransition i t ep st tgt op rv now) = repo_transition r i t ep st tgt op rv now"
| "issue_call r (CallInvalidate i t ep now) = repo_invalidate r i t ep now"

fun subjects_nonempty :: "repo_call \<Rightarrow> bool" where
  "subjects_nonempty (CallTransition i t ep st tgt op rv now) \<longleftrightarrow> op \<noteq> Some [] \<and> rv \<noteq> Some []"
| "subjects_nonempty _ \<longleftrightarrow> True"

definition accepted :: "'e + 'a \<Rightarrow> 'a option" where
  "accepted r = (case r of Inl _ \<Rightarrow> None | Inr a \<Rightarrow> Some a)"

lemma accepted_simps [simp]: "accepted (Inl e) = None" "accepted (Inr a) = Some a"
  by (simp_all add: accepted_def)

fun repo_calls :: "'s workflow_repo \<Rightarrow> repo_call list \<Rightarrow> 's \<Rightarrow> workflow_snapshot option list \<times> 's" where
  "repo_calls r [] s = ([], s)"
| "repo_calls r (c # cs) s =
     (let (res, s') = issue_call r c s; (rs, t) = repo_calls r cs s' in (accepted res # rs, t))"

locale workflow_repositories =
  A: workflow_repository ra ia + B: workflow_repository rb ib
  for ra :: "'a workflow_repo" and ia and rb :: "'b workflow_repo" and ib
begin

definition same_view :: "'a \<Rightarrow> 'b \<Rightarrow> bool" where
  "same_view s t \<longleftrightarrow> ia s \<and> ib t \<and> (\<forall>i n. repo_get ra s i n = repo_get rb t i n)"

definition agree :: "(wf_error + workflow_snapshot) \<times> 'a \<Rightarrow> (wf_error + workflow_snapshot) \<times> 'b \<Rightarrow> bool" where
  "agree x y \<longleftrightarrow> accepted (fst x) = accepted (fst y) \<and> same_view (snd x) (snd y)"

lemma ensure_agrees:
  assumes "same_view s t"
  shows "agree (repo_ensure ra w s) (repo_ensure rb w t)"
proof -
  from assms have inv: "ia s" "ib t" and get: "\<And>i n. repo_get ra s i n = repo_get rb t i n"
    by (auto simp: same_view_def)
  from A.ensure_law [OF inv(1), of w] B.ensure_law [OF inv(2), of w] show ?thesis
    by (elim exE conjE) (auto simp: agree_def same_view_def get)
qed

lemma transition_agrees:
  assumes "same_view s t" and "op \<noteq> Some []" and "rv \<noteq> Some []"
  shows "agree (repo_transition ra i n ep st tgt op rv now s) (repo_transition rb i n ep st tgt op rv now t)"
proof -
  from assms have inv: "ia s" "ib t" and get: "\<And>i n. repo_get ra s i n = repo_get rb t i n"
    by (auto simp: same_view_def)
  show ?thesis
  proof (cases "\<exists>c. repo_get ra s i n = Some c \<and> current_at ep st c")
    case True
    then obtain c where c: "repo_get ra s i n = Some c" "current_at ep st c" by blast
    from A.transition_accept [OF inv(1) c assms(2,3), of tgt now]
      B.transition_accept [OF inv(2) c [unfolded get] assms(2,3), of tgt now] show ?thesis
      by (elim exE conjE) (simp add: agree_def same_view_def get)
  next
    case False
    with A.transition_refuse [OF inv(1), of i n ep st tgt op rv now]
      B.transition_refuse [OF inv(2), of i n ep st tgt op rv now] assms(1)
    show ?thesis by (auto simp: agree_def get)
  qed
qed

lemma invalidate_agrees:
  assumes "same_view s t"
  shows "agree (repo_invalidate ra i n ep now s) (repo_invalidate rb i n ep now t)"
proof -
  from assms have inv: "ia s" "ib t" and get: "\<And>i n. repo_get ra s i n = repo_get rb t i n"
    by (auto simp: same_view_def)
  show ?thesis
  proof (cases "\<exists>c. repo_get ra s i n = Some c \<and> wf_active c \<and> wf_epoch c = ep")
    case True
    then obtain c where c: "repo_get ra s i n = Some c" "wf_active c" "wf_epoch c = ep" by blast
    from A.invalidate_accept [OF inv(1) c, of now] B.invalidate_accept [OF inv(2) c [unfolded get(1)], of now]
    show ?thesis by (elim exE conjE) (simp add: agree_def same_view_def get)
  next
    case False
    with A.invalidate_refuse [OF inv(1), of i n ep now]
      B.invalidate_refuse [OF inv(2), of i n ep now] assms
    show ?thesis by (auto simp: agree_def get)
  qed
qed

lemma step_agrees:
  "same_view s t \<Longrightarrow> subjects_nonempty c \<Longrightarrow> agree (issue_call ra c s) (issue_call rb c t)"
  by (cases c) (simp_all add: ensure_agrees transition_agrees invalidate_agrees)

lemma calls_agree:
  assumes "same_view s t" and "\<forall>c \<in> set cs. subjects_nonempty c"
  shows "fst (repo_calls ra cs s) = fst (repo_calls rb cs t) \<and>
    same_view (snd (repo_calls ra cs s)) (snd (repo_calls rb cs t))"
  using assms
proof (induction cs arbitrary: s t)
  case (Cons c cs)
  then have "agree (issue_call ra c s) (issue_call rb c t)" using step_agrees by simp
  with Cons.IH [of "snd (issue_call ra c s)" "snd (issue_call rb c t)"] Cons.prems
  show ?case by (simp add: case_prod_beta agree_def)
qed simp

end

interpretation mem_pg: workflow_repositories mem_repo mem_keyed pg_repo pg_unique
  by unfold_locales


definition sample_workflow :: workflow_snapshot where
  "sample_workflow = \<lparr>wf_id = ''w1'', wf_tenant = ''acme'', wf_state = INVESTIGATING, wf_epoch = 1,
     wf_active = True, wf_proposal_hash = None, wf_operator = None, wf_reviewer = None,
     wf_created = 0, wf_updated = 0\<rparr>"

definition sample_calls :: "repo_call list" where
  "sample_calls = [CallEnsure sample_workflow,
     CallTransition ''w1'' ''acme'' 1 INVESTIGATING AWAITING_OPERATOR_APPROVAL None None 5,
     CallTransition ''w1'' ''acme'' 1 INVESTIGATING AWAITING_OPERATOR_APPROVAL None None 6,
     CallInvalidate ''w1'' ''acme'' 2 7]"


text \<open>
  Least privilege: in every state the manifest offers \<open>inspect_incident\<close> and at most
  one other tool, proposing only while investigating, assessing only when the post-check is
  ready, recalling only after review; a protected operation is never offered as a tool,
  the owner shown is the agent exactly in the two states that offer it a mutating tool,
  and an inactive workflow offers nothing and has no owner.
\<close>

theorem manifest_least_privilege:
  "set (cm_available (manifest w)) \<inter> set (cm_protected (manifest w)) = {} \<and>
   (''propose_mitigation'' \<in> set (cm_available (manifest w)) \<longleftrightarrow>
      wf_active w \<and> wf_state w = INVESTIGATING) \<and>
   (''record_postcheck_assessment'' \<in> set (cm_available (manifest w)) \<longleftrightarrow>
      wf_active w \<and> wf_state w = POSTCHECK_READY) \<and>
   (''recall_reviewed_memory'' \<in> set (cm_available (manifest w)) \<longleftrightarrow>
      wf_active w \<and> wf_state w = REVIEWED) \<and>
   (cm_owner (manifest w) = ''AGENT'' \<longleftrightarrow>
      wf_active w \<and> wf_state w \<in> {INVESTIGATING, POSTCHECK_READY}) \<and>
   (cm_available (manifest w) = [] \<longleftrightarrow> cm_owner (manifest w) = ''NONE'') \<and>
   length (cm_available (manifest w)) \<le> 2"
  by (cases "wf_state w") (auto simp: manifest_def available_tools_def protected_tools_def)

end
