(* ===== verification/Ledger.thy ===== *)
theory Ledger
  imports Hashing Workflow "HOL-Library.Char_ord" "HOL-Library.List_Lexorder" "HOL-Library.Product_Lexorder"
begin

text \<open>
  The authority ledger of \<^verbatim>\<open>src/recallops/ledger.py\<close>: events, their canonical payload and
  hash chain, the in-memory repository, the activity timeline and receipt requests, and the
  contract of a ledger as the locale \<open>authority_ledger\<close>. The JSON canonicalisation
  (rfc8785) and the text pydantic prints for a timestamp are the fields of \<open>externals\<close>.
\<close>

record externals =
  x_jcs :: jcs
  x_iso :: "time \<Rightarrow> string"

section \<open>Events\<close>

record authority_event =
  ev_id :: uuid
  ev_run :: uuid
  ev_tenant :: string
  ev_sequence :: int
  ev_recorded :: time
  ev_type :: string
  ev_outcome :: string
  ev_actor :: string
  ev_role :: string
  ev_channel :: request_channel
  ev_workflow :: uuid
  ev_epoch_before :: int
  ev_epoch_after :: int
  ev_state_before :: string
  ev_state_after :: string
  ev_caps_before :: "string list"
  ev_caps_after :: "string list"
  ev_object_type :: "string option"
  ev_object_id :: "string option"
  ev_object_digest :: "string option"
  ev_reason :: string
  ev_summary :: string
  ev_policy :: string
  ev_build :: string
  ev_prev_hash :: string
  ev_hash :: string

definition zero_event_hash :: string where
  "zero_event_hash = replicate 64 (CHR ''0'')"

lemma hex64_zero [simp]: "hex64 zero_event_hash"
  by (simp add: hex64_def zero_event_hash_def list_all_iff lower_hex_def)

text \<open>The field constraints of \<open>AuthorityEvent\<close>.\<close>

definition valid_event :: "authority_event \<Rightarrow> bool" where
  "valid_event e \<longleftrightarrow> 0 < ev_sequence e \<and>
     ev_outcome e \<in> {''accepted'', ''denied'', ''observed''} \<and>
     ev_role e \<in> {''agent'', ''operator'', ''reviewer'', ''system''} \<and>
     0 \<le> ev_epoch_before e \<and> 0 < ev_epoch_after e \<and>
     opt_all hex64 (ev_object_digest e) \<and> sized 1 240 (ev_summary e) \<and>
     hex64 (ev_prev_hash e) \<and> hex64 (ev_hash e)"

section \<open>The hash chain\<close>

text \<open>
  \<open>canonical_event_payload\<close>: the event without its hash, the sequence and the epochs as
  decimal strings.
\<close>

definition event_payload :: "externals \<Rightarrow> authority_event \<Rightarrow> json" where
  "event_payload x e = JObj
    [(''event_id'', JStr (ev_id e)), (''run_id'', JStr (ev_run e)), (''tenant_id'', JStr (ev_tenant e)),
     (''sequence'', JStr (str_int (ev_sequence e))), (''recorded_at'', JStr (x_iso x (ev_recorded e))),
     (''event_type'', JStr (ev_type e)), (''outcome'', JStr (ev_outcome e)),
     (''actor_subject'', JStr (ev_actor e)), (''actor_role'', JStr (ev_role e)),
     (''channel'', JStr (channel_value (ev_channel e))), (''workflow_id'', JStr (ev_workflow e)),
     (''epoch_before'', JStr (str_int (ev_epoch_before e))),
     (''epoch_after'', JStr (str_int (ev_epoch_after e))),
     (''state_before'', JStr (ev_state_before e)), (''state_after'', JStr (ev_state_after e)),
     (''capabilities_before'', JArr (map JStr (ev_caps_before e))),
     (''capabilities_after'', JArr (map JStr (ev_caps_after e))),
     (''object_type'', jopt (ev_object_type e)), (''object_id'', jopt (ev_object_id e)),
     (''object_digest'', jopt (ev_object_digest e)), (''reason_code'', JStr (ev_reason e)),
     (''display_summary'', JStr (ev_summary e)), (''policy_version'', JStr (ev_policy e)),
     (''build_sha'', JStr (ev_build e)), (''previous_event_hash'', JStr (ev_prev_hash e))]"

text \<open>\<open>bytes.fromhex\<close>: pairs of hexadecimal digits of either case, ASCII space between pairs skipped.\<close>

definition hex_value :: "char \<Rightarrow> nat option" where
  "hex_value c = (let n = of_char c :: nat in
     if 48 \<le> n \<and> n \<le> 57 then Some (n - 48)
     else if 97 \<le> n \<and> n \<le> 102 then Some (n - 87)
     else if 65 \<le> n \<and> n \<le> 70 then Some (n - 55)
     else None)"

definition ascii_space :: "char \<Rightarrow> bool" where
  "ascii_space c \<longleftrightarrow> (of_char c :: nat) \<in> {9, 10, 11, 12, 13, 32}"

fun fromhex :: "string \<Rightarrow> nat list option" where
  "fromhex [] = Some []"
| "fromhex [c] = (if ascii_space c then Some [] else None)"
| "fromhex (c # d # r) =
     (if ascii_space c then fromhex (d # r)
      else case (hex_value c, hex_value d) of
        (Some h, Some l) \<Rightarrow> map_option ((#) (16 * h + l)) (fromhex r)
      | _ \<Rightarrow> None)"

definition ascii_upper :: "char \<Rightarrow> bool" where
  "ascii_upper c \<longleftrightarrow> 65 \<le> (of_char c :: nat) \<and> (of_char c :: nat) \<le> 90"

datatype hash_error = BadPreviousHash

definition event_hash_domain :: string where
  "event_hash_domain = ''recallops-authority-event-v1''"

definition chain_text :: "nat list \<Rightarrow> string \<Rightarrow> string" where
  "chain_text predecessor canonical =
     event_hash_domain @ [nul] @ map char_of predecessor @ [nul] @ canonical"

definition authority_event_hash :: "externals \<Rightarrow> string \<Rightarrow> json \<Rightarrow> hash_error + string" where
  "authority_event_hash x previous payload =
     (if length previous \<noteq> 64 then Inl BadPreviousHash
      else case fromhex previous of
        None \<Rightarrow> Inl BadPreviousHash
      | Some predecessor \<Rightarrow>
          if list_ex ascii_upper previous \<or> length predecessor \<noteq> 32 then Inl BadPreviousHash
          else Inr (sha256_hex (chain_text predecessor (x_jcs x payload))))"

text \<open>\<open>verify_event\<close>: the \<open>and\<close> evaluates the hash only when the predecessor is the expected one.\<close>

definition verify_event :: "externals \<Rightarrow> authority_event \<Rightarrow> string \<Rightarrow> hash_error + bool" where
  "verify_event x e expected =
     (if ev_prev_hash e \<noteq> expected then Inr False
      else bind_r (authority_event_hash x expected (event_payload x e)) (\<lambda>h. Inr (ev_hash e = h)))"

lemma hex_value_lower: "lower_hex c \<Longrightarrow> \<exists>n. hex_value c = Some n \<and> n < 16"
  by (auto simp: lower_hex_def hex_value_def)

lemma lower_hex_not_space: "lower_hex c \<Longrightarrow> \<not> ascii_space c \<and> \<not> ascii_upper c"
  by (auto simp: lower_hex_def ascii_space_def ascii_upper_def)

lemma fromhex_lower:
  "list_all lower_hex s \<Longrightarrow> even (length s) \<Longrightarrow> \<exists>bs. fromhex s = Some bs \<and> 2 * length bs = length s"
proof (induction s rule: fromhex.induct)
  case (3 c d r)
  then have c: "lower_hex c" "lower_hex d" by auto
  then obtain h l where hl: "hex_value c = Some h" "hex_value d = Some l"
    using hex_value_lower by blast
  with 3 lower_hex_not_space [OF c(1)] have "\<exists>bs. fromhex r = Some bs \<and> 2 * length bs = length r"
    by auto
  with hl lower_hex_not_space [OF c(1)] show ?case by auto
qed auto

lemma fromhex_length:
  "fromhex s = Some bs \<Longrightarrow> 2 * length bs \<le> length s"
  by (induction s arbitrary: bs rule: fromhex.induct) (auto split: if_splits option.splits)

lemma fromhex_full:
  "fromhex s = Some bs \<Longrightarrow> 2 * length bs = length s \<Longrightarrow> list_all (\<lambda>c. hex_value c \<noteq> None) s"
proof (induction s arbitrary: bs rule: fromhex.induct)
  case (3 c d r)
  show ?case
  proof (cases "ascii_space c")
    case True
    with 3 fromhex_length [of "d # r" bs] show ?thesis by simp
  next
    case False
    with 3 show ?thesis by (auto split: option.splits)
  qed
qed (auto split: if_splits)

lemma hex_digit_cases:
  "hex_value c \<noteq> None \<Longrightarrow> \<not> ascii_upper c \<Longrightarrow> lower_hex c"
proof -
  assume a: "hex_value c \<noteq> None" "\<not> ascii_upper c"
  have "of_char c \<in> {48..<58} \<union> {97..<103 :: nat}"
    using a by (auto simp: hex_value_def ascii_upper_def Let_def split: if_splits)
  then have "of_char c \<in> set ([48..<58] @ [97..<103 :: nat])" by (simp only: set_append set_upt)
  then have "c \<in> set (map char_of ([48..<58] @ [97..<103]))"
    by (metis char_of_char image_eqI list.set_map)
  moreover have "map char_of ([48..<58] @ [97..<103 :: nat]) = ''0123456789abcdef''"
    by code_simp
  ultimately show ?thesis by (simp add: lower_hex_def)
qed

text \<open>The chain accepts exactly the 64-digit lower-case predecessors.\<close>

lemma event_hash_ok:
  "(\<exists>h. authority_event_hash x p j = Inr h) \<longleftrightarrow> hex64 p"
proof
  assume "\<exists>h. authority_event_hash x p j = Inr h"
  then obtain bs where b: "length p = 64" "fromhex p = Some bs" "\<not> list_ex ascii_upper p" "length bs = 32"
    by (auto simp: authority_event_hash_def split: if_splits option.splits)
  then show "hex64 p"
    using fromhex_full [of p bs] hex_digit_cases
    by (auto simp: hex64_def list_all_iff list_ex_iff)
next
  assume h: "hex64 p"
  then obtain bs where "fromhex p = Some bs" "2 * length bs = length p"
    using fromhex_lower [of p] by (auto simp: hex64_def)
  with h show "\<exists>h. authority_event_hash x p j = Inr h"
    using lower_hex_not_space
    by (auto simp: authority_event_hash_def hex64_def list_all_iff list_ex_iff)
qed

lemma event_hash_hex64: "authority_event_hash x p j = Inr h \<Longrightarrow> hex64 h"
  by (auto simp: authority_event_hash_def split: if_splits option.splits)

section \<open>Creating an event\<close>

datatype ledger_error =
    InvalidEvent
  | MalformedPreviousHash
  | LedgerFault string
  | LedgerHeadUnavailable
  | LedgerClosed
  | LedgerPredecessorChanged
  | LedgerConstraint
  | LedgerNeedsTransaction
  | ReceiptTargetNotHead
  | ReceiptTargetNotReviewed
  | ReceiptTargetDiffers
  | ReceiptAlreadyRequested

text \<open>The keyword arguments of \<open>append_transition\<close>.\<close>

record ledger_note =
  ln_actor :: string
  ln_role :: string
  ln_channel :: request_channel
  ln_reason :: string
  ln_object_type :: "string option"
  ln_object_id :: "string option"
  ln_object_digest :: "string option"
  ln_event_type :: "string option"
  ln_state_before :: "string option"
  ln_summary :: "string option"

definition or_else :: "string option \<Rightarrow> string \<Rightarrow> string" where
  "or_else a d = (case py_or a (Some d) of None \<Rightarrow> d | Some s \<Rightarrow> s)"

lemma or_else_simps [simp]: "or_else None d = d" "s \<noteq> [] \<Longrightarrow> or_else (Some s) d = s"
  by (simp_all add: or_else_def)

definition right_arrow :: string where
  "right_arrow = map char_of [226, 134, 146 :: nat]"

definition event_draft ::
  "uuid \<Rightarrow> string \<Rightarrow> string \<Rightarrow> int \<Rightarrow> string \<Rightarrow> workflow_snapshot \<Rightarrow> workflow_snapshot \<Rightarrow> ledger_note
     \<Rightarrow> uuid \<Rightarrow> time \<Rightarrow> authority_event" where
  "event_draft run build policy n previous before after nt eid now =
    \<lparr>ev_id = eid, ev_run = run, ev_tenant = wf_tenant before, ev_sequence = n, ev_recorded = now,
     ev_type = or_else (ln_event_type nt)
       (state_value (wf_state before) @ ''_TO_'' @ state_value (wf_state after)),
     ev_outcome = ''accepted'', ev_actor = ln_actor nt, ev_role = ln_role nt,
     ev_channel = ln_channel nt, ev_workflow = wf_id before,
     ev_epoch_before = wf_epoch before, ev_epoch_after = wf_epoch after,
     ev_state_before = or_else (ln_state_before nt) (state_value (wf_state before)),
     ev_state_after = state_value (wf_state after),
     ev_caps_before = available_tools before, ev_caps_after = available_tools after,
     ev_object_type = ln_object_type nt, ev_object_id = ln_object_id nt,
     ev_object_digest = ln_object_digest nt, ev_reason = ln_reason nt,
     ev_summary = or_else (ln_summary nt)
       (''Authority committed: '' @ state_value (wf_state before) @ '' '' @ right_arrow @ '' ''
          @ state_value (wf_state after)),
     ev_policy = policy, ev_build = build, ev_prev_hash = previous, ev_hash = zero_event_hash\<rparr>"

definition make_event ::
  "externals \<Rightarrow> uuid \<Rightarrow> string \<Rightarrow> string \<Rightarrow> int \<Rightarrow> string \<Rightarrow> workflow_snapshot \<Rightarrow> workflow_snapshot
     \<Rightarrow> ledger_note \<Rightarrow> uuid \<Rightarrow> time \<Rightarrow> ledger_error + authority_event" where
  "make_event x run build policy n previous before after nt eid now =
    (let e = event_draft run build policy n previous before after nt eid now in
     if \<not> valid_event e then Inl InvalidEvent
     else case authority_event_hash x previous (event_payload x e) of
       Inl _ \<Rightarrow> Inl MalformedPreviousHash
     | Inr h \<Rightarrow> Inr (e\<lparr>ev_hash := h\<rparr>))"

lemma event_payload_hash [simp]: "event_payload x (e\<lparr>ev_hash := h\<rparr>) = event_payload x e"
  by (simp add: event_payload_def)

lemma make_event_Inr:
  assumes "make_event x run build policy n previous before after nt eid now = Inr e"
  shows "verify_event x e previous = Inr True"
    and "valid_event e"
    and "e\<lparr>ev_hash := zero_event_hash\<rparr> = event_draft run build policy n previous before after nt eid now"
    and "ev_sequence e = n" and "ev_prev_hash e = previous" and "ev_run e = run"
    and "ev_tenant e = wf_tenant before" and "ev_id e = eid"
proof -
  define d where "d = event_draft run build policy n previous before after nt eid now"
  from assms obtain h where d: "valid_event d" "authority_event_hash x previous (event_payload x d) = Inr h"
    "e = d\<lparr>ev_hash := h\<rparr>"
    by (auto simp: make_event_def d_def Let_def split: if_splits sum.splits)
  have p: "ev_prev_hash d = previous" by (simp add: d_def event_draft_def)
  show "verify_event x e previous = Inr True"
    using d p by (simp add: verify_event_def)
  show "valid_event e"
    using d event_hash_hex64 [OF d(2)] by (simp add: valid_event_def)
  show "e\<lparr>ev_hash := zero_event_hash\<rparr> = event_draft run build policy n previous before after nt eid now"
    using d(3) by (simp add: d_def event_draft_def)
  show "ev_sequence e = n" "ev_prev_hash e = previous" "ev_run e = run"
    "ev_tenant e = wf_tenant before" "ev_id e = eid"
    using d(3) by (simp_all add: d_def event_draft_def)
qed

lemma make_event_facts:
  assumes "make_event x run build policy n previous before after nt eid now = Inr e"
  shows "verify_event x e previous = Inr True \<and> ev_actor e = ln_actor nt \<and> ev_role e = ln_role nt \<and>
    ev_channel e = ln_channel nt \<and> ev_outcome e = ''accepted'' \<and> ev_workflow e = wf_id before \<and>
    ev_epoch_before e = wf_epoch before \<and> ev_epoch_after e = wf_epoch after \<and>
    ev_state_before e = or_else (ln_state_before nt) (state_value (wf_state before)) \<and>
    ev_state_after e = state_value (wf_state after) \<and>
    ev_caps_before e = available_tools before \<and> ev_caps_after e = available_tools after \<and>
    ev_type e = or_else (ln_event_type nt)
       (state_value (wf_state before) @ ''_TO_'' @ state_value (wf_state after)) \<and>
    ev_recorded e = now \<and> ev_tenant e = wf_tenant before \<and> ev_run e = run \<and>
    ev_build e = build \<and> ev_policy e = policy \<and> ev_sequence e = n"
proof -
  note ev = make_event_Inr [OF assms]
  define d where "d = e\<lparr>ev_hash := zero_event_hash\<rparr>"
  have eq: "d = event_draft run build policy n previous before after nt eid now"
    using ev(3) by (simp add: d_def)
  have "ev_actor e = ev_actor d" "ev_role e = ev_role d" "ev_channel e = ev_channel d"
    "ev_outcome e = ev_outcome d" "ev_workflow e = ev_workflow d" "ev_epoch_before e = ev_epoch_before d"
    "ev_epoch_after e = ev_epoch_after d" "ev_state_before e = ev_state_before d"
    "ev_state_after e = ev_state_after d" "ev_caps_before e = ev_caps_before d"
    "ev_caps_after e = ev_caps_after d" "ev_type e = ev_type d" "ev_recorded e = ev_recorded d"
    "ev_tenant e = ev_tenant d" "ev_run e = ev_run d" "ev_build e = ev_build d"
    "ev_policy e = ev_policy d" "ev_sequence e = ev_sequence d"
    by (simp_all add: d_def)
  with ev(1) eq show ?thesis by (simp add: event_draft_def)
qed

text \<open>\<open>append_genesis\<close>: the state before the first event and its keyword arguments.\<close>

definition genesis_before :: "workflow_snapshot \<Rightarrow> workflow_snapshot" where
  "genesis_before w = \<lparr>wf_id = wf_id w, wf_tenant = wf_tenant w, wf_state = wf_state w, wf_epoch = 0,
     wf_active = False, wf_proposal_hash = None, wf_operator = None, wf_reviewer = None,
     wf_created = wf_created w, wf_updated = wf_created w\<rparr>"

definition genesis_note :: ledger_note where
  "genesis_note = \<lparr>ln_actor = ''recallops-run-allocator'', ln_role = ''system'', ln_channel = SYSTEM,
     ln_reason = ''RUN_GENESIS_ACCEPTED'', ln_object_type = None, ln_object_id = None,
     ln_object_digest = None, ln_event_type = Some ''RUN_GENESIS'', ln_state_before = Some ''ABSENT'',
     ln_summary = Some ''Authority committed: isolated judge run created''\<rparr>"

section \<open>Chains\<close>

fun chain_from :: "externals \<Rightarrow> string \<Rightarrow> int \<Rightarrow> authority_event list \<Rightarrow> bool" where
  "chain_from x prev n [] \<longleftrightarrow> True"
| "chain_from x prev n (e # es) \<longleftrightarrow>
     ev_sequence e = n \<and> verify_event x e prev = Inr True \<and> chain_from x (ev_hash e) (n + 1) es"

definition chain_head :: "authority_event list \<Rightarrow> string" where
  "chain_head es = (if es = [] then zero_event_hash else ev_hash (last es))"

definition valid_chain :: "externals \<Rightarrow> authority_event list \<Rightarrow> bool" where
  "valid_chain x es \<longleftrightarrow> chain_from x zero_event_hash 1 es"

lemma chain_from_snoc:
  "chain_from x prev n (es @ [e]) \<longleftrightarrow> chain_from x prev n es \<and> ev_sequence e = n + int (length es) \<and>
     verify_event x e (if es = [] then prev else ev_hash (last es)) = Inr True"
  by (induction es arbitrary: prev n) (auto simp: algebra_simps)

lemma valid_chain_snoc:
  "valid_chain x (es @ [e]) \<longleftrightarrow> valid_chain x es \<and> ev_sequence e = int (length es) + 1 \<and>
     verify_event x e (chain_head es) = Inr True"
  by (auto simp: valid_chain_def chain_from_snoc chain_head_def)

lemma valid_chain_Nil [simp]: "valid_chain x []"
  by (simp add: valid_chain_def)

section \<open>Receipt requests and the timeline\<close>

record receipt_args =
  rc_policy :: string
  rc_image :: string
  rc_evaluation :: string
  rc_synthetic :: bool
  rc_public :: bool

record receipt_request =
  rq_receipt :: uuid
  rq_run :: uuid
  rq_tenant :: string
  rq_sequence :: int
  rq_hash :: string
  rq_policy :: string
  rq_source_sha :: string
  rq_image :: string
  rq_evaluation :: string
  rq_synthetic :: bool
  rq_public :: bool
  rq_status :: string

definition receipt_id_for :: "authority_event \<Rightarrow> string \<Rightarrow> uuid" where
  "receipt_id_for e policy = uuid5 namespace_url
     (''urn:recallops:receipt:'' @ ev_run e @ '':'' @ ev_hash e @ '':'' @ policy)"

definition request_for :: "authority_event \<Rightarrow> receipt_args \<Rightarrow> receipt_request" where
  "request_for e a = \<lparr>rq_receipt = receipt_id_for e (rc_policy a), rq_run = ev_run e,
     rq_tenant = ev_tenant e, rq_sequence = ev_sequence e, rq_hash = ev_hash e,
     rq_policy = rc_policy a, rq_source_sha = ev_build e, rq_image = rc_image a,
     rq_evaluation = rc_evaluation a, rq_synthetic = rc_synthetic a, rq_public = rc_public a,
     rq_status = ''pending''\<rparr>"

record receipt_status =
  rs_receipt :: uuid
  rs_status :: string
  rs_sequence :: int
  rs_head_hash :: string
  rs_bundle_digest :: "string option"
  rs_thumbprint :: "string option"
  rs_algorithm :: "string option"
  rs_public :: bool
  rs_failure :: "string option"

record activity_observation =
  ac_id :: uuid
  ac_run :: uuid
  ac_tenant :: string
  ac_workflow :: uuid
  ac_recorded :: time
  ac_source :: string
  ac_actor :: string
  ac_type :: string
  ac_tool :: "string option"
  ac_outcome :: string
  ac_summary :: string
  ac_event :: "uuid option"
  ac_digest :: "string option"
  ac_build :: string
  ac_client :: "string option"

record timeline_entry =
  te_id :: uuid
  te_recorded :: time
  te_class :: string
  te_type :: string
  te_outcome :: string
  te_actor :: string
  te_summary :: string
  te_sequence :: "int option"
  te_hash :: "string option"

definition event_entry :: "authority_event \<Rightarrow> timeline_entry" where
  "event_entry e = \<lparr>te_id = ev_id e, te_recorded = ev_recorded e, te_class = ''authority_commit'',
     te_type = ev_type e, te_outcome = ev_outcome e, te_actor = ev_actor e,
     te_summary = ev_summary e, te_sequence = Some (ev_sequence e), te_hash = Some (ev_hash e)\<rparr>"

definition activity_entry :: "activity_observation \<Rightarrow> timeline_entry" where
  "activity_entry a = \<lparr>te_id = ac_id a, te_recorded = ac_recorded a, te_class = ''supporting_observation'',
     te_type = ac_type a, te_outcome = ac_outcome a, te_actor = ac_actor a,
     te_summary = ac_summary a, te_sequence = None, te_hash = None\<rparr>"

definition build_timeline :: "authority_event list \<Rightarrow> activity_observation list \<Rightarrow> timeline_entry list" where
  "build_timeline es acts =
     sort_key (\<lambda>t. (te_recorded t, te_id t)) (map event_entry es @ map activity_entry acts)"

section \<open>The ledger protocol\<close>

record 'l ledger_repo =
  led_append :: "workflow_snapshot \<Rightarrow> workflow_snapshot \<Rightarrow> ledger_note \<Rightarrow> uuid \<Rightarrow> time
    \<Rightarrow> ('l, ledger_error, authority_event option) sx"
  led_events :: "'l \<Rightarrow> uuid \<Rightarrow> string \<Rightarrow> authority_event list"
  led_request :: "authority_event \<Rightarrow> receipt_args \<Rightarrow> time \<Rightarrow> ('l, ledger_error, uuid) sx"
  led_status :: "'l \<Rightarrow> uuid \<Rightarrow> string \<Rightarrow> receipt_status option"

definition led_genesis ::
  "'l ledger_repo \<Rightarrow> workflow_snapshot \<Rightarrow> uuid \<Rightarrow> time \<Rightarrow> ('l, ledger_error, authority_event option) sx" where
  "led_genesis led w eid now = led_append led (genesis_before w) w genesis_note eid now"

text \<open>
  The contract: an append to a run it does not know does nothing; a successful append adds
  exactly the event built on the current head of that run and touches no other; a failed one
  leaves every event list as it was; a receipt is only requested for the reviewed head.
\<close>

locale authority_ledger =
  fixes led :: "'l ledger_repo"
    and inv :: "'l \<Rightarrow> bool"
    and run_of :: "'l \<Rightarrow> string \<Rightarrow> uuid \<Rightarrow> (uuid \<times> string \<times> string) option"
    and x :: externals
  assumes append_unbound: "inv l \<Longrightarrow> run_of l (wf_tenant b) (wf_id b) = None \<Longrightarrow>
        led_append led b a nt eid now l = (Inr None, l)"
    and append_ok: "inv l \<Longrightarrow> run_of l (wf_tenant b) (wf_id b) = Some (run, build, policy) \<Longrightarrow>
        led_append led b a nt eid now l = (Inr r, l') \<Longrightarrow>
        \<exists>e. r = Some e \<and>
          make_event x run build policy (int (length (led_events led l run (wf_tenant b))) + 1)
            (chain_head (led_events led l run (wf_tenant b))) b a nt eid now = Inr e \<and>
          inv l' \<and> run_of l' = run_of l \<and>
          (\<forall>run' t. led_events led l' run' t =
            (if run' = run \<and> t = wf_tenant b then led_events led l run t @ [e] else led_events led l run' t))"
    and append_fail: "inv l \<Longrightarrow> led_append led b a nt eid now l = (Inl err, l') \<Longrightarrow>
        inv l' \<and> run_of l' = run_of l \<and> (\<forall>run t. led_events led l' run t = led_events led l run t)"
    and request_ok: "inv l \<Longrightarrow> led_request led e args now l = (Inr rid, l') \<Longrightarrow>
        led_events led l (ev_run e) (ev_tenant e) \<noteq> [] \<and>
        last (led_events led l (ev_run e) (ev_tenant e)) = e \<and>
        ev_state_after e = ''REVIEWED'' \<and> rid = receipt_id_for e (rc_policy args)"
    and request_frame: "inv l \<Longrightarrow> led_request led e args now l = (q, l') \<Longrightarrow>
        inv l' \<and> run_of l' = run_of l \<and> (\<forall>run t. led_events led l' run t = led_events led l run t)"
begin

definition chains :: "'l \<Rightarrow> bool" where
  "chains l \<longleftrightarrow> inv l \<and> (\<forall>run t. valid_chain x (led_events led l run t))"

lemma append_chains:
  assumes "chains l" and "led_append led b a nt eid now l = (r, l')"
  shows "chains l' \<and> run_of l' = run_of l"
proof (cases r)
  case (Inl err)
  with append_fail [of l b a nt eid now err l'] assms show ?thesis by (simp add: chains_def)
next
  case (Inr e)
  show ?thesis
  proof (cases "run_of l (wf_tenant b) (wf_id b)")
    case None
    with append_unbound [of l b a nt eid now] assms Inr show ?thesis by (auto simp: chains_def)
  next
    case (Some rbp)
    obtain run build policy where rbp: "rbp = (run, build, policy)" by (cases rbp)
    from append_ok [of l b run build policy a nt eid now e l'] assms Inr Some rbp
    obtain e' where e': "make_event x run build policy (int (length (led_events led l run (wf_tenant b))) + 1)
            (chain_head (led_events led l run (wf_tenant b))) b a nt eid now = Inr e'"
      "inv l'" "run_of l' = run_of l"
      "\<forall>run' t. led_events led l' run' t =
            (if run' = run \<and> t = wf_tenant b then led_events led l run t @ [e'] else led_events led l run' t)"
      by (auto simp: chains_def)
    from make_event_Inr(1,4) [OF e'(1)] e'(2-4) assms(1) show ?thesis
      by (auto simp: chains_def valid_chain_snoc)
  qed
qed

text \<open>What a successful append did to the ledger.\<close>

definition appended ::
  "'l \<Rightarrow> workflow_snapshot \<Rightarrow> workflow_snapshot \<Rightarrow> ledger_note \<Rightarrow> uuid \<Rightarrow> time \<Rightarrow> 'l \<Rightarrow> bool" where
  "appended l b a nt eid now l' \<longleftrightarrow>
     (case run_of l (wf_tenant b) (wf_id b) of
        None \<Rightarrow> l' = l
      | Some (run, build, policy) \<Rightarrow>
         \<exists>e. make_event x run build policy (int (length (led_events led l run (wf_tenant b))) + 1)
              (chain_head (led_events led l run (wf_tenant b))) b a nt eid now = Inr e \<and>
            (\<forall>run' t. led_events led l' run' t =
              (if run' = run \<and> t = wf_tenant b then led_events led l run t @ [e] else led_events led l run' t)))"

lemma append_appended:
  assumes "inv l" and "led_append led b a nt eid now l = (Inr r, l')"
  shows "appended l b a nt eid now l' \<and> inv l' \<and> run_of l' = run_of l"
proof (cases "run_of l (wf_tenant b) (wf_id b)")
  case None
  with assms append_unbound [of l b a nt eid now] show ?thesis by (simp add: appended_def)
next
  case (Some rbp)
  obtain run build policy where "rbp = (run, build, policy)" by (cases rbp)
  with append_ok [of l b run build policy a nt eid now r l'] assms Some show ?thesis
    by (auto simp: appended_def)
qed

lemma append_inv:
  assumes "inv l" and "led_append led b a nt eid now l = (r, l')"
  shows "inv l' \<and> run_of l' = run_of l"
  using assms append_appended [of l b a nt eid now _ l'] append_fail [of l b a nt eid now _ l']
  by (cases r) auto

lemma request_chains:
  "chains l \<Longrightarrow> led_request led e args now l = (r, l') \<Longrightarrow> chains l'"
  using request_frame [of l e args now r l'] by (simp add: chains_def)

end

section \<open>The in-memory ledger\<close>

text \<open>
  \<open>InMemoryAuthorityLedgerRepository\<close>. The fault hook is the set of the stages at which it
  raises. The receipt requests are a dictionary in insertion order.
\<close>

record mem_ledger =
  ml_runs :: "string \<times> uuid \<Rightarrow> (uuid \<times> string \<times> string) option"
  ml_events :: "string \<times> uuid \<Rightarrow> authority_event list option"
  ml_activities :: "string \<times> uuid \<Rightarrow> activity_observation list option"
  ml_requests :: "(uuid \<times> receipt_request) list"

definition mem_ledger_empty :: mem_ledger where
  "mem_ledger_empty = \<lparr>ml_runs = Map.empty, ml_events = Map.empty, ml_activities = Map.empty,
     ml_requests = []\<rparr>"

definition mem_bind_run ::
  "string \<Rightarrow> uuid \<Rightarrow> uuid \<Rightarrow> string \<Rightarrow> string \<Rightarrow> mem_ledger \<Rightarrow> mem_ledger" where
  "mem_bind_run t i run build policy l =
     l\<lparr>ml_runs := (ml_runs l)((t, i) \<mapsto> (run, build, policy))\<rparr>"

definition mem_append ::
  "externals \<Rightarrow> (string \<Rightarrow> bool) \<Rightarrow> workflow_snapshot \<Rightarrow> workflow_snapshot \<Rightarrow> ledger_note \<Rightarrow> uuid \<Rightarrow> time
     \<Rightarrow> (mem_ledger, ledger_error, authority_event option) sx" where
  "mem_append x fault before after nt eid now = (\<lambda>l.
     case ml_runs l (wf_tenant before, wf_id before) of
       None \<Rightarrow> (Inr None, l)
     | Some (run, build, policy) \<Rightarrow>
        (let key = (wf_tenant before, run);
             events = (case ml_events l key of None \<Rightarrow> [] | Some es \<Rightarrow> es);
             l0 = l\<lparr>ml_events := (ml_events l)(key \<mapsto> events)\<rparr>;
             previous = (if events = [] then zero_event_hash else ev_hash (last events))
         in case make_event x run build policy (int (length events) + 1) previous before after nt eid now of
              Inl err \<Rightarrow> (Inl err, l0)
            | Inr e \<Rightarrow>
                if fault ''before_event'' then (Inl (LedgerFault ''before_event''), l0)
                else let appended = events @ [e] in
                  (case List.find fault [''after_event'', ''before_head'', ''after_head''] of
                     Some stage \<Rightarrow> (Inl (LedgerFault stage),
                                    l0\<lparr>ml_events := (ml_events l0)(key \<mapsto> butlast appended)\<rparr>)
                   | None \<Rightarrow> (Inr (Some e), l0\<lparr>ml_events := (ml_events l0)(key \<mapsto> appended)\<rparr>))))"

definition mem_list_events :: "mem_ledger \<Rightarrow> uuid \<Rightarrow> string \<Rightarrow> authority_event list" where
  "mem_list_events l run t = (case ml_events l (t, run) of None \<Rightarrow> [] | Some es \<Rightarrow> es)"

definition mem_add_activity :: "activity_observation \<Rightarrow> mem_ledger \<Rightarrow> mem_ledger" where
  "mem_add_activity a l = (let key = (ac_tenant a, ac_run a);
       acts = (case ml_activities l key of None \<Rightarrow> [] | Some xs \<Rightarrow> xs)
     in l\<lparr>ml_activities := (ml_activities l)(key \<mapsto> acts @ [a])\<rparr>)"

definition mem_timeline :: "mem_ledger \<Rightarrow> uuid \<Rightarrow> string \<Rightarrow> timeline_entry list" where
  "mem_timeline l run t = build_timeline (mem_list_events l run t)
     (case ml_activities l (t, run) of None \<Rightarrow> [] | Some xs \<Rightarrow> xs)"

definition mem_request ::
  "authority_event \<Rightarrow> receipt_args \<Rightarrow> time \<Rightarrow> (mem_ledger, ledger_error, uuid) sx" where
  "mem_request e a now = (\<lambda>l.
     let events = mem_list_events l (ev_run e) (ev_tenant e) in
     if events = [] \<or> last events \<noteq> e \<or> ev_state_after e \<noteq> ''REVIEWED'' then (Inl ReceiptTargetNotHead, l)
     else let rid = receipt_id_for e (rc_policy a) in
       (Inr rid, if rid \<in> fst ` set (ml_requests l) then l
                 else l\<lparr>ml_requests := ml_requests l @ [(rid, request_for e a)]\<rparr>))"

definition mem_status :: "mem_ledger \<Rightarrow> uuid \<Rightarrow> string \<Rightarrow> receipt_status option" where
  "mem_status l run t =
     (let requests = filter (\<lambda>r. rq_run r = run \<and> rq_tenant r = t) (map snd (ml_requests l)) in
      if requests = [] then None
      else let r = last requests in
        Some \<lparr>rs_receipt = rq_receipt r, rs_status = rq_status r, rs_sequence = rq_sequence r,
          rs_head_hash = rq_hash r, rs_bundle_digest = None, rs_thumbprint = None,
          rs_algorithm = None, rs_public = False, rs_failure = None\<rparr>)"

definition mem_led :: "externals \<Rightarrow> (string \<Rightarrow> bool) \<Rightarrow> mem_ledger ledger_repo" where
  "mem_led x fault = \<lparr>led_append = mem_append x fault, led_events = mem_list_events,
     led_request = mem_request, led_status = mem_status\<rparr>"

definition mem_run_of :: "mem_ledger \<Rightarrow> string \<Rightarrow> uuid \<Rightarrow> (uuid \<times> string \<times> string) option" where
  "mem_run_of l t i = ml_runs l (t, i)"

lemma mem_run_of_updates [simp]:
  "mem_run_of (l\<lparr>ml_events := es\<rparr>) = mem_run_of l"
  "mem_run_of (l\<lparr>ml_requests := rs\<rparr>) = mem_run_of l"
  by (simp_all add: mem_run_of_def fun_eq_iff)

lemma mem_list_events_updates [simp]:
  "mem_list_events (l\<lparr>ml_events := (ml_events l)((t, run) \<mapsto> es)\<rparr>) run' t' =
     (if run' = run \<and> t' = t then es else mem_list_events l run' t')"
  "mem_list_events (l\<lparr>ml_requests := rs\<rparr>) run t = mem_list_events l run t"
  by (simp_all add: mem_list_events_def)

lemma mem_append_bound:
  assumes "mem_run_of l (wf_tenant b) (wf_id b) = Some (run, build, policy)"
  defines "es \<equiv> mem_list_events l run (wf_tenant b)"
  shows "mem_append x fault b a nt eid now l =
    (let key = (wf_tenant b, run); l0 = l\<lparr>ml_events := (ml_events l)(key \<mapsto> es)\<rparr> in
     case make_event x run build policy (int (length es) + 1) (chain_head es) b a nt eid now of
       Inl err \<Rightarrow> (Inl err, l0)
     | Inr e \<Rightarrow>
        (case List.find fault [''before_event'', ''after_event'', ''before_head'', ''after_head''] of
           Some stage \<Rightarrow> (Inl (LedgerFault stage), l0)
         | None \<Rightarrow> (Inr (Some e), l\<lparr>ml_events := (ml_events l)(key \<mapsto> es @ [e])\<rparr>)))"
  using assms(1)
  by (auto simp: mem_append_def mem_run_of_def es_def mem_list_events_def chain_head_def Let_def
      split: sum.split option.split)

interpretation mem_ledger: authority_ledger "mem_led x fault" "\<lambda>_. True" mem_run_of x for x fault
proof (unfold_locales, goal_cases)
  case (1 l b a nt eid now)
  then show ?case by (simp add: mem_led_def mem_append_def mem_run_of_def)
next
  case (2 l b run build policy a nt eid now r l')
  then show ?case
    unfolding mem_led_def by (auto simp: mem_append_bound Let_def split: sum.splits option.splits)
next
  case (3 l b a nt eid now err l')
  show ?case
  proof (cases "mem_run_of l (wf_tenant b) (wf_id b)")
    case None
    then show ?thesis using 3 by (simp add: mem_led_def mem_append_def mem_run_of_def)
  next
    case (Some rbp)
    then obtain run build policy where "mem_run_of l (wf_tenant b) (wf_id b) = Some (run, build, policy)"
      by (cases rbp) auto
    with 3 show ?thesis
      by (auto simp: mem_led_def mem_append_bound Let_def split: sum.splits option.splits)
  qed
next
  case (4 l e args now rid l')
  then show ?case by (auto simp: mem_led_def mem_request_def Let_def split: if_splits)
next
  case (5 l e args now q l')
  then show ?case by (auto simp: mem_led_def mem_request_def Let_def split: if_splits)
qed

section \<open>Tamper evidence\<close>

lemma hex_value_inj:
  assumes "lower_hex c" and "lower_hex d" and "hex_value c = hex_value d"
  shows "c = d"
proof -
  have "list_all (\<lambda>c. list_all (\<lambda>d. hex_value c = hex_value d \<longrightarrow> c = d) ''0123456789abcdef'')
      ''0123456789abcdef''"
    by code_simp
  with assms show ?thesis unfolding lower_hex_def list_all_iff by blast
qed

lemma fromhex_lower_inj:
  "list_all lower_hex s \<Longrightarrow> list_all lower_hex t \<Longrightarrow> even (length s) \<Longrightarrow> length t = length s \<Longrightarrow>
     fromhex s = fromhex t \<Longrightarrow> s = t"
proof (induction s arbitrary: t rule: fromhex.induct)
  case (3 c d r)
  then obtain c' d' r' where t: "t = c' # d' # r'" by (cases t; cases "tl t") auto
  with 3 have hex: "lower_hex c" "lower_hex d" "lower_hex c'" "lower_hex d'" by auto
  obtain h l h' l' where hl: "hex_value c = Some h" "hex_value d = Some l" "l < 16"
    "hex_value c' = Some h'" "hex_value d' = Some l'" "l' < 16"
    using hex_value_lower [OF hex(1)] hex_value_lower [OF hex(2)] hex_value_lower [OF hex(3)]
      hex_value_lower [OF hex(4)] by blast
  obtain y y' where "fromhex r = Some y" "fromhex r' = Some y'"
    using fromhex_lower [of r] fromhex_lower [of r'] "3.prems" t by auto
  with "3.prems"(5) t hl hex lower_hex_not_space
  have eq: "16 * h + l = 16 * h' + l'" and r: "fromhex r = fromhex r'" by auto
  from eq hl(3,6) have h: "h = h'" by linarith
  with eq have l: "l = l'" by simp
  have "c = c'" "d = d'"
    using hl hex h l by (auto intro: hex_value_inj)
  moreover have "r = r'"
    by (rule "3.IH"(2) [OF _ refl hl(1) hl(2)])
      (use "3.prems" t r hex lower_hex_not_space [of c] in simp_all)
  ultimately show ?case by (simp add: t)
qed auto

text \<open>The text an event's hash is taken of.\<close>

definition event_text :: "externals \<Rightarrow> authority_event \<Rightarrow> string" where
  "event_text x e = (case fromhex (ev_prev_hash e) of None \<Rightarrow> []
     | Some p \<Rightarrow> chain_text p (x_jcs x (event_payload x e)))"

lemma verify_event_text:
  "verify_event x e p = Inr True \<Longrightarrow>
     ev_prev_hash e = p \<and> hex64 p \<and> ev_hash e = sha256_hex (event_text x e)"
  using event_hash_ok [of x p "event_payload x e"]
  by (auto simp: verify_event_def event_text_def authority_event_hash_def bind_r_def
      split: if_splits sum.splits option.splits)

lemma event_text_inject:
  assumes "hex64 (ev_prev_hash e)" and "hex64 (ev_prev_hash f)" and "event_text x e = event_text x f"
  shows "ev_prev_hash e = ev_prev_hash f \<and> x_jcs x (event_payload x e) = x_jcs x (event_payload x f)"
proof -
  obtain p q where pq: "fromhex (ev_prev_hash e) = Some p" "2 * length p = 64"
    "fromhex (ev_prev_hash f) = Some q" "2 * length q = 64"
    using fromhex_lower [of "ev_prev_hash e"] fromhex_lower [of "ev_prev_hash f"] assms(1,2)
    by (auto simp: hex64_def)
  with assms(3) have eq: "map char_of p = (map char_of q :: string)"
    "x_jcs x (event_payload x e) = x_jcs x (event_payload x f)"
    by (auto simp: event_text_def chain_text_def)
  have small: "\<forall>n \<in> set bs. n < 256" if "fromhex s = Some bs" for s bs
    using that
    by (induction s arbitrary: bs rule: fromhex.induct)
      (auto simp: hex_value_def Let_def split: if_splits option.splits)
  have "map (of_char :: char \<Rightarrow> nat) (map char_of p) = map of_char (map char_of q :: string)"
    using eq(1) by simp
  then have "p = q" using small [OF pq(1)] small [OF pq(3)] by (simp add: map_idI comp_def)
  with pq have "fromhex (ev_prev_hash e) = fromhex (ev_prev_hash f)" by simp
  then have "ev_prev_hash e = ev_prev_hash f"
    using assms(1,2) by (intro fromhex_lower_inj) (auto simp: hex64_def)
  with eq(2) show ?thesis by simp
qed

lemma same_head_same_history:
  assumes "valid_chain x es" and "valid_chain x fs" and "chain_head es = chain_head fs"
  shows "map (\<lambda>e. x_jcs x (event_payload x e)) es = map (\<lambda>e. x_jcs x (event_payload x e)) fs \<or>
    (\<exists>a \<in> set es. \<exists>b \<in> set fs. event_text x a \<noteq> event_text x b \<and>
       sha256_hex (event_text x a) = sha256_hex (event_text x b)) \<or>
    (\<exists>a \<in> set es \<union> set fs. sha256_hex (event_text x a) = zero_event_hash)"
  using assms
proof (induction es arbitrary: fs rule: rev_induct)
  case Nil
  show ?case
  proof (cases fs rule: rev_cases)
    case (snoc fs' f)
    with Nil verify_event_text [of x f "chain_head fs'"] show ?thesis
      by (auto simp: valid_chain_snoc chain_head_def)
  qed simp
next
  case (snoc e es)
  then have e: "verify_event x e (chain_head es) = Inr True" by (simp add: valid_chain_snoc)
  note te = verify_event_text [OF e]
  show ?case
  proof (cases fs rule: rev_cases)
    case Nil
    with snoc.prems(3) te show ?thesis by (simp add: chain_head_def)
  next
    case f: (snoc fs' f)
    with snoc.prems(2) have v: "verify_event x f (chain_head fs') = Inr True" by (simp add: valid_chain_snoc)
    note tf = verify_event_text [OF v]
    have same: "sha256_hex (event_text x e) = sha256_hex (event_text x f)"
      using snoc.prems(3) te tf f by (simp add: chain_head_def)
    show ?thesis
    proof (cases "event_text x e = event_text x f")
      case False
      with same f show ?thesis by auto
    next
      case True
      with event_text_inject [of e f x] te tf
      have "chain_head es = chain_head fs'"
        and j: "x_jcs x (event_payload x e) = x_jcs x (event_payload x f)" by auto
      with snoc.IH [of fs'] snoc.prems(1,2) f have "map (\<lambda>e. x_jcs x (event_payload x e)) es
          = map (\<lambda>e. x_jcs x (event_payload x e)) fs' \<or>
        (\<exists>a \<in> set es. \<exists>b \<in> set fs'. event_text x a \<noteq> event_text x b \<and>
           sha256_hex (event_text x a) = sha256_hex (event_text x b)) \<or>
        (\<exists>a \<in> set es \<union> set fs'. sha256_hex (event_text x a) = zero_event_hash)"
        by (simp add: valid_chain_snoc)
      with f j show ?thesis by auto
    qed
  qed
qed

text \<open>
  C11. Tamper evidence: two valid ledgers with the same head hash hold the same canonical
  events in the same order, unless two different hashed texts among their events have the
  same SHA-256 digest, or one of them hashes to the all-zero genesis predecessor.
\<close>

theorem ledger_tamper_evident:
  assumes "valid_chain x es" and "valid_chain x fs" and "chain_head es = chain_head fs"
  shows "map (\<lambda>e. x_jcs x (event_payload x e)) es = map (\<lambda>e. x_jcs x (event_payload x e)) fs \<or>
    (\<exists>a \<in> set es. \<exists>b \<in> set fs. event_text x a \<noteq> event_text x b \<and>
       sha256_hex (event_text x a) = sha256_hex (event_text x b)) \<or>
    (\<exists>a \<in> set es \<union> set fs. sha256_hex (event_text x a) = zero_event_hash)"
  by (rule same_head_same_history [OF assms])

text \<open>A one-event ledger whose hash is the one the chain computes.\<close>

definition sample_externals :: externals where
  "sample_externals = \<lparr>x_jcs = (\<lambda>_. ''{}''), x_iso = (\<lambda>_. ''2026-01-01T00:00:00Z'')\<rparr>"

definition sample_draft :: authority_event where
  "sample_draft = \<lparr>ev_id = ''e1'', ev_run = ''r1'', ev_tenant = ''acme'', ev_sequence = 1,
     ev_recorded = 0, ev_type = ''RUN_GENESIS'', ev_outcome = ''accepted'', ev_actor = ''allocator'',
     ev_role = ''system'', ev_channel = SYSTEM, ev_workflow = ''w1'', ev_epoch_before = 0,
     ev_epoch_after = 1, ev_state_before = ''ABSENT'', ev_state_after = ''INVESTIGATING'',
     ev_caps_before = [], ev_caps_after = capabilities INVESTIGATING, ev_object_type = None,
     ev_object_id = None, ev_object_digest = None, ev_reason = ''RUN_GENESIS_ACCEPTED'',
     ev_summary = ''created'', ev_policy = ''p1'', ev_build = ''b1'', ev_prev_hash = zero_event_hash,
     ev_hash = zero_event_hash\<rparr>"

definition sample_event :: authority_event where
  "sample_event = sample_draft\<lparr>ev_hash := sha256_hex (event_text sample_externals sample_draft)\<rparr>"

lemma sample_event_verifies: "verify_event sample_externals sample_event zero_event_hash = Inr True"
proof -
  have "hex64 zero_event_hash" by simp
  then obtain h where h: "authority_event_hash sample_externals zero_event_hash
      (event_payload sample_externals sample_event) = Inr h"
    using event_hash_ok by blast
  have prev: "ev_prev_hash sample_event = zero_event_hash"
    by (simp add: sample_event_def sample_draft_def)
  have "h = sha256_hex (event_text sample_externals sample_event)"
    using h by (auto simp: authority_event_hash_def event_text_def prev split: if_splits option.splits)
  moreover have "event_text sample_externals sample_event = event_text sample_externals sample_draft"
    unfolding sample_event_def by (simp add: event_text_def split: option.split)
  moreover have "ev_hash sample_event = sha256_hex (event_text sample_externals sample_draft)"
    by (simp add: sample_event_def)
  ultimately show ?thesis using h prev by (simp add: verify_event_def)
qed

lemma sample_event_chain: "valid_chain sample_externals [sample_event]"
  using sample_event_verifies by (simp add: valid_chain_def) (simp add: sample_event_def sample_draft_def)

lemma ledger_tamper_evident_witness:
  "valid_chain sample_externals [sample_event] \<and>
   (map (\<lambda>e. x_jcs sample_externals (event_payload sample_externals e)) [sample_event] =
      map (\<lambda>e. x_jcs sample_externals (event_payload sample_externals e)) [sample_event] \<or>
    (\<exists>a \<in> set [sample_event]. \<exists>b \<in> set [sample_event].
       event_text sample_externals a \<noteq> event_text sample_externals b \<and>
       sha256_hex (event_text sample_externals a) = sha256_hex (event_text sample_externals b)) \<or>
    (\<exists>a \<in> set [sample_event] \<union> set [sample_event].
       sha256_hex (event_text sample_externals a) = zero_event_hash))"
  using ledger_tamper_evident [OF sample_event_chain sample_event_chain refl] sample_event_chain by blast

end
