(* ===== verification/Ledger_PG.thy ===== *)
theory Ledger_PG
  imports Ledger
begin

text \<open>
  \<open>PostgresAuthorityLedgerRepository\<close> of \<^verbatim>\<open>src/recallops/ledger.py\<close>: the tables
  \<open>judge_runs\<close>, \<open>authority_ledger_heads\<close>, \<open>authority_events\<close>, \<open>activity_observations\<close>,
  \<open>authority_receipts\<close> and \<open>receipt_requests\<close>, with the uniqueness and check constraints the
  migrations give them. It runs inside the authority transaction, which \<open>atomic_s\<close> models:
  a raise restores every table; outside one (\<open>bound\<close> false) a write is refused. It satisfies the same contract as the in-memory ledger.
\<close>

section \<open>Tables\<close>

record judge_run_row =
  jr_run :: uuid
  jr_tenant :: string
  jr_incident :: uuid
  jr_build :: string
  jr_policy :: string

record ledger_head =
  lh_run :: uuid
  lh_tenant :: string
  lh_sequence :: int
  lh_hash :: string
  lh_closed :: bool
  lh_version :: string
  lh_updated :: time

record receipt_row =
  ar_id :: uuid
  ar_run :: uuid
  ar_tenant :: string
  ar_head_hash :: string
  ar_last_sequence :: int
  ar_policy :: string
  ar_source_sha :: string
  ar_image :: string
  ar_evaluation :: string
  ar_status :: string
  ar_synthetic :: bool
  ar_created :: time
  ar_bundle_digest :: "string option"
  ar_thumbprint :: "string option"
  ar_algorithm :: "string option"
  ar_public_at :: "time option"
  ar_failure :: "string option"

record request_row =
  qr_id :: uuid
  qr_receipt :: uuid
  qr_run :: uuid
  qr_tenant :: string
  qr_sequence :: int
  qr_hash :: string
  qr_public :: bool

record pg_ledger =
  pl_runs :: "judge_run_row list"
  pl_heads :: "ledger_head list"
  pl_events :: "authority_event list"
  pl_activities :: "activity_observation list"
  pl_receipts :: "receipt_row list"
  pl_requests :: "request_row list"

definition ledger_version :: string where
  "ledger_version = ''authority-ledger-v1''"

definition head_key :: "ledger_head \<Rightarrow> uuid \<times> string" where
  "head_key h = (lh_run h, lh_tenant h)"

definition fresh_head :: "uuid \<Rightarrow> string \<Rightarrow> time \<Rightarrow> ledger_head" where
  "fresh_head run t now = \<lparr>lh_run = run, lh_tenant = t, lh_sequence = 0, lh_hash = zero_event_hash,
     lh_closed = False, lh_version = ledger_version, lh_updated = now\<rparr>"

text \<open>\<open>INSERT ... ON CONFLICT (run_id, tenant_id) DO NOTHING\<close>.\<close>

definition upsert_head :: "uuid \<Rightarrow> string \<Rightarrow> time \<Rightarrow> ledger_head list \<Rightarrow> ledger_head list" where
  "upsert_head run t now heads =
     (if sql_row head_key (run, t) heads = None then heads @ [fresh_head run t now] else heads)"

text \<open>The check constraints of \<open>authority_events\<close> that \<open>AuthorityEvent\<close> does not imply.\<close>

definition event_row_ok :: "authority_event \<Rightarrow> bool" where
  "event_row_ok e \<longleftrightarrow> sized 1 100 (ev_type e) \<and> sized 1 200 (ev_actor e) \<and>
     ev_epoch_after e = ev_epoch_before e + 1 \<and> opt_all (sized 1 80) (ev_object_type e) \<and>
     opt_all (sized 1 200) (ev_object_id e) \<and> sized 1 100 (ev_reason e)"

definition insert_event :: "authority_event \<Rightarrow> pg_ledger \<Rightarrow> pg_ledger option" where
  "insert_event e l =
     (if event_row_ok e \<and> ev_id e \<notin> ev_id ` set (pl_events l) \<and> ev_hash e \<notin> ev_hash ` set (pl_events l) \<and>
         (ev_run e, ev_sequence e) \<notin> (\<lambda>r. (ev_run r, ev_sequence r)) ` set (pl_events l)
      then Some (l\<lparr>pl_events := pl_events l @ [e]\<rparr>) else None)"

definition head_unmoved :: "ledger_head \<Rightarrow> ledger_head \<Rightarrow> bool" where
  "head_unmoved h r \<longleftrightarrow> lh_sequence r = lh_sequence h \<and> lh_hash r = lh_hash h \<and> \<not> lh_closed r"

definition advance_head :: "authority_event \<Rightarrow> ledger_head \<Rightarrow> ledger_head" where
  "advance_head e r = r\<lparr>lh_sequence := ev_sequence e, lh_hash := ev_hash e, lh_updated := ev_recorded e\<rparr>"

section \<open>Operations\<close>

definition pg_run_of :: "pg_ledger \<Rightarrow> string \<Rightarrow> uuid \<Rightarrow> (uuid \<times> string \<times> string) option" where
  "pg_run_of l t i = map_option (\<lambda>r. (jr_run r, jr_build r, jr_policy r))
     (List.find (\<lambda>r. jr_tenant r = t \<and> jr_incident r = i) (pl_runs l))"

definition run_rows :: "pg_ledger \<Rightarrow> uuid \<Rightarrow> string \<Rightarrow> authority_event list" where
  "run_rows l run t = filter (\<lambda>e. ev_run e = run \<and> ev_tenant e = t) (pl_events l)"

definition pg_list_events :: "pg_ledger \<Rightarrow> uuid \<Rightarrow> string \<Rightarrow> authority_event list" where
  "pg_list_events l run t = sort_key ev_sequence (run_rows l run t)"

text \<open>
  \<open>append_transition\<close>, statement by statement: the head row inserted on first use, locked and
  read, the event built on it and inserted, and the head advanced where it is unchanged.
\<close>

definition pg_append_raw ::
  "bool \<Rightarrow> externals \<Rightarrow> (string \<Rightarrow> bool) \<Rightarrow> workflow_snapshot \<Rightarrow> workflow_snapshot \<Rightarrow> ledger_note \<Rightarrow> uuid \<Rightarrow> time
     \<Rightarrow> (pg_ledger, ledger_error, authority_event option) sx" where
  "pg_append_raw bound x fault before after nt eid now = (\<lambda>l.
     case pg_run_of l (wf_tenant before) (wf_id before) of
       None \<Rightarrow> (Inr None, l)
     | Some (run, build, policy) \<Rightarrow>
        if \<not> bound then (Inl LedgerNeedsTransaction, l) else
        (let t = wf_tenant before;
             l1 = l\<lparr>pl_heads := upsert_head run t now (pl_heads l)\<rparr>
         in case sql_row head_key (run, t) (pl_heads l1) of
              None \<Rightarrow> (Inl LedgerHeadUnavailable, l1)
            | Some h \<Rightarrow>
               if lh_closed h then (Inl LedgerClosed, l1)
               else case make_event x run build policy (lh_sequence h + 1) (lh_hash h) before after nt eid now of
                 Inl err \<Rightarrow> (Inl err, l1)
               | Inr e \<Rightarrow>
                  if fault ''before_event'' then (Inl (LedgerFault ''before_event''), l1)
                  else case insert_event e l1 of
                    None \<Rightarrow> (Inl LedgerConstraint, l1)
                  | Some l2 \<Rightarrow>
                     (case List.find fault [''after_event'', ''before_head''] of
                        Some stage \<Rightarrow> (Inl (LedgerFault stage), l2)
                      | None \<Rightarrow>
                         (let P = (\<lambda>r. head_key r = (ev_run e, ev_tenant e) \<and> head_unmoved h r);
                              f = advance_head e;
                              l3 = l2\<lparr>pl_heads := sql_update P f (pl_heads l2)\<rparr>
                          in if sql_returning P f (pl_heads l2) = None
                             then (Inl LedgerPredecessorChanged, l3)
                             else if fault ''after_head'' then (Inl (LedgerFault ''after_head''), l3)
                             else (Inr (Some e), l3)))))"

definition pg_append ::
  "bool \<Rightarrow> externals \<Rightarrow> (string \<Rightarrow> bool) \<Rightarrow> workflow_snapshot \<Rightarrow> workflow_snapshot \<Rightarrow> ledger_note \<Rightarrow> uuid \<Rightarrow> time
     \<Rightarrow> (pg_ledger, ledger_error, authority_event option) sx" where
  "pg_append bound x fault before after nt eid now = atomic_s (pg_append_raw bound x fault before after nt eid now)"

definition request_id_for :: "uuid \<Rightarrow> uuid" where
  "request_id_for rid = uuid5 namespace_url (''urn:recallops:receipt-request:'' @ rid)"

definition receipt_row_for :: "authority_event \<Rightarrow> receipt_args \<Rightarrow> time \<Rightarrow> receipt_row" where
  "receipt_row_for e a now = \<lparr>ar_id = receipt_id_for e (rc_policy a), ar_run = ev_run e,
     ar_tenant = ev_tenant e, ar_head_hash = ev_hash e, ar_last_sequence = ev_sequence e,
     ar_policy = rc_policy a, ar_source_sha = ev_build e, ar_image = rc_image a,
     ar_evaluation = rc_evaluation a, ar_status = ''pending'', ar_synthetic = rc_synthetic a,
     ar_created = now, ar_bundle_digest = None, ar_thumbprint = None, ar_algorithm = None,
     ar_public_at = None, ar_failure = None\<rparr>"

definition pg_request_raw ::
  "bool \<Rightarrow> authority_event \<Rightarrow> receipt_args \<Rightarrow> time \<Rightarrow> (pg_ledger, ledger_error, uuid) sx" where
  "pg_request_raw bound e a now = (\<lambda>l.
     if \<not> bound then (Inl LedgerNeedsTransaction, l)
     else if ev_state_after e \<noteq> ''REVIEWED'' then (Inl ReceiptTargetNotReviewed, l)
     else let rid = receipt_id_for e (rc_policy a); qid = request_id_for rid in
       case sql_row head_key (ev_run e, ev_tenant e) (pl_heads l) of
         None \<Rightarrow> (Inl ReceiptTargetNotHead, l)
       | Some h \<Rightarrow>
          if lh_sequence h \<noteq> ev_sequence e \<or> lh_hash h \<noteq> ev_hash e then (Inl ReceiptTargetNotHead, l)
          else case List.find (\<lambda>r. ev_id r = ev_id e \<and> ev_run r = ev_run e \<and> ev_tenant r = ev_tenant e \<and>
                                  ev_sequence r = ev_sequence e) (pl_events l) of
              None \<Rightarrow> (Inl ReceiptTargetDiffers, l)
            | Some stored \<Rightarrow>
               if stored \<noteq> e then (Inl ReceiptTargetDiffers, l)
               else let l1 = (if rid \<in> ar_id ` set (pl_receipts l) then l
                              else l\<lparr>pl_receipts := pl_receipts l @ [receipt_row_for e a now]\<rparr>)
                 in if qid \<in> qr_id ` set (pl_requests l1) \<or> rid \<in> qr_receipt ` set (pl_requests l1)
                    then (Inl ReceiptAlreadyRequested, l1)
                    else (Inr rid, l1\<lparr>pl_requests := pl_requests l1 @
                           [\<lparr>qr_id = qid, qr_receipt = rid, qr_run = ev_run e, qr_tenant = ev_tenant e,
                             qr_sequence = ev_sequence e, qr_hash = ev_hash e, qr_public = rc_public a\<rparr>]\<rparr>))"

definition pg_request ::
  "bool \<Rightarrow> authority_event \<Rightarrow> receipt_args \<Rightarrow> time \<Rightarrow> (pg_ledger, ledger_error, uuid) sx" where
  "pg_request bound e a now = atomic_s (pg_request_raw bound e a now)"

definition receipt_status_of :: "receipt_row \<Rightarrow> receipt_status" where
  "receipt_status_of r = \<lparr>rs_receipt = ar_id r, rs_status = ar_status r, rs_sequence = ar_last_sequence r,
     rs_head_hash = ar_head_hash r, rs_bundle_digest = ar_bundle_digest r,
     rs_thumbprint = ar_thumbprint r, rs_algorithm = ar_algorithm r,
     rs_public = (ar_public_at r \<noteq> None), rs_failure = ar_failure r\<rparr>"

text \<open>\<open>ORDER BY created_at DESC, receipt_id DESC LIMIT 1\<close>.\<close>

definition pg_status :: "pg_ledger \<Rightarrow> uuid \<Rightarrow> string \<Rightarrow> receipt_status option" where
  "pg_status l run t =
     (case rev (sort_key (\<lambda>r. (ar_created r, ar_id r))
        (filter (\<lambda>r. ar_run r = run \<and> ar_tenant r = t) (pl_receipts l))) of
        [] \<Rightarrow> None | r # _ \<Rightarrow> Some (receipt_status_of r))"

definition pg_add_activity :: "activity_observation \<Rightarrow> (pg_ledger, ledger_error, unit) sx" where
  "pg_add_activity a = (\<lambda>l.
     if ac_id a \<in> ac_id ` set (pl_activities l) then (Inl LedgerConstraint, l)
     else (Inr (), l\<lparr>pl_activities := pl_activities l @ [a]\<rparr>))"

definition pg_timeline :: "pg_ledger \<Rightarrow> uuid \<Rightarrow> string \<Rightarrow> timeline_entry list" where
  "pg_timeline l run t = build_timeline (run_rows l run t)
     (filter (\<lambda>a. ac_run a = run \<and> ac_tenant a = t) (pl_activities l))"

definition pg_led :: "bool \<Rightarrow> externals \<Rightarrow> (string \<Rightarrow> bool) \<Rightarrow> pg_ledger ledger_repo" where
  "pg_led bound x fault = \<lparr>led_append = pg_append bound x fault, led_events = pg_list_events,
     led_request = pg_request bound, led_status = pg_status\<rparr>"

section \<open>The contract\<close>

text \<open>
  The heads table follows the events table: for each run, the events' sequence numbers are
  \<open>1, 2, ...\<close>, the head row holds the last number and the last hash, and a run without a
  head row has no event.
\<close>

definition rows_ok :: "pg_ledger \<Rightarrow> uuid \<Rightarrow> string \<Rightarrow> bool" where
  "rows_ok l run t \<longleftrightarrow>
     (let es = run_rows l run t in
      map ev_sequence es = map (\<lambda>k. int k + 1) [0..<length es] \<and>
      (case sql_row head_key (run, t) (pl_heads l) of
         None \<Rightarrow> es = []
       | Some h \<Rightarrow> lh_sequence h = int (length es) \<and> lh_hash h = chain_head es))"

definition pg_ledger_inv :: "pg_ledger \<Rightarrow> bool" where
  "pg_ledger_inv l \<longleftrightarrow> distinct (map head_key (pl_heads l)) \<and> distinct (map ev_id (pl_events l)) \<and>
     (\<forall>run t. rows_ok l run t)"

lemma sort_key_sorted: "sorted (map f xs) \<Longrightarrow> sort_key f xs = xs"
  by (induction xs) (simp_all add: insort_is_Cons)

lemma sorted_map_int_upt: "sorted (map (\<lambda>k. int k + 1) [a..<b])"
  by (simp add: sorted_map sorted_wrt_mono_rel [OF _ sorted_wrt_upt])

lemma pg_list_events_rows: "pg_ledger_inv l \<Longrightarrow> pg_list_events l run t = run_rows l run t"
  unfolding pg_list_events_def
  by (rule sort_key_sorted)
     (auto simp: pg_ledger_inv_def rows_ok_def Let_def sorted_map_int_upt simp del: upt_Suc)

lemma run_rows_updates [simp]:
  "run_rows (l\<lparr>pl_heads := hs\<rparr>) run t = run_rows l run t"
  "run_rows (l\<lparr>pl_receipts := rs\<rparr>) run t = run_rows l run t"
  "run_rows (l\<lparr>pl_requests := qs\<rparr>) run t = run_rows l run t"
  "run_rows (l\<lparr>pl_events := pl_events l @ [e]\<rparr>) run t =
     (if ev_run e = run \<and> ev_tenant e = t then run_rows l run t @ [e] else run_rows l run t)"
  "run_rows (l\<lparr>pl_heads := hs, pl_events := pl_events l @ [e]\<rparr>) run t =
     (if ev_run e = run \<and> ev_tenant e = t then run_rows l run t @ [e] else run_rows l run t)"
  by (simp_all add: run_rows_def)

lemma pg_run_of_updates [simp]:
  "pg_run_of (l\<lparr>pl_heads := hs\<rparr>) = pg_run_of l"
  "pg_run_of (l\<lparr>pl_receipts := rs\<rparr>) = pg_run_of l"
  "pg_run_of (l\<lparr>pl_requests := qs\<rparr>) = pg_run_of l"
  "pg_run_of (l\<lparr>pl_events := es\<rparr>) = pg_run_of l"
  by (simp_all add: pg_run_of_def fun_eq_iff)

lemma rows_ok_receipts [simp]:
  "pg_ledger_inv (l\<lparr>pl_receipts := rs\<rparr>) = pg_ledger_inv l"
  "pg_ledger_inv (l\<lparr>pl_requests := qs\<rparr>) = pg_ledger_inv l"
  by (simp_all add: pg_ledger_inv_def rows_ok_def)

text \<open>The head row the append works on: the stored one, or a fresh one.\<close>

lemma upsert_head_other:
  "k \<noteq> (run, t) \<Longrightarrow> sql_row head_key k (upsert_head run t now hs) = sql_row head_key k hs"
  by (auto simp: upsert_head_def sql_row_append fresh_head_def head_key_def split: option.splits)

lemma upsert_head_distinct:
  "distinct (map head_key hs) \<Longrightarrow> distinct (map head_key (upsert_head run t now hs))"
  by (simp add: upsert_head_def sql_row_None) (simp add: fresh_head_def head_key_def)

lemma upsert_head_row:
  assumes "pg_ledger_inv l"
  shows "\<exists>h. sql_row head_key (run, t) (upsert_head run t now (pl_heads l)) = Some h \<and>
      lh_sequence h = int (length (run_rows l run t)) \<and> lh_hash h = chain_head (run_rows l run t)"
proof -
  have "rows_ok l run t" using assms by (simp add: pg_ledger_inv_def)
  then show ?thesis
    by (auto simp: upsert_head_def rows_ok_def Let_def sql_row_append fresh_head_def head_key_def
        chain_head_def split: option.splits)
qed

lemma head_key_advance [simp]: "head_key (advance_head e r) = head_key r"
  by (simp add: head_key_def advance_head_def)

text \<open>A successful append, read as one change of the two tables.\<close>

lemma pg_append_raw_Inr:
  assumes "pg_run_of l (wf_tenant b) (wf_id b) = Some (run, build, policy)"
    and "pg_append_raw bound x fault b a nt eid now l = (Inr r, l')"
  shows "\<exists>h e. sql_row head_key (run, wf_tenant b) (upsert_head run (wf_tenant b) now (pl_heads l)) = Some h \<and>
    r = Some e \<and> make_event x run build policy (lh_sequence h + 1) (lh_hash h) b a nt eid now = Inr e \<and>
    ev_id e \<notin> ev_id ` set (pl_events l) \<and> \<not> lh_closed h \<and>
    l' = l\<lparr>pl_heads := sql_update (\<lambda>r. head_key r = (run, wf_tenant b) \<and> head_unmoved h r) (advance_head e)
             (upsert_head run (wf_tenant b) now (pl_heads l)), pl_events := pl_events l @ [e]\<rparr>"
  using assms
  by (auto simp: pg_append_raw_def Let_def insert_event_def make_event_Inr
      split: option.splits sum.splits if_splits)

text \<open>The invariant after such a change.\<close>

lemma pg_ledger_inv_append:
  assumes inv: "pg_ledger_inv l"
    and h: "sql_row head_key (run, t) (upsert_head run t now (pl_heads l)) = Some h" "\<not> lh_closed h"
    and e: "ev_run e = run" "ev_tenant e = t" "ev_sequence e = lh_sequence h + 1" "ev_id e \<notin> ev_id ` set (pl_events l)"
  shows "pg_ledger_inv (l\<lparr>pl_heads := sql_update (\<lambda>r. head_key r = (run, t) \<and> head_unmoved h r) (advance_head e)
             (upsert_head run t now (pl_heads l)), pl_events := pl_events l @ [e]\<rparr>)"
    (is "pg_ledger_inv ?l")
proof -
  let ?hs = "upsert_head run t now (pl_heads l)"
  have dist: "distinct (map head_key ?hs)"
    using inv by (simp add: pg_ledger_inv_def upsert_head_distinct)
  note upd = sql_update_keyed [OF dist, of "advance_head e"
    "\<lambda>r. head_key r = (run, t) \<and> head_unmoved h r" "(run, t)" "head_unmoved h", simplified]
  from upsert_head_row [OF inv, of run t now] h
  have len: "lh_sequence h = int (length (run_rows l run t))" by auto
  have "rows_ok ?l run' t'" for run' t'
  proof (cases "run' = run \<and> t' = t")
    case True
    have "rows_ok l run t" using inv by (simp add: pg_ledger_inv_def)
    moreover have "head_unmoved h h" using h(2) by (simp add: head_unmoved_def)
    ultimately show ?thesis using True h e len
      by (simp add: rows_ok_def Let_def upd(1)) (simp add: advance_head_def chain_head_def)
  next
    case False
    have "rows_ok l run' t'" using inv by (simp add: pg_ledger_inv_def)
    with False e show ?thesis
      by (auto simp: rows_ok_def Let_def upd(1) upsert_head_other split: option.split)
  qed
  with inv upd(2) e(4) show ?thesis by (simp add: pg_ledger_inv_def)
qed

lemma pg_request_raw_frame:
  assumes "pg_request_raw bound e a now l = (r, l')"
  shows "run_rows l' run t = run_rows l run t \<and> pg_run_of l' = pg_run_of l \<and>
    pg_ledger_inv l' = pg_ledger_inv l"
  using assms unfolding pg_request_raw_def Let_def
  by (simp split: if_splits option.splits) (elim conjE; hypsubst; simp)+

lemma pg_request_raw_Inr:
  assumes "pg_ledger_inv l" and "pg_request_raw bound e a now l = (Inr rid, l')"
  shows "run_rows l (ev_run e) (ev_tenant e) \<noteq> [] \<and> last (run_rows l (ev_run e) (ev_tenant e)) = e \<and>
    ev_state_after e = ''REVIEWED'' \<and> rid = receipt_id_for e (rc_policy a)"
proof -
  let ?es = "run_rows l (ev_run e) (ev_tenant e)"
  define P where "P = (\<lambda>r :: authority_event. ev_id r = ev_id e \<and> ev_run r = ev_run e \<and> ev_tenant r = ev_tenant e \<and>
    ev_sequence r = ev_sequence e)"
  from assms(2) [unfolded pg_request_raw_def, folded P_def]
  have "\<exists>h. sql_row head_key (ev_run e, ev_tenant e) (pl_heads l) = Some h \<and>
      lh_sequence h = ev_sequence e \<and> List.find P (pl_events l) = Some e"
    and reviewed: "ev_state_after e = ''REVIEWED''" and rest: "rid = receipt_id_for e (rc_policy a)"
    by (auto simp: Let_def split: if_splits option.splits)
  then obtain h where h: "sql_row head_key (ev_run e, ev_tenant e) (pl_heads l) = Some h"
    "lh_sequence h = ev_sequence e" "e \<in> set (pl_events l)"
    using find_Some_conj by metis
  from h(3) have mem: "e \<in> set ?es" by (simp add: run_rows_def)
  have ok: "rows_ok l (ev_run e) (ev_tenant e)" using assms(1) by (simp add: pg_ledger_inv_def)
  then have seq: "map ev_sequence ?es = map (\<lambda>k. int k + 1) [0..<length ?es]" "ev_sequence e = int (length ?es)"
    using h(1,2) by (simp_all add: rows_ok_def Let_def)
  have "?es \<noteq> []" using mem by auto
  then have "ev_sequence (last ?es) = int (length ?es)"
    using arg_cong [OF seq(1), of last] by (simp add: last_map of_nat_diff Suc_le_eq)
  moreover have "distinct (map ev_sequence ?es)"
    unfolding seq(1) by (simp add: distinct_map inj_on_def)
  ultimately have "last ?es = e"
    using mem seq(2) \<open>?es \<noteq> []\<close> by (metis distinct_map inj_onD last_in_set)
  with \<open>?es \<noteq> []\<close> reviewed rest show ?thesis by simp
qed


interpretation pg_ledger: authority_ledger "pg_led bound x fault" pg_ledger_inv pg_run_of x for bound x fault
proof (unfold_locales, goal_cases)
  case (1 l b a nt eid now)
  then show ?case by (simp add: pg_led_def pg_append_def pg_append_raw_def)
next
  case (2 l b run build policy a nt eid now r l')
  let ?t = "wf_tenant b"
  from 2 have raw: "pg_append_raw bound x fault b a nt eid now l = (Inr r, l')"
    by (auto simp: pg_led_def pg_append_def atomic_s_def split: prod.splits sum.splits)
  from pg_append_raw_Inr [OF 2(2) raw] obtain h e where
    h: "sql_row head_key (run, ?t) (upsert_head run ?t now (pl_heads l)) = Some h" "\<not> lh_closed h"
    and e: "r = Some e" "ev_id e \<notin> ev_id ` set (pl_events l)"
      "make_event x run build policy (lh_sequence h + 1) (lh_hash h) b a nt eid now = Inr e"
    and l': "l' = l\<lparr>pl_heads := sql_update (\<lambda>r. head_key r = (run, ?t) \<and> head_unmoved h r) (advance_head e)
             (upsert_head run ?t now (pl_heads l)), pl_events := pl_events l @ [e]\<rparr>"
    by blast
  note ev = make_event_Inr [OF e(3)]
  have inv': "pg_ledger_inv l'"
    unfolding l' using 2(1) h ev(6,7,4) e(2) by (rule pg_ledger_inv_append)
  from upsert_head_row [OF 2(1), of run ?t now] h(1)
  have "lh_sequence h = int (length (run_rows l run ?t))" "lh_hash h = chain_head (run_rows l run ?t)"
    by auto
  with inv' 2(1) e ev(6,7) show ?case
    by (auto simp: pg_led_def pg_list_events_rows) (simp_all add: l')
next
  case (3 l b a nt eid now err l')
  then have "l' = l"
    using atomic_s_rollback [of "pg_append_raw bound x fault b a nt eid now" l err]
    by (simp add: pg_led_def pg_append_def)
  with 3 show ?case by simp
next
  case (4 l e args now rid l')
  then have "pg_request_raw bound e args now l = (Inr rid, l')"
    by (auto simp: pg_led_def pg_request_def atomic_s_def split: prod.splits sum.splits)
  from pg_request_raw_Inr [OF 4(1) this] 4(1) show ?case
    by (simp add: pg_led_def pg_list_events_rows)
next
  case (5 l e args now q l')
  then have "l' = l \<or> pg_request_raw bound e args now l = (q, l')"
    by (auto simp: pg_led_def pg_request_def atomic_s_def split: prod.splits sum.splits)
  with 5(1) pg_request_raw_frame [of bound e args now l q l'] show ?case
    by (auto simp: pg_led_def pg_list_events_rows)
qed

end
