(* ===== verification/Coordinator.thy ===== *)
theory Coordinator
  imports Ledger_PG
begin

text \<open>
  \<open>WorkflowCoordinator\<close> of \<^verbatim>\<open>src/recallops/workflow.py\<close>: who may move a workflow, under which
  epoch, and the ledger entry each accepted move commits. It is generic in the two
  repositories (the \<open>workflow_repo\<close> and \<open>ledger_repo\<close> records); its properties are proved once
  from their contracts, in the locale \<open>coordination\<close>, and then instantiated on the in-memory
  and on the Postgres pair.
\<close>

section \<open>The coordinator\<close>

datatype coord_error =
    CoordWorkflow wf_error
  | CoordLedger ledger_error
  | CoordFault string
  | ProposalNeedsAgent
  | PostcheckNeedsSystem
  | AssessmentNeedsAgent
  | NotThroughWebMCP
  | RoleRequired string
  | ReviewerNotIndependent
  | ResetNeedsOperator
  | LedgerUnavailable
  | ReceiptTargetUnavailable

record ('w, 'l) coordinator =
  co_workflows :: 'w
  co_ledger :: 'l

record transition_request =
  tq_id :: uuid
  tq_tenant :: string
  tq_epoch :: int
  tq_expected :: workflow_state
  tq_target :: workflow_state
  tq_channel :: request_channel
  tq_actor :: string
  tq_role :: string
  tq_reason :: string
  tq_object_type :: "string option"
  tq_object_id :: "string option"
  tq_object_digest :: "string option"
  tq_legacy :: bool

text \<open>The role a transition out of a state requires, given the channel and the role presented.\<close>

definition required_role ::
  "workflow_state \<Rightarrow> request_channel \<Rightarrow> string \<Rightarrow> bool \<Rightarrow> coord_error + string" where
  "required_role st channel role legacy =
    (if st = INVESTIGATING then
       (if legacy \<and> channel = UI \<and> role = ''operator'' then Inr ''operator''
        else if channel = WEBMCP \<and> role = ''agent'' then Inr ''agent''
        else Inl ProposalNeedsAgent)
     else if st = OBSERVING_POSTCHECK then
       (if channel \<noteq> SYSTEM \<or> role \<noteq> ''system'' then Inl PostcheckNeedsSystem else Inr ''system'')
     else if st = POSTCHECK_READY then
       (if channel \<noteq> WEBMCP \<or> role \<noteq> ''agent'' then Inl AssessmentNeedsAgent else Inr ''agent'')
     else if channel \<noteq> UI then Inl NotThroughWebMCP
     else Inr (if st = PENDING_REVIEW then ''reviewer'' else ''operator''))"

definition validate_transition ::
  "'w workflow_repo \<Rightarrow> transition_request \<Rightarrow> 'w \<Rightarrow> coord_error + workflow_snapshot" where
  "validate_transition repo q w =
     bind_r (required_role (tq_expected q) (tq_channel q) (tq_role q) (tq_legacy q)) (\<lambda>required.
     bind_r (check_r (tq_role q = required) (RoleRequired required)) (\<lambda>_.
       case repo_get repo w (tq_id q) (tq_tenant q) of
         None \<Rightarrow> Inl (CoordWorkflow WorkflowNotFound)
       | Some current \<Rightarrow>
           if \<not> wf_active current \<or> wf_epoch current \<noteq> tq_epoch q \<or> wf_state current \<noteq> tq_expected q
           then Inl (CoordWorkflow StaleWorkflow)
           else if required = ''reviewer'' \<and> wf_operator current = Some (tq_actor q)
           then Inl ReviewerNotIndependent
           else Inr current))"

definition transition_note :: "transition_request \<Rightarrow> ledger_note" where
  "transition_note q = \<lparr>ln_actor = tq_actor q, ln_role = tq_role q, ln_channel = tq_channel q,
     ln_reason = tq_reason q, ln_object_type = tq_object_type q, ln_object_id = tq_object_id q,
     ln_object_digest = tq_object_digest q, ln_event_type = None, ln_state_before = None,
     ln_summary = None\<rparr>"

text \<open>The ledger append after an accepted change, when the coordinator has a ledger.\<close>

definition commit_event ::
  "'l ledger_repo option \<Rightarrow> workflow_snapshot \<Rightarrow> workflow_snapshot \<Rightarrow> ledger_note \<Rightarrow> uuid \<Rightarrow> time
     \<Rightarrow> (('w, 'l) coordinator, coord_error, workflow_snapshot) sx" where
  "commit_event led before after nt eid now = (\<lambda>c.
     case led of None \<Rightarrow> (Inr after, c)
     | Some lr \<Rightarrow> (case led_append lr before after nt eid now (co_ledger c) of
         (Inl e, l') \<Rightarrow> (Inl (CoordLedger e), c\<lparr>co_ledger := l'\<rparr>)
       | (Inr _, l') \<Rightarrow> (Inr after, c\<lparr>co_ledger := l'\<rparr>)))"

definition coord_transition ::
  "'w workflow_repo \<Rightarrow> 'l ledger_repo option \<Rightarrow> (string \<Rightarrow> bool) \<Rightarrow> transition_request
     \<Rightarrow> time \<Rightarrow> uuid \<Rightarrow> time \<Rightarrow> (('w, 'l) coordinator, coord_error, workflow_snapshot) sx" where
  "coord_transition repo led fault q now eid recorded = (\<lambda>c.
     case validate_transition repo q (co_workflows c) of
       Inl e \<Rightarrow> (Inl e, c)
     | Inr _ \<Rightarrow>
       (case repo_get repo (co_workflows c) (tq_id q) (tq_tenant q) of
          None \<Rightarrow> (Inl (CoordWorkflow WorkflowNotFound), c)
        | Some before \<Rightarrow>
          if fault ''before_workflow'' then (Inl (CoordFault ''before_workflow''), c)
          else (case repo_transition repo (tq_id q) (tq_tenant q) (tq_epoch q) (tq_expected q) (tq_target q)
                       (if tq_role q = ''operator'' then Some (tq_actor q) else None)
                       (if tq_role q = ''reviewer'' then Some (tq_actor q) else None)
                       now (co_workflows c) of
                  (Inl e, w') \<Rightarrow> (Inl (CoordWorkflow e), c\<lparr>co_workflows := w'\<rparr>)
                | (Inr after, w') \<Rightarrow>
                   if fault ''after_workflow''
                   then (Inl (CoordFault ''after_workflow''), c\<lparr>co_workflows := w'\<rparr>)
                   else commit_event led before after (transition_note q) eid recorded
                          (c\<lparr>co_workflows := w'\<rparr>))))"

definition reset_note :: "request_channel \<Rightarrow> string \<Rightarrow> string \<Rightarrow> ledger_note" where
  "reset_note channel role actor = \<lparr>ln_actor = actor, ln_role = role, ln_channel = channel,
     ln_reason = ''WORKFLOW_RESET_ACCEPTED'', ln_object_type = None, ln_object_id = None,
     ln_object_digest = None, ln_event_type = None, ln_state_before = None, ln_summary = None\<rparr>"

definition coord_invalidate ::
  "'w workflow_repo \<Rightarrow> 'l ledger_repo option \<Rightarrow> (string \<Rightarrow> bool) \<Rightarrow> uuid \<Rightarrow> string \<Rightarrow> int
     \<Rightarrow> request_channel \<Rightarrow> string \<Rightarrow> string \<Rightarrow> time \<Rightarrow> uuid \<Rightarrow> time
     \<Rightarrow> (('w, 'l) coordinator, coord_error, workflow_snapshot) sx" where
  "coord_invalidate repo led fault i t ep channel role actor now eid recorded = (\<lambda>c.
     if channel \<noteq> UI \<or> role \<noteq> ''operator'' then (Inl ResetNeedsOperator, c)
     else (case repo_get repo (co_workflows c) i t of
        None \<Rightarrow> (Inl (CoordWorkflow WorkflowNotFound), c)
      | Some before \<Rightarrow>
        if fault ''before_workflow'' then (Inl (CoordFault ''before_workflow''), c)
        else (case repo_invalidate repo i t ep now (co_workflows c) of
                (Inl e, w') \<Rightarrow> (Inl (CoordWorkflow e), c\<lparr>co_workflows := w'\<rparr>)
              | (Inr after, w') \<Rightarrow>
                 if fault ''after_workflow''
                 then (Inl (CoordFault ''after_workflow''), c\<lparr>co_workflows := w'\<rparr>)
                 else commit_event led before after (reset_note channel role actor) eid recorded
                        (c\<lparr>co_workflows := w'\<rparr>))))"

definition ensure_for_analysis ::
  "'w workflow_repo \<Rightarrow> string \<Rightarrow> uuid \<Rightarrow> string option \<Rightarrow> bool \<Rightarrow> time
     \<Rightarrow> (('w, 'l) coordinator, wf_error, workflow_snapshot) sx" where
  "ensure_for_analysis repo t i action_hash mutating now = (\<lambda>c.
     case repo_ensure repo \<lparr>wf_id = i, wf_tenant = t,
            wf_state = (if mutating then AWAITING_OPERATOR_APPROVAL else INVESTIGATING), wf_epoch = 1,
            wf_active = True, wf_proposal_hash = action_hash, wf_operator = None, wf_reviewer = None,
            wf_created = now, wf_updated = now\<rparr> (co_workflows c) of
       (r, w') \<Rightarrow> (r, c\<lparr>co_workflows := w'\<rparr>))"

definition coord_manifest :: "'w workflow_repo \<Rightarrow> uuid \<Rightarrow> string \<Rightarrow> ('w, 'l) coordinator \<Rightarrow> capability_manifest option" where
  "coord_manifest repo i t c = map_option manifest (repo_get repo (co_workflows c) i t)"

definition coord_request_receipt ::
  "'l ledger_repo option \<Rightarrow> uuid \<Rightarrow> string \<Rightarrow> receipt_args \<Rightarrow> time \<Rightarrow> (('w, 'l) coordinator, coord_error, uuid) sx" where
  "coord_request_receipt led run t args now = (\<lambda>c. case led of
     None \<Rightarrow> (Inl LedgerUnavailable, c)
   | Some lr \<Rightarrow> (let events = led_events lr (co_ledger c) run t in
       if events = [] then (Inl ReceiptTargetUnavailable, c)
       else (case led_request lr (last events) args now (co_ledger c) of
          (Inl e, l') \<Rightarrow> (Inl (CoordLedger e), c\<lparr>co_ledger := l'\<rparr>)
        | (Inr rid, l') \<Rightarrow> (Inr rid, c\<lparr>co_ledger := l'\<rparr>))))"

definition coord_receipt_status ::
  "'l ledger_repo option \<Rightarrow> uuid \<Rightarrow> string \<Rightarrow> ('w, 'l) coordinator \<Rightarrow> receipt_status option" where
  "coord_receipt_status led run t c =
     (case led of None \<Rightarrow> None | Some lr \<Rightarrow> led_status lr (co_ledger c) run t)"

section \<open>Who may move a workflow\<close>

text \<open>
  The authority table, as a specification: which channel and which role may leave each state.
\<close>

fun may_leave :: "workflow_state \<Rightarrow> request_channel \<Rightarrow> string \<Rightarrow> bool \<Rightarrow> bool" where
  "may_leave INVESTIGATING ch role legacy \<longleftrightarrow>
     ch = WEBMCP \<and> role = ''agent'' \<or> legacy \<and> ch = UI \<and> role = ''operator''"
| "may_leave OBSERVING_POSTCHECK ch role legacy \<longleftrightarrow> ch = SYSTEM \<and> role = ''system''"
| "may_leave POSTCHECK_READY ch role legacy \<longleftrightarrow> ch = WEBMCP \<and> role = ''agent''"
| "may_leave PENDING_REVIEW ch role legacy \<longleftrightarrow> ch = UI \<and> role = ''reviewer''"
| "may_leave _ ch role legacy \<longleftrightarrow> ch = UI \<and> role = ''operator''"

definition request_current :: "transition_request \<Rightarrow> workflow_snapshot \<Rightarrow> bool" where
  "request_current q w \<longleftrightarrow> current_at (tq_epoch q) (tq_expected q) w \<and>
     may_leave (tq_expected q) (tq_channel q) (tq_role q) (tq_legacy q) \<and>
     (tq_expected q = PENDING_REVIEW \<longrightarrow> wf_operator w \<noteq> Some (tq_actor q))"

definition apply_request :: "transition_request \<Rightarrow> time \<Rightarrow> workflow_snapshot \<Rightarrow> workflow_snapshot" where
  "apply_request q now = advance (tq_target q)
     (if tq_role q = ''operator'' then Some (tq_actor q) else None)
     (if tq_role q = ''reviewer'' then Some (tq_actor q) else None) now"

lemma validate_transition_iff:
  "validate_transition repo q w = Inr cur \<longleftrightarrow>
     repo_get repo w (tq_id q) (tq_tenant q) = Some cur \<and> request_current q cur"
  by (cases "tq_expected q")
    (auto simp: validate_transition_def required_role_def request_current_def current_at_def
      split: option.splits if_splits)

section \<open>Runs of coordinator operations\<close>

text \<open>
  An operation of the coordinator with the clock readings, the fresh event id and the stages
  at which the fault hook raises. \<open>run_ops\<close> issues them one after the other, as the
  repositories' locks and the database's serializable transactions order them.
\<close>

datatype coord_op =
    OpEnsure string uuid "string option" bool time
  | OpTransition transition_request "string \<Rightarrow> bool" time uuid time
  | OpInvalidate uuid string int request_channel string string "string \<Rightarrow> bool" time uuid time

fun run_op ::
  "'w workflow_repo \<Rightarrow> 'l ledger_repo option \<Rightarrow> coord_op
     \<Rightarrow> (('w, 'l) coordinator, coord_error, workflow_snapshot) sx" where
  "run_op repo led (OpEnsure t i h mutating now) c =
     (case ensure_for_analysis repo t i h mutating now c of
        (Inl e, c') \<Rightarrow> (Inl (CoordWorkflow e), c') | (Inr w, c') \<Rightarrow> (Inr w, c'))"
| "run_op repo led (OpTransition q fault now eid recorded) c =
     coord_transition repo led fault q now eid recorded c"
| "run_op repo led (OpInvalidate i t ep channel role actor fault now eid recorded) c =
     coord_invalidate repo led fault i t ep channel role actor now eid recorded c"

fun actor_named :: "coord_op \<Rightarrow> bool" where
  "actor_named (OpTransition q fault now eid recorded) \<longleftrightarrow> tq_actor q \<noteq> []"
| "actor_named _ \<longleftrightarrow> True"

text \<open>The workflow and the epoch an operation spends.\<close>

fun spends :: "coord_op \<Rightarrow> (string \<times> uuid \<times> int) option" where
  "spends (OpEnsure t i h mutating now) = None"
| "spends (OpTransition q fault now eid recorded) = Some (tq_tenant q, tq_id q, tq_epoch q)"
| "spends (OpInvalidate i t ep channel role actor fault now eid recorded) = Some (t, i, ep)"

fun run_ops ::
  "'w workflow_repo \<Rightarrow> 'l ledger_repo option \<Rightarrow> coord_op list \<Rightarrow> ('w, 'l) coordinator
     \<Rightarrow> (string \<times> uuid \<times> int) list \<times> ('w, 'l) coordinator" where
  "run_ops repo led [] c = ([], c)"
| "run_ops repo led (op # ops) c =
     (case run_op repo led op c of
        (r, c') \<Rightarrow> (case run_ops repo led ops c' of
          (spent, c'') \<Rightarrow>
            ((case (r, spends op) of (Inr _, Some k) \<Rightarrow> k # spent | _ \<Rightarrow> spent), c'')))"

section \<open>The coordinator over any two repositories that keep their contracts\<close>

locale coordination =
  W: workflow_repository repo winv + L: authority_ledger led linv run_of x
  for repo :: "'w workflow_repo" and winv and led :: "'l ledger_repo" and linv and run_of and x
begin

definition sound :: "('w, 'l) coordinator \<Rightarrow> bool" where
  "sound c \<longleftrightarrow> winv (co_workflows c) \<and> linv (co_ledger c)"

definition view :: "('w, 'l) coordinator \<Rightarrow> uuid \<Rightarrow> string \<Rightarrow> workflow_snapshot option" where
  "view c i t = repo_get repo (co_workflows c) i t"

lemma view_ledger [simp]: "view (c\<lparr>co_ledger := l\<rparr>) = view c"
  by (simp add: view_def fun_eq_iff)

lemma commit_event_step:
  assumes "sound c" and "commit_event (Some led) b a nt eid now c = (r, c')"
  shows "sound c'" and "view c' = view c" and "run_of (co_ledger c') = run_of (co_ledger c)"
    and "r = Inr w \<Longrightarrow> w = a \<and> L.appended (co_ledger c) b a nt eid now (co_ledger c')"
proof -
  obtain q l' where q: "led_append led b a nt eid now (co_ledger c) = (q, l')" by (metis prod.exhaust)
  with assms(2) have c': "c' = c\<lparr>co_ledger := l'\<rparr>" and r: "r = Inr w \<Longrightarrow> w = a \<and> (\<exists>y. q = Inr y)"
    by (auto simp: commit_event_def split: sum.splits)
  have l: "linv (co_ledger c)" using assms(1) by (simp add: sound_def)
  from L.append_inv [OF l q] c' assms(1)
  show "sound c'" and "run_of (co_ledger c') = run_of (co_ledger c)" by (simp_all add: sound_def)
  show "view c' = view c" by (simp add: c')
  show "r = Inr w \<Longrightarrow> w = a \<and> L.appended (co_ledger c) b a nt eid now (co_ledger c')"
    using r L.append_appended [OF l] q c' by auto
qed

text \<open>
  What any call of \<open>transition\<close> and \<open>invalidate\<close> does, also when the ledger or the fault
  hook makes it fail: it changes nothing, or it passed every check and moved that workflow.
\<close>

definition moved ::
  "('w, 'l) coordinator \<Rightarrow> ('w, 'l) coordinator \<Rightarrow> workflow_snapshot \<Rightarrow> workflow_snapshot \<Rightarrow> bool" where
  "moved c c' before after \<longleftrightarrow>
     (\<forall>i t. view c' i t = (if i = wf_id before \<and> t = wf_tenant before then Some after else view c i t))"

definition transition_outcome ::
  "transition_request \<Rightarrow> time \<Rightarrow> uuid \<Rightarrow> time \<Rightarrow> ('w, 'l) coordinator \<Rightarrow> coord_error + workflow_snapshot
     \<Rightarrow> ('w, 'l) coordinator \<Rightarrow> bool" where
  "transition_outcome q now eid recorded c r c' \<longleftrightarrow>
     (c' = c \<and> \<not> ok r) \<or>
     (\<exists>before. view c (tq_id q) (tq_tenant q) = Some before \<and> request_current q before \<and>
        moved c c' before (apply_request q now before) \<and>
        (\<forall>w. r = Inr w \<longrightarrow> w = apply_request q now before \<and>
           L.appended (co_ledger c) before w (transition_note q) eid recorded (co_ledger c')))"

lemma transition_step:
  assumes "sound c" and "tq_actor q \<noteq> []"
    and run: "coord_transition repo (Some led) fault q now eid recorded c = (r, c')"
  shows "sound c' \<and> run_of (co_ledger c') = run_of (co_ledger c) \<and>
    transition_outcome q now eid recorded c r c'"
proof (cases "\<exists>cur. validate_transition repo q (co_workflows c) = Inr cur \<and> \<not> fault ''before_workflow''")
  case False
  then have "c' = c \<and> \<not> ok r"
    using run by (auto simp: coord_transition_def ok_iff split: sum.splits option.splits)
  with assms(1) show ?thesis by (simp add: transition_outcome_def)
next
  case True
  then obtain cur where val: "validate_transition repo q (co_workflows c) = Inr cur"
    and nf: "\<not> fault ''before_workflow''" by blast
  then have cur: "repo_get repo (co_workflows c) (tq_id q) (tq_tenant q) = Some cur" "request_current q cur"
    by (simp_all add: validate_transition_iff)
  define op where "op = (if tq_role q = ''operator'' then Some (tq_actor q) else None)"
  define rv where "rv = (if tq_role q = ''reviewer'' then Some (tq_actor q) else None)"
  have ne: "op \<noteq> Some []" "rv \<noteq> Some []" using assms(2) by (auto simp: op_def rv_def)
  have at: "current_at (tq_epoch q) (tq_expected q) cur" using cur(2) by (simp add: request_current_def)
  have winv: "winv (co_workflows c)" using assms(1) by (simp add: sound_def)
  have key: "wf_id cur = tq_id q \<and> wf_tenant cur = tq_tenant q" by (rule W.get_key [OF winv cur(1)])
  from W.transition_accept [OF winv cur(1) at ne, of "tq_target q" now] obtain w' where
    w': "repo_transition repo (tq_id q) (tq_tenant q) (tq_epoch q) (tq_expected q) (tq_target q) op rv now
        (co_workflows c) = (Inr (apply_request q now cur), w')" "winv w'"
      "\<forall>i t. repo_get repo w' i t = (if i = tq_id q \<and> t = tq_tenant q then Some (apply_request q now cur)
        else repo_get repo (co_workflows c) i t)"
    by (auto simp: apply_request_def op_def rv_def)
  let ?c1 = "c\<lparr>co_workflows := w'\<rparr>"
  have s1: "sound ?c1" using assms(1) w'(2) by (simp add: sound_def)
  have m1: "moved c ?c1 cur (apply_request q now cur)" using w'(3) key by (simp add: moved_def view_def)
  have eq: "(r, c') = (if fault ''after_workflow'' then (Inl (CoordFault ''after_workflow''), ?c1)
      else commit_event (Some led) cur (apply_request q now cur) (transition_note q) eid recorded ?c1)"
    using run val cur(1) nf w'(1) by (simp add: coord_transition_def op_def rv_def split: if_splits)
  show ?thesis
  proof (cases "fault ''after_workflow''")
    case True
    with eq s1 m1 cur show ?thesis by (auto simp: transition_outcome_def view_def)
  next
    case False
    then have com: "commit_event (Some led) cur (apply_request q now cur) (transition_note q) eid recorded ?c1 = (r, c')"
      using eq by simp
    note step = commit_event_step [OF s1 com]
    have "moved c c' cur (apply_request q now cur)" using m1 step(2) by (simp add: moved_def)
    with step(1,3,4) cur show ?thesis by (auto simp: transition_outcome_def view_def)
  qed
qed

definition invalidate_outcome ::
  "uuid \<Rightarrow> string \<Rightarrow> int \<Rightarrow> request_channel \<Rightarrow> string \<Rightarrow> string \<Rightarrow> time \<Rightarrow> uuid \<Rightarrow> time
     \<Rightarrow> ('w, 'l) coordinator \<Rightarrow> coord_error + workflow_snapshot \<Rightarrow> ('w, 'l) coordinator \<Rightarrow> bool" where
  "invalidate_outcome i t ep channel role actor now eid recorded c r c' \<longleftrightarrow>
     (c' = c \<and> \<not> ok r) \<or>
     (\<exists>before. view c i t = Some before \<and> wf_active before \<and> wf_epoch before = ep \<and> channel = UI \<and>
        role = ''operator'' \<and> moved c c' before (close_snapshot now before) \<and>
        (\<forall>w. r = Inr w \<longrightarrow> w = close_snapshot now before \<and>
           L.appended (co_ledger c) before w (reset_note channel role actor) eid recorded (co_ledger c')))"

lemma invalidate_step:
  assumes "sound c"
    and run: "coord_invalidate repo (Some led) fault i t ep channel role actor now eid recorded c = (r, c')"
  shows "sound c' \<and> run_of (co_ledger c') = run_of (co_ledger c) \<and>
    invalidate_outcome i t ep channel role actor now eid recorded c r c'"
proof -
  have winv: "winv (co_workflows c)" using assms(1) by (simp add: sound_def)
  define acc where "acc b \<longleftrightarrow> channel = UI \<and> role = ''operator'' \<and>
    repo_get repo (co_workflows c) i t = Some b \<and> \<not> fault ''before_workflow''" for b
  show ?thesis
  proof (cases "\<exists>b. acc b \<and> wf_active b \<and> wf_epoch b = ep")
    case False
    then have "c' = c \<and> \<not> ok r"
      using run W.invalidate_refuse [OF winv, of i t ep now]
      by (cases "repo_get repo (co_workflows c) i t")
        (auto simp: coord_invalidate_def acc_def split: if_splits)
    with assms(1) show ?thesis by (simp add: invalidate_outcome_def)
  next
    case True
    then obtain b where b: "channel = UI" "role = ''operator''" "repo_get repo (co_workflows c) i t = Some b"
      "\<not> fault ''before_workflow''" "wf_active b" "wf_epoch b = ep"
      by (auto simp: acc_def)
    have key: "wf_id b = i \<and> wf_tenant b = t" by (rule W.get_key [OF winv b(3)])
    from W.invalidate_accept [OF winv b(3,5,6), of now] obtain w' where
      w': "repo_invalidate repo i t ep now (co_workflows c) = (Inr (close_snapshot now b), w')" "winv w'"
        "\<forall>i' t'. repo_get repo w' i' t' = (if i' = i \<and> t' = t then Some (close_snapshot now b)
          else repo_get repo (co_workflows c) i' t')"
      by blast
    let ?c1 = "c\<lparr>co_workflows := w'\<rparr>"
    have s1: "sound ?c1" using assms(1) w'(2) by (simp add: sound_def)
    have m1: "moved c ?c1 b (close_snapshot now b)" using w'(3) key by (simp add: moved_def view_def)
    have eq: "(r, c') = (if fault ''after_workflow'' then (Inl (CoordFault ''after_workflow''), ?c1)
        else commit_event (Some led) b (close_snapshot now b) (reset_note channel role actor) eid recorded ?c1)"
      using run b w'(1) by (simp add: coord_invalidate_def split: if_splits)
    show ?thesis
    proof (cases "fault ''after_workflow''")
      case True
      with eq s1 m1 b show ?thesis by (auto simp: invalidate_outcome_def view_def)
    next
      case False
      then have com: "commit_event (Some led) b (close_snapshot now b) (reset_note channel role actor)
          eid recorded ?c1 = (r, c')"
        using eq by simp
      note step = commit_event_step [OF s1 com]
      have "moved c c' b (close_snapshot now b)" using m1 step(2) by (simp add: moved_def)
      with step(1,3,4) b show ?thesis by (auto simp: invalidate_outcome_def view_def)
    qed
  qed
qed

lemma ensure_step:
  assumes "sound c" and "ensure_for_analysis repo t i h mutating now c = (r, c')"
  shows "sound c' \<and> co_ledger c' = co_ledger c \<and>
    (\<exists>w. wf_epoch w = 1 \<and> wf_active w \<and> wf_operator w = None \<and> wf_reviewer w = None \<and>
      wf_state w \<in> {INVESTIGATING, AWAITING_OPERATOR_APPROVAL} \<and>
      r = Inr (case view c i t of None \<Rightarrow> w | Some u \<Rightarrow> u) \<and>
      (\<forall>i' t'. view c' i' t' = (if i' = i \<and> t' = t \<and> view c i t = None then Some w else view c i' t')))"
proof -
  let ?w = "\<lparr>wf_id = i, wf_tenant = t,
     wf_state = (if mutating then AWAITING_OPERATOR_APPROVAL else INVESTIGATING), wf_epoch = 1,
     wf_active = True, wf_proposal_hash = h, wf_operator = None, wf_reviewer = None,
     wf_created = now, wf_updated = now\<rparr>"
  have winv: "winv (co_workflows c)" using assms(1) by (simp add: sound_def)
  from W.ensure_law [OF winv, of ?w] assms show ?thesis
    by (auto simp: ensure_for_analysis_def sound_def view_def intro!: exI [of _ ?w])
qed

text \<open>Every operation, seen through one workflow: nothing, a creation, or one more epoch.\<close>

fun next_view :: "workflow_snapshot option \<Rightarrow> workflow_snapshot option \<Rightarrow> bool" where
  "next_view None v \<longleftrightarrow> True"
| "next_view (Some w) None \<longleftrightarrow> False"
| "next_view (Some w) (Some w') \<longleftrightarrow> w' = w \<or> wf_epoch w' = wf_epoch w + 1"

lemma next_view_refl [simp]: "next_view v v"
  by (cases v) simp_all

lemma moved_next_view:
  "moved c c' b a \<Longrightarrow> view c (wf_id b) (wf_tenant b) = Some b \<Longrightarrow> wf_epoch a = wf_epoch b + 1 \<Longrightarrow>
     next_view (view c i t) (view c' i t)"
  by (simp add: moved_def)

lemma view_key: "sound c \<Longrightarrow> view c i t = Some w \<Longrightarrow> wf_id w = i \<and> wf_tenant w = t"
  using W.get_key by (auto simp: sound_def view_def)

definition spend_ok :: "(string \<times> uuid \<times> int) option \<Rightarrow> ('w, 'l) coordinator \<Rightarrow> ('w, 'l) coordinator \<Rightarrow> bool" where
  "spend_ok k c c' \<longleftrightarrow> (case k of None \<Rightarrow> True
     | Some (t, i, ep) \<Rightarrow> \<exists>w w'. view c i t = Some w \<and> wf_epoch w = ep \<and>
         view c' i t = Some w' \<and> wf_epoch w' = ep + 1)"

lemma op_step:
  assumes "sound c" and "actor_named op" and "run_op repo (Some led) op c = (r, c')"
  shows "sound c' \<and> next_view (view c i t) (view c' i t) \<and> (ok r \<longrightarrow> spend_ok (spends op) c c')"
proof (cases op)
  case (OpEnsure n j h m now)
  with ensure_step [OF assms(1), of n j h m now] assms(3) show ?thesis
    by (auto simp: spend_ok_def split: prod.splits sum.splits)
next
  case (OpTransition q fault now eid recorded)
  with transition_step [OF assms(1), of q fault now eid recorded r c'] assms(2,3)
  have s: "sound c'" and out: "transition_outcome q now eid recorded c r c'" by auto
  show ?thesis
  proof (cases "c' = c \<and> \<not> ok r")
    case True
    with s show ?thesis by simp
  next
    case False
    with out obtain b where b: "view c (tq_id q) (tq_tenant q) = Some b" "request_current q b"
      "moved c c' b (apply_request q now b)"
      by (auto simp: transition_outcome_def)
    with view_key [OF assms(1) b(1)] have "wf_id b = tq_id q" "wf_tenant b = tq_tenant q" by auto
    with b s OpTransition moved_next_view [OF b(3), of i t] show ?thesis
      by (auto simp: spend_ok_def moved_def request_current_def current_at_def apply_request_def)
  qed
next
  case (OpInvalidate j n ep channel role actor fault now eid recorded)
  with invalidate_step [OF assms(1), of fault j n ep channel role actor now eid recorded r c'] assms(3)
  have s: "sound c'" and out: "invalidate_outcome j n ep channel role actor now eid recorded c r c'" by auto
  show ?thesis
  proof (cases "c' = c \<and> \<not> ok r")
    case True
    with s show ?thesis by simp
  next
    case False
    with out obtain b where b: "view c j n = Some b" "wf_epoch b = ep" "moved c c' b (close_snapshot now b)"
      by (auto simp: invalidate_outcome_def)
    with view_key [OF assms(1) b(1)] have "wf_id b = j" "wf_tenant b = n" by auto
    with b s OpInvalidate moved_next_view [OF b(3), of i t] show ?thesis
      by (auto simp: spend_ok_def moved_def)
  qed
qed

lemma spent_once:
  assumes "sound c" and "\<forall>op \<in> set ops. actor_named op"
  shows "distinct (fst (run_ops repo (Some led) ops c)) \<and>
    (\<forall>(t, i, ep) \<in> set (fst (run_ops repo (Some led) ops c)).
       \<forall>w. view c i t = Some w \<longrightarrow> wf_epoch w \<le> ep)"
  using assms
proof (induction ops arbitrary: c)
  case (Cons op ops)
  obtain r c1 where op: "run_op repo (Some led) op c = (r, c1)" by (metis prod.exhaust)
  obtain spent c2 where rest: "run_ops repo (Some led) ops c1 = (spent, c2)" by (metis prod.exhaust)
  note step = op_step [OF Cons.prems(1) _ op]
  have s1: "sound c1" and nx: "\<And>i t. next_view (view c i t) (view c1 i t)"
    and sp: "ok r \<Longrightarrow> spend_ok (spends op) c c1"
    using step Cons.prems(2) by auto
  have IH: "distinct spent" "\<And>t i ep w. (t, i, ep) \<in> set spent \<Longrightarrow> view c1 i t = Some w \<Longrightarrow> wf_epoch w \<le> ep"
    using Cons.IH [OF s1] Cons.prems(2) rest by auto
  have low: "wf_epoch w \<le> ep" if "(t, i, ep) \<in> set spent" "view c i t = Some w" for t i ep w
  proof -
    have "next_view (Some w) (view c1 i t)" using nx [of i t] that(2) by simp
    then obtain w' where "view c1 i t = Some w'" "wf_epoch w \<le> wf_epoch w'"
      by (cases "view c1 i t") auto
    with IH(2) [OF that(1)] show ?thesis by force
  qed
  show ?case
  proof (cases "\<exists>k. ok r \<and> spends op = Some k")
    case False
    then have "fst (run_ops repo (Some led) (op # ops) c) = spent"
      using op rest by (auto split: sum.split option.split simp: ok_iff)
    with IH(1) low show ?thesis by auto
  next
    case True
    then obtain t i ep where k: "ok r" "spends op = Some (t, i, ep)" by (metis prod_cases3)
    with sp obtain w w' where w: "view c i t = Some w" "wf_epoch w = ep" "view c1 i t = Some w'"
      "wf_epoch w' = ep + 1"
      by (auto simp: spend_ok_def)
    have "(t, i, ep) \<notin> set spent" using IH(2) [OF _ w(3)] w(4) by force
    moreover have "fst (run_ops repo (Some led) (op # ops) c) = (t, i, ep) # spent"
      using op rest k by (auto simp: ok_iff)
    ultimately show ?thesis using IH(1) low w by auto
  qed
qed simp

text \<open>Every run leaves every ledger a valid hash chain.\<close>

lemma commit_event_chains:
  "L.chains (co_ledger c) \<Longrightarrow> commit_event (Some led) b a nt eid now c = (r, c') \<Longrightarrow> L.chains (co_ledger c')"
  using L.append_chains [of "co_ledger c" b a nt eid now]
  by (auto simp: commit_event_def split: prod.splits sum.splits)

lemma op_chains:
  assumes "L.chains (co_ledger c)" and "run_op repo (Some led) op c = (r, c')"
  shows "L.chains (co_ledger c')"
proof (cases op)
  case (OpEnsure n j h m now)
  with assms show ?thesis by (auto simp: ensure_for_analysis_def split: prod.splits sum.splits)
next
  case (OpTransition q fault now eid recorded)
  with assms show ?thesis
    by (auto simp: coord_transition_def split: prod.splits sum.splits option.splits if_splits
        elim!: commit_event_chains [rotated])
next
  case (OpInvalidate j n ep channel role actor fault now eid recorded)
  with assms show ?thesis
    by (auto simp: coord_invalidate_def split: prod.splits sum.splits option.splits if_splits
        elim!: commit_event_chains [rotated])
qed

lemma run_chains:
  "L.chains (co_ledger c) \<Longrightarrow> L.chains (co_ledger (snd (run_ops repo (Some led) ops c)))"
proof (induction ops arbitrary: c)
  case (Cons op ops)
  obtain r c1 where op: "run_op repo (Some led) op c = (r, c1)" by (metis prod.exhaust)
  with Cons.IH [of c1] op_chains [OF Cons.prems op] show ?case by (simp add: case_prod_beta)
qed simp

end

interpretation mem_coord: coordination mem_repo mem_keyed "mem_led x fault" "\<lambda>_. True" mem_run_of x
  for x fault
  by unfold_locales

interpretation pg_coord: coordination pg_repo pg_unique "pg_led bound x fault" pg_ledger_inv pg_run_of x
  for bound x fault
  by unfold_locales

section \<open>Properties\<close>


definition sample_request :: transition_request where
  "sample_request = \<lparr>tq_id = ''w1'', tq_tenant = ''acme'', tq_epoch = 1, tq_expected = INVESTIGATING,
     tq_target = AWAITING_OPERATOR_APPROVAL, tq_channel = WEBMCP, tq_actor = ''agent-1'',
     tq_role = ''agent'', tq_reason = ''PROPOSAL_ACCEPTED'', tq_object_type = None, tq_object_id = None,
     tq_object_digest = None, tq_legacy = False\<rparr>"

definition sample_pg :: "(pg_workflows, pg_ledger) coordinator" where
  "sample_pg = \<lparr>co_workflows = [sample_workflow],
     co_ledger = \<lparr>pl_runs = [], pl_heads = [], pl_events = [], pl_activities = [], pl_receipts = [],
       pl_requests = []\<rparr>\<rparr>"


text \<open>
  C6. Optimistic concurrency: however analyses, transitions and resets of any workflows are
  interleaved and wherever faults strike, no epoch of a workflow is spent by two accepted
  changes, on the in-memory coordinator and on the Postgres one.
\<close>

theorem epochs_spent_once:
  assumes "\<forall>op \<in> set ops. actor_named op"
  shows "distinct (fst (run_ops mem_repo (Some (mem_led x lf)) ops
      \<lparr>co_workflows = Map.empty, co_ledger = ml\<rparr>)) \<and>
    (pg_ledger_inv pl \<longrightarrow> distinct (fst (run_ops pg_repo (Some (pg_led bound x lf)) ops
      \<lparr>co_workflows = [], co_ledger = pl\<rparr>)))"
proof -
  have "mem_coord.sound \<lparr>co_workflows = Map.empty, co_ledger = ml\<rparr>"
    by (simp add: mem_coord.sound_def mem_keyed_def)
  moreover have "pg_ledger_inv pl \<Longrightarrow> pg_coord.sound \<lparr>co_workflows = [], co_ledger = pl\<rparr>"
    by (simp add: pg_coord.sound_def pg_unique_def)
  ultimately show ?thesis using mem_coord.spent_once pg_coord.spent_once assms by blast
qed

definition sample_ops :: "coord_op list" where
  "sample_ops = [OpEnsure ''acme'' ''w1'' None False 0,
     OpTransition sample_request (\<lambda>_. False) 5 ''e1'' 6,
     OpTransition sample_request (\<lambda>_. False) 7 ''e2'' 8,
     OpInvalidate ''w1'' ''acme'' 2 UI ''operator'' ''op-1'' (\<lambda>_. False) 9 ''e3'' 10]"

lemma epochs_spent_once_witness:
  "distinct (fst (run_ops mem_repo (Some (mem_led sample_externals (\<lambda>_. False))) sample_ops
      \<lparr>co_workflows = Map.empty, co_ledger = mem_ledger_empty\<rparr>)) \<and>
   distinct (fst (run_ops pg_repo (Some (pg_led True sample_externals (\<lambda>_. False))) sample_ops
      \<lparr>co_workflows = [], co_ledger = co_ledger sample_pg\<rparr>)) \<and>
   fst (run_ops mem_repo (Some (mem_led sample_externals (\<lambda>_. False))) sample_ops
      \<lparr>co_workflows = Map.empty, co_ledger = mem_ledger_empty\<rparr>) =
     [(''acme'', ''w1'', 1), (''acme'', ''w1'', 2)]"
proof -
  have "\<forall>op \<in> set sample_ops. actor_named op" by (simp add: sample_ops_def sample_request_def)
  moreover have "pg_ledger_inv (co_ledger sample_pg)"
    by (simp add: sample_pg_def pg_ledger_inv_def rows_ok_def run_rows_def sql_row_def)
  moreover have "fst (run_ops mem_repo (Some (mem_led sample_externals (\<lambda>_. False))) sample_ops
      \<lparr>co_workflows = Map.empty, co_ledger = mem_ledger_empty\<rparr>) =
     [(''acme'', ''w1'', 1), (''acme'', ''w1'', 2)]"
    by code_simp
  ultimately show ?thesis using epochs_spent_once by metis
qed


end
