(* ===== verification/Domain.thy ===== *)
theory Domain
  imports Hashing
begin

text \<open>
  The domain types of \<^verbatim>\<open>src/recallops/domain.py\<close>: the enumerations with their string values, the
  records (a pydantic model is a record, its field constraints are a \<open>valid_\<close> predicate), and
  the validators: the derivation of a memory's outcome semantics and evidence digest, and the
  reason codes a reviewer's decision and a revocation admit.
\<close>

section \<open>Timestamps as text\<close>

text \<open>\<open>datetime.isoformat()\<close> of a UTC timestamp in microseconds: the proleptic Gregorian date.\<close>

definition civil_date :: "int \<Rightarrow> int \<times> int \<times> int" where
  "civil_date days =
    (let z = days + 719468; era = z div 146097; doe = z mod 146097;
         yoe = (doe - doe div 1460 + doe div 36524 - doe div 146096) div 365;
         doy = doe - (365 * yoe + yoe div 4 - yoe div 100);
         mp = (5 * doy + 2) div 153;
         d = doy - (153 * mp + 2) div 5 + 1;
         m = (if mp < 10 then mp + 3 else mp - 9);
         y = yoe + era * 400 + (if m \<le> 2 then 1 else 0)
     in (y, m, d))"

definition zero_padded :: "nat \<Rightarrow> int \<Rightarrow> string" where
  "zero_padded width n = (let s = str_int n in replicate (width - length s) (CHR ''0'') @ s)"

definition iso_body :: "time \<Rightarrow> string" where
  "iso_body t = (let micro = t mod 1000000; secs = t div 1000000; day = secs div 86400; s = secs mod 86400
     in case civil_date day of (y, m, d) \<Rightarrow>
       zero_padded 4 y @ ''-'' @ zero_padded 2 m @ ''-'' @ zero_padded 2 d @ ''T''
         @ zero_padded 2 (s div 3600) @ '':'' @ zero_padded 2 (s mod 3600 div 60) @ '':''
         @ zero_padded 2 (s mod 60) @ (if micro = 0 then [] else ''.'' @ zero_padded 6 micro))"

text \<open>\<open>created_at.isoformat().replace("+00:00", "Z")\<close>.\<close>

definition iso_z :: "time \<Rightarrow> string" where
  "iso_z t = iso_body t @ ''Z''"

lemma iso_z_examples:
  "iso_z 0 = ''1970-01-01T00:00:00Z''"
  "iso_z 1709210096000007 = ''2024-02-29T12:34:56.000007Z''"
  by code_simp+

section \<open>Enumerations\<close>

datatype action_risk = READ_ONLY | MUTATING
datatype incident_status = IncidentOpen | IncidentMitigated
datatype memory_state = MPendingReview | MActive | MQuarantined | MRejected | MSuperseded | MRevoked | MExpired
datatype governance_action = GCertify | GActivate | GQuarantine | GReject | GSupersede | GRevoke | GExpire
datatype memory_outcome = OutcomePositive | OutcomeNegative | OutcomeInconclusive
datatype review_reason =
    EVIDENCE_ACCEPTED | NEEDS_INVESTIGATION | INVALID_BINDING | INSUFFICIENT_EVIDENCE | POLICY_CONFLICT
  | NEW_CONTRADICTORY_EVIDENCE | POLICY_CHANGE | COMPATIBILITY_INVALIDATED | DATA_QUALITY | OTHER_BOUNDED
datatype handoff_purpose = InitialReview | Revocation
datatype reviewer_decision = DecideCertify | DecideQuarantine | DecideReject
datatype tool_status = ToolSucceeded | ToolDegraded | ToolSkipped
datatype evidence_verification = ManualAttestation | SystemObserved | ExternallyVerified
datatype candidate_disposition = CandidateSelected | EligibleNotSelected | CandidateRejected
datatype postcheck_class = Recovered | NotRecovered | Inconclusive
datatype compatibility_policy = ExactVersion | SemverPatch | SemverMinor

fun risk_value :: "action_risk \<Rightarrow> string" where
  "risk_value READ_ONLY = ''read_only''"
| "risk_value MUTATING = ''mutating''"

fun memory_state_value :: "memory_state \<Rightarrow> string" where
  "memory_state_value MPendingReview = ''pending_review''"
| "memory_state_value MActive = ''active''"
| "memory_state_value MQuarantined = ''quarantined''"
| "memory_state_value MRejected = ''rejected''"
| "memory_state_value MSuperseded = ''superseded''"
| "memory_state_value MRevoked = ''revoked''"
| "memory_state_value MExpired = ''expired''"

fun outcome_value :: "memory_outcome \<Rightarrow> string" where
  "outcome_value OutcomePositive = ''positive''"
| "outcome_value OutcomeNegative = ''negative''"
| "outcome_value OutcomeInconclusive = ''inconclusive''"

fun purpose_value :: "handoff_purpose \<Rightarrow> string" where
  "purpose_value InitialReview = ''initial_review''"
| "purpose_value Revocation = ''revocation''"

fun class_value :: "postcheck_class \<Rightarrow> string" where
  "class_value Recovered = ''recovered''"
| "class_value NotRecovered = ''not_recovered''"
| "class_value Inconclusive = ''inconclusive''"

fun policy_value :: "compatibility_policy \<Rightarrow> string" where
  "policy_value ExactVersion = ''exact''"
| "policy_value SemverPatch = ''semver_patch''"
| "policy_value SemverMinor = ''semver_minor''"

section \<open>Incidents and memories\<close>

text \<open>The pattern \<open>^[a-zA-Z0-9_-]+$\<close>.\<close>

definition slug_char :: "char \<Rightarrow> bool" where
  "slug_char c \<longleftrightarrow> (let n = of_char c :: nat in
     48 \<le> n \<and> n \<le> 57 \<or> 65 \<le> n \<and> n \<le> 90 \<or> 97 \<le> n \<and> n \<le> 122 \<or> n = 95 \<or> n = 45)"

definition slug :: "string \<Rightarrow> bool" where
  "slug s \<longleftrightarrow> s \<noteq> [] \<and> list_all slug_char s"

record incident =
  in_tenant :: string
  in_service :: string
  in_version :: string
  in_symptom :: string
  in_key :: string

definition valid_incident :: "incident \<Rightarrow> bool" where
  "valid_incident i \<longleftrightarrow> sized 1 80 (in_tenant i) \<and> slug (in_tenant i) \<and> sized 1 120 (in_service i) \<and>
     sized 1 80 (in_version i) \<and> sized 3 4000 (in_symptom i) \<and> sized 8 200 (in_key i)"

record memory =
  mm_id :: uuid
  mm_tenant :: string
  mm_service :: string
  mm_version :: string
  mm_policy :: compatibility_policy
  mm_policy_version :: string
  mm_symptom :: string
  mm_action :: string
  mm_outcome :: string
  mm_score :: real
  mm_semantics :: "memory_outcome option"
  mm_confidence :: real
  mm_valid :: bool
  mm_state :: memory_state
  mm_superseded_by :: "uuid option"
  mm_source_incident :: "uuid option"
  mm_observed_by :: "string option"
  mm_verification :: evidence_verification
  mm_evidence_refs :: "string list"
  mm_window :: "int option"
  mm_postconditions :: "string list"
  mm_reviewed_by :: "string option"
  mm_reviewed_at :: "time option"
  mm_observation_digest :: "string option"
  mm_assessment_digest :: "string option"
  mm_verdict_digest :: "string option"
  mm_digest :: "string option"
  mm_governance_policy :: string
  mm_governance_version :: int
  mm_expires_at :: "time option"
  mm_superseded_at :: "time option"
  mm_revoked_at :: "time option"
  mm_space :: string
  mm_embedding :: "real list"
  mm_created :: time

definition memory_fields_ok :: "memory \<Rightarrow> bool" where
  "memory_fields_ok m \<longleftrightarrow> sized 3 80 (mm_policy_version m) \<and> - 1 \<le> mm_score m \<and> mm_score m \<le> 1 \<and>
     0 \<le> mm_confidence m \<and> mm_confidence m \<le> 1 \<and> length (mm_evidence_refs m) \<le> 20 \<and>
     opt_all (\<lambda>n. 1 \<le> n \<and> n \<le> 2592000) (mm_window m) \<and> length (mm_postconditions m) \<le> 20 \<and>
     opt_all hex64 (mm_observation_digest m) \<and> opt_all hex64 (mm_assessment_digest m) \<and>
     opt_all hex64 (mm_verdict_digest m) \<and> opt_all hex64 (mm_digest m) \<and>
     sized 3 80 (mm_governance_policy m) \<and> 1 \<le> mm_governance_version m \<and>
     sized 3 300 (mm_space m) \<and> length (mm_embedding m) = 1024"

definition derived_outcome :: "real \<Rightarrow> memory_outcome" where
  "derived_outcome score =
     (if 0 < score then OutcomePositive else if score < 0 then OutcomeNegative else OutcomeInconclusive)"

text \<open>The evidence a memory's digest binds.\<close>

definition memory_evidence :: "memory \<Rightarrow> memory_outcome \<Rightarrow> json" where
  "memory_evidence m outcome = JObj
    [(''source_incident_id'', jopt (py_or (mm_source_incident m) None)),
     (''service'', JStr (mm_service m)), (''service_version'', JStr (mm_version m)),
     (''action'', JStr (mm_action m)),
     (''observation_digest'', jopt (mm_observation_digest m)),
     (''assessment_digest'', jopt (mm_assessment_digest m)),
     (''verdict_digest'', jopt (mm_verdict_digest m)),
     (''outcome_semantics'', JStr (outcome_value outcome)), (''outcome_score'', JNum (mm_score m)),
     (''compatibility_policy'', JStr (policy_value (mm_policy m))),
     (''compatibility_policy_version'', JStr (mm_policy_version m)),
     (''governance_policy_version'', JStr (mm_governance_policy m)),
     (''created_at'', JStr (iso_z (mm_created m)))]"

definition memory_domain :: string where
  "memory_domain = ''recallops-memory-v1''"

definition memory_evidence_digest :: "jcs \<Rightarrow> memory \<Rightarrow> string" where
  "memory_evidence_digest jcs m =
     domain_hash jcs memory_domain (memory_evidence m (derived_outcome (mm_score m)))"

datatype domain_error =
    FieldInvalid
  | OutcomeSemanticsMismatch
  | MemoryDigestMismatch
  | ReasonNotForDecision
  | ReasonNotForRevocation
  | NoteRequired

text \<open>\<open>Memory(...)\<close>: the field constraints, then \<open>derive_policy_fields\<close>.\<close>

definition derive_policy_fields :: "jcs \<Rightarrow> memory \<Rightarrow> domain_error + memory" where
  "derive_policy_fields jcs m =
    (let derived = derived_outcome (mm_score m); expected = memory_evidence_digest jcs m in
     if mm_semantics m \<noteq> None \<and> mm_semantics m \<noteq> Some derived then Inl OutcomeSemanticsMismatch
     else let m1 = m\<lparr>mm_semantics := Some derived\<rparr> in
       case mm_digest m1 of
         None \<Rightarrow> Inr (m1\<lparr>mm_digest := Some expected\<rparr>)
       | Some d \<Rightarrow>
           if mm_governance_policy m1 = ''memory-governance-v1'' \<and> d \<noteq> expected
           then Inl MemoryDigestMismatch else Inr m1)"

definition make_memory :: "jcs \<Rightarrow> memory \<Rightarrow> domain_error + memory" where
  "make_memory jcs m = bind_r (check_r (memory_fields_ok m) FieldInvalid) (\<lambda>_. derive_policy_fields jcs m)"

text \<open>A memory as the validator leaves it.\<close>

definition wf_memory :: "jcs \<Rightarrow> memory \<Rightarrow> bool" where
  "wf_memory jcs m \<longleftrightarrow> memory_fields_ok m \<and> mm_semantics m = Some (derived_outcome (mm_score m)) \<and>
     (\<exists>d. mm_digest m = Some d \<and>
       (mm_governance_policy m = ''memory-governance-v1'' \<longrightarrow> d = memory_evidence_digest jcs m))"

lemma memory_domain_accepted: "content_digest jcs memory_domain v = Inr (domain_hash jcs memory_domain v)"
proof -
  have "list_all ascii_char memory_domain \<and> nul \<notin> set memory_domain \<and> memory_domain \<noteq> []"
    by code_simp
  then show ?thesis by (simp add: content_digest_def)
qed

lemma memory_evidence_digest_updates [simp]:
  "memory_evidence_digest jcs (m\<lparr>mm_semantics := s\<rparr>) = memory_evidence_digest jcs m"
  "memory_evidence_digest jcs (m\<lparr>mm_digest := d\<rparr>) = memory_evidence_digest jcs m"
  by (simp_all add: memory_evidence_digest_def memory_evidence_def)

definition memory_acceptable :: "jcs \<Rightarrow> memory \<Rightarrow> bool" where
  "memory_acceptable jcs m \<longleftrightarrow> memory_fields_ok m \<and>
     (mm_semantics m = None \<or> mm_semantics m = Some (derived_outcome (mm_score m))) \<and>
     (mm_digest m = None \<or> mm_governance_policy m \<noteq> ''memory-governance-v1'' \<or>
        mm_digest m = Some (memory_evidence_digest jcs m))"

text \<open>
  C21. The validator of a memory: it accepts exactly the field-valid inputs whose outcome
  semantics, when given, is the sign of the score and whose digest, when given under the
  current governance policy, is the digest of the evidence; the memory it returns is well
  formed, differs from the input in those two fields only, and is a fixed point, so a stored
  memory is validated to itself.
\<close>

theorem make_memory_correct:
  "case make_memory jcs m of
     Inl e \<Rightarrow> \<not> memory_acceptable jcs m
   | Inr m' \<Rightarrow> memory_acceptable jcs m \<and> wf_memory jcs m' \<and> make_memory jcs m' = Inr m' \<and>
       m' = m\<lparr>mm_semantics := mm_semantics m', mm_digest := mm_digest m'\<rparr>"
proof (cases "memory_acceptable jcs m")
  case False
  then have "\<exists>e. make_memory jcs m = Inl e"
    by (auto simp: make_memory_def derive_policy_fields_def memory_acceptable_def Let_def
        split: option.splits)
  with False show ?thesis by auto
next
  case True
  then have acc: "memory_fields_ok m" "mm_semantics m = None \<or> mm_semantics m = Some (derived_outcome (mm_score m))"
    "mm_digest m = None \<or> mm_governance_policy m \<noteq> ''memory-governance-v1'' \<or>
       mm_digest m = Some (memory_evidence_digest jcs m)"
    by (simp_all add: memory_acceptable_def)
  define d where "d = (case mm_digest m of None \<Rightarrow> memory_evidence_digest jcs m | Some d \<Rightarrow> d)"
  define m' where "m' = m\<lparr>mm_semantics := Some (derived_outcome (mm_score m)), mm_digest := Some d\<rparr>"
  have make: "make_memory jcs m = Inr m'"
    using acc by (auto simp: make_memory_def derive_policy_fields_def Let_def d_def m'_def split: option.splits)
  have fields: "memory_fields_ok m'"
    using acc(1) by (auto simp: memory_fields_ok_def m'_def d_def memory_evidence_digest_def split: option.split)
  have digest: "mm_governance_policy m = ''memory-governance-v1'' \<Longrightarrow> d = memory_evidence_digest jcs m"
    using acc(3) by (auto simp: d_def split: option.split)
  have same: "memory_evidence_digest jcs m' = memory_evidence_digest jcs m"
    by (simp add: m'_def)
  have wf: "wf_memory jcs m'"
    using fields digest same by (simp add: wf_memory_def) (simp add: m'_def)
  have "make_memory jcs m' = Inr m'"
    using fields digest same by (auto simp: make_memory_def derive_policy_fields_def Let_def) (auto simp: m'_def)
  with True make wf show ?thesis by (simp add: m'_def)
qed

section \<open>Reviewer decisions\<close>

text \<open>\<open>str.strip\<close> on ASCII space; a note of other space characters is treated as text.\<close>

definition py_space :: "char \<Rightarrow> bool" where
  "py_space c \<longleftrightarrow> (let n = of_char c :: nat in 9 \<le> n \<and> n \<le> 13 \<or> 28 \<le> n \<and> n \<le> 32)"

definition blank :: "string \<Rightarrow> bool" where
  "blank s \<longleftrightarrow> list_all py_space s"

record disposition_request =
  dq_decision :: reviewer_decision
  dq_digest :: string
  dq_reason :: review_reason
  dq_note :: string

fun decision_reasons :: "reviewer_decision \<Rightarrow> review_reason list" where
  "decision_reasons DecideCertify = [EVIDENCE_ACCEPTED]"
| "decision_reasons DecideQuarantine =
     [NEEDS_INVESTIGATION, INSUFFICIENT_EVIDENCE, POLICY_CONFLICT, OTHER_BOUNDED]"
| "decision_reasons DecideReject =
     [INVALID_BINDING, INSUFFICIENT_EVIDENCE, POLICY_CONFLICT, OTHER_BOUNDED]"

definition make_disposition :: "disposition_request \<Rightarrow> domain_error + disposition_request" where
  "make_disposition q =
     (if \<not> hex64 (dq_digest q) \<or> \<not> sized 0 280 (dq_note q) then Inl FieldInvalid
      else if dq_reason q \<notin> set (decision_reasons (dq_decision q)) then Inl ReasonNotForDecision
      else if dq_reason q = OTHER_BOUNDED \<and> blank (dq_note q) then Inl NoteRequired
      else Inr q)"

record revocation_request =
  vq_digest :: string
  vq_reason :: review_reason
  vq_note :: string

definition revocation_reasons :: "review_reason list" where
  "revocation_reasons = [NEW_CONTRADICTORY_EVIDENCE, POLICY_CHANGE, COMPATIBILITY_INVALIDATED,
     DATA_QUALITY, OTHER_BOUNDED]"

definition make_revocation :: "revocation_request \<Rightarrow> domain_error + revocation_request" where
  "make_revocation q =
     (if \<not> hex64 (vq_digest q) \<or> \<not> sized 0 280 (vq_note q) then Inl FieldInvalid
      else if vq_reason q \<notin> set revocation_reasons then Inl ReasonNotForRevocation
      else if vq_reason q = OTHER_BOUNDED \<and> blank (vq_note q) then Inl NoteRequired
      else Inr q)"

section \<open>Governance requests and events\<close>

record governance_request =
  gr_tenant :: string
  gr_actor :: string
  gr_action :: governance_action
  gr_reason :: string
  gr_code :: review_reason
  gr_replacement :: "uuid option"

definition valid_governance_request :: "governance_request \<Rightarrow> bool" where
  "valid_governance_request r \<longleftrightarrow> sized 1 80 (gr_tenant r) \<and> slug (gr_tenant r) \<and>
     sized 1 120 (gr_actor r) \<and> sized 3 1000 (gr_reason r)"

record memory_event =
  me_id :: uuid
  me_memory :: uuid
  me_tenant :: string
  me_actor :: string
  me_action :: governance_action
  me_reason :: string
  me_code :: review_reason
  me_digest :: "string option"
  me_from :: memory_state
  me_to :: memory_state
  me_created :: time

section \<open>Analyses, approvals and executions\<close>

record retrieved_memory =
  rm_memory :: memory
  rm_similarity :: real
  rm_compatibility :: real
  rm_freshness :: real
  rm_confidence :: real
  rm_rank :: real

definition valid_retrieved :: "retrieved_memory \<Rightarrow> bool" where
  "valid_retrieved r \<longleftrightarrow> - 1 \<le> rm_similarity r \<and> rm_similarity r \<le> 1 \<and>
     0 \<le> rm_compatibility r \<and> rm_compatibility r \<le> 1 \<and> 0 \<le> rm_freshness r \<and> rm_freshness r \<le> 1 \<and>
     0 \<le> rm_confidence r \<and> rm_confidence r \<le> 1"

record candidate_decision =
  cd_memory :: uuid
  cd_disposition :: candidate_disposition
  cd_reasons :: "string list"
  cd_rank :: real

record plan_step =
  ps_sequence :: int
  ps_objective :: string
  ps_tool :: string
  ps_risk :: action_risk
  ps_stop :: string

record proposed_action =
  pa_name :: string
  pa_command :: string
  pa_risk :: action_risk
  pa_rationale :: string
  pa_requires_approval :: bool
  pa_hash :: "string option"

record tool_trace =
  tt_sequence :: int
  tt_tool :: string
  tt_risk :: action_risk
  tt_status :: tool_status
  tt_input_digest :: string
  tt_attempts :: int
  tt_timeout :: "real option"
  tt_refs :: "string list"
  tt_degraded :: "string option"

record analysis =
  an_incident :: uuid
  an_status :: incident_status
  an_diagnosis :: string
  an_confidence :: real
  an_memories :: "retrieved_memory list"
  an_action :: proposed_action
  an_trace :: "tool_trace list"
  an_plan :: "plan_step list"
  an_candidates :: "candidate_decision list"
  an_abstention :: "string list"
  an_degraded :: "string list"
  an_policy :: string
  an_created :: time

record approval =
  ap_incident :: uuid
  ap_tenant :: string
  ap_actor :: string
  ap_approved :: bool
  ap_hash :: string
  ap_reason :: string
  ap_created :: time

record attestation =
  at_incident :: uuid
  at_tenant :: string
  at_actor :: string
  at_hash :: string
  at_action :: string
  at_refs :: "string list"
  at_verification :: evidence_verification
  at_created :: time

record sandbox_metrics =
  sm_workers :: int
  sm_connections :: int
  sm_latency :: int
  sm_error_rate :: real

definition valid_metrics :: "sandbox_metrics \<Rightarrow> bool" where
  "valid_metrics m \<longleftrightarrow> 1 \<le> sm_workers m \<and> sm_workers m \<le> 1024 \<and>
     0 \<le> sm_connections m \<and> sm_connections m \<le> 100000 \<and>
     0 \<le> sm_latency m \<and> sm_latency m \<le> 120000 \<and> 0 \<le> sm_error_rate m \<and> sm_error_rate m \<le> 1"

record sandbox_execution =
  sx_id :: uuid
  sx_incident :: uuid
  sx_tenant :: string
  sx_actor :: string
  sx_proposal :: string
  sx_action :: string
  sx_simulator :: string
  sx_key :: string
  sx_before :: sandbox_metrics
  sx_after :: sandbox_metrics
  sx_digest :: string
  sx_created :: time

record policy_verdict =
  pv_class :: postcheck_class
  pv_policy :: string
  pv_passed :: "string list"
  pv_failed :: "string list"
  pv_digest :: string
  pv_computed :: time

record postcheck_observation =
  po_id :: uuid
  po_execution :: uuid
  po_incident :: uuid
  po_tenant :: string
  po_proposal :: string
  po_execution_digest :: string
  po_source :: string
  po_window :: int
  po_before :: sandbox_metrics
  po_after :: sandbox_metrics
  po_digest :: string
  po_observed :: time

record postcheck_assessment =
  pt_id :: uuid
  pt_observation :: uuid
  pt_incident :: uuid
  pt_tenant :: string
  pt_agent :: string
  pt_class :: postcheck_class
  pt_rationale :: string
  pt_digest :: string
  pt_created :: time

end
