(* ===== verification/Ranking.thy ===== *)
theory Ranking
  imports Domain "HOL-Library.Char_ord" "HOL-Library.List_Lexorder" "HOL-Library.Product_Lexorder"
begin

text \<open>
  The retrieval of memories in \<^verbatim>\<open>src/recallops/store.py\<close>: cosine similarity, the rank score,
  version compatibility, the ranking of one memory, and the selection and ordering of
  \<open>InMemoryStore.find_memories\<close>. A Python float is a real number (rounding is not modelled).
\<close>

section \<open>Similarity and rank score\<close>

datatype retrieval_error = LengthMismatch

definition dot :: "real list \<Rightarrow> real list \<Rightarrow> real" where
  "dot xs ys = sum_list (map (\<lambda>(a, b). a * b) (zip xs ys))"

definition norm_l :: "real list \<Rightarrow> real" where
  "norm_l xs = sqrt (sum_list (map (\<lambda>v. v * v) xs))"

text \<open>\<open>zip(..., strict=True)\<close> raises on lists of different lengths.\<close>

definition cosine_similarity :: "real list \<Rightarrow> real list \<Rightarrow> retrieval_error + real" where
  "cosine_similarity left right =
     (if length left \<noteq> length right then Inl LengthMismatch
      else Inr (if norm_l left \<noteq> 0 \<and> norm_l right \<noteq> 0
                then dot left right / (norm_l left * norm_l right) else 0))"

definition memory_rank_score :: "real \<Rightarrow> real \<Rightarrow> real \<Rightarrow> real \<Rightarrow> real" where
  "memory_rank_score similarity outcome compatibility confidence =
     0.55 * similarity + 0.25 * outcome + 0.15 * compatibility + 0.05 * confidence"

section \<open>Version compatibility\<close>

text \<open>
  The pattern \<open>_SEMANTIC_VERSION\<close> under \<open>fullmatch\<close>; the result is the text of the groups
  \<open>major\<close> and \<open>minor\<close>. Digits are the ASCII ones. The pattern is deterministic: a number is
  a zero or a digit run that starts with another digit, and each part is followed by a
  character that could not extend it.
\<close>

definition digit :: "char \<Rightarrow> bool" where
  "digit c \<longleftrightarrow> 48 \<le> (of_char c :: nat) \<and> (of_char c :: nat) \<le> 57"

fun number_token :: "string \<Rightarrow> (string \<times> string) option" where
  "number_token [] = None"
| "number_token (c # r) =
     (if c = CHR ''0'' then Some ([c], r)
      else if digit c then Some (c # takeWhile digit r, dropWhile digit r)
      else None)"

fun dotted :: "string \<Rightarrow> (string \<times> string) option" where
  "dotted [] = None"
| "dotted (c # r) = (if c = CHR ''.'' then number_token r else None)"

definition suffix_char :: "char \<Rightarrow> bool" where
  "suffix_char c \<longleftrightarrow> slug_char c \<and> c \<noteq> CHR ''_'' \<or> c = CHR ''.''"

fun version_suffix :: "string \<Rightarrow> bool" where
  "version_suffix [] \<longleftrightarrow> True"
| "version_suffix (c # r) \<longleftrightarrow> (c = CHR ''-'' \<or> c = CHR ''+'') \<and> r \<noteq> [] \<and> list_all suffix_char r"

fun strip_v :: "string \<Rightarrow> string" where
  "strip_v [] = []"
| "strip_v (c # r) = (if c = CHR ''v'' \<or> c = CHR ''V'' then r else c # r)"

definition semantic_version :: "string \<Rightarrow> (string \<times> string) option" where
  "semantic_version s =
    (case number_token (strip_v s) of None \<Rightarrow> None
     | Some (major, r) \<Rightarrow>
        (case dotted r of None \<Rightarrow> None
         | Some (minor, r') \<Rightarrow>
            (case dotted r' of
               Some (_, r'') \<Rightarrow> if version_suffix r'' then Some (major, minor) else None
             | None \<Rightarrow> if version_suffix r' then Some (major, minor) else None)))"

definition version_compatibility :: "string \<Rightarrow> string \<Rightarrow> compatibility_policy \<Rightarrow> real" where
  "version_compatibility mv iv policy =
     (if mv = iv then 1
      else case (semantic_version mv, semantic_version iv) of
        (Some (major, minor), Some (major', minor')) \<Rightarrow>
          (let same_major = (major = major'); same_minor = (same_major \<and> minor = minor') in
           if policy = SemverPatch \<and> same_minor then 1
           else if policy = SemverMinor \<and> same_major then 1
           else if \<not> same_major then 0
           else if \<not> same_minor then 0.35
           else 0.8)
      | _ \<Rightarrow> 0.2)"

lemma semantic_version_examples:
  "semantic_version ''v2.10.3-rc.1'' = Some (''2'', ''10'')"
  "semantic_version ''2.10'' = Some (''2'', ''10'')"
  "semantic_version ''02.1'' = None"
  "semantic_version ''2.1.'' = None"
  "semantic_version ''2.1.3_4'' = None"
  by code_simp+

lemma version_compatibility_range: "0 \<le> version_compatibility mv iv p \<and> version_compatibility mv iv p \<le> 1"
  by (auto simp: version_compatibility_def Let_def split: option.split)

text \<open>
  Full compatibility, the only value the safety gate accepts for reuse, is exactly: the
  same version text, or two semantic versions that agree on the major number (and, under the
  patch policy, on the minor one) under a policy that allows it. Everything else scores less
  than one, so an \<open>EXACT\<close> memory is only ever fully compatible with its own version.
\<close>

theorem full_compatibility_iff:
  "version_compatibility mv iv p = 1 \<longleftrightarrow>
     mv = iv \<or>
     (\<exists>major minor minor'. semantic_version mv = Some (major, minor) \<and>
        semantic_version iv = Some (major, minor') \<and>
        (p = SemverMinor \<or> p = SemverPatch \<and> minor = minor'))"
  by (auto simp: version_compatibility_def Let_def split: option.split)

section \<open>Ranking a memory\<close>

definition age_days :: "time \<Rightarrow> memory \<Rightarrow> real" where
  "age_days as_of m = max 0 (real_of_int (as_of - mm_created m) / 1000000 / 86400)"

definition freshness :: "real \<Rightarrow> real" where
  "freshness days = (1 / 2) powr (days / 180)"

definition rank_memory :: "memory \<Rightarrow> real \<Rightarrow> string \<Rightarrow> time \<Rightarrow> retrieved_memory" where
  "rank_memory m similarity version as_of =
    (let fresh = freshness (age_days as_of m);
         confidence = mm_confidence m * fresh;
         outcome = (if 0 < mm_score m then mm_score m * fresh else mm_score m);
         compat = version_compatibility (mm_version m) version (mm_policy m)
     in \<lparr>rm_memory = m, rm_similarity = max (- 1) (min 1 similarity), rm_compatibility = compat,
         rm_freshness = fresh, rm_confidence = confidence,
         rm_rank = memory_rank_score similarity outcome compat confidence\<rparr>)"

lemma freshness_range: "0 \<le> d \<Longrightarrow> 0 < freshness d \<and> freshness d \<le> 1"
  by (simp add: freshness_def powr_le1)

lemma freshness_antimono: "a \<le> b \<Longrightarrow> freshness b \<le> freshness a"
  by (simp add: freshness_def powr_mono')

lemma rank_memory_simps [simp]:
  "rm_memory (rank_memory m sim v t) = m"
  "rm_compatibility (rank_memory m sim v t) = version_compatibility (mm_version m) v (mm_policy m)"
  by (simp_all add: rank_memory_def Let_def)

text \<open>
  Ranking never produces an invalid result: for every well-formed memory, whatever the
  similarity and the clock, the constructed \<open>RetrievedMemory\<close> satisfies its field bounds, so
  its validation cannot raise; and ageing a memory never raises its rank.
\<close>

theorem rank_memory_bounded:
  assumes "0 \<le> mm_confidence m" and "mm_confidence m \<le> 1" and "t \<le> t'"
  shows "valid_retrieved (rank_memory m sim v t) \<and>
    rm_rank (rank_memory m sim v t') \<le> rm_rank (rank_memory m sim v t)"
proof
  have f: "0 < freshness (age_days u m)" "freshness (age_days u m) \<le> 1" for u
    using freshness_range [of "age_days u m"] by (simp_all add: age_days_def)
  then show "valid_retrieved (rank_memory m sim v t)"
    using assms(1,2) version_compatibility_range [of "mm_version m" v "mm_policy m"]
      mult_mono [of "mm_confidence m" 1 "freshness (age_days t m)" 1]
    by (simp add: valid_retrieved_def rank_memory_def Let_def less_imp_le)
  have "age_days t m \<le> age_days t' m"
    unfolding age_days_def using assms(3) by (intro max.mono divide_right_mono) simp_all
  then have le: "freshness (age_days t' m) \<le> freshness (age_days t m)"
    by (rule freshness_antimono)
  have c: "mm_confidence m * freshness (age_days t' m) \<le> mm_confidence m * freshness (age_days t m)"
    using le assms(1) by (rule mult_left_mono)
  have o: "0 < mm_score m \<Longrightarrow> mm_score m * freshness (age_days t' m) \<le> mm_score m * freshness (age_days t m)"
    using le by (simp add: mult_left_mono)
  show "rm_rank (rank_memory m sim v t') \<le> rm_rank (rank_memory m sim v t)"
  proof -
    have eq: "rm_rank (rank_memory m sim v u) = 11 / 20 * sim +
        1 / 4 * (if 0 < mm_score m then mm_score m * freshness (age_days u m) else mm_score m) +
        3 / 20 * version_compatibility (mm_version m) v (mm_policy m) +
        1 / 20 * (mm_confidence m * freshness (age_days u m))" for u
      by (simp add: rank_memory_def Let_def memory_rank_score_def)
    show ?thesis
    proof (cases "0 < mm_score m")
      case True
      from c o [OF True] show ?thesis unfolding eq if_P [OF True] by linarith
    next
      case False
      from c show ?thesis unfolding eq if_not_P [OF False] by linarith
    qed
  qed
qed

definition sample_memory :: memory where
  "sample_memory = \<lparr>mm_id = ''m1'', mm_tenant = ''acme'', mm_service = ''checkout'', mm_version = ''1.2.0'',
     mm_policy = ExactVersion, mm_policy_version = ''semver-v1'', mm_symptom = ''latency'',
     mm_action = ''rollback'', mm_outcome = ''recovered'', mm_score = 1, mm_semantics = Some OutcomePositive,
     mm_confidence = 1, mm_valid = True, mm_state = MActive, mm_superseded_by = None,
     mm_source_incident = Some ''i1'', mm_observed_by = Some ''op-1'', mm_verification = SystemObserved,
     mm_evidence_refs = [], mm_window = None, mm_postconditions = [], mm_reviewed_by = Some ''rev-1'',
     mm_reviewed_at = None, mm_observation_digest = None, mm_assessment_digest = None,
     mm_verdict_digest = None, mm_digest = None, mm_governance_policy = ''memory-governance-v1'',
     mm_governance_version = 2, mm_expires_at = None, mm_superseded_at = None, mm_revoked_at = None,
     mm_space = ''space-1'', mm_embedding = [1, 0], mm_created = 0\<rparr>"

lemma rank_memory_bounded_witness:
  "valid_retrieved (rank_memory sample_memory 1 ''1.2.0'' 0) \<and>
   rm_rank (rank_memory sample_memory 1 ''1.2.0'' (seconds 86400)) \<le> rm_rank (rank_memory sample_memory 1 ''1.2.0'' 0)"
  by (rule rank_memory_bounded) (simp_all add: sample_memory_def)

section \<open>Retrieval\<close>

text \<open>Python's \<open>xs[:limit]\<close> and the stable descending \<open>sorted(xs, key=k, reverse=True)\<close>.\<close>

definition py_prefix :: "int \<Rightarrow> 'a list \<Rightarrow> 'a list" where
  "py_prefix n xs = (if n < 0 then take (length xs - nat (- n)) xs else take (nat n) xs)"

definition sorted_desc :: "('a \<Rightarrow> 'k :: linorder) \<Rightarrow> 'a list \<Rightarrow> 'a list" where
  "sorted_desc key xs = rev (sort_key key (rev xs))"

lemma set_sorted_desc [simp]: "set (sorted_desc key xs) = set xs"
  by (simp add: sorted_desc_def)

lemma sorted_sorted_desc: "sorted_wrt (\<lambda>a b. key b \<le> key a) (sorted_desc key xs)"
proof -
  have "sorted_wrt (\<lambda>a b. key a \<le> key b) (sort_key key (rev xs))"
    using sorted_sort_key [of key "rev xs"] by (simp add: sorted_wrt_map)
  then show ?thesis by (simp add: sorted_desc_def sorted_wrt_rev)
qed

lemma take_sorted_wrt_top:
  assumes "sorted_wrt R xs" and "a \<in> set (take n xs)" and "b \<in> set xs" and "b \<notin> set (take n xs)"
  shows "R a b"
proof -
  have "b \<in> set (drop n xs)"
    using assms(3,4) by (metis Un_iff append_take_drop_id set_append)
  moreover have "sorted_wrt R (take n xs @ drop n xs)" using assms(1) by simp
  ultimately show ?thesis using assms(2) by (simp only: sorted_wrt_append)
qed

text \<open>The memories a query may see: the predicate of \<open>find_memories\<close>.\<close>

definition retrievable :: "incident \<Rightarrow> string \<Rightarrow> time \<Rightarrow> memory \<Rightarrow> bool" where
  "retrievable i space as_of m \<longleftrightarrow> mm_tenant m = in_tenant i \<and> mm_service m = in_service i \<and>
     mm_space m = space \<and> mm_valid m \<and> mm_state m = MActive \<and>
     mm_semantics m \<noteq> Some OutcomeInconclusive \<and>
     (case mm_expires_at m of None \<Rightarrow> True | Some e \<Rightarrow> as_of < e) \<and>
     mm_superseded_at m = None \<and> mm_revoked_at m = None"

definition retrieval_key :: "retrieved_memory \<Rightarrow> real \<times> real \<times> int \<times> string" where
  "retrieval_key r = (rm_rank r, rm_similarity r, mm_created (rm_memory r), mm_id (rm_memory r))"

fun rank_all :: "real list \<Rightarrow> string \<Rightarrow> time \<Rightarrow> memory list \<Rightarrow> retrieval_error + retrieved_memory list" where
  "rank_all emb v as_of [] = Inr []"
| "rank_all emb v as_of (m # ms) =
     bind_r (cosine_similarity (mm_embedding m) emb) (\<lambda>sim.
     bind_r (rank_all emb v as_of ms) (\<lambda>rs. Inr (rank_memory m sim v as_of # rs)))"

definition find_in ::
  "memory list \<Rightarrow> incident \<Rightarrow> real list \<Rightarrow> string \<Rightarrow> int \<Rightarrow> time \<Rightarrow> retrieval_error + retrieved_memory list" where
  "find_in ms i emb space limit as_of =
     bind_r (rank_all emb (in_version i) as_of (filter (retrievable i space as_of) ms)) (\<lambda>rs.
       Inr (py_prefix limit (sorted_desc retrieval_key rs)))"

definition similarity_to :: "real list \<Rightarrow> memory \<Rightarrow> real" where
  "similarity_to emb m = (case cosine_similarity (mm_embedding m) emb of Inl _ \<Rightarrow> 0 | Inr s \<Rightarrow> s)"

lemma rank_all_eq:
  "rank_all emb v t ms =
     (if \<forall>m \<in> set ms. length (mm_embedding m) = length emb
      then Inr (map (\<lambda>m. rank_memory m (similarity_to emb m) v t) ms) else Inl LengthMismatch)"
  by (induction ms) (auto simp: cosine_similarity_def similarity_to_def)

text \<open>What makes a memory admissible evidence for an incident, said apart from the query.\<close>

definition in_scope :: "incident \<Rightarrow> string \<Rightarrow> memory \<Rightarrow> bool" where
  "in_scope i space m \<longleftrightarrow> (mm_tenant m, mm_service m, mm_space m) = (in_tenant i, in_service i, space)"

definition withdrawn :: "time \<Rightarrow> memory \<Rightarrow> bool" where
  "withdrawn t m \<longleftrightarrow> mm_revoked_at m \<noteq> None \<or> mm_superseded_at m \<noteq> None \<or>
     (case mm_expires_at m of None \<Rightarrow> False | Some e \<Rightarrow> e \<le> t)"

definition admissible :: "incident \<Rightarrow> string \<Rightarrow> time \<Rightarrow> memory \<Rightarrow> bool" where
  "admissible i space t m \<longleftrightarrow> in_scope i space m \<and> mm_state m = MActive \<and> mm_valid m \<and>
     mm_semantics m \<noteq> Some OutcomeInconclusive \<and> \<not> withdrawn t m"

lemma retrievable_admissible: "retrievable i space t m \<longleftrightarrow> admissible i space t m"
  by (auto simp: retrievable_def admissible_def in_scope_def withdrawn_def split: option.splits)

lemma find_in_results:
  assumes "find_in ms i emb space limit as_of = Inr rs"
  obtains n where "rs = take n (sorted_desc retrieval_key
      (map (\<lambda>m. rank_memory m (similarity_to emb m) (in_version i) as_of) (filter (retrievable i space as_of) ms)))"
  using assms that by (auto simp: find_in_def rank_all_eq py_prefix_def split: if_splits)

lemma find_in_members:
  assumes "find_in ms i emb space limit as_of = Inr rs" "r \<in> set rs"
  shows "rm_memory r \<in> set ms" "admissible i space as_of (rm_memory r)"
    "r = rank_memory (rm_memory r) (similarity_to emb (rm_memory r)) (in_version i) as_of"
proof -
  let ?rank = "\<lambda>m. rank_memory m (similarity_to emb m) (in_version i) as_of"
  obtain n where rs: "rs = take n (sorted_desc retrieval_key (map ?rank (filter (retrievable i space as_of) ms)))"
    by (rule find_in_results [OF assms(1)])
  have "r \<in> set (map ?rank (filter (retrievable i space as_of) ms))"
    using assms(2) set_take_subset unfolding rs by fastforce
  then obtain m where "m \<in> set ms" "retrievable i space as_of m" "r = ?rank m" by auto
  then show "rm_memory r \<in> set ms" "admissible i space as_of (rm_memory r)"
    "r = rank_memory (rm_memory r) (similarity_to emb (rm_memory r)) (in_version i) as_of"
    by (simp_all add: retrievable_admissible)
qed

lemma find_in_sorted:
  assumes "find_in ms i emb space limit as_of = Inr rs"
  shows "sorted_wrt (\<lambda>a b. retrieval_key b \<le> retrieval_key a) rs"
  using find_in_results [OF assms] sorted_wrt_take [OF sorted_sorted_desc] by metis

text \<open>
  C15. Safe and complete retrieval. A query returns at most \<open>limit\<close> results, in descending
  order of rank (then similarity, age and id); every result ranks a stored memory of the same
  tenant, service and embedding space that is active, valid, conclusive, unexpired, not
  superseded and not revoked at the time of the query; and every such memory that is left out
  ranks no higher than any one returned.
\<close>

theorem find_memories_safe_and_complete:
  assumes "0 \<le> limit" and "find_in ms i emb space limit as_of = Inr rs"
  shows "length rs \<le> nat limit \<and> sorted_wrt (\<lambda>a b. retrieval_key b \<le> retrieval_key a) rs \<and>
    (\<forall>r \<in> set rs. rm_memory r \<in> set ms \<and> admissible i space as_of (rm_memory r) \<and>
       r = rank_memory (rm_memory r) (similarity_to emb (rm_memory r)) (in_version i) as_of) \<and>
    (\<forall>m \<in> set ms. admissible i space as_of m \<longrightarrow>
       (let r = rank_memory m (similarity_to emb m) (in_version i) as_of in
        r \<in> set rs \<or> length rs = nat limit \<and> (\<forall>r' \<in> set rs. retrieval_key r \<le> retrieval_key r')))"
proof -
  let ?rank = "\<lambda>m. rank_memory m (similarity_to emb m) (in_version i) as_of"
  define ranked where "ranked = map ?rank (filter (retrievable i space as_of) ms)"
  define all where "all = sorted_desc retrieval_key ranked"
  have rs: "rs = take (nat limit) all"
    using assms by (simp add: find_in_def rank_all_eq all_def ranked_def py_prefix_def split: if_splits)
  have sorted: "sorted_wrt (\<lambda>a b. retrieval_key b \<le> retrieval_key a) all"
    unfolding all_def by (rule sorted_sorted_desc)
  have mem: "\<forall>r \<in> set rs. rm_memory r \<in> set ms \<and> admissible i space as_of (rm_memory r) \<and> r = ?rank (rm_memory r)"
    using find_in_members [OF assms(2)] by blast
  have top: "?rank m \<in> set rs \<or> length rs = nat limit \<and> (\<forall>r' \<in> set rs. retrieval_key (?rank m) \<le> retrieval_key r')"
    if "m \<in> set ms" "retrievable i space as_of m" for m
  proof (cases "?rank m \<in> set rs")
    case False
    have all: "?rank m \<in> set all" using that by (auto simp: all_def ranked_def)
    then have "nat limit < length all"
      using False rs by (metis not_le take_all)
    then show ?thesis using take_sorted_wrt_top [OF sorted _ all] False by (simp add: rs)
  qed simp
  show ?thesis using mem top sorted by (auto simp: rs sorted_wrt_take Let_def retrievable_admissible)
qed

lemma find_in_total:
  "\<forall>m \<in> set ms. length (mm_embedding m) = length emb \<Longrightarrow> \<exists>rs. find_in ms i emb space limit as_of = Inr rs"
  by (simp add: find_in_def rank_all_eq)

definition sample_incident :: incident where
  "sample_incident = \<lparr>in_tenant = ''acme'', in_service = ''checkout'', in_version = ''1.2.0'',
     in_symptom = ''latency'', in_key = ''key-0001''\<rparr>"

lemma find_memories_safe_and_complete_witness:
  "\<exists>rs. find_in [sample_memory, sample_memory\<lparr>mm_state := MPendingReview\<rparr>] sample_incident [1, 0] ''space-1'' 5 0
      = Inr rs \<and> length rs \<le> 5 \<and>
      (\<forall>r \<in> set rs. admissible sample_incident ''space-1'' 0 (rm_memory r))"
proof -
  have "\<forall>m \<in> set [sample_memory, sample_memory\<lparr>mm_state := MPendingReview\<rparr>].
      length (mm_embedding m) = length [1, 0 :: real]"
    by (simp add: sample_memory_def)
  from find_in_total [OF this] obtain rs where rs: "find_in [sample_memory, sample_memory\<lparr>mm_state := MPendingReview\<rparr>] sample_incident
      [1, 0] ''space-1'' 5 0 = Inr rs"
    by blast
  with find_memories_safe_and_complete [OF _ rs] show ?thesis by auto
qed

end
