(* ===== verification/Governance.thy ===== *)
theory Governance
  imports Ranking
begin

text \<open>
  The memory lifecycle of \<^verbatim>\<open>src/recallops/store.py\<close>: \<open>_governance_target\<close>, which decides whether a
  request may move a memory to the state its action names, and the update a permitted request
  makes to the memory.
\<close>

datatype governance_error =
    CannotTransition memory_state memory_state
  | InconclusiveNotCertifiable
  | CertificationNeedsEvidence
  | InvalidRevocationReason
  | IndependentReviewerRequired
  | ReviewerNoteRequired
  | ReplacementRequired
  | ReplacementNotAllowed

fun action_target :: "governance_action \<Rightarrow> memory_state" where
  "action_target GCertify = MActive"
| "action_target GActivate = MActive"
| "action_target GQuarantine = MQuarantined"
| "action_target GReject = MRejected"
| "action_target GSupersede = MSuperseded"
| "action_target GRevoke = MRevoked"
| "action_target GExpire = MExpired"

fun allowed_targets :: "memory_state \<Rightarrow> memory_state list" where
  "allowed_targets MPendingReview = [MActive, MQuarantined, MRejected]"
| "allowed_targets MActive = [MQuarantined, MSuperseded, MRevoked, MExpired]"
| "allowed_targets MQuarantined = [MActive, MRejected, MRevoked, MExpired]"
| "allowed_targets MRejected = []"
| "allowed_targets MSuperseded = []"
| "allowed_targets MRevoked = []"
| "allowed_targets MExpired = []"

text \<open>A candidate that may replace a memory.\<close>

definition replaces :: "memory \<Rightarrow> uuid option \<Rightarrow> time \<Rightarrow> memory \<Rightarrow> bool" where
  "replaces m replacement now c \<longleftrightarrow> replacement = Some (mm_id c) \<and> mm_tenant c = mm_tenant m \<and>
     mm_state c = MActive \<and> mm_valid c \<and> mm_service c = mm_service m \<and>
     version_compatibility (mm_version c) (mm_version m) (mm_policy c) = 1 \<and>
     mm_semantics c \<noteq> Some OutcomeInconclusive \<and>
     (case mm_expires_at c of None \<Rightarrow> True | Some e \<Rightarrow> now < e)"

definition governance_target ::
  "memory \<Rightarrow> governance_request \<Rightarrow> memory list \<Rightarrow> time \<Rightarrow> governance_error + memory_state" where
  "governance_target m r memories now =
    (let target = action_target (gr_action r) in
     if target \<notin> set (allowed_targets (mm_state m)) then Inl (CannotTransition (mm_state m) target)
     else if gr_action r = GCertify \<and> mm_semantics m = Some OutcomeInconclusive
     then Inl InconclusiveNotCertifiable
     else if gr_action r = GCertify \<and> gr_code r \<noteq> EVIDENCE_ACCEPTED then Inl CertificationNeedsEvidence
     else if gr_action r = GRevoke \<and> gr_code r \<notin> set revocation_reasons then Inl InvalidRevocationReason
     else if target = MActive \<and> mm_observed_by m = Some (gr_actor r) then Inl IndependentReviewerRequired
     else if gr_code r = OTHER_BOUNDED \<and> blank (gr_reason r) then Inl ReviewerNoteRequired
     else if target = MSuperseded then
       (case List.find (replaces m (gr_replacement r) now) memories of
          None \<Rightarrow> Inl ReplacementRequired
        | Some c \<Rightarrow> if mm_id c = mm_id m then Inl ReplacementRequired else Inr target)
     else if gr_replacement r \<noteq> None then Inl ReplacementNotAllowed
     else Inr target)"

text \<open>The update of \<open>govern_memory\<close>; \<open>memory.expires_at or reviewed_at\<close> keeps a set expiry.\<close>

definition governed :: "memory_state \<Rightarrow> governance_request \<Rightarrow> time \<Rightarrow> memory \<Rightarrow> memory" where
  "governed target r now m = m\<lparr>
     mm_valid := (target = MActive), mm_state := target,
     mm_superseded_by := gr_replacement r,
     mm_reviewed_by := Some (gr_actor r), mm_reviewed_at := Some now,
     mm_governance_version := mm_governance_version m + 1,
     mm_expires_at := (if target = MExpired then coalesce (mm_expires_at m) (Some now) else mm_expires_at m),
     mm_superseded_at := (if target = MSuperseded then Some now else mm_superseded_at m),
     mm_revoked_at := (if target = MRevoked then Some now else mm_revoked_at m)\<rparr>"

section \<open>The lifecycle as a state machine\<close>

inductive lifecycle_edge :: "memory_state \<Rightarrow> memory_state \<Rightarrow> bool" where
  certify: "lifecycle_edge MPendingReview MActive"
| reject: "s \<in> {MPendingReview, MQuarantined} \<Longrightarrow> lifecycle_edge s MRejected"
| quarantine: "s \<in> {MPendingReview, MActive} \<Longrightarrow> lifecycle_edge s MQuarantined"
| reinstate: "lifecycle_edge MQuarantined MActive"
| supersede: "lifecycle_edge MActive MSuperseded"
| retire: "s \<in> {MActive, MQuarantined} \<Longrightarrow> t \<in> {MRevoked, MExpired} \<Longrightarrow> lifecycle_edge s t"

inductive_simps lifecycle_edge_simps [simp]:
  "lifecycle_edge MPendingReview t"
  "lifecycle_edge MActive t"
  "lifecycle_edge MQuarantined t"
  "lifecycle_edge MRejected t"
  "lifecycle_edge MSuperseded t"
  "lifecycle_edge MRevoked t"
  "lifecycle_edge MExpired t"

definition terminal_state :: "memory_state \<Rightarrow> bool" where
  "terminal_state s \<longleftrightarrow> s \<in> {MRejected, MSuperseded, MRevoked, MExpired}"

lemma allowed_targets_edge: "t \<in> set (allowed_targets s) \<longleftrightarrow> lifecycle_edge s t"
  by (cases s; cases t) simp_all

lemma terminal_absorbing: "terminal_state s \<Longrightarrow> \<not> lifecycle_edge s t"
  by (auto simp: terminal_state_def)

lemma governance_target_edge:
  "governance_target m r ms now = Inr t \<Longrightarrow> lifecycle_edge (mm_state m) t \<and> t = action_target (gr_action r)"
  by (auto simp: governance_target_def Let_def allowed_targets_edge split: if_splits option.splits)

lemma governance_target_independent:
  "governance_target m r ms now = Inr MActive \<Longrightarrow> mm_observed_by m \<noteq> Some (gr_actor r)"
  by (auto simp: governance_target_def Let_def split: if_splits option.splits)

text \<open>The fields a governance update leaves alone: the evidence the memory's digest binds, and the rest.\<close>

definition same_evidence :: "memory \<Rightarrow> memory \<Rightarrow> bool" where
  "same_evidence m m' \<longleftrightarrow> m' = m\<lparr>mm_valid := mm_valid m', mm_state := mm_state m',
     mm_superseded_by := mm_superseded_by m', mm_reviewed_by := mm_reviewed_by m',
     mm_reviewed_at := mm_reviewed_at m', mm_governance_version := mm_governance_version m',
     mm_expires_at := mm_expires_at m', mm_superseded_at := mm_superseded_at m',
     mm_revoked_at := mm_revoked_at m'\<rparr>"

lemma same_evidence_refl [simp]: "same_evidence m m"
  by (simp add: same_evidence_def)

lemma same_evidence_governed: "same_evidence m (governed t r now m)"
  by (simp add: same_evidence_def governed_def)

lemma same_evidence_fields:
  assumes "same_evidence m m'"
  shows "mm_id m' = mm_id m \<and> mm_tenant m' = mm_tenant m \<and> mm_digest m' = mm_digest m \<and>
    mm_observed_by m' = mm_observed_by m \<and> mm_source_incident m' = mm_source_incident m \<and>
    mm_semantics m' = mm_semantics m"
  by (subst (1 2 3 4 5 6) assms [unfolded same_evidence_def]) simp

lemma same_evidence_trans: "same_evidence a b \<Longrightarrow> same_evidence b c \<Longrightarrow> same_evidence a c"
  by (cases a; cases b; cases c) (simp add: same_evidence_def)

lemma governed_simps [simp]:
  "mm_id (governed t r now m) = mm_id m"
  "mm_tenant (governed t r now m) = mm_tenant m"
  "mm_state (governed t r now m) = t"
  "mm_valid (governed t r now m) \<longleftrightarrow> t = MActive"
  "mm_governance_version (governed t r now m) = mm_governance_version m + 1"
  "mm_source_incident (governed t r now m) = mm_source_incident m"
  by (simp_all add: governed_def)

text \<open>
  A memory whose lifecycle fields agree with its state: it is valid exactly when active, and
  a superseded, revoked or expired memory says by what and when.
\<close>

definition coherent :: "memory \<Rightarrow> bool" where
  "coherent m \<longleftrightarrow> (mm_valid m \<longleftrightarrow> mm_state m = MActive) \<and>
     (mm_state m = MSuperseded \<longrightarrow> mm_superseded_at m \<noteq> None \<and> mm_superseded_by m \<noteq> None \<and>
        mm_superseded_by m \<noteq> Some (mm_id m)) \<and>
     (mm_state m = MRevoked \<longrightarrow> mm_revoked_at m \<noteq> None) \<and>
     (mm_state m = MExpired \<longrightarrow> mm_expires_at m \<noteq> None) \<and>
     (mm_superseded_at m \<noteq> None \<longrightarrow> mm_state m = MSuperseded) \<and>
     (mm_revoked_at m \<noteq> None \<longrightarrow> mm_state m = MRevoked)"

lemma governed_coherent:
  assumes "governance_target m r ms now = Inr t" and "coherent m"
  shows "coherent (governed t r now m)"
proof -
  have edge: "lifecycle_edge (mm_state m) t"
    using governance_target_edge [OF assms(1)] by blast
  have sup: "t = MSuperseded \<Longrightarrow> gr_replacement r \<noteq> None \<and> gr_replacement r \<noteq> Some (mm_id m)"
    using assms(1)
    by (auto simp: governance_target_def Let_def replaces_def split: if_splits option.splits
        dest!: find_Some_conj)
  have "mm_state m \<noteq> MSuperseded" "mm_state m \<noteq> MRevoked"
    using edge by (metis lifecycle_edge_simps(5), metis lifecycle_edge_simps(6))
  with assms(2) have none: "mm_superseded_at m = None" "mm_revoked_at m = None"
    unfolding coherent_def by blast+
  show ?thesis
    using sup none by (cases t) (simp_all add: coherent_def governed_def coalesce_def split: option.split)
qed

definition governance_permits ::
  "memory \<Rightarrow> governance_request \<Rightarrow> memory list \<Rightarrow> time \<Rightarrow> memory_state \<Rightarrow> bool" where
  "governance_permits m r ms now t \<longleftrightarrow>
    t = action_target (gr_action r) \<and> lifecycle_edge (mm_state m) t \<and>
    (gr_action r = GCertify \<longrightarrow> mm_semantics m \<noteq> Some OutcomeInconclusive \<and> gr_code r = EVIDENCE_ACCEPTED) \<and>
    (gr_action r = GRevoke \<longrightarrow> gr_code r \<in> set revocation_reasons) \<and>
    (t = MActive \<longrightarrow> mm_observed_by m \<noteq> Some (gr_actor r)) \<and>
    (gr_code r = OTHER_BOUNDED \<longrightarrow> \<not> blank (gr_reason r)) \<and>
    (if t = MSuperseded
     then \<exists>c \<in> set ms. replaces m (gr_replacement r) now c \<and> mm_id c \<noteq> mm_id m
     else gr_replacement r = None)"

text \<open>
  The permission rule of the memory lifecycle. A request is granted exactly when its
  action's target is a lifecycle edge from the memory's state and: certification has
  conclusive evidence and the accepted-evidence code; revocation has a revocation reason;
  activation is not by the subject who observed the outcome; an open-ended reason carries a
  note; supersession names another active, valid, conclusive, unexpired memory of the same
  tenant and service that is fully version compatible, and nothing else names a replacement.
\<close>

theorem governance_permission:
  "governance_target m r ms now = Inr t \<longleftrightarrow> governance_permits m r ms now t"
proof -
  let ?found = "List.find (replaces m (gr_replacement r) now) ms"
  have unique: "mm_id c = mm_id d"
    if "replaces m (gr_replacement r) now c" "replaces m (gr_replacement r) now d" for c d
    using that unfolding replaces_def by (metis option.inject)
  have found: "(\<exists>c \<in> set ms. replaces m (gr_replacement r) now c \<and> mm_id c \<noteq> mm_id m) \<longleftrightarrow>
      (\<exists>c. ?found = Some c \<and> mm_id c \<noteq> mm_id m)"
  proof (cases ?found)
    case None
    with find_None_conj [of "replaces m (gr_replacement r) now" ms] show ?thesis by simp
  next
    case (Some d)
    with find_Some_conj [OF Some] unique show ?thesis by (metis option.inject)
  qed
  show ?thesis
    unfolding governance_permits_def found
    by (cases "gr_action r"; cases ?found)
      (auto simp: governance_target_def Let_def allowed_targets_edge)
qed

end
