(* ===== verification/Store.thy ===== *)
theory Store
  imports Governance
begin

text \<open>
  \<open>InMemoryStore\<close> of \<^verbatim>\<open>src/recallops/store.py\<close>: memories and their governance with its event log,
  analyses under an idempotency key, and the write-once records of an incident (approval,
  execution, sandbox execution, post-check, assessment). The contract the write-once records
  share is the locale \<open>write_once\<close>.
\<close>

datatype store_error =
    StoreGovernance governance_error
  | StoreRetrieval retrieval_error
  | OutcomeNeedsIncident
  | DifferentExecution
  | DifferentSandboxExecution
  | DifferentPostcheck
  | VerdictNotBound
  | DifferentAssessment
  | DifferentOutcomeMemory
  | StoreKeyError
  | StoreInvalidEvent

record mem_store =
  ms_memories :: "memory list"
  ms_analyses :: "string \<times> uuid \<Rightarrow> analysis option"
  ms_idempotency :: "string \<times> string \<Rightarrow> uuid option"
  ms_incidents :: "string \<times> uuid \<Rightarrow> incident option"
  ms_outcomes :: "string \<times> uuid \<Rightarrow> memory option"
  ms_events :: "memory_event list"
  ms_approvals :: "string \<times> uuid \<Rightarrow> approval option"
  ms_executions :: "string \<times> uuid \<Rightarrow> attestation option"
  ms_sandbox :: "string \<times> uuid \<Rightarrow> sandbox_execution option"
  ms_postchecks :: "string \<times> uuid \<Rightarrow> (postcheck_observation \<times> policy_verdict) option"
  ms_assessments :: "string \<times> uuid \<Rightarrow> postcheck_assessment option"

definition new_store :: "memory list \<Rightarrow> mem_store" where
  "new_store ms = \<lparr>ms_memories = ms, ms_analyses = Map.empty, ms_idempotency = Map.empty,
     ms_incidents = Map.empty, ms_outcomes = Map.empty, ms_events = [], ms_approvals = Map.empty,
     ms_executions = Map.empty, ms_sandbox = Map.empty, ms_postchecks = Map.empty,
     ms_assessments = Map.empty\<rparr>"

section \<open>Memories\<close>

definition add_memory :: "memory \<Rightarrow> (mem_store, store_error, unit) sx" where
  "add_memory m = (\<lambda>s. (Inr (), s\<lparr>ms_memories := ms_memories s @ [m]\<rparr>))"

definition find_memories ::
  "mem_store \<Rightarrow> incident \<Rightarrow> real list \<Rightarrow> string \<Rightarrow> int \<Rightarrow> time \<Rightarrow> retrieval_error + retrieved_memory list" where
  "find_memories s i emb space limit as_of = find_in (ms_memories s) i emb space limit as_of"

definition get_memory :: "mem_store \<Rightarrow> uuid \<Rightarrow> string \<Rightarrow> memory option" where
  "get_memory s i t = List.find (\<lambda>m. mm_id m = i \<and> mm_tenant m = t) (ms_memories s)"

definition list_memories :: "mem_store \<Rightarrow> string \<Rightarrow> string \<Rightarrow> memory list" where
  "list_memories s t service = filter (\<lambda>m. mm_tenant m = t \<and> mm_service m = service) (ms_memories s)"

definition save_outcome_memory :: "memory \<Rightarrow> (mem_store, store_error, memory) sx" where
  "save_outcome_memory m = (\<lambda>s. case mm_source_incident m of
       None \<Rightarrow> (Inl OutcomeNeedsIncident, s)
     | Some i \<Rightarrow> (case ms_outcomes s (mm_tenant m, i) of
          Some existing \<Rightarrow> (Inr existing, s)
        | None \<Rightarrow> (Inr m, s\<lparr>ms_outcomes := (ms_outcomes s)((mm_tenant m, i) \<mapsto> m),
                           ms_memories := ms_memories s @ [m]\<rparr>)))"

definition governance_event :: "memory \<Rightarrow> governance_request \<Rightarrow> memory_state \<Rightarrow> uuid \<Rightarrow> time \<Rightarrow> memory_event" where
  "governance_event m r target eid now = \<lparr>me_id = eid, me_memory = mm_id m, me_tenant = mm_tenant m,
     me_actor = gr_actor r, me_action = gr_action r, me_reason = gr_reason r, me_code = gr_code r,
     me_digest = mm_digest m, me_from = mm_state m, me_to = target, me_created = now\<rparr>"

definition valid_memory_event :: "memory_event \<Rightarrow> bool" where
  "valid_memory_event e \<longleftrightarrow> (case me_digest e of None \<Rightarrow> False | Some d \<Rightarrow> hex64 d)"

text \<open>
  \<open>govern_memory\<close>: the memory is replaced in the list and in the outcome index before the
  event is built; a memory without a digest would raise there, with the update already made.
\<close>

definition govern_memory ::
  "uuid \<Rightarrow> governance_request \<Rightarrow> uuid \<Rightarrow> time \<Rightarrow> (mem_store, store_error, memory option) sx" where
  "govern_memory i r eid now = (\<lambda>s. case get_memory s i (gr_tenant r) of
       None \<Rightarrow> (Inr None, s)
     | Some m \<Rightarrow>
        (case governance_target m r (ms_memories s) now of
           Inl e \<Rightarrow> (Inl (StoreGovernance e), s)
         | Inr target \<Rightarrow>
            (let updated = governed target r now m;
                 s1 = s\<lparr>ms_memories := replace_first m updated (ms_memories s)\<rparr>;
                 s2 = (case mm_source_incident m of None \<Rightarrow> s1
                       | Some src \<Rightarrow> s1\<lparr>ms_outcomes := (ms_outcomes s1)((mm_tenant m, src) \<mapsto> updated)\<rparr>);
                 event = governance_event m r target eid now
             in if \<not> valid_memory_event event then (Inl StoreInvalidEvent, s2)
                else (Inr (Some updated), s2\<lparr>ms_events := ms_events s2 @ [event]\<rparr>))))"

section \<open>Analyses\<close>

definition save_analysis :: "incident \<Rightarrow> analysis \<Rightarrow> (mem_store, store_error, analysis) sx" where
  "save_analysis i a = (\<lambda>s. case ms_idempotency s (in_tenant i, in_key i) of
       Some existing \<Rightarrow> (case ms_analyses s (in_tenant i, existing) of
          None \<Rightarrow> (Inl StoreKeyError, s) | Some saved \<Rightarrow> (Inr saved, s))
     | None \<Rightarrow> (Inr a, s\<lparr>
          ms_idempotency := (ms_idempotency s)((in_tenant i, in_key i) \<mapsto> an_incident a),
          ms_analyses := (ms_analyses s)((in_tenant i, an_incident a) \<mapsto> a),
          ms_incidents := (ms_incidents s)((in_tenant i, an_incident a) \<mapsto> i)\<rparr>))"

definition get_analysis :: "mem_store \<Rightarrow> uuid \<Rightarrow> string \<Rightarrow> analysis option" where
  "get_analysis s i t = ms_analyses s (t, i)"

definition get_incident :: "mem_store \<Rightarrow> uuid \<Rightarrow> string \<Rightarrow> incident option" where
  "get_incident s i t = ms_incidents s (t, i)"

section \<open>Records of an incident\<close>

definition record_approval ::
  "uuid \<Rightarrow> string \<Rightarrow> string \<Rightarrow> bool \<Rightarrow> string \<Rightarrow> string \<Rightarrow> time \<Rightarrow> (mem_store, store_error, bool) sx" where
  "record_approval i t actor approved hash reason now = (\<lambda>s.
     if ms_analyses s (t, i) = None \<or> ms_approvals s (t, i) \<noteq> None then (Inr False, s)
     else (Inr True, s\<lparr>ms_approvals := (ms_approvals s)((t, i) \<mapsto>
        \<lparr>ap_incident = i, ap_tenant = t, ap_actor = actor, ap_approved = approved, ap_hash = hash,
         ap_reason = reason, ap_created = now\<rparr>)\<rparr>))"

definition get_approval :: "mem_store \<Rightarrow> uuid \<Rightarrow> string \<Rightarrow> approval option" where
  "get_approval s i t = ms_approvals s (t, i)"

definition record_execution :: "attestation \<Rightarrow> (mem_store, store_error, attestation) sx" where
  "record_execution x = (\<lambda>s. case ms_executions s (at_tenant x, at_incident x) of
       Some e \<Rightarrow> if at_hash e \<noteq> at_hash x then (Inl DifferentExecution, s) else (Inr e, s)
     | None \<Rightarrow> (Inr x, s\<lparr>ms_executions := (ms_executions s)((at_tenant x, at_incident x) \<mapsto> x)\<rparr>))"

definition get_execution :: "mem_store \<Rightarrow> uuid \<Rightarrow> string \<Rightarrow> attestation option" where
  "get_execution s i t = ms_executions s (t, i)"

definition record_sandbox_execution :: "sandbox_execution \<Rightarrow> (mem_store, store_error, sandbox_execution) sx" where
  "record_sandbox_execution x = (\<lambda>s. case ms_sandbox s (sx_tenant x, sx_incident x) of
       Some e \<Rightarrow> if sx_proposal e \<noteq> sx_proposal x \<or> sx_key e \<noteq> sx_key x
                 then (Inl DifferentSandboxExecution, s) else (Inr e, s)
     | None \<Rightarrow> (Inr x, s\<lparr>ms_sandbox := (ms_sandbox s)((sx_tenant x, sx_incident x) \<mapsto> x)\<rparr>))"

definition get_sandbox_execution :: "mem_store \<Rightarrow> uuid \<Rightarrow> string \<Rightarrow> sandbox_execution option" where
  "get_sandbox_execution s i t = ms_sandbox s (t, i)"

definition record_postcheck ::
  "postcheck_observation \<times> policy_verdict \<Rightarrow> (mem_store, store_error, postcheck_observation \<times> policy_verdict) sx" where
  "record_postcheck ov = (\<lambda>s. case ov of (obs, verdict) \<Rightarrow>
     (case ms_postchecks s (po_tenant obs, po_incident obs) of
       Some e \<Rightarrow> if po_digest (fst e) \<noteq> po_digest obs then (Inl DifferentPostcheck, s) else (Inr e, s)
     | None \<Rightarrow>
         if pv_digest verdict \<noteq> po_digest obs then (Inl VerdictNotBound, s)
         else (Inr (obs, verdict),
               s\<lparr>ms_postchecks := (ms_postchecks s)((po_tenant obs, po_incident obs) \<mapsto> (obs, verdict))\<rparr>)))"

definition get_postcheck :: "mem_store \<Rightarrow> uuid \<Rightarrow> string \<Rightarrow> (postcheck_observation \<times> policy_verdict) option" where
  "get_postcheck s i t = ms_postchecks s (t, i)"

definition record_postcheck_assessment :: "postcheck_assessment \<Rightarrow> (mem_store, store_error, postcheck_assessment) sx" where
  "record_postcheck_assessment a = (\<lambda>s. case ms_assessments s (pt_tenant a, pt_incident a) of
       Some e \<Rightarrow> if pt_agent e \<noteq> pt_agent a \<or> pt_class e \<noteq> pt_class a \<or> pt_rationale e \<noteq> pt_rationale a
                 then (Inl DifferentAssessment, s) else (Inr e, s)
     | None \<Rightarrow> (Inr a, s\<lparr>ms_assessments := (ms_assessments s)((pt_tenant a, pt_incident a) \<mapsto> a)\<rparr>))"

definition get_postcheck_assessment :: "mem_store \<Rightarrow> uuid \<Rightarrow> string \<Rightarrow> postcheck_assessment option" where
  "get_postcheck_assessment s i t = ms_assessments s (t, i)"

section \<open>Write-once records\<close>

text \<open>
  The contract: a record under a key that is taken changes nothing and, if it succeeds,
  returns the stored value, with which it agrees; a new one is stored and returned, or
  refused without effect; other keys are untouched.
\<close>

fun run_puts :: "('v \<Rightarrow> ('s, store_error, 'v) sx) \<Rightarrow> 'v list \<Rightarrow> 's \<Rightarrow> (store_error + 'v) list \<times> 's" where
  "run_puts put [] s = ([], s)"
| "run_puts put (v # vs) s =
     (case put v s of (r, s') \<Rightarrow> case run_puts put vs s' of (rs, t) \<Rightarrow> (r # rs, t))"

locale write_once =
  fixes put :: "'v \<Rightarrow> ('s, store_error, 'v) sx"
    and stored :: "'s \<Rightarrow> 'k \<Rightarrow> 'v option"
    and key :: "'v \<Rightarrow> 'k"
    and agrees :: "'v \<Rightarrow> 'v \<Rightarrow> bool"
  assumes put_taken: "stored s (key v) = Some e \<Longrightarrow> put v s = (r, s') \<Longrightarrow>
        s' = s \<and> (\<forall>w. r = Inr w \<longrightarrow> w = e \<and> agrees e v)"
    and put_new: "stored s (key v) = None \<Longrightarrow> put v s = (Inr w, s') \<Longrightarrow>
        w = v \<and> (\<forall>k. stored s' k = (if k = key v then Some v else stored s k))"
    and put_fail: "put v s = (Inl err, s') \<Longrightarrow> s' = s"
    and agrees_refl: "agrees v v"
begin

lemma put_keeps:
  assumes "stored s k = Some v" and "put w s = (r, s')"
  shows "stored s' k = Some v"
proof (cases r)
  case (Inl err)
  with put_fail assms show ?thesis by metis
next
  case (Inr u)
  show ?thesis
  proof (cases "stored s (key w)")
    case None
    with put_new [of s w u s'] assms Inr show ?thesis by auto
  next
    case (Some e)
    with put_taken [of s w e r s'] assms show ?thesis by simp
  qed
qed

lemma put_result:
  assumes "put v s = (Inr w, s')"
  shows "stored s' (key v) = Some w \<and> (stored s (key v) = None \<longrightarrow> w = v) \<and> agrees w v"
proof (cases "stored s (key v)")
  case None
  with put_new [of s v w s'] assms agrees_refl show ?thesis by simp
next
  case (Some e)
  with put_taken [of s v e "Inr w" s'] assms show ?thesis by simp
qed

lemma puts_keep: "stored s k = Some v \<Longrightarrow> stored (snd (run_puts put vs s)) k = Some v"
proof (induction vs arbitrary: s)
  case (Cons w vs)
  obtain r s' where "put w s = (r, s')" by (metis prod.exhaust)
  with put_keeps [OF Cons.prems this] Cons.IH [of s'] show ?case by (simp add: case_prod_beta)
qed simp

text \<open>Every accepted value of a key is the one stored first.\<close>

lemma puts_single_value:
  "(v, Inr w) \<in> set (zip vs (fst (run_puts put vs s))) \<Longrightarrow>
     stored (snd (run_puts put vs s)) (key v) = Some w \<and> agrees w v"
proof (induction vs arbitrary: s)
  case (Cons u vs)
  obtain r s' where put: "put u s = (r, s')" by (metis prod.exhaust)
  show ?case
  proof (cases "(v, Inr w) = (u, r)")
    case True
    then have "put v s = (Inr w, s')" using put by simp
    from put_result [OF this] puts_keep [of s' "key v" w vs] True put show ?thesis
      by (simp add: case_prod_beta)
  next
    case False
    with Cons.prems put have "(v, Inr w) \<in> set (zip vs (fst (run_puts put vs s')))"
      by (auto simp: case_prod_beta)
    with Cons.IH [of s'] put show ?thesis by (simp add: case_prod_beta)
  qed
qed simp

end

definition attestation_key :: "attestation \<Rightarrow> string \<times> uuid" where
  "attestation_key x = (at_tenant x, at_incident x)"

definition sandbox_key :: "sandbox_execution \<Rightarrow> string \<times> uuid" where
  "sandbox_key x = (sx_tenant x, sx_incident x)"

definition postcheck_key :: "postcheck_observation \<times> policy_verdict \<Rightarrow> string \<times> uuid" where
  "postcheck_key ov = (po_tenant (fst ov), po_incident (fst ov))"

definition assessment_key :: "postcheck_assessment \<Rightarrow> string \<times> uuid" where
  "assessment_key a = (pt_tenant a, pt_incident a)"

definition assessment_agrees :: "postcheck_assessment \<Rightarrow> postcheck_assessment \<Rightarrow> bool" where
  "assessment_agrees e a \<longleftrightarrow> pt_agent e = pt_agent a \<and> pt_class e = pt_class a \<and> pt_rationale e = pt_rationale a"

interpretation executions: write_once record_execution ms_executions attestation_key "\<lambda>e x. at_hash e = at_hash x"
  by unfold_locales (auto simp: record_execution_def attestation_key_def split: option.splits if_splits)

interpretation sandboxes: write_once record_sandbox_execution ms_sandbox sandbox_key
    "\<lambda>e x. sx_proposal e = sx_proposal x \<and> sx_key e = sx_key x"
  by unfold_locales (auto simp: record_sandbox_execution_def sandbox_key_def split: option.splits if_splits)

interpretation postchecks: write_once record_postcheck ms_postchecks postcheck_key
    "\<lambda>e x. po_digest (fst e) = po_digest (fst x)"
  by unfold_locales (auto simp: record_postcheck_def postcheck_key_def split: option.splits if_splits)

interpretation assessments: write_once record_postcheck_assessment ms_assessments assessment_key assessment_agrees
  by unfold_locales
    (auto simp: record_postcheck_assessment_def assessment_key_def assessment_agrees_def
      split: option.splits if_splits)

text \<open>
  C18. A sandbox execution happens at most once per incident. Over any sequence of
  \<open>record_sandbox_execution\<close> calls on any store, all calls that succeed for one incident
  return the same recorded execution, and were made for the same approved proposal and with
  the same idempotency key; every other call is refused.
\<close>

theorem sandbox_execution_written_once:
  assumes "(x, Inr a) \<in> set (zip xs (fst (run_puts record_sandbox_execution xs s)))"
    and "(y, Inr b) \<in> set (zip xs (fst (run_puts record_sandbox_execution xs s)))"
    and "sx_tenant x = sx_tenant y" and "sx_incident x = sx_incident y"
  shows "a = b \<and> sx_proposal x = sx_proposal y \<and> sx_key x = sx_key y"
  using sandboxes.puts_single_value [OF assms(1)] sandboxes.puts_single_value [OF assms(2)] assms(3,4)
  by (simp add: sandbox_key_def)

definition sample_metrics :: sandbox_metrics where
  "sample_metrics = \<lparr>sm_workers = 32, sm_connections = 98, sm_latency = 1800, sm_error_rate = 1 / 5\<rparr>"

definition sample_execution :: sandbox_execution where
  "sample_execution = \<lparr>sx_id = ''x1'', sx_incident = ''i1'', sx_tenant = ''acme'', sx_actor = ''op-1'',
     sx_proposal = ''p1'', sx_action = ''a1'', sx_simulator = ''v1'', sx_key = ''key-0001'',
     sx_before = sample_metrics, sx_after = sample_metrics, sx_digest = ''d1'', sx_created = 0\<rparr>"

lemma sandbox_execution_written_once_witness:
  "fst (run_puts record_sandbox_execution
      [sample_execution, sample_execution\<lparr>sx_id := ''x2''\<rparr>, sample_execution\<lparr>sx_proposal := ''p2''\<rparr>]
      (new_store [])) = [Inr sample_execution, Inr sample_execution, Inl DifferentSandboxExecution] \<and>
   sx_proposal sample_execution = sx_proposal (sample_execution\<lparr>sx_id := ''x2''\<rparr>)"
proof -
  let ?xs = "[sample_execution, sample_execution\<lparr>sx_id := ''x2''\<rparr>, sample_execution\<lparr>sx_proposal := ''p2''\<rparr>]"
  have run: "fst (run_puts record_sandbox_execution ?xs (new_store []))
      = [Inr sample_execution, Inr sample_execution, Inl DifferentSandboxExecution]"
    by (simp add: record_sandbox_execution_def new_store_def sample_execution_def)
  have "sx_proposal sample_execution = sx_proposal (sample_execution\<lparr>sx_id := ''x2''\<rparr>)"
    using sandbox_execution_written_once [of sample_execution sample_execution ?xs "new_store []"
        "sample_execution\<lparr>sx_id := ''x2''\<rparr>" sample_execution] run by simp
  with run show ?thesis by simp
qed

section \<open>The audit trail of a memory\<close>

text \<open>Governance calls, issued one after the other; a refused one has no effect.\<close>

fun govern_run :: "(uuid \<times> governance_request \<times> uuid \<times> time) list \<Rightarrow> mem_store \<Rightarrow> mem_store" where
  "govern_run [] s = s"
| "govern_run ((i, r, eid, now) # ops) s = govern_run ops (snd (govern_memory i r eid now s))"

definition events_of :: "mem_store \<Rightarrow> uuid \<Rightarrow> string \<Rightarrow> memory_event list" where
  "events_of s i t = filter (\<lambda>e. me_memory e = i \<and> me_tenant e = t) (ms_events s)"

text \<open>A list of events that leads from one lifecycle state to another along its edges.\<close>

fun event_path :: "memory_state \<Rightarrow> memory_event list \<Rightarrow> memory_state \<Rightarrow> bool" where
  "event_path s [] t \<longleftrightarrow> s = t"
| "event_path s (e # es) t \<longleftrightarrow> me_from e = s \<and> lifecycle_edge s (me_to e) \<and> event_path (me_to e) es t"

definition digests_ok :: "mem_store \<Rightarrow> bool" where
  "digests_ok s \<longleftrightarrow> (\<forall>m \<in> set (ms_memories s). \<exists>d. mm_digest m = Some d \<and> hex64 d)"

definition trail_step :: "memory \<Rightarrow> memory \<Rightarrow> memory_event \<Rightarrow> bool" where
  "trail_step m m' e \<longleftrightarrow> me_from e = mm_state m \<and> me_to e = mm_state m' \<and>
     lifecycle_edge (mm_state m) (mm_state m') \<and> me_digest e = mm_digest m \<and>
     mm_governance_version m' = mm_governance_version m + 1 \<and> same_evidence m m' \<and>
     mm_reviewed_by m' = Some (me_actor e) \<and> (coherent m \<longrightarrow> coherent m') \<and>
     (me_to e = MActive \<longrightarrow> mm_observed_by m \<noteq> Some (me_actor e))"

definition mem_key :: "memory \<Rightarrow> uuid \<times> string" where
  "mem_key m = (mm_id m, mm_tenant m)"

lemma get_memory_key: "get_memory s i t = List.find (\<lambda>m. mem_key m = (i, t)) (ms_memories s)"
  by (simp add: get_memory_def mem_key_def)

lemma govern_memory_step:
  assumes "digests_ok s" and "govern_memory j r eid now s = (res, s')"
  shows "s' = s \<or>
    (\<exists>m e. get_memory s j (gr_tenant r) = Some m \<and> trail_step m (governed (me_to e) r now m) e \<and>
       me_memory e = j \<and> me_tenant e = gr_tenant r \<and>
       ms_memories s' = replace_first m (governed (me_to e) r now m) (ms_memories s) \<and>
       ms_events s' = ms_events s @ [e])"
proof (cases "get_memory s j (gr_tenant r)")
  case None
  with assms(2) show ?thesis by (simp add: govern_memory_def)
next
  case (Some m)
  then have m: "m \<in> set (ms_memories s)" "mm_id m = j" "mm_tenant m = gr_tenant r"
    using find_Some_conj [OF Some [unfolded get_memory_def]] by simp_all
  show ?thesis
  proof (cases "governance_target m r (ms_memories s) now")
    case (Inl err)
    with assms(2) Some show ?thesis by (simp add: govern_memory_def)
  next
    case (Inr t)
    let ?e = "governance_event m r t eid now"
    have "valid_memory_event ?e"
      using assms(1) m(1) by (auto simp: digests_ok_def valid_memory_event_def governance_event_def)
    then have s': "ms_memories s' = replace_first m (governed t r now m) (ms_memories s)"
      "ms_events s' = ms_events s @ [?e]"
      using assms(2) Some Inr by (auto simp: govern_memory_def Let_def split: option.splits)
    have "trail_step m (governed t r now m) ?e"
      using governance_target_edge [OF Inr] governance_target_independent [of m r _ now]
        governed_coherent [OF Inr] same_evidence_governed Inr
      by (auto simp: trail_step_def governance_event_def) (simp add: governed_def)
    with s' Some m show ?thesis by (intro disjI2 exI [of _ m] exI [of _ ?e]) (simp add: governance_event_def)
  qed
qed

lemma govern_memory_trail:
  assumes "digests_ok s" and "govern_memory j r eid now s = (res, s')" and "get_memory s i t = Some m"
  shows "digests_ok s' \<and> (\<exists>m'. get_memory s' i t = Some m' \<and>
    (m' = m \<and> events_of s' i t = events_of s i t \<or>
     (\<exists>e. trail_step m m' e \<and> events_of s' i t = events_of s i t @ [e])))"
proof -
  from govern_memory_step [OF assms(1,2)] show ?thesis
  proof (elim disjE exE conjE)
    assume "s' = s"
    with assms show ?thesis by auto
  next
    fix n :: memory and e :: memory_event
    let ?u = "governed (me_to e) r now n"
    assume n: "get_memory s j (gr_tenant r) = Some n" and step: "trail_step n ?u e"
      and e: "me_memory e = j" "me_tenant e = gr_tenant r"
      and s': "ms_memories s' = replace_first n ?u (ms_memories s)" "ms_events s' = ms_events s @ [e]"
    have key: "mem_key n = (j, gr_tenant r)" "n \<in> set (ms_memories s)"
      using find_Some_conj [OF n [unfolded get_memory_key]] by simp_all
    have ku: "mem_key ?u = mem_key n" by (simp add: mem_key_def)
    have found: "List.find (\<lambda>x. mem_key x = mem_key n) (ms_memories s) = Some n"
      using n key(1) by (simp add: get_memory_key)
    have get: "get_memory s' i t = (if (i, t) = (j, gr_tenant r) then Some ?u else get_memory s i t)"
      unfolding get_memory_key s'(1) using find_key_replace_first [OF ku found, of "(i, t)"] key(1) by simp
    have "mm_digest ?u = mm_digest n" by (simp add: governed_def)
    then have dig: "digests_ok s'"
      using assms(1) key(2) set_replace_first_subset [of n ?u "ms_memories s"]
      by (fastforce simp: digests_ok_def s'(1))
    show ?thesis
    proof (cases "(i, t) = (j, gr_tenant r)")
      case True
      with n assms(3) have "n = m" by simp
      with True get step dig e s'(2) show ?thesis by (auto simp: events_of_def)
    next
      case False
      with get dig e s'(2) assms(3) show ?thesis by (auto simp: events_of_def)
    qed
  qed
qed

text \<open>
  C14. The audit trail is complete and the evidence immutable. Whatever governance calls are
  issued, and whoever issues them, the events recorded for a memory form a path of lifecycle
  edges from its initial to its current state, one per governance version; each carries the
  memory's evidence digest, none activates it in the name of the subject who observed the
  outcome; the evidence fields never change and the lifecycle fields stay coherent.
\<close>

theorem governance_audit_trail:
  assumes "digests_ok s" and "get_memory s i t = Some m" and "coherent m"
  shows "\<exists>m' es. get_memory (govern_run ops s) i t = Some m' \<and>
    events_of (govern_run ops s) i t = events_of s i t @ es \<and>
    event_path (mm_state m) es (mm_state m') \<and>
    mm_governance_version m' = mm_governance_version m + int (length es) \<and>
    same_evidence m m' \<and> coherent m' \<and>
    (\<forall>e \<in> set es. me_digest e = mm_digest m \<and>
       (me_to e = MActive \<longrightarrow> mm_observed_by m \<noteq> Some (me_actor e)))"
  using assms
proof (induction ops arbitrary: s m)
  case Nil
  then show ?case by (intro exI [of _ m] exI [of _ "[]"]) simp
next
  case (Cons op ops)
  obtain j r eid now where op: "op = (j, r, eid, now)" by (metis prod_cases4)
  obtain res s1 where g: "govern_memory j r eid now s = (res, s1)" by (metis prod.exhaust)
  from govern_memory_trail [OF Cons.prems(1) g Cons.prems(2)] obtain m1 where
    d1: "digests_ok s1" and m1: "get_memory s1 i t = Some m1"
    and alt: "m1 = m \<and> events_of s1 i t = events_of s i t \<or>
      (\<exists>e. trail_step m m1 e \<and> events_of s1 i t = events_of s i t @ [e])"
    by blast
  have "coherent m1" using alt Cons.prems(3) by (auto simp: trail_step_def)
  from Cons.IH [OF d1 m1 this] obtain m' es where
    IH: "get_memory (govern_run ops s1) i t = Some m'"
      "events_of (govern_run ops s1) i t = events_of s1 i t @ es"
      "event_path (mm_state m1) es (mm_state m')"
      "mm_governance_version m' = mm_governance_version m1 + int (length es)"
      "same_evidence m1 m'" "coherent m'"
      "\<forall>e \<in> set es. me_digest e = mm_digest m1 \<and> (me_to e = MActive \<longrightarrow> mm_observed_by m1 \<noteq> Some (me_actor e))"
    by blast
  have run: "govern_run (op # ops) s = govern_run ops s1" using op g by simp
  from alt show ?case
  proof (elim disjE exE conjE)
    assume "m1 = m" "events_of s1 i t = events_of s i t"
    with IH run show ?thesis by auto
  next
    fix e assume st: "trail_step m m1 e" and ev: "events_of s1 i t = events_of s i t @ [e]"
    have "same_evidence m m1" using st by (simp add: trail_step_def)
    with IH(5) have "same_evidence m m'" using same_evidence_trans by blast
    with IH run st ev same_evidence_fields [OF \<open>same_evidence m m1\<close>] show ?thesis
      by (intro exI [of _ m'] exI [of _ "e # es"]) (auto simp: trail_step_def)
  qed
qed

definition sample_pending :: memory where
  "sample_pending = sample_memory\<lparr>mm_state := MPendingReview, mm_valid := False,
     mm_digest := Some (replicate 64 (CHR ''0''))\<rparr>"

definition sample_governance :: "(uuid \<times> governance_request \<times> uuid \<times> time) list" where
  "sample_governance =
    [(''m1'', \<lparr>gr_tenant = ''acme'', gr_actor = ''op-1'', gr_action = GCertify, gr_reason = ''looks right'',
       gr_code = EVIDENCE_ACCEPTED, gr_replacement = None\<rparr>, ''e0'', 1),
     (''m1'', \<lparr>gr_tenant = ''acme'', gr_actor = ''rev-1'', gr_action = GCertify, gr_reason = ''accepted'',
       gr_code = EVIDENCE_ACCEPTED, gr_replacement = None\<rparr>, ''e1'', 2),
     (''m1'', \<lparr>gr_tenant = ''acme'', gr_actor = ''rev-1'', gr_action = GRevoke, gr_reason = ''policy change'',
       gr_code = POLICY_CHANGE, gr_replacement = None\<rparr>, ''e2'', 3)]"

lemma governance_audit_trail_witness:
  "\<exists>m' es. get_memory (govern_run sample_governance (new_store [sample_pending])) ''m1'' ''acme'' = Some m' \<and>
    events_of (govern_run sample_governance (new_store [sample_pending])) ''m1'' ''acme'' = es \<and>
    event_path MPendingReview es (mm_state m') \<and> coherent m' \<and>
    mm_governance_version m' = 2 + int (length es)"
proof -
  have "digests_ok (new_store [sample_pending])"
    by (simp add: digests_ok_def new_store_def sample_pending_def hex64_def list_all_iff lower_hex_def)
  moreover have "get_memory (new_store [sample_pending]) ''m1'' ''acme'' = Some sample_pending"
    by (simp add: get_memory_def new_store_def sample_pending_def sample_memory_def)
  moreover have "coherent sample_pending"
    by (simp add: coherent_def sample_pending_def sample_memory_def)
  moreover have "events_of (new_store [sample_pending]) ''m1'' ''acme'' = []" "mm_state sample_pending = MPendingReview"
    "mm_governance_version sample_pending = 2"
    by (simp_all add: events_of_def new_store_def sample_pending_def sample_memory_def)
  ultimately show ?thesis
    using governance_audit_trail [of "new_store [sample_pending]" "''m1''" "''acme''" sample_pending sample_governance]
    by auto
qed

end
