(* ===== verification/Sandbox.thy ===== *)
theory Sandbox
  imports Domain
begin

text \<open>
  \<^verbatim>\<open>src/recallops/sandbox.py\<close>: the allow-listed simulated execution, the observation that is
  derived from it, and the deterministic post-check policy. The text of a float in the digested
  JSON is the argument \<open>frepr\<close>; a provider that cannot collect raises \<open>DependencyUnavailable\<close>.
\<close>

definition sandbox_action_id :: string where
  "sandbox_action_id = ''checkout.reduce_concurrency_and_recycle.v1''"

definition sandbox_action_command :: string where
  "sandbox_action_command = ''reduce worker concurrency to 24 and recycle saturated connections''"

definition simulator_version :: string where
  "simulator_version = ''checkout-simulator-v1''"

definition observation_source :: string where
  "observation_source = ''checkout-simulator-telemetry-v1''"

definition recovery_policy_version :: string where
  "recovery_policy_version = ''checkout-recovery-policy-v1''"

datatype sandbox_error = NotBoundToProposal | NotAllowlisted | ObservationUnavailable

definition sandbox_digest :: "(real \<Rightarrow> string) \<Rightarrow> json \<Rightarrow> string" where
  "sandbox_digest frepr j = sha256_hex (json_dumps frepr j)"

definition metrics_json :: "sandbox_metrics \<Rightarrow> json" where
  "metrics_json m = JObj [(''worker_concurrency'', JInt (sm_workers m)),
     (''saturated_connections'', JInt (sm_connections m)), (''latency_p95_ms'', JInt (sm_latency m)),
     (''error_rate'', JNum (sm_error_rate m))]"

section \<open>Execution\<close>

record sandbox_request =
  sq_tenant :: string
  sq_actor :: string
  sq_proposal :: string
  sq_key :: string

definition metrics_before :: sandbox_metrics where
  "metrics_before = \<lparr>sm_workers = 64, sm_connections = 40, sm_latency = 1420, sm_error_rate = 0.031\<rparr>"

definition metrics_after :: sandbox_metrics where
  "metrics_after = \<lparr>sm_workers = 24, sm_connections = 3, sm_latency = 210, sm_error_rate = 0.004\<rparr>"

definition prepare_execution ::
  "(real \<Rightarrow> string) \<Rightarrow> uuid \<Rightarrow> analysis \<Rightarrow> sandbox_request \<Rightarrow> uuid \<Rightarrow> time \<Rightarrow> sandbox_error + sandbox_execution" where
  "prepare_execution frepr i a q xid now =
    (let action = an_action a in
     if pa_hash action = None \<or> pa_hash action \<noteq> Some (sq_proposal q) then Inl NotBoundToProposal
     else if pa_command action \<noteq> sandbox_action_command then Inl NotAllowlisted
     else Inr \<lparr>sx_id = xid, sx_incident = i, sx_tenant = sq_tenant q, sx_actor = sq_actor q,
        sx_proposal = sq_proposal q, sx_action = sandbox_action_id, sx_simulator = simulator_version,
        sx_key = sq_key q, sx_before = metrics_before, sx_after = metrics_after,
        sx_digest = sandbox_digest frepr (JObj
          [(''incident_id'', JStr i), (''tenant_id'', JStr (sq_tenant q)),
           (''proposal_hash'', JStr (sq_proposal q)), (''action_id'', JStr sandbox_action_id),
           (''simulator_version'', JStr simulator_version), (''idempotency_key'', JStr (sq_key q)),
           (''before'', metrics_json metrics_before), (''after'', metrics_json metrics_after)]),
        sx_created = now\<rparr>)"

section \<open>Observation\<close>

definition collect :: "(real \<Rightarrow> string) \<Rightarrow> sandbox_execution \<Rightarrow> uuid \<Rightarrow> time \<Rightarrow> postcheck_observation" where
  "collect frepr x oid now = \<lparr>po_id = oid, po_execution = sx_id x, po_incident = sx_incident x,
     po_tenant = sx_tenant x, po_proposal = sx_proposal x, po_execution_digest = sx_digest x,
     po_source = observation_source, po_window = 300, po_before = sx_before x, po_after = sx_after x,
     po_digest = sandbox_digest frepr (JObj
       [(''execution_id'', JStr (sx_id x)), (''incident_id'', JStr (sx_incident x)),
        (''tenant_id'', JStr (sx_tenant x)), (''proposal_hash'', JStr (sx_proposal x)),
        (''execution_digest'', JStr (sx_digest x)), (''source'', JStr observation_source),
        (''observation_window_seconds'', JInt 300), (''before'', metrics_json (sx_before x)),
        (''after'', metrics_json (sx_after x))]),
     po_observed = now\<rparr>"

text \<open>The two providers behind the \<open>ObservationProvider\<close> protocol.\<close>

datatype observation_provider = DeterministicProvider | UnavailableProvider

fun provider_collect ::
  "(real \<Rightarrow> string) \<Rightarrow> observation_provider \<Rightarrow> sandbox_execution \<Rightarrow> uuid \<Rightarrow> time
     \<Rightarrow> sandbox_error + postcheck_observation" where
  "provider_collect frepr DeterministicProvider x oid now = Inr (collect frepr x oid now)"
| "provider_collect frepr UnavailableProvider x oid now = Inl ObservationUnavailable"

section \<open>The post-check policy\<close>

definition recovery_checks :: "postcheck_observation \<Rightarrow> (string \<times> bool) list" where
  "recovery_checks obs =
    [(''LATENCY_RECOVERY_THRESHOLD'', sm_latency (po_after obs) \<le> 300 \<and>
        real_of_int (sm_latency (po_after obs)) \<le> real_of_int (sm_latency (po_before obs)) * 0.5),
     (''ERROR_RATE_RECOVERY_THRESHOLD'', sm_error_rate (po_after obs) \<le> 0.005 \<and>
        sm_error_rate (po_after obs) \<le> sm_error_rate (po_before obs) * 0.5),
     (''SATURATION_RECOVERY_THRESHOLD'', sm_connections (po_after obs) \<le> 5 \<and>
        sm_connections (po_after obs) < sm_connections (po_before obs))]"

definition evaluate_observation :: "postcheck_observation \<Rightarrow> time \<Rightarrow> policy_verdict" where
  "evaluate_observation obs now =
    (let checks = recovery_checks obs;
         passed = map fst (filter snd checks);
         failed = map fst (filter (\<lambda>c. \<not> snd c) checks)
     in \<lparr>pv_class = (if failed = [] then Recovered else NotRecovered),
         pv_policy = recovery_policy_version, pv_passed = passed, pv_failed = failed,
         pv_digest = po_digest obs, pv_computed = now\<rparr>)"

definition policy_verdict_digest :: "jcs \<Rightarrow> policy_verdict \<Rightarrow> digest_error + string" where
  "policy_verdict_digest jcs v = content_digest jcs ''recallops-verdict-v1'' (JObj
    [(''observation_digest'', JStr (pv_digest v)), (''classification'', JStr (class_value (pv_class v))),
     (''checks_passed'', JArr (map JStr (pv_passed v))), (''checks_failed'', JArr (map JStr (pv_failed v))),
     (''policy_version'', JStr (pv_policy v)), (''computed_at'', JStr (iso_z (pv_computed v)))])"

definition check_names :: "string list" where
  "check_names = [''LATENCY_RECOVERY_THRESHOLD'', ''ERROR_RATE_RECOVERY_THRESHOLD'',
     ''SATURATION_RECOVERY_THRESHOLD'']"

text \<open>
  The post-check policy. The verdict is recovered exactly when latency, error rate and
  saturation each fell below their absolute threshold and, respectively, to half, to half and
  strictly below their value before; the passed and failed check names partition the three
  checks, so the verdict is never inconclusive, and it is bound to the observation's digest.
\<close>

theorem recovery_verdict_correct:
  "(pv_class (evaluate_observation obs now) = Recovered \<longleftrightarrow>
      sm_latency (po_after obs) \<le> 300 \<and> 2 * sm_latency (po_after obs) \<le> sm_latency (po_before obs) \<and>
      sm_error_rate (po_after obs) \<le> 1 / 200 \<and>
      2 * sm_error_rate (po_after obs) \<le> sm_error_rate (po_before obs) \<and>
      sm_connections (po_after obs) \<le> 5 \<and>
      sm_connections (po_after obs) < sm_connections (po_before obs)) \<and>
   pv_class (evaluate_observation obs now) \<noteq> Inconclusive \<and>
   set (pv_passed (evaluate_observation obs now)) \<union> set (pv_failed (evaluate_observation obs now)) = set check_names \<and>
   set (pv_passed (evaluate_observation obs now)) \<inter> set (pv_failed (evaluate_observation obs now)) = {} \<and>
   pv_digest (evaluate_observation obs now) = po_digest obs"
proof -
  have lat: "real_of_int a \<le> real_of_int b * 0.5 \<longleftrightarrow> 2 * a \<le> b" for a b :: int
    by linarith
  have err: "e \<le> 0.005 \<longleftrightarrow> e \<le> 1 / 200" "e \<le> f * 0.5 \<longleftrightarrow> 2 * e \<le> f" for e f :: real
    by (simp_all add: mult.commute)
  show ?thesis
    unfolding evaluate_observation_def recovery_checks_def check_names_def Let_def lat err by auto
qed


definition sample_analysis :: analysis where
  "sample_analysis = \<lparr>an_incident = ''i1'', an_status = IncidentOpen, an_diagnosis = ''saturation'',
     an_confidence = 1, an_memories = [],
     an_action = \<lparr>pa_name = ''mitigate'', pa_command = sandbox_action_command, pa_risk = MUTATING,
       pa_rationale = ''saturated pool'', pa_requires_approval = True, pa_hash = Some ''p1''\<rparr>,
     an_trace = [], an_plan = [], an_candidates = [], an_abstention = [], an_degraded = [],
     an_policy = ''outcome-governance-v2'', an_created = 0\<rparr>"

definition sample_sandbox_request :: sandbox_request where
  "sample_sandbox_request = \<lparr>sq_tenant = ''acme'', sq_actor = ''op-1'', sq_proposal = ''p1'', sq_key = ''key-0001''\<rparr>"


end
