(* ===== verification/Sessions.thy ===== *)
theory Sessions
  imports Domain "HOL-Library.AList"
begin

text \<open>
  \<^verbatim>\<open>src/recallops/sessions.py\<close>: judge sessions, judge runs and review handoffs, in memory and in
  Postgres, behind one protocol (\<open>session_repo\<close>). What the two promise about a handoff's
  single use and a run's end is the locale \<open>session_repository\<close>. Each operation reads the
  clock once, as the argument \<open>now\<close>.
\<close>

section \<open>Records\<close>

record judge_session =
  js_hash :: string
  js_csrf :: string
  js_tenant :: string
  js_subject :: string
  js_role :: string
  js_run :: uuid
  js_generation :: int
  js_handoff :: "string option"
  js_expires :: time
  js_revoked :: "time option"

datatype run_status = RunActive | RunCompleted | RunReset | RunExpired

record judge_run =
  jn_id :: uuid
  jn_tenant :: string
  jn_generation :: int
  jn_scenario :: string
  jn_incident :: uuid
  jn_status :: run_status
  jn_operator :: string
  jn_build :: string
  jn_policy :: string
  jn_created :: time
  jn_expires :: time
  jn_finalized :: "time option"
  jn_reset :: "time option"

record review_handoff =
  ho_code :: string
  ho_run :: uuid
  ho_tenant :: string
  ho_workflow :: uuid
  ho_memory :: uuid
  ho_digest :: string
  ho_purpose :: handoff_purpose
  ho_issuer :: string
  ho_expires :: time
  ho_consumed :: "time option"
  ho_revoked :: "time option"

datatype session_error = CapacityReached | TenantExists | HandoffExists | SessionConstraint

text \<open>The protocol \<open>JudgeSessionRepository\<close>.\<close>

record 's session_repo =
  sr_attempt :: "string \<Rightarrow> int \<Rightarrow> int \<Rightarrow> time \<Rightarrow> ('s, session_error, bool) sx"
  sr_save :: "judge_session \<Rightarrow> ('s, session_error, unit) sx"
  sr_get :: "'s \<Rightarrow> string \<Rightarrow> judge_session option"
  sr_revoke :: "string \<Rightarrow> time \<Rightarrow> ('s, session_error, unit) sx"
  sr_save_run :: "judge_run \<Rightarrow> int \<Rightarrow> time \<Rightarrow> ('s, session_error, unit) sx"
  sr_get_run :: "uuid \<Rightarrow> time \<Rightarrow> ('s, session_error, judge_run option) sx"
  sr_reset_run :: "uuid \<Rightarrow> time \<Rightarrow> ('s, session_error, bool) sx"
  sr_run_current :: "uuid \<Rightarrow> string \<Rightarrow> int \<Rightarrow> time \<Rightarrow> ('s, session_error, bool) sx"
  sr_save_handoff :: "review_handoff \<Rightarrow> ('s, session_error, unit) sx"
  sr_get_handoff :: "'s \<Rightarrow> string \<Rightarrow> review_handoff option"
  sr_consume :: "string \<Rightarrow> time \<Rightarrow> ('s, session_error, review_handoff option) sx"
  sr_count :: "time \<Rightarrow> ('s, session_error, int) sx"

section \<open>In memory\<close>

text \<open>
  The runs are an association list in insertion order, as \<open>active_run_count\<close> visits them.
\<close>

record mem_sessions =
  mj_sessions :: "string \<Rightarrow> judge_session option"
  mj_attempts :: "string \<Rightarrow> (time \<times> int) option"
  mj_runs :: "(uuid \<times> judge_run) list"
  mj_handoffs :: "string \<Rightarrow> review_handoff option"

definition mem_sessions_empty :: mem_sessions where
  "mem_sessions_empty = \<lparr>mj_sessions = Map.empty, mj_attempts = Map.empty, mj_runs = [],
     mj_handoffs = Map.empty\<rparr>"

definition mem_consume_attempt :: "string \<Rightarrow> int \<Rightarrow> int \<Rightarrow> time \<Rightarrow> (mem_sessions, session_error, bool) sx" where
  "mem_consume_attempt client limit window now = (\<lambda>s.
     let (started, count) = (case mj_attempts s client of None \<Rightarrow> (now, 0) | Some sc \<Rightarrow> sc);
         (started', count') = (if seconds window \<le> now - started then (now, 0) else (started, count));
         n = count' + 1
     in (Inr (n \<le> limit), s\<lparr>mj_attempts := (mj_attempts s)(client \<mapsto> (started', n))\<rparr>))"

definition mem_save_session :: "judge_session \<Rightarrow> (mem_sessions, session_error, unit) sx" where
  "mem_save_session j = (\<lambda>s. (Inr (), s\<lparr>mj_sessions := (mj_sessions s)(js_hash j \<mapsto> j)\<rparr>))"

definition mem_get_session :: "mem_sessions \<Rightarrow> string \<Rightarrow> judge_session option" where
  "mem_get_session s h = mj_sessions s h"

definition mem_revoke_session :: "string \<Rightarrow> time \<Rightarrow> (mem_sessions, session_error, unit) sx" where
  "mem_revoke_session h now = (\<lambda>s. case mj_sessions s h of
       None \<Rightarrow> (Inr (), s)
     | Some j \<Rightarrow> (Inr (), s\<lparr>mj_sessions := (mj_sessions s)(h \<mapsto> j\<lparr>js_revoked := Some now\<rparr>)\<rparr>))"

definition expire_run :: "time \<Rightarrow> judge_run \<Rightarrow> judge_run" where
  "expire_run now r = (if jn_status r = RunActive \<and> jn_expires r \<le> now
     then r\<lparr>jn_status := RunExpired, jn_finalized := Some now\<rparr> else r)"

definition mem_get_run :: "uuid \<Rightarrow> time \<Rightarrow> (mem_sessions, session_error, judge_run option) sx" where
  "mem_get_run i now = (\<lambda>s. case map_of (mj_runs s) i of
       None \<Rightarrow> (Inr None, s)
     | Some r \<Rightarrow> (Inr (Some (expire_run now r)), s\<lparr>mj_runs := AList.update i (expire_run now r) (mj_runs s)\<rparr>))"

text \<open>\<open>active_run_count\<close>: each run is fetched, and so expired, in turn.\<close>

fun mem_count_ids :: "uuid list \<Rightarrow> time \<Rightarrow> (mem_sessions, session_error, int) sx" where
  "mem_count_ids [] now s = (Inr 0, s)"
| "mem_count_ids (i # is) now s =
     (case mem_get_run i now s of
        (Inl e, s1) \<Rightarrow> (Inl e, s1)
      | (Inr r, s1) \<Rightarrow>
         (case mem_count_ids is now s1 of
            (Inl e, s2) \<Rightarrow> (Inl e, s2)
          | (Inr n, s2) \<Rightarrow>
             (Inr ((case r of None \<Rightarrow> 0 | Some r \<Rightarrow> if jn_status r = RunActive then 1 else 0) + n), s2)))"

definition mem_active_run_count :: "time \<Rightarrow> (mem_sessions, session_error, int) sx" where
  "mem_active_run_count now = (\<lambda>s. mem_count_ids (map fst (mj_runs s)) now s)"

definition mem_save_run :: "judge_run \<Rightarrow> int \<Rightarrow> time \<Rightarrow> (mem_sessions, session_error, unit) sx" where
  "mem_save_run r limit now = (\<lambda>s. case mem_active_run_count now s of
       (Inl e, s1) \<Rightarrow> (Inl e, s1)
     | (Inr n, s1) \<Rightarrow>
        if limit \<le> n then (Inl CapacityReached, s1)
        else if \<exists>x \<in> set (mj_runs s1). jn_tenant (snd x) = jn_tenant r then (Inl TenantExists, s1)
        else (Inr (), s1\<lparr>mj_runs := AList.update (jn_id r) r (mj_runs s1)\<rparr>))"

definition revoke_of_run :: "uuid \<Rightarrow> time \<Rightarrow> judge_session \<Rightarrow> judge_session" where
  "revoke_of_run i now j =
     (if js_run j = i \<and> js_revoked j = None then j\<lparr>js_revoked := Some now\<rparr> else j)"

definition mem_reset_run :: "uuid \<Rightarrow> time \<Rightarrow> (mem_sessions, session_error, bool) sx" where
  "mem_reset_run i now = (\<lambda>s. case map_of (mj_runs s) i of
       None \<Rightarrow> (Inr False, s)
     | Some r \<Rightarrow>
        if jn_status r \<noteq> RunActive then (Inr False, s)
        else (Inr True, s\<lparr>
          mj_runs := AList.update i (r\<lparr>jn_status := RunReset, jn_reset := Some now, jn_finalized := Some now\<rparr>)
            (mj_runs s),
          mj_sessions := (\<lambda>h. map_option (revoke_of_run i now) (mj_sessions s h))\<rparr>))"

definition mem_run_is_current :: "uuid \<Rightarrow> string \<Rightarrow> int \<Rightarrow> time \<Rightarrow> (mem_sessions, session_error, bool) sx" where
  "mem_run_is_current i t g now = (\<lambda>s. case mem_get_run i now s of
       (Inl e, s1) \<Rightarrow> (Inl e, s1)
     | (Inr r, s1) \<Rightarrow> (Inr (case r of None \<Rightarrow> False
         | Some r \<Rightarrow> jn_tenant r = t \<and> jn_generation r = g \<and> jn_status r = RunActive \<and> now < jn_expires r), s1))"

definition mem_save_handoff :: "review_handoff \<Rightarrow> (mem_sessions, session_error, unit) sx" where
  "mem_save_handoff h = (\<lambda>s.
     if mj_handoffs s (ho_code h) \<noteq> None then (Inl HandoffExists, s)
     else (Inr (), s\<lparr>mj_handoffs := (mj_handoffs s)(ho_code h \<mapsto> h)\<rparr>))"

definition mem_get_handoff :: "mem_sessions \<Rightarrow> string \<Rightarrow> review_handoff option" where
  "mem_get_handoff s c = mj_handoffs s c"

text \<open>The run of the handoff is only fetched when the earlier tests of the condition passed.\<close>

definition mem_consume_handoff :: "string \<Rightarrow> time \<Rightarrow> (mem_sessions, session_error, review_handoff option) sx" where
  "mem_consume_handoff c now = (\<lambda>s. case mj_handoffs s c of
       None \<Rightarrow> (Inr None, s)
     | Some h \<Rightarrow>
        if ho_consumed h \<noteq> None \<or> ho_revoked h \<noteq> None \<or> ho_expires h \<le> now then (Inr None, s)
        else (case mem_get_run (ho_run h) now s of
           (Inl e, s1) \<Rightarrow> (Inl e, s1)
         | (Inr None, s1) \<Rightarrow> (Inr None, s1)
         | (Inr (Some r), s1) \<Rightarrow>
            if jn_tenant r \<noteq> ho_tenant h \<or> jn_status r \<noteq> RunActive then (Inr None, s1)
            else let used = h\<lparr>ho_consumed := Some now\<rparr> in
              (Inr (Some used), s1\<lparr>mj_handoffs := (mj_handoffs s1)(c \<mapsto> used)\<rparr>)))"

definition mem_session_repo :: "mem_sessions session_repo" where
  "mem_session_repo = \<lparr>sr_attempt = mem_consume_attempt, sr_save = mem_save_session,
     sr_get = mem_get_session, sr_revoke = mem_revoke_session, sr_save_run = mem_save_run,
     sr_get_run = mem_get_run, sr_reset_run = mem_reset_run, sr_run_current = mem_run_is_current,
     sr_save_handoff = mem_save_handoff, sr_get_handoff = mem_get_handoff,
     sr_consume = mem_consume_handoff, sr_count = mem_active_run_count\<rparr>"

section \<open>In Postgres\<close>

text \<open>
  The tables, with the primary and unique keys the migrations give them: a session per hash
  and one live session per run, role and subject, a reviewer session per handoff, a run per id
  and per tenant, a handoff per code.
\<close>

record attempt_row =
  aw_client :: string
  aw_started :: time
  aw_attempts :: int

record pg_sessions =
  pj_sessions :: "judge_session list"
  pj_attempts :: "attempt_row list"
  pj_runs :: "judge_run list"
  pj_handoffs :: "review_handoff list"

definition pg_consume_attempt :: "string \<Rightarrow> int \<Rightarrow> int \<Rightarrow> time \<Rightarrow> (pg_sessions, session_error, bool) sx" where
  "pg_consume_attempt client limit window now = (\<lambda>s.
     let step = (\<lambda>r. let old = (aw_started r < now - seconds window) in
           r\<lparr>aw_attempts := (if old then 1 else aw_attempts r + 1),
             aw_started := (if old then now else aw_started r)\<rparr>) in
     case sql_row aw_client client (pj_attempts s) of
       None \<Rightarrow> (Inr (1 \<le> limit), s\<lparr>pj_attempts := pj_attempts s @
                 [\<lparr>aw_client = client, aw_started = now, aw_attempts = 1\<rparr>]\<rparr>)
     | Some r \<Rightarrow> (Inr (aw_attempts (step r) \<le> limit),
                 s\<lparr>pj_attempts := sql_update (\<lambda>r. aw_client r = client) step (pj_attempts s)\<rparr>))"

definition session_row_clash :: "judge_session \<Rightarrow> judge_session \<Rightarrow> bool" where
  "session_row_clash j r \<longleftrightarrow> js_hash r = js_hash j \<or>
     (js_revoked r = None \<and> js_run r = js_run j \<and> js_role r = js_role j \<and> js_subject r = js_subject j) \<or>
     (js_handoff j \<noteq> None \<and> js_handoff r = js_handoff j)"

definition session_row_ok :: "judge_session \<Rightarrow> bool" where
  "session_row_ok j \<longleftrightarrow> hex64 (js_hash j) \<and> hex64 (js_csrf j) \<and> 0 < js_generation j \<and>
     (js_role j = ''operator'' \<and> js_handoff j = None \<or> js_role j = ''reviewer'' \<and> js_handoff j \<noteq> None)"

text \<open>The insert does not carry \<open>revoked_at\<close>: a saved session is live.\<close>

definition pg_save_session :: "judge_session \<Rightarrow> (pg_sessions, session_error, unit) sx" where
  "pg_save_session j = (\<lambda>s.
     if \<not> session_row_ok j \<or> (\<exists>r \<in> set (pj_sessions s). session_row_clash j r) then (Inl SessionConstraint, s)
     else (Inr (), s\<lparr>pj_sessions := pj_sessions s @ [j\<lparr>js_revoked := None\<rparr>]\<rparr>))"

definition pg_get_session :: "pg_sessions \<Rightarrow> string \<Rightarrow> judge_session option" where
  "pg_get_session s h = sql_row js_hash h (pj_sessions s)"

definition pg_revoke_session :: "string \<Rightarrow> time \<Rightarrow> (pg_sessions, session_error, unit) sx" where
  "pg_revoke_session h now = (\<lambda>s. (Inr (), s\<lparr>pj_sessions :=
     sql_update (\<lambda>j. js_hash j = h) (\<lambda>j. j\<lparr>js_revoked := coalesce (js_revoked j) (Some now)\<rparr>) (pj_sessions s)\<rparr>))"

definition run_live :: "time \<Rightarrow> judge_run \<Rightarrow> bool" where
  "run_live now r \<longleftrightarrow> jn_status r = RunActive \<and> now < jn_expires r"

definition pg_active_run_count :: "time \<Rightarrow> (pg_sessions, session_error, int) sx" where
  "pg_active_run_count now = (\<lambda>s. (Inr (int (length (filter (run_live now) (pj_runs s)))), s))"

definition pg_save_run :: "judge_run \<Rightarrow> int \<Rightarrow> time \<Rightarrow> (pg_sessions, session_error, unit) sx" where
  "pg_save_run r limit now = (\<lambda>s.
     if limit \<le> int (length (filter (run_live now) (pj_runs s))) then (Inl CapacityReached, s)
     else if jn_id r \<in> jn_id ` set (pj_runs s) \<or> jn_tenant r \<in> jn_tenant ` set (pj_runs s) \<or> jn_generation r \<le> 0
     then (Inl SessionConstraint, s)
     else (Inr (), s\<lparr>pj_runs := pj_runs s @ [r\<lparr>jn_finalized := None, jn_reset := None\<rparr>]\<rparr>))"

definition pg_get_run :: "uuid \<Rightarrow> time \<Rightarrow> (pg_sessions, session_error, judge_run option) sx" where
  "pg_get_run i now = (\<lambda>s.
     let runs = sql_update (\<lambda>r. jn_id r = i \<and> jn_status r = RunActive \<and> jn_expires r \<le> now)
           (\<lambda>r. r\<lparr>jn_status := RunExpired, jn_finalized := Some now\<rparr>) (pj_runs s)
     in (Inr (sql_row jn_id i runs), s\<lparr>pj_runs := runs\<rparr>))"

definition pg_reset_run :: "uuid \<Rightarrow> time \<Rightarrow> (pg_sessions, session_error, bool) sx" where
  "pg_reset_run i now = (\<lambda>s.
     let P = (\<lambda>r. jn_id r = i \<and> run_live now r);
         f = (\<lambda>r. r\<lparr>jn_status := RunReset, jn_reset := Some now, jn_finalized := Some now\<rparr>)
     in if sql_returning P f (pj_runs s) = None then (Inr False, s\<lparr>pj_runs := sql_update P f (pj_runs s)\<rparr>)
        else (Inr True, s\<lparr>
          pj_runs := sql_update P f (pj_runs s),
          pj_sessions := sql_update (\<lambda>j. js_run j = i)
            (\<lambda>j. j\<lparr>js_revoked := coalesce (js_revoked j) (Some now)\<rparr>) (pj_sessions s),
          pj_handoffs := sql_update (\<lambda>h. ho_run h = i \<and> ho_consumed h = None)
            (\<lambda>h. h\<lparr>ho_revoked := coalesce (ho_revoked h) (Some now)\<rparr>) (pj_handoffs s)\<rparr>))"

definition pg_run_is_current :: "uuid \<Rightarrow> string \<Rightarrow> int \<Rightarrow> time \<Rightarrow> (pg_sessions, session_error, bool) sx" where
  "pg_run_is_current i t g now = (\<lambda>s. (Inr (\<exists>r \<in> set (pj_runs s).
     jn_id r = i \<and> jn_tenant r = t \<and> jn_generation r = g \<and> run_live now r), s))"

definition pg_save_handoff :: "review_handoff \<Rightarrow> (pg_sessions, session_error, unit) sx" where
  "pg_save_handoff h = (\<lambda>s.
     if ho_code h \<in> ho_code ` set (pj_handoffs s) then (Inl SessionConstraint, s)
     else (Inr (), s\<lparr>pj_handoffs := pj_handoffs s @ [h\<lparr>ho_consumed := None, ho_revoked := None\<rparr>]\<rparr>))"

definition pg_get_handoff :: "pg_sessions \<Rightarrow> string \<Rightarrow> review_handoff option" where
  "pg_get_handoff s c = sql_row ho_code c (pj_handoffs s)"

text \<open>The condition of the \<open>UPDATE\<close>, with its join on the live run of the handoff's tenant.\<close>

definition handoff_usable :: "time \<Rightarrow> judge_run list \<Rightarrow> review_handoff \<Rightarrow> bool" where
  "handoff_usable now runs h \<longleftrightarrow> ho_consumed h = None \<and> ho_revoked h = None \<and> now < ho_expires h \<and>
     (\<exists>r \<in> set runs. jn_id r = ho_run h \<and> jn_tenant r = ho_tenant h \<and> run_live now r)"

definition pg_consume_handoff :: "string \<Rightarrow> time \<Rightarrow> (pg_sessions, session_error, review_handoff option) sx" where
  "pg_consume_handoff c now = (\<lambda>s.
     let P = (\<lambda>h. ho_code h = c \<and> handoff_usable now (pj_runs s) h);
         f = (\<lambda>h. h\<lparr>ho_consumed := Some now\<rparr>)
     in (Inr (sql_returning P f (pj_handoffs s)), s\<lparr>pj_handoffs := sql_update P f (pj_handoffs s)\<rparr>))"

definition pg_session_repo :: "pg_sessions session_repo" where
  "pg_session_repo = \<lparr>sr_attempt = pg_consume_attempt, sr_save = pg_save_session,
     sr_get = pg_get_session, sr_revoke = pg_revoke_session, sr_save_run = pg_save_run,
     sr_get_run = pg_get_run, sr_reset_run = pg_reset_run, sr_run_current = pg_run_is_current,
     sr_save_handoff = pg_save_handoff, sr_get_handoff = pg_get_handoff,
     sr_consume = pg_consume_handoff, sr_count = pg_active_run_count\<rparr>"

section \<open>Calls on a repository\<close>

datatype session_call =
    Attempt string int int
  | SaveSession judge_session
  | RevokeSession string
  | SaveRun judge_run int
  | GetRun uuid
  | ResetRun uuid
  | RunIsCurrent uuid string int
  | SaveHandoff review_handoff
  | ConsumeHandoff string
  | ActiveRunCount

datatype session_reply =
    ReplyBool "session_error + bool"
  | ReplyUnit "session_error + unit"
  | ReplyRun "session_error + judge_run option"
  | ReplyHandoff "session_error + review_handoff option"
  | ReplyCount "session_error + int"

fun session_step :: "'s session_repo \<Rightarrow> time \<Rightarrow> session_call \<Rightarrow> 's \<Rightarrow> session_reply \<times> 's" where
  "session_step R now (Attempt c l w) s = apfst ReplyBool (sr_attempt R c l w now s)"
| "session_step R now (SaveSession j) s = apfst ReplyUnit (sr_save R j s)"
| "session_step R now (RevokeSession h) s = apfst ReplyUnit (sr_revoke R h now s)"
| "session_step R now (SaveRun r l) s = apfst ReplyUnit (sr_save_run R r l now s)"
| "session_step R now (GetRun i) s = apfst ReplyRun (sr_get_run R i now s)"
| "session_step R now (ResetRun i) s = apfst ReplyBool (sr_reset_run R i now s)"
| "session_step R now (RunIsCurrent i t g) s = apfst ReplyBool (sr_run_current R i t g now s)"
| "session_step R now (SaveHandoff h) s = apfst ReplyUnit (sr_save_handoff R h s)"
| "session_step R now (ConsumeHandoff c) s = apfst ReplyHandoff (sr_consume R c now s)"
| "session_step R now ActiveRunCount s = apfst ReplyCount (sr_count R now s)"

fun session_run :: "'s session_repo \<Rightarrow> (time \<times> session_call) list \<Rightarrow> 's \<Rightarrow>
    (session_call \<times> session_reply) list \<times> 's" where
  "session_run R [] s = ([], s)"
| "session_run R ((now, c) # cs) s =
     (let (o1, s1) = session_step R now c s; (os, s2) = session_run R cs s1 in ((c, o1) # os, s2))"

definition hands_over :: "string \<Rightarrow> session_call \<times> session_reply \<Rightarrow> bool" where
  "hands_over code co = (fst co = ConsumeHandoff code \<and>
     (case snd co of ReplyHandoff (Inr (Some _)) \<Rightarrow> True | _ \<Rightarrow> False))"

text \<open>What a call must not be for the end of run \<open>i\<close> to be final.\<close>

definition revives :: "uuid \<Rightarrow> session_call \<Rightarrow> bool" where
  "revives i c = (case c of SaveSession j \<Rightarrow> js_run j = i | SaveRun r _ \<Rightarrow> jn_id r = i | _ \<Rightarrow> False)"

section \<open>The contract of the repositories\<close>

locale session_repository =
  fixes R :: "'s session_repo"
    and inv :: "'s \<Rightarrow> bool"
    and run_of :: "'s \<Rightarrow> uuid \<Rightarrow> judge_run option"
  assumes step_inv: "inv s \<Longrightarrow> inv (snd (session_step R now c s))"
    and consume_law: "inv s \<Longrightarrow> sr_consume R code now s = (Inr (Some h), t) \<Longrightarrow>
      \<exists>g r. sr_get_handoff R s code = Some g \<and> ho_consumed g = None \<and> ho_revoked g = None \<and>
        now < ho_expires g \<and> run_of s (ho_run g) = Some r \<and> jn_tenant r = ho_tenant g \<and> run_live now r \<and>
        h = g\<lparr>ho_consumed := Some now\<rparr> \<and> sr_get_handoff R t code = Some h"
    and used_stays: "inv s \<Longrightarrow> sr_get_handoff R s code = Some h \<Longrightarrow> ho_consumed h \<noteq> None \<Longrightarrow>
      sr_get_handoff R (snd (session_step R now c s)) code = Some h"
    and current_law: "inv s \<Longrightarrow> fst (sr_run_current R i tn gn now s) = Inr True \<Longrightarrow>
      \<exists>r. run_of s i = Some r \<and> jn_tenant r = tn \<and> jn_generation r = gn \<and> run_live now r"
    and reset_law: "inv s \<Longrightarrow> sr_reset_run R i now s = (Inr True, t) \<Longrightarrow>
      (\<exists>r. run_of t i = Some r \<and> jn_status r \<noteq> RunActive) \<and>
      (\<forall>h j. sr_get R t h = Some j \<longrightarrow> js_run j = i \<longrightarrow> js_revoked j \<noteq> None)"
    and revoked_stays: "inv s \<Longrightarrow> \<not> revives i c \<Longrightarrow>
      \<forall>h j. sr_get R s h = Some j \<longrightarrow> js_run j = i \<longrightarrow> js_revoked j \<noteq> None \<Longrightarrow>
      sr_get R (snd (session_step R now c s)) hash = Some j \<Longrightarrow> js_run j = i \<Longrightarrow> js_revoked j \<noteq> None"
    and ended_stays: "inv s \<Longrightarrow> \<not> revives i c \<Longrightarrow> run_of s i = Some r \<Longrightarrow> jn_status r \<noteq> RunActive \<Longrightarrow>
      run_of (snd (session_step R now c s)) i = Some r"
    and finite_runs: "inv s \<Longrightarrow> finite (dom (run_of s))"
    and count_law: "inv s \<Longrightarrow>
      fst (sr_count R now s) = Inr (int (card {i. \<exists>r. run_of s i = Some r \<and> run_live now r}))"
    and active_origin: "inv s \<Longrightarrow> session_step R now c s = (reply, t) \<Longrightarrow> run_of t i = Some r \<Longrightarrow>
      jn_status r = RunActive \<Longrightarrow> run_of s i = Some r \<or>
      (\<exists>r0 l. c = SaveRun r0 l \<and> jn_id r0 = i \<and>
        int (card {i. \<exists>r. run_of s i = Some r \<and> run_live now r}) < l)"
begin

lemma run_inv: "inv s \<Longrightarrow> inv (snd (session_run R cs s))"
  by (induction cs arbitrary: s) (auto simp: split_beta step_inv)

lemma used_gives_nothing:
  assumes "inv s" "sr_get_handoff R s code = Some h" "ho_consumed h \<noteq> None"
  shows "filter (hands_over code) (fst (session_run R cs s)) = []"
  using assms
proof (induction cs arbitrary: s)
  case (Cons a cs)
  obtain now c where a: "a = (now, c)" by (cases a)
  obtain o1 s1 where st: "session_step R now c s = (o1, s1)" by (cases "session_step R now c s")
  have s1: "inv s1" "sr_get_handoff R s1 code = Some h"
    using step_inv [OF Cons.prems(1), of now c] used_stays [OF Cons.prems, of now c] st by simp_all
  have "\<not> hands_over code (c, o1)"
  proof
    assume "hands_over code (c, o1)"
    then obtain h' where c: "c = ConsumeHandoff code" and o1: "o1 = ReplyHandoff (Inr (Some h'))"
      by (auto simp: hands_over_def split: session_reply.splits sum.splits option.splits)
    then have "sr_consume R code now s = (Inr (Some h'), s1)"
      using st by (cases "sr_consume R code now s") simp
    from consume_law [OF Cons.prems(1) this] Cons.prems show False by auto
  qed
  then show ?case using Cons.IH [OF s1 Cons.prems(3)] st by (simp add: a split_beta)
qed simp

lemma handed_over_once:
  assumes "inv s"
  shows "length (filter (hands_over code) (fst (session_run R cs s))) \<le> 1"
  using assms
proof (induction cs arbitrary: s)
  case (Cons a cs)
  obtain now c where a: "a = (now, c)" by (cases a)
  obtain o1 s1 where st: "session_step R now c s = (o1, s1)" by (cases "session_step R now c s")
  have s1: "inv s1" using step_inv [OF Cons.prems, of now c] st by simp
  show ?case
  proof (cases "hands_over code (c, o1)")
    case True
    then obtain h' where c: "c = ConsumeHandoff code" and o1: "o1 = ReplyHandoff (Inr (Some h'))"
      by (auto simp: hands_over_def split: session_reply.splits sum.splits option.splits)
    then have "sr_consume R code now s = (Inr (Some h'), s1)"
      using st by (cases "sr_consume R code now s") simp
    from consume_law [OF Cons.prems this] have "sr_get_handoff R s1 code = Some h'" "ho_consumed h' \<noteq> None"
      by auto
    from used_gives_nothing [OF s1 this] st show ?thesis by (simp add: a split_beta)
  next
    case False
    then show ?thesis using Cons.IH [OF s1] st by (simp add: a split_beta)
  qed
qed simp

definition run_over :: "uuid \<Rightarrow> 's \<Rightarrow> bool" where
  "run_over i s \<longleftrightarrow> (\<exists>r. run_of s i = Some r \<and> jn_status r \<noteq> RunActive) \<and>
     (\<forall>h j. sr_get R s h = Some j \<longrightarrow> js_run j = i \<longrightarrow> js_revoked j \<noteq> None)"

lemma over_step: "inv s \<Longrightarrow> run_over i s \<Longrightarrow> \<not> revives i c \<Longrightarrow> run_over i (snd (session_step R now c s))"
  unfolding run_over_def using ended_stays revoked_stays by blast

lemma over_run:
  "inv s \<Longrightarrow> run_over i s \<Longrightarrow> \<forall>c \<in> snd ` set cs. \<not> revives i c \<Longrightarrow> run_over i (snd (session_run R cs s))"
proof (induction cs arbitrary: s)
  case (Cons a cs)
  obtain now c where a: "a = (now, c)" by (cases a)
  obtain o1 s1 where st: "session_step R now c s = (o1, s1)" by (cases "session_step R now c s")
  have "inv s1" "run_over i s1"
    using step_inv [OF Cons.prems(1), of now c] over_step [OF Cons.prems(1,2), of c now] Cons.prems(3) st
    by (simp_all add: a)
  from Cons.IH [OF this] Cons.prems(3) st show ?case by (simp add: a split_beta)
qed simp

lemma over_final:
  assumes "inv s" "run_over i s"
  shows "sr_get R s h = Some j \<Longrightarrow> js_run j = i \<Longrightarrow> js_revoked j \<noteq> None"
    and "fst (sr_run_current R i t g now s) \<noteq> Inr True"
    and "sr_get_handoff R s code = Some o1 \<Longrightarrow> ho_run o1 = i \<Longrightarrow> fst (sr_consume R code now s) \<noteq> Inr (Some h1)"
proof -
  show "sr_get R s h = Some j \<Longrightarrow> js_run j = i \<Longrightarrow> js_revoked j \<noteq> None"
    using assms(2) by (auto simp: run_over_def)
  show "fst (sr_run_current R i t g now s) \<noteq> Inr True"
    using current_law [OF assms(1), of i t g now] assms(2) by (auto simp: run_over_def run_live_def)
  show "sr_get_handoff R s code = Some o1 \<Longrightarrow> ho_run o1 = i \<Longrightarrow> fst (sr_consume R code now s) \<noteq> Inr (Some h1)"
    using consume_law [OF assms(1), of code now h1 "snd (sr_consume R code now s)"] assms(2)
    by (cases "sr_consume R code now s") (auto simp: run_over_def run_live_def)
qed

lemma reset_is_final:
  assumes "inv s" "sr_reset_run R i clock s = (Inr True, t)" "\<forall>c \<in> snd ` set cs. \<not> revives i c"
  shows "inv (snd (session_run R cs t)) \<and> run_over i (snd (session_run R cs t))"
proof -
  have "inv t" using step_inv [OF assms(1), of clock "ResetRun i"] assms(2) by simp
  moreover have "run_over i t" using reset_law [OF assms(1,2)] by (simp add: run_over_def)
  ultimately show ?thesis using over_run [OF _ _ assms(3)] run_inv by blast
qed

abbreviation live_at :: "time \<Rightarrow> 's \<Rightarrow> uuid set" where
  "live_at now s \<equiv> {i. \<exists>r. run_of s i = Some r \<and> run_live now r}"

lemma finite_live: "inv s \<Longrightarrow> finite (live_at now s)"
  by (rule finite_subset [OF _ finite_runs]) (auto simp: dom_def)

text \<open>
  When every run is saved under the same limit and the clock does not go back, the number of
  active runs never exceeds the limit.
\<close>

lemma step_capacity:
  assumes "inv s" "session_step R now c s = (o1, t)" "now \<le> now'"
    and "int (card (live_at now s)) \<le> max 0 limit"
    and "\<And>r l. c = SaveRun r l \<Longrightarrow> l = limit"
  shows "int (card (live_at now' t)) \<le> max 0 limit"
proof -
  have old: "i \<in> live_at now s" if "i \<in> live_at now' t" "run_of t i = run_of s i" for i
    using that assms(3) by (auto simp: run_live_def)
  have origin: "i \<in> live_at now s \<or> (\<exists>r0. c = SaveRun r0 limit \<and> jn_id r0 = i \<and> int (card (live_at now s)) < limit)"
    if i: "i \<in> live_at now' t" for i
  proof -
    from i obtain r where r: "run_of t i = Some r" "run_live now' r" by auto
    have "jn_status r = RunActive" using r(2) by (simp add: run_live_def)
    from active_origin [OF assms(1,2) r(1) this] show ?thesis
    proof
      assume "run_of s i = Some r"
      with r(1) have "run_of t i = run_of s i" by simp
      from old [OF i this] show ?thesis by (rule disjI1)
    next
      assume "\<exists>r0 l. c = SaveRun r0 l \<and> jn_id r0 = i \<and> int (card (live_at now s)) < l"
      then obtain r0 l where "c = SaveRun r0 l" "jn_id r0 = i" "int (card (live_at now s)) < l" by blast
      with assms(5) show ?thesis by simp
    qed
  qed
  show ?thesis
  proof (cases "\<exists>r0. c = SaveRun r0 limit \<and> int (card (live_at now s)) < limit")
    case True
    then obtain r0 where r0: "c = SaveRun r0 limit" "int (card (live_at now s)) < limit" by auto
    then have "live_at now' t \<subseteq> insert (jn_id r0) (live_at now s)" using origin by auto
    then have "card (live_at now' t) \<le> card (insert (jn_id r0) (live_at now s))"
      by (intro card_mono) (simp_all add: finite_live [OF assms(1)])
    also have "\<dots> \<le> Suc (card (live_at now s))"
      by (simp add: card_insert_if finite_live [OF assms(1)])
    finally show ?thesis using r0(2) by linarith
  next
    case False
    then have "live_at now' t \<subseteq> live_at now s" using origin by auto
    then have "card (live_at now' t) \<le> card (live_at now s)"
      by (intro card_mono finite_live [OF assms(1)])
    then show ?thesis using assms(4) by linarith
  qed
qed

lemma run_capacity:
  assumes "inv s" "sorted (map fst cs @ [later])" "int (card (live_at (hd (map fst cs @ [later])) s)) \<le> max 0 limit"
    and "\<And>now r l. (now, SaveRun r l) \<in> set cs \<Longrightarrow> l = limit"
  shows "\<exists>n. fst (sr_count R later (snd (session_run R cs s))) = Inr n \<and> n \<le> max 0 limit"
  using assms
proof (induction cs arbitrary: s)
  case Nil
  then show ?case using count_law [OF Nil.prems(1), of later] by simp
next
  case (Cons a cs)
  obtain now c where a: "a = (now, c)" by (cases a)
  obtain o1 s1 where st: "session_step R now c s = (o1, s1)" by (cases "session_step R now c s")
  let ?next = "hd (map fst cs @ [later])"
  have s1: "inv s1" using step_inv [OF Cons.prems(1), of now c] st by simp
  have "now \<le> ?next" using Cons.prems(2) by (cases cs) (simp_all add: a)
  have "l = limit" if "c = SaveRun r l" for r l
    using Cons.prems(4) that by (auto simp: a)
  moreover have "int (card (live_at now s)) \<le> max 0 limit" using Cons.prems(3) by (simp add: a)
  ultimately have "int (card (live_at ?next s1)) \<le> max 0 limit"
    using step_capacity [OF Cons.prems(1) st \<open>now \<le> ?next\<close>] by blast
  moreover have "sorted (map fst cs @ [later])" using Cons.prems(2) by (simp add: a)
  moreover have "l = limit" if "(now, SaveRun r l) \<in> set cs" for now r l
    using Cons.prems(4) that by auto
  ultimately have "\<exists>n. fst (sr_count R later (snd (session_run R cs s1))) = Inr n \<and> n \<le> max 0 limit"
    using Cons.IH [OF s1] by blast
  then show ?case by (simp add: a st split_beta)
qed

end

section \<open>The in-memory repository keeps the contract\<close>

definition mem_sessions_inv :: "mem_sessions \<Rightarrow> bool" where
  "mem_sessions_inv s \<longleftrightarrow> distinct (map fst (mj_runs s)) \<and> (\<forall>c h. mj_handoffs s c = Some h \<longrightarrow> ho_code h = c)"

definition mem_run_of :: "mem_sessions \<Rightarrow> uuid \<Rightarrow> judge_run option" where
  "mem_run_of s = map_of (mj_runs s)"

lemma live_status: "run_live now r \<Longrightarrow> jn_status r = RunActive"
  by (simp add: run_live_def)

lemma expire_run_simps [simp]:
  "jn_status (expire_run now r) = RunActive \<longleftrightarrow> run_live now r"
  "run_live now (expire_run now r) = run_live now r"
  "jn_tenant (expire_run now r) = jn_tenant r" "jn_generation (expire_run now r) = jn_generation r"
  "jn_expires (expire_run now r) = jn_expires r"
  by (auto simp: expire_run_def run_live_def)

lemma expire_live [simp]: "run_live now r \<Longrightarrow> expire_run now r = r"
  by (auto simp: expire_run_def run_live_def)

lemma expire_ended [simp]: "jn_status r \<noteq> RunActive \<Longrightarrow> expire_run now r = r"
  by (simp add: expire_run_def)

text \<open>Fetching runs expires some: the runs they leave, and nothing else.\<close>

definition only_expires :: "time \<Rightarrow> mem_sessions \<Rightarrow> mem_sessions \<Rightarrow> bool" where
  "only_expires now s t \<longleftrightarrow> mj_sessions t = mj_sessions s \<and> mj_handoffs t = mj_handoffs s \<and>
     map fst (mj_runs t) = map fst (mj_runs s) \<and>
     (\<forall>i. mem_run_of t i = mem_run_of s i \<or> mem_run_of t i = map_option (expire_run now) (mem_run_of s i))"

lemma only_expires_trans: "only_expires now s t \<Longrightarrow> only_expires now t u \<Longrightarrow> only_expires now s u"
proof -
  have "expire_run now (expire_run now r) = expire_run now r" for r by (auto simp: expire_run_def)
  then have "(map_option (expire_run now) \<circ> map_option (expire_run now)) x = map_option (expire_run now) x" for x
    by (cases x) auto
  then show "only_expires now s t \<Longrightarrow> only_expires now t u \<Longrightarrow> only_expires now s u"
    unfolding only_expires_def by (metis comp_apply)
qed

lemma alist_update_fst: "k \<in> fst ` set xs \<Longrightarrow> map fst (AList.update k v xs) = map fst xs"
  by (induction xs) auto

lemma mem_get_run_effect:
  "only_expires now s (snd (mem_get_run i now s))"
  "fst (mem_get_run i now s) = Inr (map_option (expire_run now) (mem_run_of s i))"
proof -
  show "only_expires now s (snd (mem_get_run i now s))"
    by (auto simp: mem_get_run_def only_expires_def mem_run_of_def update_conv' alist_update_fst
        dest: map_of_SomeD intro!: alist_update_fst image_eqI split: option.split)
  show "fst (mem_get_run i now s) = Inr (map_option (expire_run now) (mem_run_of s i))"
    by (simp add: mem_get_run_def mem_run_of_def split: option.split)
qed

lemma only_expires_live:
  assumes "only_expires now s t"
  shows "(\<exists>r. mem_run_of t i = Some r \<and> run_live now r) \<longleftrightarrow> (\<exists>r. mem_run_of s i = Some r \<and> run_live now r)"
proof -
  from assms have "mem_run_of t i = mem_run_of s i \<or> mem_run_of t i = map_option (expire_run now) (mem_run_of s i)"
    by (simp add: only_expires_def)
  then show ?thesis by (cases "mem_run_of s i") auto
qed

lemma mem_count_effect:
  "only_expires now s (snd (mem_count_ids ks now s)) \<and>
   fst (mem_count_ids ks now s) =
     Inr (int (length (filter (\<lambda>i. \<exists>r. mem_run_of s i = Some r \<and> run_live now r) ks)))"
proof (induction ks arbitrary: s)
  case Nil
  then show ?case by (simp add: only_expires_def)
next
  case (Cons i js)
  obtain s1 where g: "mem_get_run i now s = (Inr (map_option (expire_run now) (mem_run_of s i)), s1)"
    and e: "only_expires now s s1"
    using mem_get_run_effect [where now = now and s = s and i = i] by (cases "mem_get_run i now s") auto
  have IH: "only_expires now s1 (snd (mem_count_ids js now s1))"
    "fst (mem_count_ids js now s1) =
       Inr (int (length (filter (\<lambda>i. \<exists>r. mem_run_of s i = Some r \<and> run_live now r) js)))"
    using Cons.IH [of s1] only_expires_live [OF e] by simp_all
  obtain n s2 where c: "mem_count_ids js now s1 = (Inr n, s2)"
    using IH(2) by (cases "mem_count_ids js now s1") auto
  show ?case
    using IH only_expires_trans [OF e] live_status by (auto simp: g c split: option.splits)
qed

lemma mem_live_count:
  assumes "mem_sessions_inv s"
  shows "fst (mem_active_run_count now s) = Inr (int (card {i. \<exists>r. mem_run_of s i = Some r \<and> run_live now r}))"
    and "only_expires now s (snd (mem_active_run_count now s))"
proof -
  let ?live = "\<lambda>i. \<exists>r. mem_run_of s i = Some r \<and> run_live now r"
  have "distinct (filter ?live (map fst (mj_runs s)))"
    using assms by (simp add: mem_sessions_inv_def)
  then have "length (filter ?live (map fst (mj_runs s))) = card (set (filter ?live (map fst (mj_runs s))))"
    by (simp only: distinct_card)
  also have "set (filter ?live (map fst (mj_runs s))) = {i. ?live i}"
    by (force simp: mem_run_of_def dest: map_of_SomeD)
  finally have "length (filter ?live (map fst (mj_runs s))) = card {i. ?live i}" .
  then show "fst (mem_active_run_count now s) = Inr (int (card {i. ?live i}))"
    and "only_expires now s (snd (mem_active_run_count now s))"
    using mem_count_effect [where now = now and s = s and ks = "map fst (mj_runs s)"]
    by (simp_all add: mem_active_run_count_def)
qed

lemma mem_save_run_effect:
  assumes "mem_sessions_inv s" "mem_save_run r limit now s = (reply, t)"
  shows "only_expires now s t \<or>
    (\<exists>s1. only_expires now s s1 \<and> t = s1\<lparr>mj_runs := AList.update (jn_id r) r (mj_runs s1)\<rparr> \<and>
      int (card {i. \<exists>r. mem_run_of s i = Some r \<and> run_live now r}) < limit)"
proof -
  obtain s1 where "mem_active_run_count now s =
      (Inr (int (card {i. \<exists>r. mem_run_of s i = Some r \<and> run_live now r})), s1)" and "only_expires now s s1"
    using mem_live_count [OF assms(1), of now] by (cases "mem_active_run_count now s") auto
  with assms(2) show ?thesis by (auto simp: mem_save_run_def split: if_splits)
qed

lemma mem_consume_effect:
  assumes "mem_consume_handoff c now s = (reply, t)"
  shows "only_expires now s t \<and> (\<forall>h. reply \<noteq> Inr (Some h)) \<or>
    (\<exists>g r s1. only_expires now s s1 \<and> mj_handoffs s c = Some g \<and> ho_consumed g = None \<and> ho_revoked g = None \<and>
      now < ho_expires g \<and> mem_run_of s (ho_run g) = Some r \<and> jn_tenant r = ho_tenant g \<and> run_live now r \<and>
      reply = Inr (Some (g\<lparr>ho_consumed := Some now\<rparr>)) \<and>
      t = s1\<lparr>mj_handoffs := (mj_handoffs s1)(c \<mapsto> g\<lparr>ho_consumed := Some now\<rparr>)\<rparr>)"
proof (cases "mj_handoffs s c")
  case None
  then show ?thesis using assms by (auto simp: mem_consume_handoff_def only_expires_def)
next
  case (Some g)
  show ?thesis
  proof (cases "ho_consumed g \<noteq> None \<or> ho_revoked g \<noteq> None \<or> ho_expires g \<le> now")
    case True
    then show ?thesis using assms Some by (auto simp: mem_consume_handoff_def only_expires_def)
  next
    case False
    obtain s1 where "mem_get_run (ho_run g) now s = (Inr (map_option (expire_run now) (mem_run_of s (ho_run g))), s1)"
      and "only_expires now s s1"
      using mem_get_run_effect [where now = now and s = s and i = "ho_run g"]
      by (cases "mem_get_run (ho_run g) now s") auto
    with False Some assms show ?thesis
      by (cases "mem_run_of s (ho_run g)")
         (auto simp: mem_consume_handoff_def Let_def split: if_splits)
  qed
qed

lemma mem_run_of_update [simp]:
  "mem_run_of (s\<lparr>mj_runs := AList.update i r (mj_runs u)\<rparr>) = (mem_run_of u)(i \<mapsto> r)"
  "mem_run_of (s\<lparr>mj_handoffs := x\<rparr>) = mem_run_of s"
  "mem_run_of (s\<lparr>mj_sessions := y\<rparr>) = mem_run_of s"
  "mem_run_of (s\<lparr>mj_attempts := z\<rparr>) = mem_run_of s"
  by (simp_all add: mem_run_of_def update_conv')

lemma only_expires_active:
  assumes "only_expires now s t" "mem_run_of t i = Some r" "jn_status r = RunActive"
  shows "mem_run_of s i = Some r"
proof -
  from assms(1) have "mem_run_of t i = mem_run_of s i \<or> mem_run_of t i = map_option (expire_run now) (mem_run_of s i)"
    by (simp add: only_expires_def)
  with assms(2,3) show ?thesis by (cases "mem_run_of s i") auto
qed

lemma only_expires_ended:
  assumes "only_expires now s t" "mem_run_of s i = Some r" "jn_status r \<noteq> RunActive"
  shows "mem_run_of t i = Some r"
proof -
  from assms(1) have "mem_run_of t i = mem_run_of s i \<or> mem_run_of t i = map_option (expire_run now) (mem_run_of s i)"
    by (simp add: only_expires_def)
  with assms(2,3) show ?thesis by auto
qed

text \<open>
  The state after any call: the runs only expire, except that one is saved or reset; the
  sessions and handoffs are kept, except that one is written or a run's sessions are revoked.
\<close>

lemma mem_reset_effect:
  assumes "mem_reset_run i now s = (reply, t)"
  shows "reply = Inr False \<and> t = s \<or>
    (\<exists>r. reply = Inr True \<and> mem_run_of s i = Some r \<and> jn_status r = RunActive \<and>
       t = s\<lparr>mj_runs := AList.update i (r\<lparr>jn_status := RunReset, jn_reset := Some now, jn_finalized := Some now\<rparr>)
            (mj_runs s),
          mj_sessions := (\<lambda>h. map_option (revoke_of_run i now) (mj_sessions s h))\<rparr>)"
  using assms by (auto simp: mem_reset_run_def mem_run_of_def split: option.splits if_splits)

lemma mem_current_effect:
  "only_expires now s (snd (mem_run_is_current i tn gn now s))"
  "fst (mem_run_is_current i tn gn now s) = Inr True \<longleftrightarrow>
     (\<exists>r. mem_run_of s i = Some r \<and> jn_tenant r = tn \<and> jn_generation r = gn \<and> run_live now r)"
proof -
  obtain s1 where "mem_get_run i now s = (Inr (map_option (expire_run now) (mem_run_of s i)), s1)"
    and "only_expires now s s1"
    using mem_get_run_effect [where now = now and s = s and i = i] by (cases "mem_get_run i now s") auto
  then show "only_expires now s (snd (mem_run_is_current i tn gn now s))"
    and "fst (mem_run_is_current i tn gn now s) = Inr True \<longleftrightarrow>
     (\<exists>r. mem_run_of s i = Some r \<and> jn_tenant r = tn \<and> jn_generation r = gn \<and> run_live now r)"
    by (auto simp: mem_run_is_current_def run_live_def split: option.split)
qed

inductive mem_effect :: "time \<Rightarrow> session_call \<Rightarrow> mem_sessions \<Rightarrow> mem_sessions \<Rightarrow> bool"
  for now c s where
  expires: "only_expires now s t \<Longrightarrow> mem_effect now c s t"
| saved_run: "c = SaveRun r l \<Longrightarrow> only_expires now s s1 \<Longrightarrow>
    int (card {i. \<exists>r. mem_run_of s i = Some r \<and> run_live now r}) < l \<Longrightarrow>
    mem_effect now c s (s1\<lparr>mj_runs := AList.update (jn_id r) r (mj_runs s1)\<rparr>)"
| reset: "c = ResetRun i \<Longrightarrow> mem_run_of s i = Some r \<Longrightarrow> jn_status r = RunActive \<Longrightarrow> r' = r\<lparr>jn_status := RunReset, jn_reset := x, jn_finalized := y\<rparr> \<Longrightarrow>
    mem_effect now c s (s\<lparr>mj_runs := AList.update i r' (mj_runs s),
      mj_sessions := (\<lambda>h. map_option (revoke_of_run i now) (mj_sessions s h))\<rparr>)"
| attempt: "mem_effect now c s (s\<lparr>mj_attempts := a\<rparr>)"
| saved_session: "c = SaveSession j \<Longrightarrow> mem_effect now c s (s\<lparr>mj_sessions := (mj_sessions s)(js_hash j \<mapsto> j)\<rparr>)"
| revoked: "mj_sessions s h = Some j \<Longrightarrow>
    mem_effect now c s (s\<lparr>mj_sessions := (mj_sessions s)(h \<mapsto> j\<lparr>js_revoked := Some now\<rparr>)\<rparr>)"
| saved_handoff: "mj_handoffs s (ho_code h) = None \<Longrightarrow>
    mem_effect now c s (s\<lparr>mj_handoffs := (mj_handoffs s)(ho_code h \<mapsto> h)\<rparr>)"
| consumed: "only_expires now s s1 \<Longrightarrow> mj_handoffs s code = Some g \<Longrightarrow> ho_consumed g = None \<Longrightarrow>
    mem_effect now c s (s1\<lparr>mj_handoffs := (mj_handoffs s1)(code \<mapsto> g\<lparr>ho_consumed := Some now\<rparr>)\<rparr>)"

lemma only_expires_refl [simp]: "only_expires now s s"
  by (simp add: only_expires_def)

lemma mem_step_effect:
  assumes "mem_sessions_inv s"
  shows "mem_effect now c s (snd (session_step mem_session_repo now c s))"
proof (cases c)
  case (SaveRun r l)
  with mem_save_run_effect [OF assms, of r l now] show ?thesis
    by (cases "mem_save_run r l now s") (auto simp: mem_session_repo_def intro: mem_effect.intros)
next
  case (ConsumeHandoff code)
  with mem_consume_effect [of code now s] show ?thesis
    by (cases "mem_consume_handoff code now s") (auto simp: mem_session_repo_def intro: mem_effect.intros)
next
  case (ResetRun i)
  with mem_reset_effect [of i now s] show ?thesis
    by (cases "mem_reset_run i now s") (auto simp: mem_session_repo_def intro: mem_effect.intros)
next
  case (RevokeSession h)
  then show ?thesis
    by (auto simp: mem_session_repo_def mem_revoke_session_def intro: mem_effect.intros split: option.split)
qed (auto simp: mem_session_repo_def mem_consume_attempt_def mem_save_session_def mem_save_handoff_def
     Let_def split_beta intro: mem_effect.intros mem_get_run_effect mem_current_effect mem_live_count [OF assms])

definition all_revoked :: "uuid \<Rightarrow> (string \<Rightarrow> judge_session option) \<Rightarrow> bool" where
  "all_revoked i m \<longleftrightarrow> (\<forall>h j. m h = Some j \<longrightarrow> js_run j = i \<longrightarrow> js_revoked j \<noteq> None)"

lemma all_revoked_upd: "all_revoked i m \<Longrightarrow> js_run j \<noteq> i \<or> js_revoked j \<noteq> None \<Longrightarrow> all_revoked i (m(h \<mapsto> j))"
  by (simp add: all_revoked_def)

lemma all_revoked_run: "all_revoked i m \<Longrightarrow> all_revoked i (\<lambda>h. map_option (revoke_of_run k now) (m h))"
  by (fastforce simp: all_revoked_def revoke_of_run_def)

lemma revoke_of_run_ended: "js_run (revoke_of_run i now j) = i \<Longrightarrow> js_revoked (revoke_of_run i now j) \<noteq> None"
  by (cases "js_run j = i \<and> js_revoked j = None") (simp_all add: revoke_of_run_def del: not_None_eq)

lemma all_revoked_reset: "all_revoked i (\<lambda>h. map_option (revoke_of_run i now) (m h))"
  unfolding all_revoked_def using revoke_of_run_ended by (auto simp del: not_None_eq)

interpretation mem_sessions: session_repository mem_session_repo mem_sessions_inv mem_run_of
proof
  fix s :: mem_sessions and c now
  assume inv: "mem_sessions_inv s"
  from mem_step_effect [OF inv, of now c]
  show "mem_sessions_inv (snd (session_step mem_session_repo now c s))"
    by cases (use inv in \<open>simp_all add: mem_sessions_inv_def only_expires_def distinct_update\<close>)
next
  fix s t :: mem_sessions and code now h
  assume "sr_consume mem_session_repo code now s = (Inr (Some h), t)"
  then show "\<exists>g r. sr_get_handoff mem_session_repo s code = Some g \<and> ho_consumed g = None \<and> ho_revoked g = None \<and>
        now < ho_expires g \<and> mem_run_of s (ho_run g) = Some r \<and> jn_tenant r = ho_tenant g \<and> run_live now r \<and>
        h = g\<lparr>ho_consumed := Some now\<rparr> \<and> sr_get_handoff mem_session_repo t code = Some h"
    using mem_consume_effect [of code now s "Inr (Some h)" t]
    by (auto simp: mem_session_repo_def mem_get_handoff_def)
next
  fix s :: mem_sessions and code now h c
  assume "mem_sessions_inv s" "sr_get_handoff mem_session_repo s code = Some h" "ho_consumed h \<noteq> None"
  then show "sr_get_handoff mem_session_repo (snd (session_step mem_session_repo now c s)) code = Some h"
    using mem_step_effect [of s now c]
    by (auto simp: mem_session_repo_def mem_get_handoff_def only_expires_def elim!: mem_effect.cases)
next
  fix s :: mem_sessions and i tn gn now
  assume "fst (sr_run_current mem_session_repo i tn gn now s) = Inr True"
  then show "\<exists>r. mem_run_of s i = Some r \<and> jn_tenant r = tn \<and> jn_generation r = gn \<and> run_live now r"
    by (simp add: mem_session_repo_def mem_current_effect)
next
  fix s t :: mem_sessions and i now
  assume "sr_reset_run mem_session_repo i now s = (Inr True, t)"
  then have "mem_reset_run i now s = (Inr True, t)" by (simp add: mem_session_repo_def)
  from mem_reset_effect [OF this]
  have run: "\<exists>r. mem_run_of t i = Some r \<and> jn_status r \<noteq> RunActive"
    and t: "mj_sessions t = (\<lambda>h. map_option (revoke_of_run i now) (mj_sessions s h))" by auto
  have "sr_get mem_session_repo t = mj_sessions t"
    by (simp add: mem_session_repo_def mem_get_session_def fun_eq_iff)
  with run show "(\<exists>r. mem_run_of t i = Some r \<and> jn_status r \<noteq> RunActive) \<and>
      (\<forall>h j. sr_get mem_session_repo t h = Some j \<longrightarrow> js_run j = i \<longrightarrow> js_revoked j \<noteq> None)"
    using all_revoked_reset [of i now "mj_sessions s"] by (simp add: t all_revoked_def)
next
  fix s :: mem_sessions and i c now hash j
  assume "mem_sessions_inv s" "\<not> revives i c"
    "\<forall>h j. sr_get mem_session_repo s h = Some j \<longrightarrow> js_run j = i \<longrightarrow> js_revoked j \<noteq> None"
    "sr_get mem_session_repo (snd (session_step mem_session_repo now c s)) hash = Some j" "js_run j = i"
  note asm = this
  have get: "sr_get mem_session_repo u = mj_sessions u" for u
    by (simp add: mem_session_repo_def mem_get_session_def fun_eq_iff)
  have old: "all_revoked i (mj_sessions s)" using asm(3) unfolding get all_revoked_def .
  have j: "mj_sessions (snd (session_step mem_session_repo now c s)) hash = Some j"
    using asm(4) unfolding get .
  from mem_step_effect [OF asm(1), of now c]
  have "all_revoked i (mj_sessions (snd (session_step mem_session_repo now c s)))"
  proof cases
    case (saved_session j)
    with old asm(2) show ?thesis by (simp add: all_revoked_upd revives_def)
  qed (use old in \<open>simp_all add: all_revoked_upd all_revoked_run only_expires_def\<close>)
  with j asm(5) show "js_revoked j \<noteq> None" by (simp add: all_revoked_def)
next
  fix s :: mem_sessions and i c r now
  assume "mem_sessions_inv s" "\<not> revives i c" "mem_run_of s i = Some r" "jn_status r \<noteq> RunActive"
  then show "mem_run_of (snd (session_step mem_session_repo now c s)) i = Some r"
    using mem_step_effect [of s now c]
    by (auto simp: revives_def dest: only_expires_ended elim!: mem_effect.cases split: if_splits)
next
  fix s :: mem_sessions
  show "finite (dom (mem_run_of s))" by (simp add: mem_run_of_def finite_dom_map_of)
next
  fix s :: mem_sessions and now
  assume "mem_sessions_inv s"
  then show "fst (sr_count mem_session_repo now s) = Inr (int (card {i. \<exists>r. mem_run_of s i = Some r \<and> run_live now r}))"
    by (simp add: mem_session_repo_def mem_live_count)
next
  fix s t :: mem_sessions and now c reply i r
  assume "mem_sessions_inv s" "session_step mem_session_repo now c s = (reply, t)" "mem_run_of t i = Some r"
    "jn_status r = RunActive"
  then show "mem_run_of s i = Some r \<or> (\<exists>r0 l. c = SaveRun r0 l \<and> jn_id r0 = i \<and>
        int (card {i. \<exists>r. mem_run_of s i = Some r \<and> run_live now r}) < l)"
    using mem_step_effect [of s now c]
    by (auto dest: only_expires_active elim!: mem_effect.cases split: if_splits)
qed

section \<open>The Postgres repository keeps the contract\<close>

definition pg_sessions_inv :: "pg_sessions \<Rightarrow> bool" where
  "pg_sessions_inv s \<longleftrightarrow> distinct (map js_hash (pj_sessions s)) \<and> distinct (map jn_id (pj_runs s)) \<and>
     distinct (map ho_code (pj_handoffs s))"

definition pg_run_of :: "pg_sessions \<Rightarrow> uuid \<Rightarrow> judge_run option" where
  "pg_run_of s i = sql_row jn_id i (pj_runs s)"

text \<open>An update of runs that ends some active ones and changes no other.\<close>

definition ends :: "(judge_run \<Rightarrow> bool) \<Rightarrow> (judge_run \<Rightarrow> judge_run) \<Rightarrow> bool" where
  "ends P f \<longleftrightarrow> (\<forall>r. P r \<longrightarrow> jn_status r = RunActive) \<and>
     (\<forall>r. jn_id (f r) = jn_id r \<and> jn_status (f r) \<noteq> RunActive)"

text \<open>An update of handoffs that leaves a consumed one as it is.\<close>

definition spares_used :: "(review_handoff \<Rightarrow> bool) \<Rightarrow> (review_handoff \<Rightarrow> review_handoff) \<Rightarrow> bool" where
  "spares_used P f \<longleftrightarrow> (\<forall>h. P h \<longrightarrow> ho_consumed h = None) \<and> (\<forall>h. ho_code (f h) = ho_code h)"

definition revokes_only :: "(judge_session \<Rightarrow> judge_session) \<Rightarrow> bool" where
  "revokes_only f \<longleftrightarrow> (\<forall>j. js_hash (f j) = js_hash j \<and> js_run (f j) = js_run j \<and> js_revoked (f j) \<noteq> None)"

inductive pg_effect :: "time \<Rightarrow> session_call \<Rightarrow> pg_sessions \<Rightarrow> pg_sessions \<Rightarrow> bool"
  for now c s where
  updates: "ends P f \<Longrightarrow> revokes_only g \<Longrightarrow> spares_used T h \<Longrightarrow>
    mj = sql_update S g (pj_sessions s) \<Longrightarrow> rj = sql_update P f (pj_runs s) \<Longrightarrow> hj = sql_update T h (pj_handoffs s) \<Longrightarrow>
    pj_sessions t = mj \<Longrightarrow> pj_runs t = rj \<Longrightarrow> pj_handoffs t = hj \<Longrightarrow> pg_effect now c s t"
| saved_run: "c = SaveRun r l \<Longrightarrow> int (length (filter (run_live now) (pj_runs s))) < l \<Longrightarrow>
    jn_id r \<notin> jn_id ` set (pj_runs s) \<Longrightarrow> jn_id r' = jn_id r \<Longrightarrow>
    pg_effect now c s (s\<lparr>pj_runs := pj_runs s @ [r']\<rparr>)"
| saved_session: "c = SaveSession j \<Longrightarrow> js_hash j \<notin> js_hash ` set (pj_sessions s) \<Longrightarrow> js_hash j' = js_hash j \<Longrightarrow>
    js_run j' = js_run j \<Longrightarrow> pg_effect now c s (s\<lparr>pj_sessions := pj_sessions s @ [j']\<rparr>)"
| saved_handoff: "ho_code h' \<notin> ho_code ` set (pj_handoffs s) \<Longrightarrow>
    pg_effect now c s (s\<lparr>pj_handoffs := pj_handoffs s @ [h']\<rparr>)"

lemma sql_update_never [simp]: "sql_update (\<lambda>_. False) f rows = rows"
  by (simp add: sql_update_def)

lemma never_updates:
  "ends (\<lambda>_. False) (\<lambda>r. r\<lparr>jn_status := RunReset\<rparr>)" "revokes_only (\<lambda>j. j\<lparr>js_revoked := Some 0\<rparr>)"
  "spares_used (\<lambda>_. False) (\<lambda>h. h)"
  by (simp_all add: ends_def revokes_only_def spares_used_def)

lemma pg_effect_runs:
  assumes "ends P f" "pj_sessions t = pj_sessions s" "pj_runs t = sql_update P f (pj_runs s)"
    "pj_handoffs t = pj_handoffs s"
  shows "pg_effect now c s t"
  by (rule pg_effect.updates [OF assms(1) never_updates(2,3) refl refl refl, where S = "\<lambda>_. False"])
     (simp_all add: assms)

lemma pg_effect_same:
  assumes "pj_sessions t = pj_sessions s" "pj_runs t = pj_runs s" "pj_handoffs t = pj_handoffs s"
  shows "pg_effect now c s t"
  by (rule pg_effect_runs [OF never_updates(1)]) (simp_all add: assms)

lemma pg_effect_revoked:
  assumes "revokes_only g" "pj_sessions t = sql_update S g (pj_sessions s)" "pj_runs t = pj_runs s"
    "pj_handoffs t = pj_handoffs s"
  shows "pg_effect now c s t"
  by (rule pg_effect.updates [OF never_updates(1) assms(1) never_updates(3) refl refl refl]) (simp_all add: assms)

lemma pg_effect_handoffs:
  assumes "spares_used T h" "pj_sessions t = pj_sessions s" "pj_runs t = pj_runs s"
    "pj_handoffs t = sql_update T h (pj_handoffs s)"
  shows "pg_effect now c s t"
  by (rule pg_effect.updates [OF never_updates(1,2) assms(1) refl refl refl, where S = "\<lambda>_. False"])
     (simp_all add: assms)

lemma revokes_coalesce: "revokes_only (\<lambda>j. j\<lparr>js_revoked := coalesce (js_revoked j) (Some now)\<rparr>)"
  by (simp add: revokes_only_def coalesce_def split: option.split)

lemma pg_reset_effect:
  assumes "pg_reset_run i now s = (reply, t)"
  shows "pg_effect now c s t"
    and "reply = Inr True \<Longrightarrow>
      pj_sessions t = sql_update (\<lambda>j. js_run j = i) (\<lambda>j. j\<lparr>js_revoked := coalesce (js_revoked j) (Some now)\<rparr>) (pj_sessions s) \<and>
      pj_runs t = sql_update (\<lambda>r. jn_id r = i \<and> run_live now r)
        (\<lambda>r. r\<lparr>jn_status := RunReset, jn_reset := Some now, jn_finalized := Some now\<rparr>) (pj_runs s) \<and>
      (\<exists>r \<in> set (pj_runs s). jn_id r = i \<and> run_live now r)"
proof -
  let ?P = "\<lambda>r. jn_id r = i \<and> run_live now r"
  let ?f = "\<lambda>r. r\<lparr>jn_status := RunReset, jn_reset := Some now, jn_finalized := Some now\<rparr>"
  have P: "ends ?P ?f" by (simp add: ends_def run_live_def)
  have h: "spares_used (\<lambda>h. ho_run h = i \<and> ho_consumed h = None)
      (\<lambda>h. h\<lparr>ho_revoked := coalesce (ho_revoked h) (Some now)\<rparr>)" by (simp add: spares_used_def)
  show "pg_effect now c s t"
  proof (cases "sql_returning ?P ?f (pj_runs s)")
    case None
    then show ?thesis using assms by (intro pg_effect_runs [OF P]) (auto simp: pg_reset_run_def Let_def)
  next
    case (Some r)
    then show ?thesis using assms
      by (intro pg_effect.updates [OF P revokes_coalesce [of now] h refl refl refl, where S = "\<lambda>j. js_run j = i"])
         (auto simp: pg_reset_run_def Let_def)
  qed
  show "reply = Inr True \<Longrightarrow>
      pj_sessions t = sql_update (\<lambda>j. js_run j = i) (\<lambda>j. j\<lparr>js_revoked := coalesce (js_revoked j) (Some now)\<rparr>) (pj_sessions s) \<and>
      pj_runs t = sql_update ?P ?f (pj_runs s) \<and> (\<exists>r \<in> set (pj_runs s). ?P r)"
    using assms find_None_conj [of ?P "pj_runs s"]
    by (auto simp: pg_reset_run_def Let_def sql_returning_def split: if_splits)
qed

lemma pg_step_effect: "pg_effect now c s (snd (session_step pg_session_repo now c s))"
proof (cases c)
  case (Attempt k l w)
  then show ?thesis
    by (intro pg_effect_same) (auto simp: pg_session_repo_def pg_consume_attempt_def Let_def split: option.split)
next
  case (SaveSession j)
  show ?thesis
  proof (cases "\<not> session_row_ok j \<or> (\<exists>r \<in> set (pj_sessions s). session_row_clash j r)")
    case True
    with SaveSession show ?thesis
      by (intro pg_effect_same) (simp_all add: pg_session_repo_def pg_save_session_def)
  next
    case False
    then have "js_hash j \<notin> js_hash ` set (pj_sessions s)" by (auto simp: session_row_clash_def)
    from pg_effect.saved_session [OF SaveSession this, of "j\<lparr>js_revoked := None\<rparr>"] False SaveSession
    show ?thesis by (simp add: pg_session_repo_def pg_save_session_def)
  qed
next
  case (RevokeSession h)
  then show ?thesis
    by (intro pg_effect_revoked [OF revokes_coalesce [of now], where S = "\<lambda>j. js_hash j = h"])
       (simp_all add: pg_session_repo_def pg_revoke_session_def)
next
  case (SaveRun r l)
  then show ?thesis
    by (auto simp: pg_session_repo_def pg_save_run_def intro: pg_effect_same pg_effect.saved_run)
next
  case (GetRun i)
  have "ends (\<lambda>r. jn_id r = i \<and> jn_status r = RunActive \<and> jn_expires r \<le> now)
    (\<lambda>r. r\<lparr>jn_status := RunExpired, jn_finalized := Some now\<rparr>)" by (simp add: ends_def)
  from pg_effect_runs [OF this] GetRun show ?thesis by (simp add: pg_session_repo_def pg_get_run_def Let_def)
next
  case (ResetRun i)
  with pg_reset_effect(1) [of i now s "fst (pg_reset_run i now s)" "snd (pg_reset_run i now s)"]
  show ?thesis by (simp add: pg_session_repo_def)
next
  case (SaveHandoff h)
  then show ?thesis
    by (auto simp: pg_session_repo_def pg_save_handoff_def intro: pg_effect_same pg_effect.saved_handoff)
next
  case (ConsumeHandoff code)
  then show ?thesis
    by (intro pg_effect_handoffs [where T = "\<lambda>h. ho_code h = code \<and> handoff_usable now (pj_runs s) h"
          and h = "\<lambda>h. h\<lparr>ho_consumed := Some now\<rparr>"])
       (simp_all add: pg_session_repo_def pg_consume_handoff_def Let_def spares_used_def handoff_usable_def)
qed (auto simp: pg_session_repo_def pg_run_is_current_def pg_active_run_count_def intro: pg_effect_same)

lemma ends_row:
  assumes "ends P f"
  shows "sql_row jn_id i (sql_update P f rows) = map_option (\<lambda>r. if P r then f r else r) (sql_row jn_id i rows)"
  by (rule sql_row_update) (use assms in \<open>simp add: ends_def\<close>)

lemma spares_row:
  assumes "spares_used P f"
  shows "sql_row ho_code i (sql_update P f rows) = map_option (\<lambda>r. if P r then f r else r) (sql_row ho_code i rows)"
  by (rule sql_row_update) (use assms in \<open>simp add: spares_used_def\<close>)

lemma pg_live_count:
  assumes "pg_sessions_inv s"
  shows "length (filter (run_live now) (pj_runs s)) = card {i. \<exists>r. pg_run_of s i = Some r \<and> run_live now r}"
proof -
  have d: "distinct (map jn_id (filter (run_live now) (pj_runs s)))"
    using assms by (simp add: pg_sessions_inv_def distinct_map_filter)
  have "length (filter (run_live now) (pj_runs s)) = card (set (map jn_id (filter (run_live now) (pj_runs s))))"
    using distinct_card [OF d] by simp
  also have "set (map jn_id (filter (run_live now) (pj_runs s))) = {i. \<exists>r. pg_run_of s i = Some r \<and> run_live now r}"
    using assms sql_row_unique [of jn_id "pj_runs s"]
    by (auto simp: pg_run_of_def pg_sessions_inv_def dest: sql_row_Some)
  finally show ?thesis .
qed

lemma revokes_row:
  assumes "revokes_only g"
  shows "sql_row js_hash h (sql_update S g rows) = map_option (\<lambda>j. if S j then g j else j) (sql_row js_hash h rows)"
  by (rule sql_row_update) (use assms in \<open>simp add: revokes_only_def\<close>)

definition pg_revoked :: "uuid \<Rightarrow> judge_session list \<Rightarrow> bool" where
  "pg_revoked i rows \<longleftrightarrow> all_revoked i (\<lambda>h. sql_row js_hash h rows)"

lemma pg_revoked_update:
  assumes "revokes_only g" "pg_revoked i rows"
  shows "pg_revoked i (sql_update S g rows)"
  unfolding pg_revoked_def all_revoked_def
proof (intro allI impI)
  fix h j
  assume "sql_row js_hash h (sql_update S g rows) = Some j" and run: "js_run j = i"
  then obtain j0 where j0: "sql_row js_hash h rows = Some j0" "j = (if S j0 then g j0 else j0)"
    unfolding revokes_row [OF assms(1)] by auto
  show "js_revoked j \<noteq> None"
  proof (cases "S j0")
    case True
    then show ?thesis using j0(2) assms(1) by (simp add: revokes_only_def)
  next
    case False
    then show ?thesis using j0 run assms(2) by (simp add: pg_revoked_def all_revoked_def)
  qed
qed

lemma pg_revoked_all:
  assumes "revokes_only g"
  shows "pg_revoked i (sql_update (\<lambda>j. js_run j = i) g rows)"
  unfolding pg_revoked_def all_revoked_def
proof (intro allI impI)
  fix h j
  assume "sql_row js_hash h (sql_update (\<lambda>j. js_run j = i) g rows) = Some j" and run: "js_run j = i"
  then obtain j0 where "(if js_run j0 = i then g j0 else j0) = j"
    unfolding revokes_row [OF assms(1)] by (cases "sql_row js_hash h rows") simp_all
  then show "js_revoked j \<noteq> None" using assms run by (auto simp: revokes_only_def split: if_splits)
qed

lemma pg_revoked_append:
  "pg_revoked i rows \<Longrightarrow> js_run j \<noteq> i \<Longrightarrow> pg_revoked i (rows @ [j])"
  by (auto simp: pg_revoked_def all_revoked_def sql_row_append split: option.splits if_splits)

lemma find_conj_row:
  "List.find (\<lambda>h. ho_code h = code \<and> Q h) rows = Some g \<Longrightarrow> distinct (map ho_code rows) \<Longrightarrow>
   sql_row ho_code code rows = Some g \<and> Q g"
  by (auto simp: find_key_conj sql_row_def split: option.splits if_splits)

interpretation pg_sessions: session_repository pg_session_repo pg_sessions_inv pg_run_of
proof
  fix s :: pg_sessions and c now
  assume inv: "pg_sessions_inv s"
  from pg_step_effect [of now c s] show "pg_sessions_inv (snd (session_step pg_session_repo now c s))"
  proof cases
    case (updates P f g T h mj S rj hj)
    have "map jn_id rj = map jn_id (pj_runs s)" "map js_hash mj = map js_hash (pj_sessions s)"
      "map ho_code hj = map ho_code (pj_handoffs s)"
      unfolding updates(4-6) using updates(1-3)
      by (simp_all add: sql_update_keys ends_def revokes_only_def spares_used_def)
    with inv show ?thesis by (simp add: pg_sessions_inv_def updates)
  qed (use inv in \<open>simp_all add: pg_sessions_inv_def\<close>)
next
  fix s t :: pg_sessions and code now h
  let ?Q = "handoff_usable now (pj_runs s)"
  assume inv: "pg_sessions_inv s" and "sr_consume pg_session_repo code now s = (Inr (Some h), t)"
  then obtain g where g: "List.find (\<lambda>h. ho_code h = code \<and> ?Q h) (pj_handoffs s) = Some g"
      and h: "h = g\<lparr>ho_consumed := Some now\<rparr>"
      and t: "t = s\<lparr>pj_handoffs := sql_update (\<lambda>h. ho_code h = code \<and> ?Q h) (\<lambda>h. h\<lparr>ho_consumed := Some now\<rparr>) (pj_handoffs s)\<rparr>"
    by (auto simp: pg_session_repo_def pg_consume_handoff_def sql_returning_def Let_def)
  have row: "sql_row ho_code code (pj_handoffs s) = Some g" and Q: "?Q g"
    using find_conj_row [OF g] inv by (simp_all add: pg_sessions_inv_def)
  obtain r where r: "r \<in> set (pj_runs s)" "jn_id r = ho_run g" "jn_tenant r = ho_tenant g" "run_live now r"
    using Q by (auto simp: handoff_usable_def)
  have "pg_run_of s (ho_run g) = Some r"
    using sql_row_unique [of jn_id "pj_runs s" r] r inv by (simp add: pg_run_of_def pg_sessions_inv_def)
  moreover have "sr_get_handoff pg_session_repo s code = Some g"
    using row by (simp add: pg_session_repo_def pg_get_handoff_def)
  moreover have "sr_get_handoff pg_session_repo t code = Some h"
    using row Q sql_row_Some [OF row]
    by (simp add: pg_session_repo_def pg_get_handoff_def t h sql_row_update)
  ultimately show "\<exists>g r. sr_get_handoff pg_session_repo s code = Some g \<and> ho_consumed g = None \<and> ho_revoked g = None \<and>
        now < ho_expires g \<and> pg_run_of s (ho_run g) = Some r \<and> jn_tenant r = ho_tenant g \<and> run_live now r \<and>
        h = g\<lparr>ho_consumed := Some now\<rparr> \<and> sr_get_handoff pg_session_repo t code = Some h"
    using r Q by (auto simp: handoff_usable_def h)
next
  fix s :: pg_sessions and code now h c
  assume "sr_get_handoff pg_session_repo s code = Some h" and used: "ho_consumed h \<noteq> None"
  then have row: "sql_row ho_code code (pj_handoffs s) = Some h"
    by (simp add: pg_session_repo_def pg_get_handoff_def)
  from pg_step_effect [of now c s]
  have "sql_row ho_code code (pj_handoffs (snd (session_step pg_session_repo now c s))) = Some h"
  proof cases
    case (updates P f g T h' mj S rj hj)
    have "\<not> T h" using updates(3) used by (auto simp: spares_used_def)
    then show ?thesis using row by (simp add: updates spares_row [OF updates(3)])
  qed (use row in \<open>simp_all add: sql_row_append\<close>)
  then show "sr_get_handoff pg_session_repo (snd (session_step pg_session_repo now c s)) code = Some h"
    by (simp add: pg_session_repo_def pg_get_handoff_def)
next
  fix s :: pg_sessions and i tn gn now
  assume "pg_sessions_inv s" "fst (sr_run_current pg_session_repo i tn gn now s) = Inr True"
  then show "\<exists>r. pg_run_of s i = Some r \<and> jn_tenant r = tn \<and> jn_generation r = gn \<and> run_live now r"
    using sql_row_unique [of jn_id "pj_runs s"]
    by (auto simp: pg_session_repo_def pg_run_is_current_def pg_run_of_def pg_sessions_inv_def)
next
  fix s t :: pg_sessions and i now
  assume inv: "pg_sessions_inv s" and "sr_reset_run pg_session_repo i now s = (Inr True, t)"
  then have "pg_reset_run i now s = (Inr True, t)" by (simp add: pg_session_repo_def)
  note eff = pg_reset_effect(2) [OF this refl]
  then obtain r where r: "r \<in> set (pj_runs s)" "jn_id r = i" "run_live now r" by blast
  have "pg_run_of t i = Some (r\<lparr>jn_status := RunReset, jn_reset := Some now, jn_finalized := Some now\<rparr>)"
    using eff r sql_row_unique [of jn_id "pj_runs s" r] inv
    by (simp add: pg_run_of_def pg_sessions_inv_def sql_row_update)
  moreover have "pg_revoked i (pj_sessions t)"
    using eff pg_revoked_all [OF revokes_coalesce [of now]] by simp
  moreover have "sr_get pg_session_repo t = (\<lambda>h. sql_row js_hash h (pj_sessions t))"
    by (simp add: pg_session_repo_def pg_get_session_def fun_eq_iff)
  ultimately show "(\<exists>r. pg_run_of t i = Some r \<and> jn_status r \<noteq> RunActive) \<and>
      (\<forall>h j. sr_get pg_session_repo t h = Some j \<longrightarrow> js_run j = i \<longrightarrow> js_revoked j \<noteq> None)"
    by (simp add: pg_revoked_def all_revoked_def)
next
  fix s :: pg_sessions and i c now hash j
  assume asm: "pg_sessions_inv s" "\<not> revives i c"
    "\<forall>h j. sr_get pg_session_repo s h = Some j \<longrightarrow> js_run j = i \<longrightarrow> js_revoked j \<noteq> None"
    "sr_get pg_session_repo (snd (session_step pg_session_repo now c s)) hash = Some j" "js_run j = i"
  have get: "sr_get pg_session_repo u = (\<lambda>h. sql_row js_hash h (pj_sessions u))" for u
    by (simp add: pg_session_repo_def pg_get_session_def fun_eq_iff)
  have old: "pg_revoked i (pj_sessions s)" using asm(3) unfolding get pg_revoked_def all_revoked_def .
  from pg_step_effect [of now c s] have "pg_revoked i (pj_sessions (snd (session_step pg_session_repo now c s)))"
  proof cases
    case (updates P f g T h mj S rj hj)
    then show ?thesis using pg_revoked_update [OF updates(2) old] by simp
  next
    case (saved_session j j')
    then show ?thesis using pg_revoked_append [OF old, of j'] asm(2) by (simp add: revives_def)
  qed (use old in simp_all)
  with asm(4,5) show "js_revoked j \<noteq> None" unfolding get by (simp add: pg_revoked_def all_revoked_def)
next
  fix s :: pg_sessions and i c r now
  assume asm: "pg_sessions_inv s" "\<not> revives i c" "pg_run_of s i = Some r" "jn_status r \<noteq> RunActive"
  from pg_step_effect [of now c s] show "pg_run_of (snd (session_step pg_session_repo now c s)) i = Some r"
  proof cases
    case (updates P f g T h mj S rj hj)
    have "\<not> P r" using updates(1) asm(4) by (auto simp: ends_def)
    then show ?thesis using asm(3) by (simp add: pg_run_of_def updates ends_row [OF updates(1)])
  qed (use asm in \<open>simp_all add: pg_run_of_def sql_row_append\<close>)
next
  fix s :: pg_sessions
  have "dom (pg_run_of s) \<subseteq> jn_id ` set (pj_runs s)"
    by (force simp: pg_run_of_def dest: sql_row_Some)
  then show "finite (dom (pg_run_of s))" by (rule finite_subset) simp
next
  fix s :: pg_sessions and now
  assume "pg_sessions_inv s"
  then show "fst (sr_count pg_session_repo now s) = Inr (int (card {i. \<exists>r. pg_run_of s i = Some r \<and> run_live now r}))"
    by (simp add: pg_session_repo_def pg_active_run_count_def pg_live_count)
next
  fix s t :: pg_sessions and now c reply i r
  assume asm: "pg_sessions_inv s" "session_step pg_session_repo now c s = (reply, t)" "pg_run_of t i = Some r"
    "jn_status r = RunActive"
  from pg_step_effect [of now c s] asm(2) have "pg_effect now c s t" by simp
  then show "pg_run_of s i = Some r \<or> (\<exists>r0 l. c = SaveRun r0 l \<and> jn_id r0 = i \<and>
        int (card {i. \<exists>r. pg_run_of s i = Some r \<and> run_live now r}) < l)"
  proof cases
    case (updates P f g T h mj S rj hj)
    from asm(3) obtain r0 where r0: "sql_row jn_id i (pj_runs s) = Some r0" "r = (if P r0 then f r0 else r0)"
      by (auto simp: pg_run_of_def updates ends_row [OF updates(1)])
    with asm(4) updates(1) have "\<not> P r0" by (auto simp: ends_def split: if_splits)
    with r0 show ?thesis by (simp add: pg_run_of_def)
  next
    case (saved_run r0 l r')
    then show ?thesis using asm(3) pg_live_count [OF asm(1), of now]
      by (auto simp: pg_run_of_def sql_row_append split: option.splits if_splits)
  qed (use asm in \<open>simp_all add: pg_run_of_def\<close>)
qed

section \<open>The attempt limit\<close>

text \<open>Counting the attempts of a client that a log holds, and those that were let through.\<close>

definition attempt_of :: "string \<Rightarrow> session_call \<Rightarrow> bool" where
  "attempt_of k c = (case c of Attempt k' _ _ \<Rightarrow> k' = k | _ \<Rightarrow> False)"

definition let_through :: "string \<Rightarrow> session_call \<times> session_reply \<Rightarrow> bool" where
  "let_through k co \<longleftrightarrow> attempt_of k (fst co) \<and> snd co = ReplyBool (Inr True)"

text \<open>The attempts of \<open>k\<close> all fall into \<open>[from, from + window)\<close>, under one limit.\<close>

definition burst :: "string \<Rightarrow> int \<Rightarrow> int \<Rightarrow> time \<Rightarrow> (time \<times> session_call) list \<Rightarrow> bool" where
  "burst k limit window from cs = list_all (\<lambda>(now, c). attempt_of k c \<longrightarrow>
     c = Attempt k limit window \<and> from \<le> now \<and> now < from + seconds window) cs"

lemma let_through_pair [simp]: "let_through k (c, reply) \<longleftrightarrow> attempt_of k c \<and> reply = ReplyBool (Inr True)"
  by (simp add: let_through_def)

locale attempt_limiter = session_repository R inv run_of
  for R :: "'s session_repo" and inv :: "'s \<Rightarrow> bool" and run_of :: "'s \<Rightarrow> uuid \<Rightarrow> judge_run option" +
  fixes window_of :: "'s \<Rightarrow> string \<Rightarrow> (time \<times> int) option"
  assumes attempt_new: "window_of s k = None \<Longrightarrow> sr_attempt R k l w now s = (b, t) \<Longrightarrow>
      b = Inr (1 \<le> l) \<and> window_of t k = Some (now, 1)"
    and attempt_counted: "window_of s k = Some (since, n) \<Longrightarrow> now - since < seconds w \<Longrightarrow>
      sr_attempt R k l w now s = (b, t) \<Longrightarrow> b = Inr (n + 1 \<le> l) \<and> window_of t k = Some (since, n + 1)"
    and attempt_frame: "\<not> attempt_of k c \<Longrightarrow> window_of (snd (session_step R now c s)) k = window_of s k"
begin

lemma later_attempts:
  assumes "window_of s k = Some (since, n)" "burst k limit window base cs" "base \<le> since"
  shows "length (filter (let_through k) (fst (session_run R cs s))) =
    min (length (filter (\<lambda>c. attempt_of k (snd c)) cs)) (nat (limit - n))"
  using assms
proof (induction cs arbitrary: s n)
  case (Cons a cs)
  obtain now c where a: "a = (now, c)" by (cases a)
  obtain o1 s1 where st: "session_step R now c s = (o1, s1)" by (cases "session_step R now c s")
  have b: "burst k limit window base cs" using Cons.prems(2) by (simp add: burst_def)
  show ?case
  proof (cases "attempt_of k c")
    case False
    then have "window_of s1 k = Some (since, n)"
      using attempt_frame [of k c now s] Cons.prems(1) st by simp
    from Cons.IH [OF this b Cons.prems(3)] False st show ?thesis by (simp add: a split_beta)
  next
    case True
    then have c: "c = Attempt k limit window" "now < base + seconds window"
      using Cons.prems(2) by (simp_all add: burst_def a)
    obtain b1 where s1: "sr_attempt R k limit window now s = (b1, s1)" "o1 = ReplyBool b1"
      using st by (cases "sr_attempt R k limit window now s") (simp add: c)
    have "now - since < seconds window" using c(2) Cons.prems(3) by simp
    from attempt_counted [OF Cons.prems(1) this s1(1)]
    have w: "window_of s1 k = Some (since, n + 1)" and o1: "o1 = ReplyBool (Inr (n + 1 \<le> limit))"
      by (simp_all add: s1)
    have "nat (limit - n) = (if n + 1 \<le> limit then Suc (nat (limit - (n + 1))) else 0)" by auto
    with Cons.IH [OF w b Cons.prems(3)] o1 True st show ?thesis
      by (auto simp: a split_beta)
  qed
qed simp

lemma limited:
  assumes "window_of s k = None" "burst k limit window from cs"
    and first: "\<And>now c. List.find (\<lambda>a. attempt_of k (snd a)) cs = Some (now, c) \<Longrightarrow> now = from"
  shows "length (filter (let_through k) (fst (session_run R cs s))) =
    min (length (filter (\<lambda>c. attempt_of k (snd c)) cs)) (nat limit)"
  using assms
proof (induction cs arbitrary: s)
  case (Cons a cs)
  obtain now c where a: "a = (now, c)" by (cases a)
  obtain o1 s1 where st: "session_step R now c s = (o1, s1)" by (cases "session_step R now c s")
  have b: "burst k limit window from cs" using Cons.prems(2) by (simp add: burst_def)
  show ?case
  proof (cases "attempt_of k c")
    case False
    then have "window_of s1 k = None"
      using attempt_frame [of k c now s] Cons.prems(1) st by simp
    moreover have "now' = from" if "List.find (\<lambda>a. attempt_of k (snd a)) cs = Some (now', c')" for now' c'
      using Cons.prems(3) [of now' c'] that False by (simp add: a)
    ultimately show ?thesis using Cons.IH [OF _ b] False st by (simp add: a split_beta)
  next
    case True
    then have c: "c = Attempt k limit window" using Cons.prems(2) by (simp add: burst_def a)
    have now: "now = from" using Cons.prems(3) [of now c] True by (simp add: a)
    obtain b1 where s1: "sr_attempt R k limit window now s = (b1, s1)" "o1 = ReplyBool b1"
      using st by (cases "sr_attempt R k limit window now s") (simp add: c)
    from attempt_new [OF Cons.prems(1) s1(1)]
    have w: "window_of s1 k = Some (from, 1)" and o1: "o1 = ReplyBool (Inr (1 \<le> limit))"
      by (simp_all add: s1 now)
    have "nat limit = (if 1 \<le> limit then Suc (nat (limit - 1)) else 0)" by auto
    with later_attempts [OF w b order_refl] o1 True st show ?thesis
      by (auto simp: a split_beta)
  qed
qed simp

end

lemma only_expires_attempts:
  "mj_attempts (snd (mem_get_run i now s)) = mj_attempts s"
  "mj_attempts (snd (mem_count_ids ks now s)) = mj_attempts s"
proof -
  have g: "mj_attempts (snd (mem_get_run i now s)) = mj_attempts s" for i s
    by (simp add: mem_get_run_def split: option.split)
  then show "mj_attempts (snd (mem_get_run i now s)) = mj_attempts s" .
  show "mj_attempts (snd (mem_count_ids ks now s)) = mj_attempts s"
  proof (induction ks arbitrary: s)
    case (Cons i ks)
    obtain x s1 where x: "mem_get_run i now s = (x, s1)" by (cases "mem_get_run i now s")
    obtain y s2 where y: "mem_count_ids ks now s1 = (y, s2)" by (cases "mem_count_ids ks now s1")
    have "mj_attempts s2 = mj_attempts s1" "mj_attempts s1 = mj_attempts s"
      using Cons.IH [of s1] g [of i s] by (simp_all add: x y)
    then show ?case by (simp add: x y split: sum.split)
  qed simp
qed

lemma mem_attempts_frame:
  assumes "\<not> attempt_of k c"
  shows "mj_attempts (snd (session_step mem_session_repo now c s)) k = mj_attempts s k"
proof (cases c)
  case (Attempt k' l w)
  with assms show ?thesis
    by (simp add: attempt_of_def mem_session_repo_def mem_consume_attempt_def Let_def split_beta)
next
  case (SaveRun r l)
  obtain x s1 where x: "mem_active_run_count now s = (x, s1)" by (cases "mem_active_run_count now s")
  have "mj_attempts s1 = mj_attempts s"
    using only_expires_attempts(2) [of "map fst (mj_runs s)" now s] x by (simp add: mem_active_run_count_def)
  then show ?thesis by (simp add: SaveRun mem_session_repo_def mem_save_run_def x split: sum.split)
next
  case (ConsumeHandoff code)
  have "mj_attempts (snd (mem_consume_handoff code now s)) = mj_attempts s"
  proof (cases "mj_handoffs s code")
    case (Some h)
    obtain x s1 where x: "mem_get_run (ho_run h) now s = (x, s1)" by (cases "mem_get_run (ho_run h) now s")
    have "mj_attempts s1 = mj_attempts s" using only_expires_attempts(1) [of "ho_run h" now s] by (simp add: x)
    then show ?thesis by (simp add: mem_consume_handoff_def Some x Let_def split: sum.split option.split)
  qed (simp add: mem_consume_handoff_def)
  then show ?thesis by (simp add: ConsumeHandoff mem_session_repo_def)
next
  case (RunIsCurrent i tn gn)
  obtain x s1 where x: "mem_get_run i now s = (x, s1)" by (cases "mem_get_run i now s")
  have "mj_attempts s1 = mj_attempts s" using only_expires_attempts(1) [of i now s] by (simp add: x)
  then show ?thesis by (simp add: RunIsCurrent mem_session_repo_def mem_run_is_current_def x split: sum.split)
qed (auto simp: mem_session_repo_def mem_save_session_def mem_revoke_session_def mem_reset_run_def
     mem_save_handoff_def mem_active_run_count_def only_expires_attempts split: option.split)

interpretation mem_limiter: attempt_limiter mem_session_repo mem_sessions_inv mem_run_of mj_attempts
proof
  fix s t :: mem_sessions and k l w now b and since :: time and n :: int
  show "mj_attempts s k = None \<Longrightarrow> sr_attempt mem_session_repo k l w now s = (b, t) \<Longrightarrow>
      b = Inr (1 \<le> l) \<and> mj_attempts t k = Some (now, 1)"
    by (auto simp: mem_session_repo_def mem_consume_attempt_def Let_def split: if_splits)
  show "mj_attempts s k = Some (since, n) \<Longrightarrow> now - since < seconds w \<Longrightarrow>
      sr_attempt mem_session_repo k l w now s = (b, t) \<Longrightarrow> b = Inr (n + 1 \<le> l) \<and> mj_attempts t k = Some (since, n + 1)"
    by (auto simp: mem_session_repo_def mem_consume_attempt_def Let_def split: if_splits)
qed (rule mem_attempts_frame)

definition pg_window_of :: "pg_sessions \<Rightarrow> string \<Rightarrow> (time \<times> int) option" where
  "pg_window_of s k = map_option (\<lambda>r. (aw_started r, aw_attempts r)) (sql_row aw_client k (pj_attempts s))"

lemma pg_attempts_frame:
  assumes "\<not> attempt_of k c"
  shows "pg_window_of (snd (session_step pg_session_repo now c s)) k = pg_window_of s k"
proof (cases c)
  case (Attempt k' l w)
  with assms have "k' \<noteq> k" by (simp add: attempt_of_def)
  then show ?thesis
    by (auto simp: Attempt pg_window_of_def pg_session_repo_def pg_consume_attempt_def Let_def sql_row_append
        sql_row_update split: option.splits dest: sql_row_Some)
qed (simp_all add: pg_window_of_def pg_session_repo_def pg_save_session_def pg_revoke_session_def pg_save_run_def
     pg_get_run_def pg_reset_run_def pg_run_is_current_def pg_save_handoff_def pg_consume_handoff_def
     pg_active_run_count_def Let_def)

interpretation pg_limiter: attempt_limiter pg_session_repo pg_sessions_inv pg_run_of pg_window_of
proof
  fix s t :: pg_sessions and k l w now b and since :: time and n :: int
  show "pg_window_of s k = None \<Longrightarrow> sr_attempt pg_session_repo k l w now s = (b, t) \<Longrightarrow>
      b = Inr (1 \<le> l) \<and> pg_window_of t k = Some (now, 1)"
    by (auto simp: pg_window_of_def pg_session_repo_def pg_consume_attempt_def Let_def sql_row_append)
  show "pg_window_of s k = Some (since, n) \<Longrightarrow> now - since < seconds w \<Longrightarrow>
      sr_attempt pg_session_repo k l w now s = (b, t) \<Longrightarrow> b = Inr (n + 1 \<le> l) \<and> pg_window_of t k = Some (since, n + 1)"
    using sql_row_Some [of aw_client k "pj_attempts s"]
    by (auto simp: pg_window_of_def pg_session_repo_def pg_consume_attempt_def Let_def sql_row_update)
qed (rule pg_attempts_frame)

section \<open>Properties\<close>

definition pg_sessions_empty :: pg_sessions where
  "pg_sessions_empty = \<lparr>pj_sessions = [], pj_attempts = [], pj_runs = [], pj_handoffs = []\<rparr>"

lemma empty_inv [simp]: "mem_sessions_inv mem_sessions_empty" "pg_sessions_inv pg_sessions_empty"
  by (simp_all add: mem_sessions_inv_def mem_sessions_empty_def pg_sessions_inv_def pg_sessions_empty_def)

text \<open>
  C16. A review handoff is consumed at most once: whatever calls are made on a session
  repository, in whatever order and at whatever times, at most one \<open>consume_handoff\<close> of a code
  returns the handoff, in memory and in Postgres.
\<close>

theorem handoff_consumed_once:
  "length (filter (hands_over code) (fst (session_run mem_session_repo cs mem_sessions_empty))) \<le> 1 \<and>
   length (filter (hands_over code) (fst (session_run pg_session_repo cs pg_sessions_empty))) \<le> 1"
  by (intro conjI mem_sessions.handed_over_once pg_sessions.handed_over_once empty_inv)

text \<open>
  What the end of a run means: each of its sessions is revoked, no token of the run is current,
  and no handoff of the run can be consumed, at any time.
\<close>

definition run_dead :: "'s session_repo \<Rightarrow> uuid \<Rightarrow> 's \<Rightarrow> bool" where
  "run_dead R i s \<longleftrightarrow>
     (\<forall>h j. sr_get R s h = Some j \<longrightarrow> js_run j = i \<longrightarrow> js_revoked j \<noteq> None) \<and>
     (\<forall>tn gn now. fst (sr_run_current R i tn gn now s) \<noteq> Inr True) \<and>
     (\<forall>code h now. sr_get_handoff R s code = Some h \<longrightarrow> ho_run h = i \<longrightarrow>
        (\<forall>h'. fst (sr_consume R code now s) \<noteq> Inr (Some h')))"

definition reset_accepted :: "'s session_repo \<Rightarrow> uuid \<Rightarrow> time \<Rightarrow> 's \<Rightarrow> bool" where
  "reset_accepted R i now s \<longleftrightarrow> fst (sr_reset_run R i now s) = Inr True"

lemma mem_reset_dead:
  assumes "\<forall>c \<in> snd ` set later. \<not> revives i c" "mem_sessions_inv s" "reset_accepted mem_session_repo i now s"
  shows "run_dead mem_session_repo i (snd (session_run mem_session_repo later (snd (sr_reset_run mem_session_repo i now s))))"
proof -
  have "sr_reset_run mem_session_repo i now s = (Inr True, snd (sr_reset_run mem_session_repo i now s))"
    using assms(3) by (cases "sr_reset_run mem_session_repo i now s") (simp add: reset_accepted_def)
  note over = mem_sessions.reset_is_final [OF assms(2) this assms(1)]
  show ?thesis
    unfolding run_dead_def
    using mem_sessions.over_final [OF over [THEN conjunct1] over [THEN conjunct2]] by blast
qed

lemma pg_reset_dead:
  assumes "\<forall>c \<in> snd ` set later. \<not> revives i c" "pg_sessions_inv s" "reset_accepted pg_session_repo i now s"
  shows "run_dead pg_session_repo i (snd (session_run pg_session_repo later (snd (sr_reset_run pg_session_repo i now s))))"
proof -
  have "sr_reset_run pg_session_repo i now s = (Inr True, snd (sr_reset_run pg_session_repo i now s))"
    using assms(3) by (cases "sr_reset_run pg_session_repo i now s") (simp add: reset_accepted_def)
  note over = pg_sessions.reset_is_final [OF assms(2) this assms(1)]
  show ?thesis
    unfolding run_dead_def
    using pg_sessions.over_final [OF over [THEN conjunct1] over [THEN conjunct2]] by blast
qed


definition sample_run :: judge_run where
  "sample_run = \<lparr>jn_id = ''r1'', jn_tenant = ''t1'', jn_generation = 1, jn_scenario = ''s'', jn_incident = ''i1'',
     jn_status = RunActive, jn_operator = ''op'', jn_build = ''b'', jn_policy = ''p'', jn_created = 0,
     jn_expires = seconds 900, jn_finalized = None, jn_reset = None\<rparr>"

definition sample_session :: judge_session where
  "sample_session = \<lparr>js_hash = replicate 64 CHR ''a'', js_csrf = replicate 64 CHR ''b'', js_tenant = ''t1'',
     js_subject = ''op'', js_role = ''operator'', js_run = ''r1'', js_generation = 1, js_handoff = None,
     js_expires = seconds 900, js_revoked = None\<rparr>"

definition sample_handoff :: review_handoff where
  "sample_handoff = \<lparr>ho_code = ''h1'', ho_run = ''r1'', ho_tenant = ''t1'', ho_workflow = ''w1'', ho_memory = ''m1'',
     ho_digest = ''d'', ho_purpose = InitialReview, ho_issuer = ''op'', ho_expires = seconds 600,
     ho_consumed = None, ho_revoked = None\<rparr>"

definition sample_calls :: "(time \<times> session_call) list" where
  "sample_calls = [(0, SaveRun sample_run 5), (1, SaveSession sample_session), (2, SaveHandoff sample_handoff)]"

lemmas session_ops = mem_session_repo_def mem_save_run_def mem_active_run_count_def mem_save_session_def
  mem_save_handoff_def mem_reset_run_def mem_get_run_def mem_consume_attempt_def mem_consume_handoff_def
  pg_session_repo_def pg_save_run_def
  pg_active_run_count_def pg_save_session_def pg_save_handoff_def pg_reset_run_def pg_consume_attempt_def
  pg_consume_handoff_def handoff_usable_def session_row_ok_def session_row_clash_def sql_update_def sql_returning_def sql_row_def run_live_def


text \<open>
  C19. The capacity holds: when every run is saved under the same limit and the clock does not go
  back, no sequence of calls leaves more than that many runs active, in memory and in Postgres.
\<close>

theorem run_capacity_bound:
  assumes "sorted (map fst cs @ [later])" "\<And>now r l. (now, SaveRun r l) \<in> set cs \<Longrightarrow> l = limit"
  shows "(\<exists>n. fst (mem_active_run_count later (snd (session_run mem_session_repo cs mem_sessions_empty))) = Inr n \<and>
      n \<le> max 0 limit) \<and>
    (\<exists>n. fst (pg_active_run_count later (snd (session_run pg_session_repo cs pg_sessions_empty))) = Inr n \<and>
      n \<le> max 0 limit)"
proof -
  have m: "sr_count mem_session_repo = mem_active_run_count" "sr_count pg_session_repo = pg_active_run_count"
    by (simp_all add: mem_session_repo_def pg_session_repo_def)
  have "int (card {i. \<exists>r. mem_run_of mem_sessions_empty i = Some r \<and> run_live now r}) \<le> max 0 limit" for now
    by (simp add: mem_run_of_def mem_sessions_empty_def)
  moreover have "int (card {i. \<exists>r. pg_run_of pg_sessions_empty i = Some r \<and> run_live now r}) \<le> max 0 limit" for now
    by (simp add: pg_run_of_def pg_sessions_empty_def sql_row_def)
  ultimately show ?thesis
    using mem_sessions.run_capacity [OF _ assms(1) _ assms(2)] pg_sessions.run_capacity [OF _ assms(1) _ assms(2)]
    unfolding m by simp
qed

theorem run_capacity_bound_witness:
  "fst (mem_active_run_count 9 (snd (session_run mem_session_repo
     [(0, SaveRun sample_run 1), (1, SaveRun (sample_run\<lparr>jn_id := ''r2'', jn_tenant := ''t2''\<rparr>) 1)] mem_sessions_empty))) = Inr 1 \<and>
   (\<exists>n. fst (mem_active_run_count 9 (snd (session_run mem_session_repo
     [(0, SaveRun sample_run 1), (1, SaveRun (sample_run\<lparr>jn_id := ''r2'', jn_tenant := ''t2''\<rparr>) 1)] mem_sessions_empty))) = Inr n \<and>
     n \<le> max 0 1)"
proof
  let ?cs = "[(0, SaveRun sample_run 1), (1, SaveRun (sample_run\<lparr>jn_id := ''r2'', jn_tenant := ''t2''\<rparr>) 1)]"
  show "fst (mem_active_run_count 9 (snd (session_run mem_session_repo ?cs mem_sessions_empty))) = Inr 1"
    by (simp add: session_ops mem_sessions_empty_def sample_run_def expire_run_def)
  have s: "sorted (map fst ?cs @ [9 :: time])" by simp
  have l: "\<And>now r l. (now, SaveRun r l) \<in> set ?cs \<Longrightarrow> l = 1" by auto
  show "\<exists>n. fst (mem_active_run_count 9 (snd (session_run mem_session_repo ?cs mem_sessions_empty))) = Inr n \<and> n \<le> max 0 1"
    by (rule run_capacity_bound [OF s l, THEN conjunct1])
qed



text \<open>
  At the very end of a window the two repositories part: an attempt exactly \<open>window\<close> seconds
  after the first opens a new window in memory and is still counted into the old one in Postgres.
\<close>

lemma attempt_window_boundary:
  "map snd (fst (session_run mem_session_repo [(0, Attempt k 1 60), (seconds 60, Attempt k 1 60)] mem_sessions_empty)) =
     [ReplyBool (Inr True), ReplyBool (Inr True)]"
  "map snd (fst (session_run pg_session_repo [(0, Attempt k 1 60), (seconds 60, Attempt k 1 60)] pg_sessions_empty)) =
     [ReplyBool (Inr True), ReplyBool (Inr False)]"
  by (simp_all add: session_ops mem_sessions_empty_def pg_sessions_empty_def)

end
