(* ===== verification/Text_Codecs.thy ===== *)
theory Text_Codecs
  imports Ledger
begin

text \<open>
  The text formats the receipts of \<^verbatim>\<open>src/recallops/receipts.py\<close> are made of: base64url without
  padding (\<open>_b64url\<close>, \<open>_decode_b64url\<close>), and JSON text as \<open>json.loads\<close> of the standard library
  reads it under the hooks \<open>parse_canonical_json\<close> passes (a repeated property and the constants
  \<open>NaN\<close>, \<open>Infinity\<close> and \<open>-Infinity\<close> are refused). A float literal is its exact real value.
\<close>

section \<open>Base64url\<close>

definition b64_alphabet :: string where
  "b64_alphabet = ''ABCDEFGHIJKLMNOPQRSTUVWXYZabcdefghijklmnopqrstuvwxyz0123456789-_''"

definition b64_char :: "nat \<Rightarrow> char" where
  "b64_char n = b64_alphabet ! n"

definition b64_value :: "char \<Rightarrow> nat option" where
  "b64_value c = (let n = of_char c :: nat in
     if 65 \<le> n \<and> n \<le> 90 then Some (n - 65)
     else if 97 \<le> n \<and> n \<le> 122 then Some (n - 71)
     else if 48 \<le> n \<and> n \<le> 57 then Some (n + 4)
     else if n = 45 then Some 62
     else if n = 95 then Some 63
     else None)"

fun b64_encode :: "nat list \<Rightarrow> string" where
  "b64_encode [] = []"
| "b64_encode [a] = [b64_char (a div 4), b64_char (a mod 4 * 16)]"
| "b64_encode [a, b] = [b64_char (a div 4), b64_char (a mod 4 * 16 + b div 16), b64_char (b mod 16 * 4)]"
| "b64_encode (a # b # c # r) =
     [b64_char (a div 4), b64_char (a mod 4 * 16 + b div 16), b64_char (b mod 16 * 4 + c div 64), b64_char (c mod 64)]
       @ b64_encode r"

text \<open>\<open>base64.b64decode(..., altchars=b"-_", validate=True)\<close> of the text with its padding restored.\<close>

fun b64_decode :: "nat list \<Rightarrow> nat list option" where
  "b64_decode [] = Some []"
| "b64_decode [w] = None"
| "b64_decode [w, x] = Some [w * 4 + x div 16]"
| "b64_decode [w, x, y] = Some [w * 4 + x div 16, x mod 16 * 16 + y div 4]"
| "b64_decode (w # x # y # z # r) =
     map_option (\<lambda>bs. (w * 4 + x div 16) # (x mod 16 * 16 + y div 4) # (y mod 4 * 64 + z) # bs) (b64_decode r)"

definition b64url :: "string \<Rightarrow> string" where
  "b64url data = b64_encode (map of_char data)"

datatype text_error = NotBase64url | InvalidJson | DuplicateProperty | NonIJsonNumber | NotCanonical

definition decode_b64url :: "string \<Rightarrow> text_error + string" where
  "decode_b64url value =
    (if value = [] \<or> list_ex (\<lambda>c. b64_value c = None) value then Inl NotBase64url
     else case b64_decode (map (\<lambda>c. the (b64_value c)) value) of
       None \<Rightarrow> Inl NotBase64url
     | Some bs \<Rightarrow> let decoded = map char_of bs in
         if b64url decoded \<noteq> value then Inl NotBase64url else Inr decoded)"

lemma b64_alphabet_values: "map b64_value b64_alphabet = map Some [0..<64]"
  by (simp add: b64_alphabet_def b64_value_def upt_rec)

lemma b64_char_value: "n < 64 \<Longrightarrow> b64_value (b64_char n) = Some n"
proof -
  assume n: "n < 64"
  have l: "length b64_alphabet = 64" by (simp add: b64_alphabet_def)
  have "map b64_value b64_alphabet ! n = map Some [0..<64] ! n" by (simp only: b64_alphabet_values)
  with n l show ?thesis by (simp add: b64_char_def)
qed

lemma b64_bounds:
  assumes "a < 256" "b < 256" "c < (256 :: nat)"
  shows "a div 4 < 64" "a mod 4 * 16 < 64" "a mod 4 * 16 + b div 16 < 64" "b mod 16 * 4 < 64"
    "b mod 16 * 4 + c div 64 < 64" "c mod 64 < 64"
    "(a mod 4 * 16 + b div 16) div 16 = a mod 4" "(a mod 4 * 16 + b div 16) mod 16 = b div 16"
    "(b mod 16 * 4 + c div 64) div 4 = b mod 16" "(b mod 16 * 4 + c div 64) mod 4 = c div 64"
proof -
  have "b div 16 < 16" "c div 64 < 4" "a mod 4 < 4" "b mod 16 < 16" "a div 4 < 64" using assms by auto
  then show "a div 4 < 64" "a mod 4 * 16 < 64" "a mod 4 * 16 + b div 16 < 64" "b mod 16 * 4 < 64"
    "b mod 16 * 4 + c div 64 < 64" "c mod 64 < 64"
    "(a mod 4 * 16 + b div 16) div 16 = a mod 4" "(a mod 4 * 16 + b div 16) mod 16 = b div 16"
    "(b mod 16 * 4 + c div 64) div 4 = b mod 16" "(b mod 16 * 4 + c div 64) mod 4 = c div 64"
    by simp_all
qed

lemma b64_encode_chars:
  "\<forall>n \<in> set bs. n < 256 \<Longrightarrow> \<forall>c \<in> set (b64_encode bs). \<exists>n < 64. c = b64_char n"
proof (induction bs rule: b64_encode.induct)
  case (2 a)
  then have "a < 256" by simp
  then show ?case unfolding b64_encode.simps list.set using b64_bounds(1,2) [OF \<open>a < 256\<close> zero_less_numeral zero_less_numeral] by blast
next
  case (3 a b)
  then have "a < 256" "b < 256" by simp_all
  then show ?case unfolding b64_encode.simps list.set using b64_bounds(1,3,4) [OF \<open>a < 256\<close> \<open>b < 256\<close> zero_less_numeral] by blast
next
  case (4 a b c r)
  then have "a < 256" "b < 256" "c < 256" "\<forall>c \<in> set (b64_encode r). \<exists>n < 64. c = b64_char n" by simp_all
  then show ?case unfolding b64_encode.simps set_append list.set
    using b64_bounds(1,3,5,6) [OF \<open>a < 256\<close> \<open>b < 256\<close> \<open>c < 256\<close>] by blast
qed simp

lemma b64_decode_encode:
  "\<forall>n \<in> set bs. n < 256 \<Longrightarrow> b64_decode (map (\<lambda>c. the (b64_value c)) (b64_encode bs)) = Some bs"
proof (induction bs rule: b64_encode.induct)
  case (2 a)
  then have "a < 256" by simp
  then show ?case using b64_bounds [of a 0 0] by (simp add: b64_char_value)
next
  case (3 a b)
  then have "a < 256" "b < 256" by simp_all
  then show ?case using b64_bounds [of a b 0] by (simp add: b64_char_value)
next
  case (4 a b c r)
  then have "a < 256" "b < 256" "c < 256" by simp_all
  then have "b div 16 < 16" "c div 64 < 4" by auto
  then show ?case using b64_bounds [OF \<open>a < 256\<close> \<open>b < 256\<close> \<open>c < 256\<close>] 4 by (simp add: b64_char_value)
qed simp

lemma b64_encode_Nil: "b64_encode bs = [] \<longleftrightarrow> bs = []"
  by (cases bs rule: b64_encode.cases) simp_all

lemma decode_b64url_exact: "decode_b64url value = Inr data \<longleftrightarrow> data \<noteq> [] \<and> value = b64url data"
proof
  assume d: "decode_b64url value = Inr data"
  then have "value \<noteq> []" "b64url data = value"
    by (auto simp: decode_b64url_def Let_def split: if_splits option.splits)
  then show "data \<noteq> [] \<and> value = b64url data" by (auto simp: b64url_def)
next
  assume v: "data \<noteq> [] \<and> value = b64url data"
  have small: "\<forall>n \<in> set (map of_char data). n < (256 :: nat)" by simp
  have "b64_value c \<noteq> None" if "c \<in> set value" for c
    using b64_encode_chars [OF small] that v by (auto simp: b64url_def b64_char_value)
  moreover have "b64_decode (map (\<lambda>c. the (b64_value c)) value) = Some (map of_char data)"
    using b64_decode_encode [OF small] v by (simp add: b64url_def)
  moreover have "value \<noteq> []" using v by (simp add: b64url_def b64_encode_Nil)
  ultimately show "decode_b64url value = Inr data"
    using v by (auto simp: decode_b64url_def list_ex_iff comp_def)
qed

text \<open>
  Base64url decoding is canonical: a text decodes to a byte string exactly when it is the
  encoding of that nonempty byte string, so each byte string has one accepted text, and no text
  with stray bits, padding or foreign characters is accepted.
\<close>

theorem decode_b64url_iff: "decode_b64url value = Inr data \<longleftrightarrow> data \<noteq> [] \<and> value = b64url data"
  by (rule decode_b64url_exact)

section \<open>UTF-8\<close>

text \<open>\<open>bytes.decode("utf-8", errors="strict")\<close>: no overlong form, no surrogate, nothing above U+10FFFF.\<close>

definition cont_byte :: "nat \<Rightarrow> bool" where
  "cont_byte b \<longleftrightarrow> 128 \<le> b \<and> b < 192"

fun utf8_valid :: "nat list \<Rightarrow> bool" where
  "utf8_valid [] \<longleftrightarrow> True"
| "utf8_valid (a # r) \<longleftrightarrow>
     (if a < 128 then utf8_valid r
      else if a < 194 then False
      else if a < 224 then (case r of b # r' \<Rightarrow> cont_byte b \<and> utf8_valid r' | _ \<Rightarrow> False)
      else if a < 240 then
        (case r of b # c # r' \<Rightarrow> cont_byte b \<and> cont_byte c \<and> (a = 224 \<longrightarrow> 160 \<le> b) \<and> (a = 237 \<longrightarrow> b < 160) \<and> utf8_valid r'
         | _ \<Rightarrow> False)
      else if a < 245 then
        (case r of b # c # d # r' \<Rightarrow> cont_byte b \<and> cont_byte c \<and> cont_byte d \<and> (a = 240 \<longrightarrow> 144 \<le> b) \<and>
            (a = 244 \<longrightarrow> b < 144) \<and> utf8_valid r'
         | _ \<Rightarrow> False)
      else False)"

definition utf8_encode :: "nat \<Rightarrow> string" where
  "utf8_encode n = map char_of
     (if n < 128 then [n]
      else if n < 2048 then [192 + n div 64, 128 + n mod 64]
      else if n < 65536 then [224 + n div 4096, 128 + n div 64 mod 64, 128 + n mod 64]
      else [240 + n div 262144, 128 + n div 4096 mod 64, 128 + n div 64 mod 64, 128 + n mod 64])"

lemma utf8_valid_ascii: "list_all ascii_char s \<Longrightarrow> utf8_valid (map of_char s)"
  by (induction s) (simp_all add: ascii_char_def)

section \<open>JSON text\<close>

definition json_space :: "char \<Rightarrow> bool" where
  "json_space c \<longleftrightarrow> (of_char c :: nat) \<in> {32, 9, 10, 13}"

definition skip_space :: "string \<Rightarrow> string" where
  "skip_space = dropWhile json_space"

definition quote_mark :: char where "quote_mark = CHR 0x22"
definition backslash :: char where "backslash = CHR 0x5C"

definition hex_quad :: "char \<Rightarrow> char \<Rightarrow> char \<Rightarrow> char \<Rightarrow> nat option" where
  "hex_quad a b c d = (case (hex_value a, hex_value b, hex_value c, hex_value d) of
       (Some w, Some x, Some y, Some z) \<Rightarrow> Some (4096 * w + 256 * x + 16 * y + z)
     | _ \<Rightarrow> None)"

definition simple_escape :: "char \<Rightarrow> char option" where
  "simple_escape e =
     (if e = quote_mark \<or> e = backslash \<or> e = CHR ''/'' then Some e
      else if e = CHR ''b'' then Some (char_of (8 :: nat))
      else if e = CHR ''f'' then Some (char_of (12 :: nat))
      else if e = CHR ''n'' then Some (char_of (10 :: nat))
      else if e = CHR ''r'' then Some (char_of (13 :: nat))
      else if e = CHR ''t'' then Some (char_of (9 :: nat))
      else None)"

text \<open>
  The body of a string literal after its opening quote: its value and the rest of the text. A
  surrogate pair of escapes is one character; a lone surrogate, which has no UTF-8 encoding and so
  no canonical form, is refused here.
\<close>

function (sequential) json_chars :: "string \<Rightarrow> (string \<times> string) option" where
  "json_chars [] = None"
| "json_chars (c # r) =
     (if c = quote_mark then Some ([], r)
      else if (of_char c :: nat) < 32 then None
      else if c \<noteq> backslash then map_option (apfst ((#) c)) (json_chars r)
      else case r of
        [] \<Rightarrow> None
      | e # r1 \<Rightarrow>
          if e \<noteq> CHR ''u'' then
            (case simple_escape e of None \<Rightarrow> None | Some d \<Rightarrow> map_option (apfst ((#) d)) (json_chars r1))
          else (case r1 of
            h1 # h2 # h3 # h4 # r2 \<Rightarrow>
              (case hex_quad h1 h2 h3 h4 of
                 None \<Rightarrow> None
               | Some n \<Rightarrow>
                   if n < 55296 \<or> 57343 < n then map_option (apfst ((@) (utf8_encode n))) (json_chars r2)
                   else if 56320 \<le> n then None
                   else (case r2 of
                     b # u # l1 # l2 # l3 # l4 # r3 \<Rightarrow>
                       if b \<noteq> backslash \<or> u \<noteq> CHR ''u'' then None
                       else (case hex_quad l1 l2 l3 l4 of
                         None \<Rightarrow> None
                       | Some m \<Rightarrow>
                           if m < 56320 \<or> 57343 < m then None
                           else map_option (apfst ((@) (utf8_encode (65536 + (n - 55296) * 1024 + (m - 56320)))))
                                  (json_chars r3))
                   | _ \<Rightarrow> None))
          | _ \<Rightarrow> None))"
  by pat_completeness auto
termination by (relation "measure length") simp_all

definition json_digit :: "char \<Rightarrow> bool" where
  "json_digit c \<longleftrightarrow> 48 \<le> (of_char c :: nat) \<and> (of_char c :: nat) \<le> 57"

definition digits_value :: "string \<Rightarrow> nat" where
  "digits_value ds = foldl (\<lambda>n c. 10 * n + (of_char c - 48)) 0 ds"

text \<open>The number pattern \<open>(-?(?:0|[1-9]\d*))(\.\d+)?([eE][-+]?\d+)?\<close>, longest match first.\<close>

fun integer_part :: "string \<Rightarrow> (string \<times> string) option" where
  "integer_part [] = None"
| "integer_part (c # r) =
     (if c = CHR ''0'' then Some ([c], r)
      else if json_digit c then Some (c # takeWhile json_digit r, dropWhile json_digit r)
      else None)"

fun fraction_part :: "string \<Rightarrow> string \<times> string" where
  "fraction_part [] = ([], [])"
| "fraction_part (c # r) =
     (if c = CHR ''.'' \<and> takeWhile json_digit r \<noteq> [] then (takeWhile json_digit r, dropWhile json_digit r)
      else ([], c # r))"

fun exponent_digits :: "string \<Rightarrow> (string \<times> string) option" where
  "exponent_digits r = (if takeWhile json_digit r = [] then None
     else Some (takeWhile json_digit r, dropWhile json_digit r))"

fun exponent_part :: "string \<Rightarrow> int option \<times> string" where
  "exponent_part [] = (None, [])"
| "exponent_part (c # r) =
     (if c \<noteq> CHR ''e'' \<and> c \<noteq> CHR ''E'' then (None, c # r)
      else case r of
        [] \<Rightarrow> (None, c # r)
      | s # r' \<Rightarrow>
          (case exponent_digits (if s = CHR ''-'' \<or> s = CHR ''+'' then r' else s # r') of
             None \<Rightarrow> (None, c # r)
           | Some (ds, rest) \<Rightarrow>
               (Some ((if s = CHR ''-'' then - 1 else 1) * int (digits_value ds)), rest)))"

fun strip_minus :: "string \<Rightarrow> bool \<times> string" where
  "strip_minus [] = (False, [])"
| "strip_minus (c # r) = (if c = CHR ''-'' then (True, r) else (False, c # r))"

definition json_number :: "string \<Rightarrow> (json \<times> string) option" where
  "json_number s =
    (case strip_minus s of (neg, s0) \<Rightarrow>
     case integer_part s0 of
       None \<Rightarrow> None
     | Some (ds, s1) \<Rightarrow>
        (case fraction_part s1 of (fs, s2) \<Rightarrow>
         case exponent_part s2 of (ex, s3) \<Rightarrow>
           let sgn = (if neg then - 1 else 1) in
           Some (if fs = [] \<and> ex = None then JInt (sgn * int (digits_value ds))
                 else JNum (of_int sgn * (real (digits_value ds) + real (digits_value fs) / 10 ^ length fs)
                        * 10 powi (case ex of None \<Rightarrow> 0 | Some k \<Rightarrow> k)), s3)))"

definition has_prefix :: "string \<Rightarrow> string \<Rightarrow> bool" where
  "has_prefix p s \<longleftrightarrow> take (length p) s = p"

text \<open>A scanner's error is a bounded one, or \<open>None\<close> when its fuel ran out.\<close>

type_synonym 'a scan = "text_error option + 'a \<times> string"

definition bad_json :: "'a scan" where
  "bad_json = Inl (Some InvalidJson)"

definition next_char :: "string \<Rightarrow> char scan" where
  "next_char s = (case skip_space s of [] \<Rightarrow> bad_json | c # r \<Rightarrow> Inr (c, r))"

definition scan_atom :: "string \<Rightarrow> json scan" where
  "scan_atom s =
    (if has_prefix ''null'' s then Inr (JNull, drop 4 s)
     else if has_prefix ''true'' s then Inr (JBool True, drop 4 s)
     else if has_prefix ''false'' s then Inr (JBool False, drop 5 s)
     else if has_prefix ''NaN'' s \<or> has_prefix ''Infinity'' s \<or> has_prefix ''-Infinity'' s then Inl (Some NonIJsonNumber)
     else case json_number s of None \<Rightarrow> bad_json | Some vr \<Rightarrow> Inr vr)"

definition scan_string :: "string \<Rightarrow> string scan" where
  "scan_string s = (case s of [] \<Rightarrow> bad_json | q # r \<Rightarrow>
     if q \<noteq> quote_mark then bad_json
     else case json_chars r of None \<Rightarrow> bad_json | Some tr \<Rightarrow> Inr tr)"

definition scan_key :: "string \<Rightarrow> string scan" where
  "scan_key s = bind_r (scan_string s) (\<lambda>(k, r). bind_r (next_char r) (\<lambda>(c, r1).
     if c = CHR '':'' then Inr (k, skip_space r1) else bad_json))"

text \<open>What follows an element: a comma (there is more) or the closing bracket.\<close>

definition separator :: "char \<Rightarrow> string \<Rightarrow> bool scan" where
  "separator close s = bind_r (next_char s) (\<lambda>(c, r).
     if c = close then Inr (False, r) else if c = CHR '','' then Inr (True, skip_space r) else bad_json)"

definition object_of :: "(string \<times> json) list \<times> string \<Rightarrow> json scan" where
  "object_of kvs = (if distinct (map fst (fst kvs)) then Inr (apfst JObj kvs) else Inl (Some DuplicateProperty))"

text \<open>The recursive scanner; each call spends a unit of fuel.\<close>

fun scan_value :: "nat \<Rightarrow> string \<Rightarrow> json scan"
  and scan_elements :: "nat \<Rightarrow> string \<Rightarrow> json list scan"
  and scan_members :: "nat \<Rightarrow> string \<Rightarrow> (string \<times> json) list scan" where
  "scan_value 0 s = Inl None"
| "scan_value (Suc n) s =
    (if s = [] then bad_json
     else if hd s = quote_mark then bind_r (scan_string s) (\<lambda>tr. Inr (apfst JStr tr))
     else if hd s = CHR ''{'' then bind_r (next_char (tl s)) (\<lambda>(d, r).
       if d = CHR ''}'' then Inr (JObj [], r) else bind_r (scan_members n (d # r)) object_of)
     else if hd s = CHR ''['' then bind_r (next_char (tl s)) (\<lambda>(d, r).
       if d = CHR '']'' then Inr (JArr [], r) else bind_r (scan_elements n (d # r)) (\<lambda>vs. Inr (apfst JArr vs)))
     else scan_atom s)"
| "scan_elements 0 s = Inl None"
| "scan_elements (Suc n) s =
     bind_r (scan_value n s) (\<lambda>(v, r). bind_r (separator (CHR '']'') r) (\<lambda>(more, r1).
       if more then bind_r (scan_elements n r1) (\<lambda>(vs, r2). Inr (v # vs, r2)) else Inr ([v], r1)))"
| "scan_members 0 s = Inl None"
| "scan_members (Suc n) s =
     bind_r (scan_key s) (\<lambda>(k, r0). bind_r (scan_value n r0) (\<lambda>(v, r). bind_r (separator (CHR ''}'') r) (\<lambda>(more, r1).
       if more then bind_r (scan_members n r1) (\<lambda>(kvs, r2). Inr ((k, v) # kvs, r2)) else Inr ([(k, v)], r1))))"

definition json_loads :: "string \<Rightarrow> text_error + json" where
  "json_loads s =
     (case scan_value (Suc (2 * length s)) (skip_space s) of
        Inl None \<Rightarrow> Inl InvalidJson
      | Inl (Some e) \<Rightarrow> Inl e
      | Inr (v, r) \<Rightarrow> if skip_space r = [] then Inr v else Inl InvalidJson)"

section \<open>The scanner returns\<close>

lemma skip_space_length: "length (skip_space s) \<le> length s"
  by (simp add: skip_space_def length_dropWhile_le)

lemma json_chars_length: "json_chars s = Some (t, r) \<Longrightarrow> length r < length s"
proof (induction s arbitrary: t r rule: json_chars.induct)
  case (2 c s)
  then show ?case by (fastforce split: if_splits option.splits list.splits)
qed simp

lemma integer_part_length: "integer_part s = Some (t, r) \<Longrightarrow> length r < length s"
  by (cases s) (auto split: if_splits intro: le_imp_less_Suc length_dropWhile_le)

lemma fraction_part_length: "length (snd (fraction_part s)) \<le> length s"
  by (cases s) (auto intro: le_SucI length_dropWhile_le)

lemma exponent_part_length: "length (snd (exponent_part s)) \<le> length s"
proof (cases s)
  case (Cons c r)
  then show ?thesis
    by (cases r) (auto intro: le_SucI length_dropWhile_le order_trans [OF length_dropWhile_le])
qed simp

lemma json_number_length:
  assumes "json_number s = Some (v, r)"
  shows "length r < length s"
proof -
  obtain neg s0 where m: "strip_minus s = (neg, s0)" by (cases "strip_minus s")
  obtain ds s1 where i: "integer_part s0 = Some (ds, s1)"
    using assms by (auto simp: json_number_def m split: option.splits)
  obtain fs s2 where f: "fraction_part s1 = (fs, s2)" by (cases "fraction_part s1")
  obtain ex s3 where e: "exponent_part s2 = (ex, s3)" by (cases "exponent_part s2")
  have "r = s3" using assms by (simp add: json_number_def m i f e Let_def)
  moreover have "length s0 \<le> length s" using m by (cases s) (auto split: if_splits)
  ultimately show ?thesis
    using integer_part_length [OF i] fraction_part_length [of s1] exponent_part_length [of s2]
    by (simp add: f e)
qed

lemma next_char_length: "next_char s = Inr (c, r) \<Longrightarrow> length r < length s"
  using skip_space_length [of s] by (auto simp: next_char_def bad_json_def split: list.splits)

lemma scan_atom_length: "s \<noteq> [] \<Longrightarrow> scan_atom s = Inr (v, r) \<Longrightarrow> length r < length s"
  by (auto simp: scan_atom_def bad_json_def intro: json_number_length split: if_splits option.splits)

lemma scan_string_length: "scan_string s = Inr (t, r) \<Longrightarrow> length r < length s"
  using json_chars_length by (fastforce simp: scan_string_def bad_json_def split: if_splits option.splits list.splits)

lemma scan_key_length:
  assumes "scan_key s = Inr (t, r)"
  shows "length r < length s"
proof -
  obtain r0 c r1 where "scan_string s = Inr (t, r0)" "next_char r0 = Inr (c, r1)" "r = skip_space r1"
    using assms by (auto simp: scan_key_def bind_r_Inr bad_json_def split: if_splits)
  with scan_string_length [of s t r0] next_char_length [of r0 c r1] skip_space_length [of r1] show ?thesis
    by simp
qed

lemma separator_length:
  assumes "separator close s = Inr (b, r)"
  shows "length r < length s"
proof -
  obtain c r1 where "next_char s = Inr (c, r1)" "r = r1 \<or> r = skip_space r1"
    using assms by (auto simp: separator_def bind_r_Inr bad_json_def split: if_splits)
  with next_char_length [of s c r1] skip_space_length [of r1] show ?thesis by auto
qed

text \<open>What a value, an element list and a member list are made of.\<close>

lemma scan_value_cases:
  assumes "scan_value (Suc n) s = Inr (v, r)"
  obtains (scanned) u where "scan_string s = Inr (u, r)"
    | (nothing) c s' d where "s = c # s'" "next_char s' = Inr (d, r)"
    | (object) c s' d r0 kvs where "s = c # s'" "next_char s' = Inr (d, r0)" "scan_members n (d # r0) = Inr (kvs, r)"
    | (array) c s' d r0 vs where "s = c # s'" "next_char s' = Inr (d, r0)" "scan_elements n (d # r0) = Inr (vs, r)"
    | (atom) "s \<noteq> []" "scan_atom s = Inr (v, r)"
proof -
  from assms obtain c s' where s: "s = c # s'" by (cases s) (auto simp: bad_json_def)
  show thesis
    using assms that unfolding s by (auto simp: bind_r_Inr object_of_def split: if_splits)
qed

lemma scan_elements_cases:
  assumes "scan_elements (Suc n) s = Inr (vs, r)"
  obtains v r0 more r1 where "scan_value n s = Inr (v, r0)" "separator (CHR '']'') r0 = Inr (more, r1)"
    "more \<Longrightarrow> \<exists>ws. scan_elements n r1 = Inr (ws, r) \<and> vs = v # ws" "\<not> more \<Longrightarrow> r1 = r \<and> vs = [v]"
  using assms by (fastforce simp: bind_r_Inr split: if_splits)

lemma scan_members_cases:
  assumes "scan_members (Suc n) s = Inr (kvs, r)"
  obtains k s1 v r0 more r1 where "scan_key s = Inr (k, s1)" "scan_value n s1 = Inr (v, r0)"
    "separator (CHR ''}'') r0 = Inr (more, r1)"
    "more \<Longrightarrow> \<exists>ws. scan_members n r1 = Inr (ws, r) \<and> kvs = (k, v) # ws" "\<not> more \<Longrightarrow> r1 = r \<and> kvs = [(k, v)]"
  using assms by (fastforce simp: bind_r_Inr split: if_splits)

lemma scan_consumes:
  "(\<forall>s v r. scan_value n s = Inr (v, r) \<longrightarrow> length r < length s) \<and>
   (\<forall>s vs r. scan_elements n s = Inr (vs, r) \<longrightarrow> length r < length s) \<and>
   (\<forall>s kvs r. scan_members n s = Inr (kvs, r) \<longrightarrow> length r < length s)"
proof (induction n)
  case (Suc n)
  have val: "length r < length s" if "scan_value (Suc n) s = Inr (v, r)" for s v r
    using that
  proof (cases rule: scan_value_cases)
    case scanned
    then show ?thesis by (rule scan_string_length)
  next
    case (nothing c s' d)
    with next_char_length [of s' d r] show ?thesis by simp
  next
    case (object c s' d r0 kvs)
    with next_char_length [of s' d r0] Suc.IH show ?thesis by fastforce
  next
    case (array c s' d r0 vs)
    with next_char_length [of s' d r0] Suc.IH show ?thesis by fastforce
  next
    case atom
    with scan_atom_length [of s v r] show ?thesis by simp
  qed
  have elems: "length r < length s" if "scan_elements (Suc n) s = Inr (vs, r)" for s vs r
    using that
  proof (cases rule: scan_elements_cases)
    case (1 v r0 more r1)
    have "length r1 < length s" using 1(1) separator_length [OF 1(2)] Suc.IH by fastforce
    moreover have "length r \<le> length r1" using 1(3,4) Suc.IH by (cases more) fastforce+
    ultimately show ?thesis by simp
  qed
  have membs: "length r < length s" if "scan_members (Suc n) s = Inr (kvs, r)" for s kvs r
    using that
  proof (cases rule: scan_members_cases)
    case (1 k s1 v r0 more r1)
    have "length r1 < length s" using 1(2) scan_key_length [OF 1(1)] separator_length [OF 1(3)] Suc.IH by fastforce
    moreover have "length r \<le> length r1" using 1(4,5) Suc.IH by (cases more) fastforce+
    ultimately show ?thesis by simp
  qed
  show ?case using val elems membs by blast
qed simp

text \<open>Fuel: twice the length of the text is enough.\<close>

lemma bind_r_Inl_iff: "bind_r m f = Inl e \<longleftrightarrow> m = Inl e \<or> (\<exists>a. m = Inr a \<and> f a = Inl e)"
  by (cases m) auto

lemma scan_no_fuel_small:
  "next_char s \<noteq> Inl None" "scan_atom s \<noteq> Inl None" "scan_string s \<noteq> Inl None" "scan_key s \<noteq> Inl None"
  "separator c s \<noteq> Inl None" "object_of kvs \<noteq> Inl None"
proof -
  show n: "next_char s \<noteq> Inl None" for s by (simp add: next_char_def bad_json_def split: list.split)
  show "scan_atom s \<noteq> Inl None" by (simp add: scan_atom_def bad_json_def split: option.split)
  show st: "scan_string s \<noteq> Inl None" for s
    by (simp add: scan_string_def bad_json_def split: list.split option.split)
  show "scan_key s \<noteq> Inl None"
    using st [of s] n by (auto simp: scan_key_def bind_r_Inl_iff bad_json_def split: if_splits)
  show "separator c s \<noteq> Inl None"
    using n [of s] by (auto simp: separator_def bind_r_Inl_iff bad_json_def split: if_splits)
  show "object_of kvs \<noteq> Inl None" by (simp add: object_of_def)
qed

lemma scan_fuel:
  "(\<forall>s. 2 * length s < n \<longrightarrow> scan_value n s \<noteq> Inl None) \<and>
   (\<forall>s. 2 * length s + 1 < n \<longrightarrow> scan_elements n s \<noteq> Inl None) \<and>
   (\<forall>s. 2 * length s + 1 < n \<longrightarrow> scan_members n s \<noteq> Inl None)"
proof (induction n)
  case (Suc n)
  note small = scan_no_fuel_small
  have v: "scan_value (Suc n) s \<noteq> Inl None" if "2 * length s < Suc n" for s
  proof
    assume "scan_value (Suc n) s = Inl None"
    then obtain c s' d r where s: "s = c # s'" and d: "next_char s' = Inr (d, r)"
      and f: "scan_members n (d # r) = Inl None \<or> scan_elements n (d # r) = Inl None"
      using small by (cases s) (auto simp: bind_r_Inl_iff bad_json_def split: if_splits)
    have "length r < length s'" using next_char_length [OF d] .
    then have "2 * length (d # r) + 1 < n" using that s by simp
    with f Suc.IH show False by blast
  qed
  have e: "scan_elements (Suc n) s \<noteq> Inl None" if s: "2 * length s + 1 < Suc n" for s
  proof
    assume "scan_elements (Suc n) s = Inl None"
    then have "scan_value n s = Inl None \<or>
        (\<exists>v r0 more r1. scan_value n s = Inr (v, r0) \<and> separator (CHR '']'') r0 = Inr (more, r1) \<and> scan_elements n r1 = Inl None)"
      using small(5) by (fastforce simp: bind_r_Inl_iff split: if_splits)
    then obtain v r0 more r1 where "scan_value n s = Inr (v, r0)" "separator (CHR '']'') r0 = Inr (more, r1)"
      and f: "scan_elements n r1 = Inl None"
      using Suc.IH s by auto
    then have "length r1 < length r0" "length r0 < length s" using separator_length scan_consumes by blast+
    with f Suc.IH s show False by fastforce
  qed
  have m: "scan_members (Suc n) s \<noteq> Inl None" if s: "2 * length s + 1 < Suc n" for s
  proof
    assume "scan_members (Suc n) s = Inl None"
    then obtain k s1 where k: "scan_key s = Inr (k, s1)" and "scan_value n s1 = Inl None \<or>
        (\<exists>v r0 more r1. scan_value n s1 = Inr (v, r0) \<and> separator (CHR ''}'') r0 = Inr (more, r1) \<and> scan_members n r1 = Inl None)"
      using small(4,5) by (fastforce simp: bind_r_Inl_iff split: if_splits)
    moreover have "length s1 < length s" using scan_key_length [OF k] .
    ultimately obtain v r0 more r1 where "scan_value n s1 = Inr (v, r0)" "separator (CHR ''}'') r0 = Inr (more, r1)"
      and f: "scan_members n r1 = Inl None"
      using Suc.IH s by fastforce
    then have "length r1 < length r0" "length r0 < length s1" using separator_length scan_consumes by blast+
    with f Suc.IH s \<open>length s1 < length s\<close> show False by fastforce
  qed
  show ?case using v e m by blast
qed simp

lemma json_loads_fuel: "scan_value (Suc (2 * length s)) (skip_space s) \<noteq> Inl None"
  using scan_fuel [of "Suc (2 * length s)"] skip_space_length [of s] by (auto simp: less_Suc_eq_le)

section \<open>A canonical writer, and that the reader inverts it\<close>

text \<open>
  A text form of the JSON values without floats, over ASCII strings: no insignificant space,
  properties in the order of the value. It stands for \<open>rfc8785.dumps\<close> where a witness needs a
  concrete one.
\<close>

definition write_char :: "char \<Rightarrow> string" where
  "write_char c = (let n = of_char c :: nat in
     if n < 32 then [backslash, CHR ''u'', CHR ''0'', CHR ''0'', nibble (n div 16), nibble (n mod 16)]
     else if c = quote_mark \<or> c = backslash then [backslash, c]
     else [c])"

definition write_string :: "string \<Rightarrow> string" where
  "write_string s = quote_mark # concat (map write_char s) @ [quote_mark]"

fun write_json :: "json \<Rightarrow> string" where
  "write_json JNull = ''null''"
| "write_json (JBool b) = (if b then ''true'' else ''false'')"
| "write_json (JInt i) = str_int i"
| "write_json (JNum x) = ''0.0''"
| "write_json (JStr s) = write_string s"
| "write_json (JArr vs) = CHR ''['' # join_comma (map write_json vs) @ '']''"
| "write_json (JObj kvs) = CHR ''{'' # join_comma (map (\<lambda>(k, v). write_string k @ CHR '':'' # write_json v) kvs) @ ''}''"

text \<open>The values it writes faithfully.\<close>

fun writable :: "json \<Rightarrow> bool" where
  "writable (JNum x) \<longleftrightarrow> False"
| "writable (JStr s) \<longleftrightarrow> list_all ascii_char s"
| "writable (JArr vs) \<longleftrightarrow> list_all writable vs"
| "writable (JObj kvs) \<longleftrightarrow> distinct (map fst kvs) \<and> list_all (\<lambda>(k, v). list_all ascii_char k \<and> writable v) kvs"
| "writable _ \<longleftrightarrow> True"

lemma hex_value_nibble: "n < 16 \<Longrightarrow> hex_value (nibble n) = Some n"
proof -
  have "list_all (\<lambda>n. hex_value (nibble n) = Some n) [0..<16]" by code_simp
  then show "n < 16 \<Longrightarrow> hex_value (nibble n) = Some n" by (simp add: list_all_iff)
qed

lemma json_chars_write:
  "list_all ascii_char s \<Longrightarrow> json_chars (concat (map write_char s) @ quote_mark # r) = Some (s, r)"
proof (induction s)
  case (Cons c s)
  let ?n = "of_char c :: nat"
  show ?case
  proof (cases "?n < 32")
    case True
    have q: "hex_quad (CHR ''0'') (CHR ''0'') (nibble (?n div 16)) (nibble (?n mod 16)) = Some ?n"
      using True by (simp add: hex_quad_def hex_value_nibble) (simp add: hex_value_def)
    have c: "char_of ?n = c" by simp
    have "backslash \<noteq> quote_mark" "\<not> (of_char backslash :: nat) < 32" by (simp_all add: backslash_def quote_mark_def)
    with True q Cons show ?thesis
      by (simp add: write_char_def Let_def utf8_encode_def)
  next
    case False
    have "backslash \<noteq> quote_mark" "\<not> (of_char backslash :: nat) < 32" "quote_mark \<noteq> CHR ''u''" "backslash \<noteq> CHR ''u''"
      by (simp_all add: backslash_def quote_mark_def)
    with False Cons show ?thesis
      by (auto simp: write_char_def Let_def simple_escape_def)
  qed
qed simp

lemma nat_digits_digits: "c \<in> set (nat_digits n) \<Longrightarrow> json_digit c"
proof (induction n rule: nat_digits.induct)
  case (1 n)
  then show ?case
    by (subst (asm) nat_digits.simps) (auto simp: json_digit_def split: if_splits)
qed

lemma nat_digits_Nil [simp]: "nat_digits n \<noteq> []"
  by (subst nat_digits.simps) simp

lemma digits_value_snoc: "digits_value (ds @ [c]) = 10 * digits_value ds + (of_char c - 48)"
  by (simp add: digits_value_def)

lemma digits_value_nat_digits [simp]: "digits_value (nat_digits n) = n"
proof (induction n rule: nat_digits.induct)
  case (1 n)
  show ?case
  proof (cases "n < 10")
    case True
    then have "nat_digits n = [char_of (48 + n)]" by (subst nat_digits.simps) simp
    with True show ?thesis by (simp add: digits_value_def)
  next
    case False
    then have "nat_digits n = nat_digits (n div 10) @ [char_of (48 + n mod 10)]" by (subst nat_digits.simps) simp
    moreover have "n mod 10 < 10" by simp
    then have "of_char (char_of (48 + n mod 10) :: char) = 48 + n mod 10" by simp
    ultimately show ?thesis using 1 [OF False] by (simp only: digits_value_snoc) simp
  qed
qed

lemma nat_digits_head: "n \<noteq> 0 \<Longrightarrow> hd (nat_digits n) \<noteq> CHR ''0''"
proof (induction n rule: nat_digits.induct)
  case (1 n)
  show ?case
  proof (cases "n < 10")
    case True
    then have e: "nat_digits n = [char_of (48 + n)]" by (subst nat_digits.simps) simp
    have "(of_char (char_of (48 + n) :: char) :: nat) \<noteq> of_char (CHR ''0'')" using True 1(2) by simp
    then show ?thesis by (metis e list.sel(1))
  next
    case False
    then have "nat_digits n = nat_digits (n div 10) @ [char_of (48 + n mod 10)]" by (subst nat_digits.simps) simp
    with 1(1) [OF False] False show ?thesis by simp
  qed
qed

lemma nat_digits_0: "nat_digits 0 = ''0''"
  by code_simp

definition stops :: "string \<Rightarrow> bool" where
  "stops r \<longleftrightarrow> r = [] \<or> hd r \<in> {CHR '','', CHR '']'', CHR ''}''}"

lemma stops_simps [simp]: "stops []" "stops (CHR '','' # r)" "stops (CHR '']'' # r)" "stops (CHR ''}'' # r)"
  by (simp_all add: stops_def)

lemma json_number_nat:
  assumes "stops r"
  shows "integer_part (nat_digits n @ r) = Some (nat_digits n, r)" and "fraction_part r = ([], r)"
    and "exponent_part r = (None, r)"
proof -
  have r: "r = [] \<or> \<not> json_digit (hd r) \<and> hd r \<noteq> CHR ''.'' \<and> hd r \<noteq> CHR ''e'' \<and> hd r \<noteq> CHR ''E''"
    using assms by (auto simp: stops_def json_digit_def)
  then show "fraction_part r = ([], r)" "exponent_part r = (None, r)" by (cases r; simp)+
  show "integer_part (nat_digits n @ r) = Some (nat_digits n, r)"
  proof (cases "n = 0")
    case True
    then show ?thesis by (simp add: nat_digits_0)
  next
    case False
    obtain c ds where e: "nat_digits n = c # ds" by (cases "nat_digits n") auto
    have "c \<noteq> CHR ''0''" "json_digit c" "\<forall>d \<in> set ds. json_digit d"
      using nat_digits_head [OF False] nat_digits_digits [of _ n] e by auto
    with r e show ?thesis by (cases r) (simp_all add: takeWhile_append dropWhile_append)
  qed
qed

lemma str_int_shape:
  "\<exists>c t. str_int i = c # t \<and> (json_digit c \<or> c = CHR ''-'' \<and> (\<exists>d t'. t = d # t' \<and> json_digit d))"
proof (cases "i < 0")
  case True
  then show ?thesis using nat_digits_digits [of _ "nat (- i)"]
    by (cases "nat_digits (nat (- i))") (auto simp: str_int_def)
next
  case False
  then show ?thesis using nat_digits_digits [of _ "nat i"]
    by (cases "nat_digits (nat i)") (auto simp: str_int_def)
qed

lemma json_number_int:
  assumes "stops r"
  shows "json_number (str_int i @ r) = Some (JInt i, r)"
proof (cases "i < 0")
  case True
  then show ?thesis using json_number_nat [OF assms] by (simp add: json_number_def str_int_def)
next
  case False
  obtain c t where e: "nat_digits (nat i) = c # t" by (cases "nat_digits (nat i)") auto
  have "c \<noteq> CHR ''-''" using nat_digits_digits [of c "nat i"] e by (auto simp: json_digit_def)
  then have "strip_minus (nat_digits (nat i) @ r) = (False, nat_digits (nat i) @ r)" using e by simp
  with False show ?thesis using json_number_nat [OF assms] by (simp add: json_number_def str_int_def)
qed

lemma digit_head_simps:
  assumes "json_digit c"
  shows "c \<noteq> quote_mark" "c \<noteq> CHR ''{''" "c \<noteq> CHR ''[''" "c \<noteq> CHR ''n''" "c \<noteq> CHR ''t''" "c \<noteq> CHR ''f''"
    "c \<noteq> CHR ''N''" "c \<noteq> CHR ''I''" "c \<noteq> CHR '']''" "c \<noteq> CHR ''}''" "\<not> json_space c"
  using assms by (auto simp: json_digit_def quote_mark_def json_space_def)

lemma write_json_head:
  "\<exists>c t. write_json v = c # t \<and> \<not> json_space c \<and> c \<noteq> CHR '']'' \<and> c \<noteq> CHR ''}''"
proof (cases v)
  case (JInt i)
  then show ?thesis using str_int_shape [of i] digit_head_simps by (auto simp: json_space_def)
qed (simp_all add: json_space_def write_string_def quote_mark_def)

lemma scan_int:
  assumes "stops r"
  shows "scan_value (Suc n) (str_int i @ r) = Inr (JInt i, r)"
proof -
  obtain c t where e: "str_int i = c # t" "json_digit c \<or> c = CHR ''-'' \<and> (\<exists>d t'. t = d # t' \<and> json_digit d)"
    using str_int_shape [of i] by auto
  have c: "c \<noteq> CHR ''n''" "c \<noteq> CHR ''t''" "c \<noteq> CHR ''f''" "c \<noteq> CHR ''N''" "c \<noteq> CHR ''I''"
    using e(2) by (elim disjE conjE; simp add: digit_head_simps)+
  have "\<not> has_prefix ''-Infinity'' (c # t @ r)"
    using e(2)
  proof
    assume d: "json_digit c"
    have "c \<noteq> CHR ''-''" using d by (auto simp: json_digit_def)
    then show ?thesis by (simp add: has_prefix_def)
  next
    assume "c = CHR ''-'' \<and> (\<exists>d t'. t = d # t' \<and> json_digit d)"
    then obtain d t' where "t = d # t'" "json_digit d" by blast
    then show ?thesis using digit_head_simps(8) [of d] by (simp add: has_prefix_def)
  qed
  then have "\<not> has_prefix ''null'' (str_int i @ r)" "\<not> has_prefix ''true'' (str_int i @ r)"
    "\<not> has_prefix ''false'' (str_int i @ r)" "\<not> has_prefix ''NaN'' (str_int i @ r)"
    "\<not> has_prefix ''Infinity'' (str_int i @ r)" "\<not> has_prefix ''-Infinity'' (str_int i @ r)"
    using c by (simp_all add: has_prefix_def e(1))
  then have "scan_atom (str_int i @ r) = Inr (JInt i, r)"
    using json_number_int [OF assms] by (simp add: scan_atom_def)
  moreover have "c \<noteq> quote_mark" "c \<noteq> CHR ''{''" "c \<noteq> CHR ''[''"
    using e(2) digit_head_simps by (auto simp: quote_mark_def)
  ultimately show ?thesis using e(1) by (simp only: scan_value.simps) simp
qed

lemma scan_string_write:
  "list_all ascii_char s \<Longrightarrow> scan_string (write_string s @ r) = Inr (s, r)"
  by (simp add: scan_string_def write_string_def json_chars_write)

lemma skip_space_write [simp]: "skip_space (write_json v @ r) = write_json v @ r"
  using write_json_head [of v] by (auto simp: skip_space_def)

lemma join_comma_Cons: "xs \<noteq> [] \<Longrightarrow> join_comma (x # xs) = x @ CHR '','' # join_comma xs"
  by (cases xs) simp_all

lemma skip_space_join [simp]: "vs \<noteq> [] \<Longrightarrow> skip_space (join_comma (map write_json vs) @ r) = join_comma (map write_json vs) @ r"
  by (cases vs; cases "tl vs") auto

lemma separator_simps:
  "separator close (close # r) = (if json_space close then separator close (close # r) else Inr (False, r))"
  "close \<noteq> CHR '','' \<Longrightarrow> separator close (CHR '','' # r) = Inr (True, skip_space r)"
  by (auto simp: separator_def next_char_def skip_space_def json_space_def)

lemma scan_elements_write:
  assumes "vs \<noteq> []" "\<And>v n r. v \<in> set vs \<Longrightarrow> stops r \<Longrightarrow> 2 * length (write_json v @ r) < n \<Longrightarrow>
      scan_value n (write_json v @ r) = Inr (v, r)"
    and "2 * length (join_comma (map write_json vs) @ CHR '']'' # r) + 1 < n"
  shows "scan_elements n (join_comma (map write_json vs) @ CHR '']'' # r) = Inr (vs, r)"
  using assms
proof (induction vs arbitrary: n rule: list_nonempty_induct)
  case (single v)
  from single(2) obtain m where n: "n = Suc m" by (cases n) auto
  have "scan_value m (write_json v @ CHR '']'' # r) = Inr (v, CHR '']'' # r)"
    using single by (simp add: n)
  moreover have "separator (CHR '']'') (CHR '']'' # r) = Inr (False, r)"
    by (simp add: separator_def next_char_def skip_space_def json_space_def)
  ultimately show ?case by (simp add: n)
next
  case (cons v vs)
  from cons(4) obtain m where n: "n = Suc m" by (cases n) auto
  let ?rest = "join_comma (map write_json vs) @ CHR '']'' # r"
  have j: "join_comma (map write_json (v # vs)) @ CHR '']'' # r = write_json v @ CHR '','' # ?rest"
    using cons(1) by (simp add: join_comma_Cons)
  from cons(4) have len: "2 * length (write_json v @ CHR '','' # ?rest) < m"
    "2 * length ?rest + 1 < m" unfolding j n by simp_all
  have "scan_value m (write_json v @ CHR '','' # ?rest) = Inr (v, CHR '','' # ?rest)"
    by (rule cons(3)) (use len in simp_all)
  moreover have "scan_elements m ?rest = Inr (vs, r)"
    by (rule cons(2)) (use len cons(3) in simp_all)
  moreover have "separator (CHR '']'') (CHR '','' # ?rest) = Inr (True, ?rest)"
    using cons(1) by (simp add: separator_simps)
  ultimately show ?case unfolding j by (simp add: n)
qed

abbreviation write_member :: "string \<times> json \<Rightarrow> string" where
  "write_member kv \<equiv> (case kv of (k, v) \<Rightarrow> write_string k @ CHR '':'' # write_json v)"

lemma scan_key_write:
  assumes "list_all ascii_char k"
  shows "scan_key (write_string k @ CHR '':'' # write_json v @ r) = Inr (k, write_json v @ r)"
proof -
  have "next_char (CHR '':'' # write_json v @ r) = Inr (CHR '':'', write_json v @ r)"
    by (simp add: next_char_def skip_space_def json_space_def)
  then show ?thesis
    using scan_string_write [OF assms, of "CHR '':'' # write_json v @ r"] by (simp add: scan_key_def)
qed

lemma skip_space_members [simp]:
  "kvs \<noteq> [] \<Longrightarrow> skip_space (join_comma (map write_member kvs) @ r) = join_comma (map write_member kvs) @ r"
  by (cases kvs; cases "tl kvs") (auto simp: skip_space_def write_string_def quote_mark_def json_space_def)

lemma scan_members_write:
  assumes "kvs \<noteq> []" "\<And>k v n r. (k, v) \<in> set kvs \<Longrightarrow> stops r \<Longrightarrow> 2 * length (write_json v @ r) < n \<Longrightarrow>
      scan_value n (write_json v @ r) = Inr (v, r)"
    and "\<And>k v. (k, v) \<in> set kvs \<Longrightarrow> list_all ascii_char k"
    and "2 * length (join_comma (map write_member kvs) @ CHR ''}'' # r) + 1 < n"
  shows "scan_members n (join_comma (map write_member kvs) @ CHR ''}'' # r) = Inr (kvs, r)"
  using assms
proof (induction kvs arbitrary: n rule: list_nonempty_induct)
  case (single kv)
  obtain k v where kv: "kv = (k, v)" by (cases kv)
  from single(3) obtain m where n: "n = Suc m" by (cases n) auto
  have "scan_key (write_string k @ CHR '':'' # write_json v @ CHR ''}'' # r) = Inr (k, write_json v @ CHR ''}'' # r)"
    using single(2) [of k v] by (simp add: kv scan_key_write)
  moreover have "scan_value m (write_json v @ CHR ''}'' # r) = Inr (v, CHR ''}'' # r)"
    by (rule single(1) [of k]) (use single(3) in \<open>simp_all add: kv n\<close>)
  moreover have "separator (CHR ''}'') (CHR ''}'' # r) = Inr (False, r)"
    by (simp add: separator_def next_char_def skip_space_def json_space_def)
  ultimately show ?case by (simp add: n kv)
next
  case (cons kv kvs)
  obtain k v where kv: "kv = (k, v)" by (cases kv)
  from cons(5) obtain m where n: "n = Suc m" by (cases n) auto
  let ?rest = "join_comma (map write_member kvs) @ CHR ''}'' # r"
  have j: "join_comma (map write_member (kv # kvs)) @ CHR ''}'' # r
      = write_string k @ CHR '':'' # write_json v @ CHR '','' # ?rest"
    using cons(1) by (simp add: join_comma_Cons kv)
  from cons(5) have len: "2 * length (write_json v @ CHR '','' # ?rest) < m" "2 * length ?rest + 1 < m"
    unfolding j n by simp_all
  have "scan_key (write_string k @ CHR '':'' # write_json v @ CHR '','' # ?rest) = Inr (k, write_json v @ CHR '','' # ?rest)"
    using cons(4) [of k v] by (simp add: kv scan_key_write)
  moreover have "scan_value m (write_json v @ CHR '','' # ?rest) = Inr (v, CHR '','' # ?rest)"
    by (rule cons(3) [of k]) (use len in \<open>simp_all add: kv\<close>)
  moreover have "scan_members m ?rest = Inr (kvs, r)"
  proof (rule cons(2))
    show "scan_value n (write_json v @ r) = Inr (v, r)"
      if "(k, v) \<in> set kvs" "stops r" "2 * length (write_json v @ r) < n" for k v n r
      by (rule cons(3) [of k]) (use that in simp_all)
    show "list_all ascii_char k" if "(k, v) \<in> set kvs" for k v
      by (rule cons(4) [of k v]) (use that in simp)
  qed (use len in simp)
  moreover have "separator (CHR ''}'') (CHR '','' # ?rest) = Inr (True, ?rest)"
    using cons(1) by (simp add: separator_simps)
  ultimately show ?case unfolding j by (simp add: n kv)
qed

lemma scan_value_write:
  "writable v \<Longrightarrow> stops r \<Longrightarrow> 2 * length (write_json v @ r) < n \<Longrightarrow> scan_value n (write_json v @ r) = Inr (v, r)"
proof (induction v arbitrary: n r)
  case JNull
  then show ?case by (cases n) (simp_all add: scan_atom_def has_prefix_def quote_mark_def)
next
  case (JBool b)
  then show ?case by (cases n; cases b) (simp_all add: scan_atom_def has_prefix_def quote_mark_def)
next
  case (JInt i)
  then show ?case using scan_int [of r] by (cases n) simp_all
next
  case (JNum x)
  then show ?case by simp
next
  case (JStr s)
  then obtain m where n: "n = Suc m" by (cases n) auto
  have "write_string s \<noteq> []" "hd (write_string s @ r) = quote_mark" by (simp_all add: write_string_def)
  with JStr scan_string_write [of s r] show ?case by (simp add: n)
next
  case (JArr vs)
  then obtain m where n: "n = Suc m" by (cases n) auto
  show ?case
  proof (cases "vs = []")
    case True
    then show ?thesis
      by (simp add: n quote_mark_def next_char_def skip_space_def json_space_def)
  next
    case False
    have e: "scan_elements m (join_comma (map write_json vs) @ CHR '']'' # r) = Inr (vs, r)"
      by (rule scan_elements_write [OF False]) (use JArr in \<open>auto simp: n list_all_iff\<close>)
    obtain c t where c: "join_comma (map write_json vs) @ CHR '']'' # r = c # t" "\<not> json_space c" "c \<noteq> CHR '']''"
      using False write_json_head [of "hd vs"] by (cases vs; cases "tl vs") auto
    then have "next_char (join_comma (map write_json vs) @ CHR '']'' # r) = Inr (c, t)"
      by (simp add: next_char_def skip_space_def)
    with e c show ?thesis by (simp add: n quote_mark_def)
  qed
next
  case (JObj kvs)
  then obtain m where n: "n = Suc m" by (cases n) auto
  show ?case
  proof (cases "kvs = []")
    case True
    then show ?thesis
      by (simp add: n quote_mark_def next_char_def skip_space_def json_space_def)
  next
    case False
    have e: "scan_members m (join_comma (map write_member kvs) @ CHR ''}'' # r) = Inr (kvs, r)"
      by (rule scan_members_write [OF False]) (use JObj in \<open>auto simp: n list_all_iff\<close>)
    obtain t where c: "join_comma (map write_member kvs) @ CHR ''}'' # r = quote_mark # t"
      using False by (cases kvs; cases "tl kvs") (auto simp: write_string_def)
    then have "next_char (join_comma (map write_member kvs) @ CHR ''}'' # r) = Inr (quote_mark, t)"
      by (simp add: next_char_def skip_space_def quote_mark_def json_space_def)
    moreover have "quote_mark \<noteq> CHR ''}''" by (simp add: quote_mark_def)
    ultimately show ?thesis using e c JObj(2) by (simp add: n object_of_def quote_mark_def)
  qed
qed

lemma json_loads_written:
  assumes "writable v"
  shows "json_loads (write_json v) = Inr v"
proof -
  have "skip_space (write_json v) = write_json v" using skip_space_write [of v "[]"] by simp
  moreover have "scan_value (Suc (2 * length (write_json v))) (write_json v) = Inr (v, [])"
    using scan_value_write [OF assms, of "[]" "Suc (2 * length (write_json v))"] by simp
  ultimately show ?thesis
    unfolding json_loads_def by (simp add: skip_space_def del: scan_value.simps)
qed



end
