(* ===== verification/Receipts.thy ===== *)
theory Receipts
  imports Text_Codecs
begin

text \<open>
  Authority receipts, first part of \<^verbatim>\<open>src/recallops/receipts.py\<close>: the causal bindings a ledger must
  carry, the verification of a ledger prefix, and the manifest a receipt signs. The
  canonicalisation (rfc8785), the timestamp text and the signature scheme are parameters.
\<close>

record receipt_externals = externals +
  x_ijson :: "json \<Rightarrow> bool"
  x_verify :: "string \<Rightarrow> string \<Rightarrow> string \<Rightarrow> bool"
  x_der :: "string \<Rightarrow> string option"

text \<open>
  \<open>x_ijson\<close>: the values \<open>rfc8785.dumps\<close> accepts; \<open>x_verify key signature message\<close>: Ed25519
  verification; \<open>x_der\<close>: the raw bytes of a DER public key that is an Ed25519 one.
\<close>

datatype receipt_error =
    UnknownBindingDomain
  | BindingsNotDigests
  | DispositionNotAscii
  | LacksCausalBinding string
  | EmptyPrefix
  | NotAtGenesis
  | SequenceGap
  | NonAuthorityEvidence
  | BoundaryChanged
  | EpochStep
  | EpochGap
  | StateGap
  | CapabilityGap
  | TimestampRegress
  | UnknownActorRole
  | RoleChannelMismatch
  | MalformedPredecessor
  | HashChainBroken
  | UnstableSubjects
  | SubjectsNotIndependent
  | PseudonymKeyTooShort
  | BuildShaMismatch
  | ManifestInvalid
  | ManifestTooLarge
  | TextInvalid text_error
  | JwkInvalid
  | JwkSize
  | KeyInvalid
  | SegmentCount
  | AlgorithmRefused
  | KidMissing
  | HeaderMismatch
  | SignatureLength
  | SignatureInvalid
  | PayloadNotObject
  | DuplicateKeys
  | RootCount
  | MultiplePredecessors
  | TransitionNotBinding
  | TransitionsUnresolved
  | UnusedTransition
  | RegistrySchema
  | KeyNotPinned
  | KeyNotAuthorized
  | SignerConfig
  | SignerNotReady
  | SignerBinding
  | KmsUnavailable
  | KmsKeySpec
  | KmsKeyUsage
  | KmsAlgorithm
  | KmsNotDer
  | KmsKeyDiffers
  | KmsNoKeyId
  | KmsSignFailed
  | KmsWrongAlgorithm
  | KmsWrongKey
  | KmsBadSignature
  | KmsUnverified
  | SigningInputTooLarge
  | ManifestSchema
  | ManifestNotCanonical
  | TrustBindingMismatch

section \<open>UTC timestamps\<close>

text \<open>\<open>_require_utc_string\<close> and the \<open>datetime.fromisoformat\<close> it relies on: the microseconds of the text.\<close>

definition leap_year :: "nat \<Rightarrow> bool" where
  "leap_year y \<longleftrightarrow> y mod 4 = 0 \<and> y mod 100 \<noteq> 0 \<or> y mod 400 = 0"

definition days_in_month :: "nat \<Rightarrow> nat \<Rightarrow> nat" where
  "days_in_month y m = (if m = 2 then (if leap_year y then 29 else 28)
     else if m \<in> {4, 6, 9, 11} then 30 else 31)"

definition civil_days :: "int \<Rightarrow> int \<Rightarrow> int \<Rightarrow> int" where
  "civil_days y m d =
    (let y' = (if m \<le> 2 then y - 1 else y); era = y' div 400; yoe = y' mod 400;
         mp = (if 2 < m then m - 3 else m + 9);
         doy = (153 * mp + 2) div 5 + d - 1;
         doe = yoe * 365 + yoe div 4 - yoe div 100 + doy
     in era * 146097 + doe - 719468)"

definition digits_between :: "string \<Rightarrow> nat \<Rightarrow> nat \<Rightarrow> nat" where
  "digits_between s a b = digits_value (take (b - a) (drop a s))"

definition utc_shape :: "string \<Rightarrow> bool" where
  "utc_shape s \<longleftrightarrow> 20 \<le> length s \<and>
     list_all (\<lambda>k. json_digit (s ! k)) [0, 1, 2, 3, 5, 6, 8, 9, 11, 12, 14, 15, 17, 18] \<and>
     s ! 4 = CHR ''-'' \<and> s ! 7 = CHR ''-'' \<and> s ! 10 = CHR ''T'' \<and> s ! 13 = CHR '':'' \<and> s ! 16 = CHR '':'' \<and>
     last s = CHR ''Z'' \<and>
     (let f = butlast (drop 19 s) in
      f = [] \<or> hd f = CHR ''.'' \<and> 1 \<le> length (tl f) \<and> length (tl f) \<le> 6 \<and> list_all json_digit (tl f))"

definition parse_utc :: "string \<Rightarrow> time option" where
  "parse_utc s =
    (if \<not> utc_shape s then None
     else let y = digits_between s 0 4; m = digits_between s 5 7; d = digits_between s 8 10;
              hh = digits_between s 11 13; mi = digits_between s 14 16; ss = digits_between s 17 19;
              f = tl (butlast (drop 19 s))
          in if y = 0 \<or> m = 0 \<or> 12 < m \<or> d = 0 \<or> days_in_month y m < d \<or> 23 < hh \<or> 59 < mi \<or> 59 < ss then None
             else Some ((civil_days (int y) (int m) (int d) * 86400 + int (hh * 3600 + mi * 60 + ss)) * 1000000
                        + int (digits_value f * 10 ^ (6 - length f))))"

lemma parse_utc_examples:
  "parse_utc ''1970-01-01T00:00:00Z'' = Some 0"
  "parse_utc ''2024-02-29T12:34:56.000007Z'' = Some 1709210096000007"
  "parse_utc ''2023-02-29T12:34:56Z'' = None"
  "parse_utc ''2024-02-29T12:34:56+00:00'' = None"
  by (simp_all add: parse_utc_def utc_shape_def json_digit_def digits_between_def digits_value_def Let_def
      days_in_month_def leap_year_def civil_days_def)

section \<open>Causal bindings\<close>

record digest_bindings =
  bd_proposal :: string
  bd_execution :: string
  bd_observation :: string
  bd_assessment :: string
  bd_verdict :: string
  bd_memory :: string
  bd_review :: string

definition valid_bindings :: "digest_bindings \<Rightarrow> bool" where
  "valid_bindings b \<longleftrightarrow> hex64 (bd_proposal b) \<and> hex64 (bd_execution b) \<and> hex64 (bd_observation b) \<and>
     hex64 (bd_assessment b) \<and> hex64 (bd_verdict b) \<and> hex64 (bd_memory b) \<and> hex64 (bd_review b)"

definition string_object :: "(string \<times> string) list \<Rightarrow> json" where
  "string_object kvs = JObj (map (\<lambda>(k, v). (k, JStr v)) kvs)"

definition binding_domains :: "string list" where
  "binding_domains = [''execution'', ''observation'', ''outcome'', ''review'']"

definition transition_binding_digest :: "jcs \<Rightarrow> string \<Rightarrow> (string \<times> string) list \<Rightarrow> receipt_error + string" where
  "transition_binding_digest jcs dm bindings =
    (if dm \<notin> set binding_domains then Inl UnknownBindingDomain
     else if bindings = [] \<or> list_ex (\<lambda>kv. \<not> hex64 (snd kv)) bindings then Inl BindingsNotDigests
     else Inr (domain_hash jcs (''recallops-'' @ dm @ ''-binding-v1'') (string_object bindings)))"

text \<open>The table \<open>required\<close>: for each state, the type and digest of the object that entered it.\<close>

definition required_bindings ::
  "jcs \<Rightarrow> digest_bindings \<Rightarrow> string \<Rightarrow> receipt_error + (string \<times> string \<times> string) list" where
  "required_bindings jcs b disposition =
     bind_r (transition_binding_digest jcs ''execution''
       [(''execution'', bd_execution b), (''proposal'', bd_proposal b)]) (\<lambda>ex.
     bind_r (transition_binding_digest jcs ''observation''
       [(''execution'', bd_execution b), (''observation'', bd_observation b), (''policy_verdict'', bd_verdict b)]) (\<lambda>ob.
     bind_r (transition_binding_digest jcs ''outcome''
       [(''assessment'', bd_assessment b), (''memory'', bd_memory b), (''observation'', bd_observation b),
        (''policy_verdict'', bd_verdict b)]) (\<lambda>oc.
     bind_r (check_r (list_all ascii_char disposition) DispositionNotAscii) (\<lambda>_.
     bind_r (transition_binding_digest jcs ''review''
       [(''disposition'', sha256_hex disposition), (''memory'', bd_memory b), (''review'', bd_review b)]) (\<lambda>rv.
     Inr [(''AWAITING_OPERATOR_APPROVAL'', ''proposal'', bd_proposal b),
          (''APPROVED_AWAITING_EXECUTION'', ''proposal'', bd_proposal b),
          (''OBSERVING_POSTCHECK'', ''execution_binding'', ex),
          (''POSTCHECK_READY'', ''observation_binding'', ob),
          (''PENDING_REVIEW'', ''outcome_binding'', oc),
          (''REVIEWED'', ''review_binding'', rv)])))))"

definition binding_present :: "authority_event list \<Rightarrow> string \<times> string \<times> string \<Rightarrow> bool" where
  "binding_present es r = (case r of (state, object_type, object_digest) \<Rightarrow>
     (case List.find (\<lambda>e. ev_state_after e = state) es of
        None \<Rightarrow> False
      | Some e \<Rightarrow> ev_object_type e = Some object_type \<and> ev_object_digest e = Some object_digest))"

definition verify_causal_bindings ::
  "jcs \<Rightarrow> authority_event list \<Rightarrow> digest_bindings \<Rightarrow> string \<Rightarrow> receipt_error + unit" where
  "verify_causal_bindings jcs es b disposition =
     bind_r (required_bindings jcs b disposition) (\<lambda>required.
       case List.find (\<lambda>r. \<not> binding_present es r) required of
         None \<Rightarrow> Inr ()
       | Some (_, object_type, _) \<Rightarrow> Inl (LacksCausalBinding object_type))"

section \<open>Ledger prefixes\<close>

record verified_prefix =
  vp_run :: uuid
  vp_tenant :: string
  vp_workflow :: uuid
  vp_policy :: string
  vp_build :: string
  vp_first_epoch :: int
  vp_last_epoch :: int
  vp_count :: int
  vp_first_hash :: string
  vp_head_hash :: string
  vp_final_state :: string
  vp_operator :: string
  vp_reviewer :: string

fun role_channel :: "string \<Rightarrow> request_channel option" where
  "role_channel r = (if r = ''agent'' then Some WEBMCP
     else if r = ''operator'' \<or> r = ''reviewer'' then Some UI
     else if r = ''system'' then Some SYSTEM else None)"

definition same_boundary :: "authority_event \<Rightarrow> authority_event \<Rightarrow> bool" where
  "same_boundary e f \<longleftrightarrow> ev_run e = ev_run f \<and> ev_tenant e = ev_tenant f \<and> ev_workflow e = ev_workflow f \<and>
     ev_policy e = ev_policy f \<and> ev_build e = ev_build f"

text \<open>The checks against the predecessor in the prefix, when there is one.\<close>

definition continues :: "authority_event option \<Rightarrow> authority_event \<Rightarrow> receipt_error + unit" where
  "continues p e = (case p of None \<Rightarrow> Inr ()
     | Some q \<Rightarrow>
        bind_r (check_r (ev_epoch_before e = ev_epoch_after q) EpochGap) (\<lambda>_.
        bind_r (check_r (ev_state_before e = ev_state_after q) StateGap) (\<lambda>_.
        bind_r (check_r (ev_caps_before e = ev_caps_after q) CapabilityGap) (\<lambda>_.
        check_r (ev_recorded q \<le> ev_recorded e) TimestampRegress))))"

text \<open>One turn of the loop: the event at position \<open>n\<close> after \<open>p\<close>, with the expected predecessor hash.\<close>

definition check_event ::
  "externals \<Rightarrow> authority_event \<Rightarrow> int \<Rightarrow> string \<Rightarrow> authority_event option \<Rightarrow> authority_event \<Rightarrow> receipt_error + unit" where
  "check_event x first n expected p e =
     bind_r (check_r (ev_sequence e = n) SequenceGap) (\<lambda>_.
     bind_r (check_r (ev_outcome e = ''accepted'') NonAuthorityEvidence) (\<lambda>_.
     bind_r (check_r (same_boundary e first) BoundaryChanged) (\<lambda>_.
     bind_r (check_r (ev_epoch_after e = ev_epoch_before e + 1) EpochStep) (\<lambda>_.
     bind_r (continues p e) (\<lambda>_.
     case role_channel (ev_role e) of
       None \<Rightarrow> Inl UnknownActorRole
     | Some ch \<Rightarrow>
         bind_r (check_r (ev_channel e = ch) RoleChannelMismatch) (\<lambda>_.
         case verify_event x e expected of
           Inl _ \<Rightarrow> Inl MalformedPredecessor
         | Inr b \<Rightarrow> check_r b HashChainBroken))))))"

fun check_events ::
  "externals \<Rightarrow> authority_event \<Rightarrow> int \<Rightarrow> string \<Rightarrow> authority_event option \<Rightarrow> authority_event list \<Rightarrow> receipt_error + unit" where
  "check_events x first n expected p [] = Inr ()"
| "check_events x first n expected p (e # es) =
     bind_r (check_event x first n expected p e) (\<lambda>_. check_events x first (n + 1) (ev_hash e) (Some e) es)"

definition subjects_of :: "string \<Rightarrow> authority_event list \<Rightarrow> string list" where
  "subjects_of role es = remdups (map ev_actor (filter (\<lambda>e. ev_role e = role) es))"

definition verify_ledger_prefix :: "externals \<Rightarrow> authority_event list \<Rightarrow> receipt_error + verified_prefix" where
  "verify_ledger_prefix x es =
    (if es = [] then Inl EmptyPrefix
     else let first = hd es in
       if ev_sequence first \<noteq> 1 \<or> ev_type first \<noteq> ''RUN_GENESIS'' \<or> ev_state_before first \<noteq> ''ABSENT'' \<or>
          ev_epoch_before first \<noteq> 0
       then Inl NotAtGenesis
       else bind_r (check_events x first 1 zero_event_hash None es) (\<lambda>_.
         let operators = subjects_of ''operator'' es; reviewers = subjects_of ''reviewer'' es in
         if length operators \<noteq> 1 \<or> length reviewers \<noteq> 1 then Inl UnstableSubjects
         else if hd operators = hd reviewers then Inl SubjectsNotIndependent
         else Inr \<lparr>vp_run = ev_run first, vp_tenant = ev_tenant first, vp_workflow = ev_workflow first,
            vp_policy = ev_policy first, vp_build = ev_build first, vp_first_epoch = ev_epoch_before first,
            vp_last_epoch = ev_epoch_after (last es), vp_count = int (length es),
            vp_first_hash = ev_hash first, vp_head_hash = ev_hash (last es),
            vp_final_state = ev_state_after (last es), vp_operator = hd operators, vp_reviewer = hd reviewers\<rparr>))"

text \<open>What a verified prefix is, stated over the positions of the list.\<close>

definition linked :: "authority_event \<Rightarrow> authority_event \<Rightarrow> bool" where
  "linked q e \<longleftrightarrow> ev_epoch_before e = ev_epoch_after q \<and> ev_state_before e = ev_state_after q \<and>
     ev_caps_before e = ev_caps_after q \<and> ev_recorded q \<le> ev_recorded e"

definition authority_evidence :: "authority_event \<Rightarrow> authority_event \<Rightarrow> bool" where
  "authority_evidence first e \<longleftrightarrow> ev_outcome e = ''accepted'' \<and> same_boundary e first \<and>
     ev_epoch_after e = ev_epoch_before e + 1 \<and> role_channel (ev_role e) = Some (ev_channel e)"

definition sound_prefix :: "externals \<Rightarrow> authority_event list \<Rightarrow> bool" where
  "sound_prefix x es \<longleftrightarrow> valid_chain x es \<and> es \<noteq> [] \<and>
     ev_type (hd es) = ''RUN_GENESIS'' \<and> ev_state_before (hd es) = ''ABSENT'' \<and> ev_epoch_before (hd es) = 0 \<and>
     list_all (authority_evidence (hd es)) es \<and> successively linked es \<and>
     (\<exists>operator reviewer. operator \<noteq> reviewer \<and>
        ev_actor ` {e \<in> set es. ev_role e = ''operator''} = {operator} \<and>
        ev_actor ` {e \<in> set es. ev_role e = ''reviewer''} = {reviewer})"

lemma continues_Inr: "continues p e = Inr u \<longleftrightarrow> (case p of None \<Rightarrow> True | Some q \<Rightarrow> linked q e)"
  by (auto simp: continues_def linked_def split: option.split)

lemma check_event_Inr:
  "check_event x first n expected p e = Inr u \<longleftrightarrow>
     ev_sequence e = n \<and> authority_evidence first e \<and> (case p of None \<Rightarrow> True | Some q \<Rightarrow> linked q e) \<and>
     verify_event x e expected = Inr True"
  by (auto simp: check_event_def bind_r_Inr continues_Inr authority_evidence_def simp del: role_channel.simps
      split: option.splits sum.splits if_splits)

lemma check_events_Inr:
  "check_events x first n expected p es = Inr u \<longleftrightarrow>
     chain_from x expected n es \<and> list_all (authority_evidence first) es \<and>
     successively linked (case p of None \<Rightarrow> es | Some q \<Rightarrow> q # es)"
proof (induction es arbitrary: n expected p)
  case Nil
  then show ?case by (simp split: option.split)
next
  case (Cons e es)
  have "check_events x first n expected p (e # es) = Inr u \<longleftrightarrow>
      check_event x first n expected p e = Inr () \<and> check_events x first (n + 1) (ev_hash e) (Some e) es = Inr u"
    by (simp add: bind_r_Inr)
  then show ?case
    unfolding Cons.IH check_event_Inr by (auto split: option.split)
qed

lemma one_subject: "length (remdups xs) = 1 \<longleftrightarrow> (\<exists>a. set xs = {a})"
proof -
  have "length (remdups xs) = card (set xs)" by (simp add: length_remdups_card_conv)
  then show ?thesis by (simp add: card_1_singleton_iff)
qed

lemma hd_remdups_singleton:
  assumes "set xs = {a}"
  shows "hd (remdups xs) = a"
proof -
  have "remdups xs \<noteq> []" "set (remdups xs) = {a}" using assms by auto
  then show ?thesis by (metis hd_in_set singletonD)
qed

lemma subjects_of_set: "set (map ev_actor (filter (\<lambda>e. ev_role e = role) es)) = ev_actor ` {e \<in> set es. ev_role e = role}"
  by auto

definition prefix_summary :: "authority_event list \<Rightarrow> verified_prefix" where
  "prefix_summary es = \<lparr>vp_run = ev_run (hd es), vp_tenant = ev_tenant (hd es), vp_workflow = ev_workflow (hd es),
     vp_policy = ev_policy (hd es), vp_build = ev_build (hd es), vp_first_epoch = ev_epoch_before (hd es),
     vp_last_epoch = ev_epoch_after (last es), vp_count = int (length es), vp_first_hash = ev_hash (hd es),
     vp_head_hash = ev_hash (last es), vp_final_state = ev_state_after (last es),
     vp_operator = hd (subjects_of ''operator'' es), vp_reviewer = hd (subjects_of ''reviewer'' es)\<rparr>"

lemma one_subject_of:
  "length (subjects_of role es) = 1 \<longleftrightarrow> (\<exists>a. ev_actor ` {e \<in> set es. ev_role e = role} = {a})"
  unfolding subjects_of_def one_subject subjects_of_set ..

lemma hd_subjects_of:
  "ev_actor ` {e \<in> set es. ev_role e = role} = {a} \<Longrightarrow> hd (subjects_of role es) = a"
  unfolding subjects_of_def by (rule hd_remdups_singleton) (simp only: subjects_of_set)

lemma subject_of_event:
  assumes "length (subjects_of role es) = 1" "e \<in> set es" "ev_role e = role"
  shows "ev_actor e = hd (subjects_of role es)"
proof -
  obtain a where "ev_actor ` {e \<in> set es. ev_role e = role} = {a}" using assms(1) one_subject_of by blast
  with hd_subjects_of [OF this] assms(2,3) show ?thesis by auto
qed

lemma sound_prefix_iff:
  assumes "es \<noteq> []"
  shows "sound_prefix x es \<longleftrightarrow> ev_sequence (hd es) = 1 \<and> ev_type (hd es) = ''RUN_GENESIS'' \<and>
      ev_state_before (hd es) = ''ABSENT'' \<and> ev_epoch_before (hd es) = 0 \<and>
      check_events x (hd es) 1 zero_event_hash None es = Inr () \<and>
      length (subjects_of ''operator'' es) = 1 \<and> length (subjects_of ''reviewer'' es) = 1 \<and>
      hd (subjects_of ''operator'' es) \<noteq> hd (subjects_of ''reviewer'' es)"
proof -
  have "valid_chain x es \<Longrightarrow> ev_sequence (hd es) = 1"
    using assms by (cases es) (simp_all add: valid_chain_def)
  then show ?thesis
    unfolding sound_prefix_def check_events_Inr one_subject_of
    using assms hd_subjects_of by (auto simp: valid_chain_def)
qed

lemma verify_ledger_prefix_Inr:
  "verify_ledger_prefix x es = Inr p \<longleftrightarrow> sound_prefix x es \<and> p = prefix_summary es"
proof (cases "es = []")
  case True
  then show ?thesis by (simp add: verify_ledger_prefix_def sound_prefix_def)
next
  case False
  then show ?thesis
    unfolding sound_prefix_iff [OF False]
    by (auto simp: verify_ledger_prefix_def Let_def bind_r_Inr prefix_summary_def)
qed

text \<open>
  C24. A ledger prefix is verified exactly when it is a hash chain from genesis whose events are all
  accepted evidence of one run, tenant, workflow, policy and build, each by a role on its own
  channel and one epoch further, each taking up the epoch, state, capabilities and time its
  predecessor left, with one operator and one different reviewer; the summary then repeats the
  run, the head hash, the number of events and both subjects.
\<close>

theorem verify_ledger_prefix_correct:
  "case verify_ledger_prefix x es of
     Inl _ \<Rightarrow> \<not> sound_prefix x es
   | Inr p \<Rightarrow> sound_prefix x es \<and> vp_run p = ev_run (hd es) \<and> vp_tenant p = ev_tenant (hd es) \<and>
       vp_workflow p = ev_workflow (hd es) \<and> vp_build p = ev_build (hd es) \<and> vp_first_epoch p = 0 \<and>
       vp_last_epoch p = ev_epoch_after (last es) \<and> vp_count p = int (length es) \<and>
       vp_head_hash p = chain_head es \<and> vp_final_state p = ev_state_after (last es) \<and>
       vp_operator p \<noteq> vp_reviewer p \<and>
       filter (\<lambda>e. ev_role e = ''operator'' \<and> ev_actor e \<noteq> vp_operator p) es = [] \<and>
       filter (\<lambda>e. ev_role e = ''reviewer'' \<and> ev_actor e \<noteq> vp_reviewer p) es = []"
proof (cases "verify_ledger_prefix x es")
  case (Inl e)
  then show ?thesis using verify_ledger_prefix_Inr [of x es "prefix_summary es"] by auto
next
  case (Inr p)
  then have s: "sound_prefix x es" and p: "p = prefix_summary es" by (simp_all add: verify_ledger_prefix_Inr)
  then have ne: "es \<noteq> []" by (simp add: sound_prefix_def)
  note sound_prefix_iff [OF ne, THEN iffD1, OF s]
  then show ?thesis
    using Inr s ne subject_of_event [of "''operator''" es] subject_of_event [of "''reviewer''" es]
    by (auto simp: p prefix_summary_def chain_head_def filter_empty_conv)
qed

section \<open>The manifest\<close>

record receipt_subjects =
  sb_operator :: string
  sb_reviewer :: string
  sb_separated :: bool

record release_binding =
  rl_release :: string
  rl_source :: string
  rl_image :: string
  rl_evaluation :: string
  rl_claims :: string

definition source_sha :: "string \<Rightarrow> bool" where
  "source_sha s \<longleftrightarrow> (length s = 40 \<or> length s = 64) \<and> list_all lower_hex s"

definition image_digest :: "string \<Rightarrow> bool" where
  "image_digest s \<longleftrightarrow> has_prefix ''sha256:'' s \<and> hex64 (drop 7 s)"

definition valid_release :: "release_binding \<Rightarrow> bool" where
  "valid_release r \<longleftrightarrow> sized 3 100 (rl_release r) \<and> source_sha (rl_source r) \<and> image_digest (rl_image r) \<and>
     sized 3 80 (rl_evaluation r) \<and> hex64 (rl_claims r)"

record receipt_manifest =
  mf_version :: string
  mf_receipt_policy :: string
  mf_capability_policy :: string
  mf_run :: uuid
  mf_tenant_hash :: string
  mf_scenario :: string
  mf_workflow :: uuid
  mf_final_state :: string
  mf_disposition :: string
  mf_first_epoch :: string
  mf_last_epoch :: string
  mf_event_count :: string
  mf_first_hash :: string
  mf_head_hash :: string
  mf_digests :: digest_bindings
  mf_subjects :: receipt_subjects
  mf_release :: release_binding
  mf_evidence :: string
  mf_signed_at :: string
  mf_expires :: string
  mf_supersedes :: "uuid option"
  mf_thumbprint :: string
  mf_algorithm :: string

definition decimal_pos :: "string \<Rightarrow> bool" where
  "decimal_pos s \<longleftrightarrow> s \<noteq> [] \<and> list_all json_digit s \<and> hd s \<noteq> CHR ''0''"

definition decimal_nat :: "string \<Rightarrow> bool" where
  "decimal_nat s \<longleftrightarrow> s = ''0'' \<or> decimal_pos s"

definition receipt_version :: string where
  "receipt_version = ''authority-receipt-v1''"

definition jose_algorithm :: string where
  "jose_algorithm = ''Ed25519''"

text \<open>The field constraints of \<open>ReceiptManifest\<close> and \<open>validate_receipt_bounds\<close>.\<close>

definition valid_manifest :: "receipt_manifest \<Rightarrow> bool" where
  "valid_manifest m \<longleftrightarrow> mf_version m = receipt_version \<and> sized 3 80 (mf_receipt_policy m) \<and>
     sized 3 80 (mf_capability_policy m) \<and> hex64 (mf_tenant_hash m) \<and> sized 3 80 (mf_scenario m) \<and>
     sized 1 80 (mf_final_state m) \<and> sized 1 80 (mf_disposition m) \<and> decimal_nat (mf_first_epoch m) \<and>
     decimal_pos (mf_last_epoch m) \<and> decimal_pos (mf_event_count m) \<and> hex64 (mf_first_hash m) \<and>
     hex64 (mf_head_hash m) \<and> valid_bindings (mf_digests m) \<and> hex64 (sb_operator (mf_subjects m)) \<and>
     hex64 (sb_reviewer (mf_subjects m)) \<and> valid_release (mf_release m) \<and> hex64 (mf_evidence m) \<and>
     sized 43 43 (mf_thumbprint m) \<and> mf_algorithm m = jose_algorithm \<and>
     digits_value (mf_first_epoch m) \<le> digits_value (mf_last_epoch m) \<and>
     (case (parse_utc (mf_signed_at m), parse_utc (mf_expires m)) of
        (Some s, Some e) \<Rightarrow> s < e | _ \<Rightarrow> False) \<and>
     (sb_separated (mf_subjects m) \<longleftrightarrow> sb_operator (mf_subjects m) \<noteq> sb_reviewer (mf_subjects m))"

definition bindings_json :: "digest_bindings \<Rightarrow> json" where
  "bindings_json b = string_object
    [(''proposal'', bd_proposal b), (''execution'', bd_execution b), (''observation'', bd_observation b),
     (''assessment'', bd_assessment b), (''policy_verdict'', bd_verdict b), (''memory'', bd_memory b),
     (''review'', bd_review b)]"

definition release_json :: "release_binding \<Rightarrow> json" where
  "release_json r = string_object
    [(''release_id'', rl_release r), (''source_sha'', rl_source r), (''image_digest'', rl_image r),
     (''evaluation_version'', rl_evaluation r), (''claim_registry_digest'', rl_claims r)]"

definition manifest_json :: "receipt_manifest \<Rightarrow> json" where
  "manifest_json m = JObj
    [(''receipt_version'', JStr (mf_version m)), (''receipt_policy_version'', JStr (mf_receipt_policy m)),
     (''capability_policy_version'', JStr (mf_capability_policy m)), (''run_id'', JStr (mf_run m)),
     (''tenant_id_hash'', JStr (mf_tenant_hash m)), (''scenario_version'', JStr (mf_scenario m)),
     (''workflow_id'', JStr (mf_workflow m)), (''final_state'', JStr (mf_final_state m)),
     (''final_disposition'', JStr (mf_disposition m)), (''first_epoch'', JStr (mf_first_epoch m)),
     (''last_epoch'', JStr (mf_last_epoch m)), (''event_count'', JStr (mf_event_count m)),
     (''ledger_first_hash'', JStr (mf_first_hash m)), (''ledger_head_hash'', JStr (mf_head_hash m)),
     (''digests'', bindings_json (mf_digests m)),
     (''subjects'', JObj [(''operator'', JStr (sb_operator (mf_subjects m))),
        (''reviewer'', JStr (sb_reviewer (mf_subjects m))), (''separated'', JBool (sb_separated (mf_subjects m)))]),
     (''release'', release_json (mf_release m)), (''evidence_index_digest'', JStr (mf_evidence m)),
     (''asserted_signing_time'', JStr (mf_signed_at m)), (''expires_at'', JStr (mf_expires m)),
     (''supersedes_receipt_id'', jopt (mf_supersedes m)), (''key_thumbprint'', JStr (mf_thumbprint m)),
     (''signing_algorithm'', JStr (mf_algorithm m))]"

definition manifest_max_bytes :: nat where
  "manifest_max_bytes = 2048"

definition manifest_canonical :: "jcs \<Rightarrow> receipt_manifest \<Rightarrow> receipt_error + string" where
  "manifest_canonical jcs m = (let encoded = jcs (manifest_json m) in
     if manifest_max_bytes < length encoded then Inl ManifestTooLarge else Inr encoded)"

record build_context =
  bc_receipt_policy :: string
  bc_scenario :: string
  bc_disposition :: string
  bc_release :: release_binding
  bc_evidence :: string
  bc_signed_at :: string
  bc_expires :: string
  bc_thumbprint :: string
  bc_supersedes :: "uuid option"

definition pseudonymous_subject :: "jcs \<Rightarrow> string \<Rightarrow> uuid \<Rightarrow> string \<Rightarrow> string \<Rightarrow> string" where
  "pseudonymous_subject jcs key run role subject =
     hmac_sha256 key (''recallops-receipt-subject-v1'' @ [nul] @
       jcs (string_object [(''run_id'', run), (''role'', role), (''subject'', subject)]))"

definition manifest_of ::
  "jcs \<Rightarrow> verified_prefix \<Rightarrow> digest_bindings \<Rightarrow> build_context \<Rightarrow> string \<Rightarrow> receipt_manifest" where
  "manifest_of jcs p b c key = \<lparr>mf_version = receipt_version, mf_receipt_policy = bc_receipt_policy c,
     mf_capability_policy = vp_policy p, mf_run = vp_run p,
     mf_tenant_hash = domain_hash jcs ''recallops-receipt-tenant-v1''
       (string_object [(''run_id'', vp_run p), (''tenant_id'', vp_tenant p)]),
     mf_scenario = bc_scenario c, mf_workflow = vp_workflow p, mf_final_state = vp_final_state p,
     mf_disposition = bc_disposition c, mf_first_epoch = str_int (vp_first_epoch p),
     mf_last_epoch = str_int (vp_last_epoch p), mf_event_count = str_int (vp_count p),
     mf_first_hash = vp_first_hash p, mf_head_hash = vp_head_hash p, mf_digests = b,
     mf_subjects = \<lparr>sb_operator = pseudonymous_subject jcs key (vp_run p) ''operator'' (vp_operator p),
       sb_reviewer = pseudonymous_subject jcs key (vp_run p) ''reviewer'' (vp_reviewer p), sb_separated = True\<rparr>,
     mf_release = bc_release c, mf_evidence = bc_evidence c, mf_signed_at = bc_signed_at c,
     mf_expires = bc_expires c, mf_supersedes = bc_supersedes c, mf_thumbprint = bc_thumbprint c,
     mf_algorithm = jose_algorithm\<rparr>"

definition build_manifest ::
  "externals \<Rightarrow> authority_event list \<Rightarrow> digest_bindings \<Rightarrow> build_context \<Rightarrow> string \<Rightarrow> receipt_error + receipt_manifest" where
  "build_manifest x es b c key =
    (if length key < 32 then Inl PseudonymKeyTooShort
     else bind_r (verify_causal_bindings (x_jcs x) es b (bc_disposition c)) (\<lambda>_.
       bind_r (verify_ledger_prefix x es) (\<lambda>p.
         if vp_build p \<noteq> rl_source (bc_release c) then Inl BuildShaMismatch
         else let m = manifest_of (x_jcs x) p b c key in
           if \<not> valid_manifest m then Inl ManifestInvalid
           else bind_r (manifest_canonical (x_jcs x) m) (\<lambda>_. Inr m))))"

lemma causal_bindings_Inr:
  "verify_causal_bindings jcs es b d = Inr u \<longleftrightarrow>
     (\<exists>required. required_bindings jcs b d = Inr required \<and> list_all (binding_present es) required)"
proof -
  have "(case List.find (\<lambda>r. \<not> binding_present es r) required of
         None \<Rightarrow> Inr () | Some (_, object_type, _) \<Rightarrow> Inl (LacksCausalBinding object_type)) = Inr u \<longleftrightarrow>
      list_all (binding_present es) required" for required
    using find_None_conj [of "\<lambda>r. \<not> binding_present es r" required]
    by (cases "List.find (\<lambda>r. \<not> binding_present es r) required") (auto simp: list_all_iff)
  then show ?thesis by (auto simp: verify_causal_bindings_def bind_r_Inr)
qed

lemma build_manifest_Inr:
  "build_manifest x es b c key = Inr m \<longleftrightarrow>
     32 \<le> length key \<and> verify_causal_bindings (x_jcs x) es b (bc_disposition c) = Inr () \<and>
     (\<exists>p. verify_ledger_prefix x es = Inr p \<and> vp_build p = rl_source (bc_release c) \<and>
        m = manifest_of (x_jcs x) p b c key) \<and>
     valid_manifest m \<and> length (x_jcs x (manifest_json m)) \<le> manifest_max_bytes"
  by (cases "verify_causal_bindings (x_jcs x) es b (bc_disposition c)"; cases "verify_ledger_prefix x es")
     (auto simp: build_manifest_def Let_def manifest_canonical_def)

text \<open>
  Two ledgers hold the same canonical events, unless two different texts among the hashed ones have
  one SHA-256 digest, or one hashes to the predecessor of genesis.
\<close>

definition hash_collision :: "externals \<Rightarrow> authority_event list \<Rightarrow> authority_event list \<Rightarrow> bool" where
  "hash_collision x es fs \<longleftrightarrow>
     (\<exists>a \<in> set es. \<exists>b \<in> set fs. event_text x a \<noteq> event_text x b \<and>
        sha256_hex (event_text x a) = sha256_hex (event_text x b)) \<or>
     (\<exists>a \<in> set es \<union> set fs. sha256_hex (event_text x a) = zero_event_hash)"

definition same_history :: "externals \<Rightarrow> authority_event list \<Rightarrow> authority_event list \<Rightarrow> bool" where
  "same_history x es fs \<longleftrightarrow> map (\<lambda>e. x_jcs x (event_payload x e)) es = map (\<lambda>e. x_jcs x (event_payload x e)) fs"

text \<open>
  C23. A receipt binds the whole history. A manifest that is built stands for a sound prefix that
  carries the six causal bindings, names its head hash and number of events, is within the signing
  limit and valid; and of two manifests built with the same ledger head, the histories are the same
  canonical events, or SHA-256 collided on them.
\<close>

theorem receipt_binds_history:
  "case (build_manifest x es b c key, build_manifest x fs b' c' key') of
     (Inr m, Inr m') \<Rightarrow>
       sound_prefix x es \<and> valid_manifest m \<and> length (x_jcs x (manifest_json m)) \<le> manifest_max_bytes \<and>
       mf_event_count m = str_int (int (length es)) \<and> mf_head_hash m = chain_head es \<and>
       mf_final_state m = ev_state_after (last es) \<and> ev_build (hd es) = rl_source (mf_release m) \<and>
       (\<exists>required. required_bindings (x_jcs x) b (mf_disposition m) = Inr required \<and>
          list_all (binding_present es) required) \<and>
       (if mf_head_hash m = mf_head_hash m' then same_history x es fs \<or> hash_collision x es fs else True)
   | _ \<Rightarrow> True"
proof -
  have built: "sound_prefix x es \<and> m = manifest_of (x_jcs x) (prefix_summary es) b c key \<and>
      ev_build (hd es) = rl_source (bc_release c) \<and> mf_head_hash m = chain_head es \<and>
      verify_causal_bindings (x_jcs x) es b (bc_disposition c) = Inr () \<and> valid_manifest m \<and>
      length (x_jcs x (manifest_json m)) \<le> manifest_max_bytes"
    if "build_manifest x es b c key = Inr m" for es b c key m
    using that unfolding build_manifest_Inr verify_ledger_prefix_Inr
    by (auto simp: manifest_of_def prefix_summary_def chain_head_def sound_prefix_def)
  show ?thesis
  proof (cases "\<exists>m m'. build_manifest x es b c key = Inr m \<and> build_manifest x fs b' c' key' = Inr m'")
    case False
    then show ?thesis by (auto split: sum.split)
  next
    case True
    then obtain m m' where m: "build_manifest x es b c key = Inr m" and m': "build_manifest x fs b' c' key' = Inr m'"
      by blast
    note es = built [OF m] and fs = built [OF m']
    have heads: "mf_head_hash m = chain_head es" "mf_head_hash m' = chain_head fs" using es fs by blast+
    have "same_history x es fs \<or> hash_collision x es fs" if "mf_head_hash m = mf_head_hash m'"
      using same_head_same_history [of x es fs] es fs heads that
      by (auto simp: sound_prefix_def same_history_def hash_collision_def)
    moreover have "mf_event_count m = str_int (int (length es))" "mf_release m = bc_release c"
      "mf_final_state m = ev_state_after (last es)" "mf_disposition m = bc_disposition c"
      using es by (simp_all add: manifest_of_def prefix_summary_def)
    moreover have "sound_prefix x es" "valid_manifest m" "length (x_jcs x (manifest_json m)) \<le> manifest_max_bytes"
      "ev_build (hd es) = rl_source (bc_release c)"
      "\<exists>required. required_bindings (x_jcs x) b (bc_disposition c) = Inr required \<and> list_all (binding_present es) required"
      using es unfolding causal_bindings_Inr by blast+
    ultimately show ?thesis using heads by (simp add: m m')
  qed
qed

section \<open>A ledger that is verified\<close>

text \<open>Hashing a list of drafts into a chain.\<close>

fun chain_of :: "externals \<Rightarrow> string \<Rightarrow> authority_event list \<Rightarrow> authority_event list" where
  "chain_of x prev [] = []"
| "chain_of x prev (d # ds) =
     (let e = d\<lparr>ev_prev_hash := prev\<rparr>; f = e\<lparr>ev_hash := sha256_hex (event_text x e)\<rparr>
      in f # chain_of x (ev_hash f) ds)"

lemma event_text_hash [simp]: "event_text x (e\<lparr>ev_hash := h\<rparr>) = event_text x e"
  by (simp add: event_text_def split: option.split)

lemma verify_event_hashed:
  assumes "hex64 prev" "ev_prev_hash e = prev" "ev_hash e = sha256_hex (event_text x e)"
  shows "verify_event x e prev = Inr True"
proof -
  obtain h where h: "authority_event_hash x prev (event_payload x e) = Inr h"
    using event_hash_ok assms(1) by blast
  then have "h = sha256_hex (event_text x e)"
    by (auto simp: authority_event_hash_def event_text_def assms(2) split: if_splits option.splits)
  with h assms show ?thesis by (simp add: verify_event_def)
qed

lemma chain_of_chain:
  "hex64 prev \<Longrightarrow> map ev_sequence ds = map (\<lambda>k. n + int k) [0..<length ds] \<Longrightarrow> chain_from x prev n (chain_of x prev ds)"
proof (induction ds arbitrary: prev n)
  case (Cons d ds)
  have m: "map (\<lambda>k. n + int k) [0..<length (d # ds)] = n # map (\<lambda>k. n + 1 + int k) [0..<length ds]"
    by (simp add: upt_conv_Cons map_Suc_upt [symmetric] algebra_simps del: upt_Suc map_Suc_upt)
  let ?e = "d\<lparr>ev_prev_hash := prev\<rparr>"
  have "verify_event x (?e\<lparr>ev_hash := sha256_hex (event_text x ?e)\<rparr>) prev = Inr True"
    by (rule verify_event_hashed) (simp_all add: Cons.prems)
  moreover have "chain_from x (sha256_hex (event_text x ?e)) (n + 1) (chain_of x (sha256_hex (event_text x ?e)) ds)"
    by (rule Cons.IH) (use Cons.prems m in simp_all)
  ultimately show ?case using Cons.prems m by (simp add: Let_def)
qed simp

definition bare :: "authority_event \<Rightarrow> authority_event" where
  "bare e = e\<lparr>ev_prev_hash := [], ev_hash := []\<rparr>"

lemma bare_fields [simp]:
  "ev_type (bare e) = ev_type e" "ev_state_before (bare e) = ev_state_before e"
  "ev_epoch_before (bare e) = ev_epoch_before e" "ev_role (bare e) = ev_role e" "ev_actor (bare e) = ev_actor e"
  "authority_evidence (bare e) (bare f) = authority_evidence e f" "linked (bare e) (bare f) = linked e f"
  by (simp_all add: bare_def authority_evidence_def same_boundary_def linked_def)

lemma chain_of_bare: "map bare (chain_of x prev ds) = map bare ds"
  by (induction ds arbitrary: prev) (simp_all add: Let_def bare_def)

abbreviation actors :: "string \<Rightarrow> authority_event list \<Rightarrow> string list" where
  "actors r es \<equiv> map ev_actor (filter (\<lambda>e. ev_role e = r) es)"

lemma actors_bare: "actors r (map bare es) = actors r es"
  by (simp add: filter_map comp_def)

lemma chain_of_sound:
  assumes "ds \<noteq> []" "map ev_sequence ds = map (\<lambda>k. 1 + int k) [0..<length ds]"
    and "ev_type (hd ds) = ''RUN_GENESIS''" "ev_state_before (hd ds) = ''ABSENT''" "ev_epoch_before (hd ds) = 0"
    and "list_all (authority_evidence (hd ds)) ds" "successively linked ds"
    and "set (actors ''operator'' ds) = {a}" "set (actors ''reviewer'' ds) = {b}" "a \<noteq> b"
  shows "sound_prefix x (chain_of x zero_event_hash ds)"
proof -
  let ?es = "chain_of x zero_event_hash ds"
  note m = chain_of_bare [of x zero_event_hash ds]
  have ne: "?es \<noteq> []" using assms(1) m by auto
  have h: "bare (hd ?es) = bare (hd ds)" using arg_cong [OF m, of hd] ne assms(1) by (simp add: hd_map)
  have hf: "ev_type (hd ?es) = ev_type (hd ds)" "ev_state_before (hd ?es) = ev_state_before (hd ds)"
    "ev_epoch_before (hd ?es) = ev_epoch_before (hd ds)"
    using h by (metis bare_fields)+
  have "list_all (authority_evidence (bare (hd ?es))) (map bare ?es)"
    unfolding m h using assms(6) by (simp add: list_all_iff)
  then have "list_all (authority_evidence (hd ?es)) ?es" by (simp add: list_all_iff)
  moreover have "successively linked (map bare ?es)" unfolding m using assms(7) by (simp add: successively_map)
  then have "successively linked ?es" by (simp add: successively_map)
  moreover have "ev_actor ` {e \<in> set ?es. ev_role e = r} = set (actors r ds)" for r
  proof -
    have "actors r ?es = actors r ds" using actors_bare [of r ?es] actors_bare [of r ds] m by simp
    then show ?thesis using subjects_of_set [of r ?es] by simp
  qed
  moreover have "valid_chain x ?es" unfolding valid_chain_def by (rule chain_of_chain [OF hex64_zero assms(2)])
  ultimately show ?thesis using ne hf assms unfolding sound_prefix_def by simp
qed

text \<open>A run from genesis to review: each event with its actor, role and channel.\<close>

definition sample_step :: "int \<Rightarrow> string \<times> string \<times> request_channel \<times> string \<times> string \<Rightarrow> authority_event" where
  "sample_step n s = (case s of (actor, role, ch, before, after) \<Rightarrow>
     sample_draft\<lparr>ev_id := ''e'' @ str_int n, ev_sequence := n, ev_recorded := n,
       ev_type := (if n = 1 then ''RUN_GENESIS'' else before @ ''_TO_'' @ after),
       ev_actor := actor, ev_role := role, ev_channel := ch, ev_epoch_before := n - 1, ev_epoch_after := n,
       ev_state_before := before, ev_state_after := after, ev_caps_before := [], ev_caps_after := []\<rparr>)"

definition sample_run_drafts :: "authority_event list" where
  "sample_run_drafts = map2 sample_step [1, 2, 3, 4, 5, 6, 7]
    [(''allocator'', ''system'', SYSTEM, ''ABSENT'', ''INVESTIGATING''),
     (''agent-1'', ''agent'', WEBMCP, ''INVESTIGATING'', ''AWAITING_OPERATOR_APPROVAL''),
     (''op-1'', ''operator'', UI, ''AWAITING_OPERATOR_APPROVAL'', ''APPROVED_AWAITING_EXECUTION''),
     (''op-1'', ''operator'', UI, ''APPROVED_AWAITING_EXECUTION'', ''OBSERVING_POSTCHECK''),
     (''sys'', ''system'', SYSTEM, ''OBSERVING_POSTCHECK'', ''POSTCHECK_READY''),
     (''agent-1'', ''agent'', WEBMCP, ''POSTCHECK_READY'', ''PENDING_REVIEW''),
     (''rev-1'', ''reviewer'', UI, ''PENDING_REVIEW'', ''REVIEWED'')]"

lemma sample_run_sound: "sound_prefix x (chain_of x zero_event_hash sample_run_drafts)"
  by (rule chain_of_sound [where a = "''op-1''" and b = "''rev-1''"])
     (auto simp: sample_run_drafts_def sample_step_def sample_draft_def upt_rec authority_evidence_def same_boundary_def
       linked_def)

end
