(* ===== verification/Release_Gates.thy ===== *)
theory Release_Gates
  imports Receipts
begin

text \<open>
  \<^verbatim>\<open>src/recallops/release_evidence.py\<close>: the two readiness gates of a release, derived from the
  attested artifacts, and the statement that is signed about them.
\<close>

section \<open>Identity, artifacts and results\<close>

record release_identity =
  ri_release :: string
  ri_source :: string
  ri_image :: string
  ri_capability_policy :: string
  ri_receipt_policy :: string
  ri_evaluation :: string
  ri_thumbprint :: string

definition valid_identity :: "release_identity \<Rightarrow> bool" where
  "valid_identity i \<longleftrightarrow> sized 3 100 (ri_release i) \<and> source_sha (ri_source i) \<and> image_digest (ri_image i) \<and>
     sized 3 80 (ri_capability_policy i) \<and> sized 3 80 (ri_receipt_policy i) \<and> sized 3 80 (ri_evaluation i) \<and>
     sized 43 43 (ri_thumbprint i)"

record artifact =
  aa_kind :: string
  aa_digest :: string
  aa_release :: string
  aa_source :: string
  aa_image :: string
  aa_passed :: bool
  aa_path :: string

definition kind_char :: "char \<Rightarrow> bool" where
  "kind_char c \<longleftrightarrow> (let n = of_char c :: nat in 97 \<le> n \<and> n \<le> 122 \<or> 48 \<le> n \<and> n \<le> 57 \<or> n = 95)"

definition valid_artifact :: "artifact \<Rightarrow> bool" where
  "valid_artifact a \<longleftrightarrow> 3 \<le> length (aa_kind a) \<and> length (aa_kind a) \<le> 80 \<and> list_all kind_char (aa_kind a) \<and>
     97 \<le> (of_char (hd (aa_kind a)) :: nat) \<and> hex64 (aa_digest a) \<and> sized 3 100 (aa_release a) \<and>
     source_sha (aa_source a) \<and> image_digest (aa_image a) \<and> sized 1 500 (aa_path a)"

record gate_result =
  gt_gate :: string
  gt_complete :: bool
  gt_digest :: string
  gt_present :: "string list"
  gt_missing :: "string list"
  gt_failed :: "string list"
  gt_mismatched :: "string list"

record dual_gates =
  dg_identity :: release_identity
  dg_live :: gate_result
  dg_assurance :: gate_result
  dg_ready :: bool

record release_statement =
  st_version :: string
  st_identity :: release_identity
  st_live_complete :: bool
  st_live_digest :: string
  st_assurance_complete :: bool
  st_assurance_digest :: string
  st_ready :: bool

definition live_requirements :: "string list" where
  "live_requirements = [''deployed_journey'', ''refresh_reset'', ''public_bundle_download'', ''accessibility_smoke'',
     ''native_chrome_webmcp'', ''chatgpt_site_tools'']"

definition assurance_requirements :: "string list" where
  "assurance_requirements = [''python_branch_coverage'', ''cockroach_boundaries'', ''governed_benchmark'',
     ''authority_vectors'', ''offline_verifier'', ''provenance'', ''artifact_manifest'', ''security_scans'']"

section \<open>Deriving a gate\<close>

text \<open>The dictionary \<open>by_kind\<close>, where a later artifact of a kind replaces an earlier one.\<close>

definition by_kind :: "artifact list \<Rightarrow> string \<Rightarrow> artifact option" where
  "by_kind arts k = List.find (\<lambda>a. aa_kind a = k) (rev arts)"

fun duplicate_kinds :: "string list \<Rightarrow> artifact list \<Rightarrow> string list" where
  "duplicate_kinds seen [] = []"
| "duplicate_kinds seen (a # arts) =
     (if aa_kind a \<in> set seen then aa_kind a # duplicate_kinds seen arts
      else duplicate_kinds (aa_kind a # seen) arts)"

definition sorted_set :: "string list \<Rightarrow> string list" where
  "sorted_set xs = sort (remdups xs)"

definition of_release :: "release_identity \<Rightarrow> artifact \<Rightarrow> bool" where
  "of_release i a \<longleftrightarrow> aa_release a = ri_release i \<and> aa_source a = ri_source i \<and> aa_image a = ri_image i"

definition identity_json :: "release_identity \<Rightarrow> json" where
  "identity_json i = string_object
    [(''release_id'', ri_release i), (''source_sha'', ri_source i), (''image_digest'', ri_image i),
     (''capability_policy_version'', ri_capability_policy i), (''receipt_policy_version'', ri_receipt_policy i),
     (''evaluation_version'', ri_evaluation i), (''receipt_key_thumbprint'', ri_thumbprint i)]"

definition artifact_json :: "artifact \<Rightarrow> json" where
  "artifact_json a = JObj
    [(''artifact_kind'', JStr (aa_kind a)), (''artifact_digest'', JStr (aa_digest a)), (''release_id'', JStr (aa_release a)),
     (''source_sha'', JStr (aa_source a)), (''image_digest'', JStr (aa_image a)), (''passed'', JBool (aa_passed a)),
     (''path'', JStr (aa_path a))]"

definition derive_gate :: "jcs \<Rightarrow> string \<Rightarrow> string list \<Rightarrow> release_identity \<Rightarrow> artifact list \<Rightarrow> gate_result" where
  "derive_gate jcs gate required i arts =
    (let kinds = sorted_set (map aa_kind arts);
         present = filter (\<lambda>k. k \<in> set kinds) (sorted_set required);
         missing = filter (\<lambda>k. k \<notin> set kinds) (sorted_set required);
         failed = filter (\<lambda>k. case by_kind arts k of None \<Rightarrow> False | Some a \<Rightarrow> \<not> aa_passed a) present;
         foreign = filter (\<lambda>k. case by_kind arts k of None \<Rightarrow> False | Some a \<Rightarrow> \<not> of_release i a) present;
         mismatched = sorted_set (duplicate_kinds [] arts @ foreign)
     in \<lparr>gt_gate = gate, gt_complete = (missing = [] \<and> failed = [] \<and> mismatched = []),
         gt_digest = domain_hash jcs ''recallops-gate-artifacts-v1'' (JObj
           [(''gate'', JStr gate), (''identity'', identity_json i),
            (''required'', JArr (map JStr (sorted_set required))),
            (''artifacts'', JArr (map (\<lambda>k. case by_kind arts k of None \<Rightarrow> JNull | Some a \<Rightarrow> artifact_json a) kinds))]),
         gt_present = present, gt_missing = missing, gt_failed = failed, gt_mismatched = mismatched\<rparr>)"

definition derive_dual_gates :: "jcs \<Rightarrow> release_identity \<Rightarrow> artifact list \<Rightarrow> artifact list \<Rightarrow> dual_gates" where
  "derive_dual_gates jcs i live assurance =
    (let l = derive_gate jcs ''live_proof'' live_requirements i live;
         a = derive_gate jcs ''assurance'' assurance_requirements i assurance
     in \<lparr>dg_identity = i, dg_live = l, dg_assurance = a, dg_ready = (gt_complete l \<and> gt_complete a)\<rparr>)"

definition release_statement_of :: "dual_gates \<Rightarrow> release_statement" where
  "release_statement_of g = \<lparr>st_version = ''recallops-release-statement-v1'', st_identity = dg_identity g,
     st_live_complete = gt_complete (dg_live g), st_live_digest = gt_digest (dg_live g),
     st_assurance_complete = gt_complete (dg_assurance g), st_assurance_digest = gt_digest (dg_assurance g),
     st_ready = dg_ready g\<rparr>"

text \<open>The constraints and model validators of the results.\<close>

definition valid_gate :: "gate_result \<Rightarrow> bool" where
  "valid_gate g \<longleftrightarrow> hex64 (gt_digest g) \<and>
     (gt_complete g \<longleftrightarrow> gt_missing g = [] \<and> gt_failed g = [] \<and> gt_mismatched g = [])"

definition valid_dual :: "dual_gates \<Rightarrow> bool" where
  "valid_dual g \<longleftrightarrow> valid_gate (dg_live g) \<and> valid_gate (dg_assurance g) \<and>
     (dg_ready g \<longleftrightarrow> gt_complete (dg_live g) \<and> gt_complete (dg_assurance g))"

definition valid_statement :: "release_statement \<Rightarrow> bool" where
  "valid_statement s \<longleftrightarrow> st_version s = ''recallops-release-statement-v1'' \<and> valid_identity (st_identity s) \<and>
     hex64 (st_live_digest s) \<and> hex64 (st_assurance_digest s) \<and>
     (st_ready s \<longleftrightarrow> st_live_complete s \<and> st_assurance_complete s)"

definition statement_json :: "release_statement \<Rightarrow> json" where
  "statement_json s = JObj
    [(''statement_version'', JStr (st_version s)), (''identity'', identity_json (st_identity s)),
     (''live_proof_complete'', JBool (st_live_complete s)), (''live_proof_artifact_digest'', JStr (st_live_digest s)),
     (''assurance_complete'', JBool (st_assurance_complete s)),
     (''assurance_artifact_digest'', JStr (st_assurance_digest s)), (''release_ready'', JBool (st_ready s))]"

section \<open>When a release is ready\<close>

lemma set_sorted_set [simp]: "set (sorted_set xs) = set xs"
  by (simp add: sorted_set_def)

lemma sorted_set_Nil [simp]: "sorted_set xs = [] \<longleftrightarrow> xs = []"
  by (metis set_empty set_sorted_set)

lemma duplicate_kinds_Nil:
  "duplicate_kinds seen arts = [] \<longleftrightarrow> distinct (map aa_kind arts) \<and> set seen \<inter> aa_kind ` set arts = {}"
  by (induction seen arts rule: duplicate_kinds.induct) auto

lemma by_kind_None: "by_kind arts k = None \<longleftrightarrow> k \<notin> aa_kind ` set arts"
  by (auto simp: by_kind_def find_None_conj)

lemma by_kind_unique:
  assumes "distinct (map aa_kind arts)" "a \<in> set arts"
  shows "by_kind arts (aa_kind a) = Some a"
proof (cases "by_kind arts (aa_kind a)")
  case None
  then show ?thesis using assms(2) by (auto simp: by_kind_None)
next
  case (Some b)
  from find_Some_conj [OF Some [unfolded by_kind_def]] have "aa_kind b = aa_kind a" "b \<in> set arts" by simp_all
  with assms Some show ?thesis by (metis distinct_map inj_onD)
qed

text \<open>The evidence a gate needs: one artifact per kind, each required one passed and of the release.\<close>

definition gate_satisfied :: "string list \<Rightarrow> release_identity \<Rightarrow> artifact list \<Rightarrow> bool" where
  "gate_satisfied required i arts \<longleftrightarrow> distinct (map aa_kind arts) \<and>
     list_all (\<lambda>k. list_ex (\<lambda>a. aa_kind a = k \<and> aa_passed a \<and> of_release i a) arts) required"

lemma gate_complete_iff: "gt_complete (derive_gate jcs gate required i arts) \<longleftrightarrow> gate_satisfied required i arts"
proof (cases "distinct (map aa_kind arts)")
  case False
  then have "duplicate_kinds [] arts \<noteq> []" by (simp add: duplicate_kinds_Nil)
  with False show ?thesis by (simp add: derive_gate_def Let_def gate_satisfied_def)
next
  case True
  have d: "duplicate_kinds [] arts = []" using True by (simp add: duplicate_kinds_Nil)
  have one: "k \<in> aa_kind ` set arts \<and> (case by_kind arts k of None \<Rightarrow> True | Some a \<Rightarrow> aa_passed a \<and> of_release i a) \<longleftrightarrow>
      (\<exists>a \<in> set arts. aa_kind a = k \<and> aa_passed a \<and> of_release i a)" for k
    using by_kind_unique [OF True] by (auto simp: image_iff)
  have "gt_complete (derive_gate jcs gate required i arts) \<longleftrightarrow>
      (\<forall>k \<in> set required. k \<in> aa_kind ` set arts \<and>
         (case by_kind arts k of None \<Rightarrow> True | Some a \<Rightarrow> aa_passed a \<and> of_release i a))"
    by (auto simp: derive_gate_def Let_def d filter_empty_conv split: option.splits)
  then show ?thesis unfolding one using True by (auto simp: gate_satisfied_def list_all_iff list_ex_iff)
qed

text \<open>
  C25. A release is ready exactly when both gates are satisfied: no artifact kind is attested twice,
  and each of the six live and eight assurance requirements has an artifact that passed and is of
  the release, source and image named. The derived results satisfy their own validators, and the
  statement made of them repeats the readiness.
\<close>

theorem release_ready_iff:
  "(st_ready (release_statement_of (derive_dual_gates jcs i live assurance)) \<longleftrightarrow>
      gate_satisfied live_requirements i live \<and> gate_satisfied assurance_requirements i assurance) \<and>
   valid_dual (derive_dual_gates jcs i live assurance) \<and>
   valid_statement (release_statement_of (derive_dual_gates jcs i live assurance)) = valid_identity i"
proof -
  have "valid_gate (derive_gate jcs gate required i arts)" for gate required arts
    by (simp add: valid_gate_def derive_gate_def Let_def)
  moreover have "hex64 (gt_digest (derive_gate jcs gate required i arts))" for gate required arts
    by (simp add: derive_gate_def Let_def)
  ultimately show ?thesis
    by (simp add: release_statement_of_def derive_dual_gates_def Let_def gate_complete_iff valid_dual_def valid_statement_def)
qed

end
