(* ===== verification/Jws.thy ===== *)
theory Jws
  imports Release_Gates
begin

text \<open>
  Signed receipts, second part of \<^verbatim>\<open>src/recallops/receipts.py\<close>: canonical JSON, public keys and their
  thumbprints, compact JWS, the registry of trusted keys, the signer over a key management service,
  and the verification of receipts and release statements. Ed25519, DER and rfc8785 are parameters;
  a public key is its 32 raw bytes.
\<close>

section \<open>Canonical JSON\<close>

definition parse_canonical_json :: "receipt_externals \<Rightarrow> string \<Rightarrow> receipt_error + json" where
  "parse_canonical_json x data =
    (if \<not> utf8_valid (map of_char data) then Inl (TextInvalid InvalidJson)
     else case json_loads data of
       Inl e \<Rightarrow> Inl (TextInvalid e)
     | Inr v \<Rightarrow> if \<not> x_ijson x v then Inl (TextInvalid NonIJsonNumber)
         else if x_jcs x v \<noteq> data then Inl (TextInvalid NotCanonical) else Inr v)"

text \<open>Equality of Python values read from JSON: numbers and truth values compare by value, objects without order.\<close>

fun num_value :: "json \<Rightarrow> real option" where
  "num_value (JBool b) = Some (if b then 1 else 0)"
| "num_value (JInt i) = Some (of_int i)"
| "num_value (JNum r) = Some r"
| "num_value _ = None"

fun json_eq :: "json \<Rightarrow> json \<Rightarrow> bool" where
  "json_eq (JStr s) w = (w = JStr s)"
| "json_eq JNull w = (w = JNull)"
| "json_eq (JArr vs) w = (case w of JArr ws \<Rightarrow> list_all2 json_eq vs ws | _ \<Rightarrow> False)"
| "json_eq (JObj kvs) w = (case w of
     JObj lws \<Rightarrow> length kvs = length lws \<and>
       list_all (\<lambda>(k, v). case map_of lws k of None \<Rightarrow> False | Some u \<Rightarrow> json_eq v u) kvs
   | _ \<Rightarrow> False)"
| "json_eq v w = (num_value v = num_value w)"

fun is_object :: "json \<Rightarrow> bool" where
  "is_object (JObj _) = True"
| "is_object _ = False"

section \<open>Public keys\<close>

type_synonym jwk = "(string \<times> string) list"

definition public_jwk_from_der :: "receipt_externals \<Rightarrow> string \<Rightarrow> receipt_error + jwk" where
  "public_jwk_from_der x der = (case x_der x der of
     None \<Rightarrow> Inl KeyInvalid
   | Some raw \<Rightarrow> Inr [(''kty'', ''OKP''), (''crv'', ''Ed25519''), (''x'', b64url raw)])"

definition public_key_from_jwk :: "jwk \<Rightarrow> receipt_error + string" where
  "public_key_from_jwk jwk =
    (if set (map fst jwk) \<noteq> {''kty'', ''crv'', ''x''} \<or> map_of jwk ''kty'' \<noteq> Some ''OKP'' \<or>
        map_of jwk ''crv'' \<noteq> Some ''Ed25519''
     then Inl JwkInvalid
     else case decode_b64url (case map_of jwk ''x'' of None \<Rightarrow> [] | Some v \<Rightarrow> v) of
       Inl e \<Rightarrow> Inl (TextInvalid e)
     | Inr raw \<Rightarrow> if length raw \<noteq> 32 then Inl JwkSize else Inr raw)"

definition sha256_raw :: "string \<Rightarrow> string" where
  "sha256_raw s = map (\<lambda>b. char_of (unat b)) (sha256 (bytes_of s))"

definition jwk_thumbprint :: "receipt_externals \<Rightarrow> jwk \<Rightarrow> receipt_error + string" where
  "jwk_thumbprint x jwk = bind_r (public_key_from_jwk jwk) (\<lambda>_.
     Inr (b64url (sha256_raw (x_jcs x (string_object
       [(''crv'', ''Ed25519''), (''kty'', ''OKP''), (''x'', case map_of jwk ''x'' of None \<Rightarrow> [] | Some v \<Rightarrow> v)])))))"

datatype key_trust = RepositoryRoot | ByTransition

datatype key_status = KeyActive | KeyRetired | KeyRevoked

record trusted_key =
  tk_kid :: string
  tk_jwk :: jwk
  tk_trust :: key_trust
  tk_status :: key_status
  tk_releases :: "string list"

definition valid_trusted_key :: "receipt_externals \<Rightarrow> trusted_key \<Rightarrow> bool" where
  "valid_trusted_key x k \<longleftrightarrow> sized 43 43 (tk_kid k) \<and> tk_releases k \<noteq> [] \<and>
     jwk_thumbprint x (tk_jwk k) = Inr (tk_kid k) \<and> distinct (tk_releases k)"

record key_transition =
  kt_from :: string
  kt_to :: string
  kt_jws :: string

definition valid_key_transition :: "key_transition \<Rightarrow> bool" where
  "valid_key_transition t \<longleftrightarrow> sized 43 43 (kt_from t) \<and> sized 43 43 (kt_to t) \<and> sized 64 4096 (kt_jws t)"

record key_document =
  td_version :: string
  td_keys :: "trusted_key list"
  td_transitions :: "key_transition list"

definition valid_document :: "receipt_externals \<Rightarrow> key_document \<Rightarrow> bool" where
  "valid_document x d \<longleftrightarrow> td_version d = ''trusted-receipt-keys-v1'' \<and>
     list_all (valid_trusted_key x) (td_keys d) \<and> list_all valid_key_transition (td_transitions d)"

section \<open>Compact signatures\<close>

definition kms_max_bytes :: nat where
  "kms_max_bytes = 4096"

definition protected_header :: "string \<Rightarrow> string \<Rightarrow> json" where
  "protected_header kid typ =
     JObj [(''alg'', JStr jose_algorithm), (''kid'', JStr kid), (''typ'', JStr typ), (''v'', JInt 1)]"

definition jws_signing_input :: "receipt_externals \<Rightarrow> string \<Rightarrow> string \<Rightarrow> string \<Rightarrow> receipt_error + string" where
  "jws_signing_input x payload kid typ =
     (let signing_input = b64url (x_jcs x (protected_header kid typ)) @ ''.'' @ b64url payload
      in if kms_max_bytes < length signing_input then Inl SigningInputTooLarge else Inr signing_input)"

text \<open>The version of the frozen header is compared as a number: a signed \<open>true\<close> passes for 1.\<close>

lemma header_version_true:
  "json_eq (JObj [(''alg'', JStr jose_algorithm), (''kid'', JStr kid), (''typ'', JStr typ), (''v'', JBool True)])
     (protected_header kid typ)"
  by (simp add: protected_header_def)

text \<open>\<open>compact.split(".")\<close>\<close>

fun split_dots :: "string \<Rightarrow> string list" where
  "split_dots [] = [[]]"
| "split_dots (c # s) = (if c = CHR ''.'' then [] # split_dots s
     else case split_dots s of [] \<Rightarrow> [[c]] | p # ps \<Rightarrow> (c # p) # ps)"

definition three_segments :: "string \<Rightarrow> receipt_error + string \<times> string \<times> string" where
  "three_segments token = (case split_dots token of
     [a, b, c] \<Rightarrow> Inr (a, b, c)
   | _ \<Rightarrow> Inl SegmentCount)"

definition decode_segment :: "string \<Rightarrow> receipt_error + string" where
  "decode_segment s = (case decode_b64url s of Inl e \<Rightarrow> Inl (TextInvalid e) | Inr data \<Rightarrow> Inr data)"

definition verify_compact ::
  "receipt_externals \<Rightarrow> string \<Rightarrow> jwk \<Rightarrow> string \<Rightarrow> string \<Rightarrow> receipt_error + json \<times> string" where
  "verify_compact x token jwk kid typ =
     bind_r (three_segments token) (\<lambda>(p, b, s).
     bind_r (decode_segment p) (\<lambda>protected_bytes.
     bind_r (decode_segment b) (\<lambda>payload_bytes.
     bind_r (decode_segment s) (\<lambda>signature.
     bind_r (parse_canonical_json x protected_bytes) (\<lambda>protected.
     bind_r (check_r (is_object protected \<and> json_eq protected (protected_header kid typ)) HeaderMismatch) (\<lambda>_.
     bind_r (check_r (length signature = 64) SignatureLength) (\<lambda>_.
     bind_r (public_key_from_jwk jwk) (\<lambda>key.
     bind_r (check_r (x_verify x key signature (p @ ''.'' @ b)) SignatureInvalid) (\<lambda>_.
     bind_r (parse_canonical_json x payload_bytes) (\<lambda>payload.
     bind_r (check_r (is_object payload) PayloadNotObject) (\<lambda>_.
     Inr (payload, payload_bytes))))))))))))"

section \<open>The registry of trusted keys\<close>

definition key_of :: "key_document \<Rightarrow> string \<Rightarrow> trusted_key option" where
  "key_of d kid = List.find (\<lambda>k. tk_kid k = kid) (td_keys d)"

definition transition_to :: "key_document \<Rightarrow> string \<Rightarrow> key_transition option" where
  "transition_to d kid = List.find (\<lambda>t. kt_to t = kid) (td_transitions d)"

definition transition_typ :: string where
  "transition_typ = ''recallops-receipt-key-transition+jws''"

definition transition_payload :: "receipt_externals \<Rightarrow> trusted_key \<Rightarrow> trusted_key \<Rightarrow> json" where
  "transition_payload x source target = string_object
     [(''from_kid'', tk_kid source),
      (''to_jwk_digest'', domain_hash (x_jcs x) ''recallops-public-jwk-v1'' (string_object (tk_jwk target))),
      (''to_kid'', tk_kid target), (''transition_version'', ''receipt-key-transition-v1'')]"

definition check_key_transition ::
  "receipt_externals \<Rightarrow> key_document \<Rightarrow> key_transition \<Rightarrow> receipt_error + unit" where
  "check_key_transition x d t = (case (key_of d (kt_from t), key_of d (kt_to t)) of
     (Some source, Some target) \<Rightarrow>
       bind_r (verify_compact x (kt_jws t) (tk_jwk source) (tk_kid source) transition_typ) (\<lambda>(payload, _).
         check_r (json_eq payload (transition_payload x source target)) TransitionNotBinding)
   | _ \<Rightarrow> Inl KeyNotPinned)"

text \<open>
  One round of the loop: the targets in the order given, each established as soon as its predecessor
  is; the targets left over are returned. The order in which Python walks the set is not specified.
\<close>

fun establish_round ::
  "receipt_externals \<Rightarrow> key_document \<Rightarrow> string list \<Rightarrow> string list \<Rightarrow> receipt_error + string list \<times> string list" where
  "establish_round x d established [] = Inr (established, [])"
| "establish_round x d established (target # rest) = (case transition_to d target of
     Some t \<Rightarrow>
       if kt_from t \<in> set established
       then bind_r (check_key_transition x d t) (\<lambda>_. establish_round x d (target # established) rest)
       else bind_r (establish_round x d established rest) (\<lambda>(es, ps). Inr (es, target # ps))
   | None \<Rightarrow> bind_r (establish_round x d established rest) (\<lambda>(es, ps). Inr (es, target # ps)))"

function establish ::
  "receipt_externals \<Rightarrow> key_document \<Rightarrow> string list \<Rightarrow> string list \<Rightarrow> receipt_error + unit" where
  "establish x d established pending =
    (if pending = [] then Inr ()
     else case establish_round x d established pending of
       Inl e \<Rightarrow> Inl e
     | Inr (established', pending') \<Rightarrow>
         if length pending' < length pending then establish x d established' pending'
         else Inl TransitionsUnresolved)"
  by pat_completeness auto
termination by (relation "measure (\<lambda>(x, d, established, pending). length pending)") auto

declare establish.simps [simp del]

definition kids_by :: "key_trust \<Rightarrow> key_document \<Rightarrow> string list" where
  "kids_by trust d = map tk_kid (filter (\<lambda>k. tk_trust k = trust) (td_keys d))"

text \<open>
  \<open>TrustedKeyRegistry.__init__\<close>; \<open>pending\<close> is the order in which the set of keys to establish is walked.
\<close>

definition build_registry ::
  "receipt_externals \<Rightarrow> string list \<Rightarrow> key_document \<Rightarrow> receipt_error + key_document" where
  "build_registry x pending d =
    (if \<not> distinct (map tk_kid (td_keys d)) then Inl DuplicateKeys
     else if td_keys d \<noteq> [] \<and> length (kids_by RepositoryRoot d) \<noteq> 1 then Inl RootCount
     else if \<not> distinct (map kt_to (td_transitions d)) then Inl MultiplePredecessors
     else bind_r (establish x d (kids_by RepositoryRoot d) pending) (\<lambda>_.
       if set (map kt_to (td_transitions d)) - set (kids_by ByTransition d) \<noteq> {} then Inl UnusedTransition
       else Inr d))"

definition resolve_key :: "key_document \<Rightarrow> string \<Rightarrow> string \<Rightarrow> receipt_error + trusted_key" where
  "resolve_key d kid release = (case key_of d kid of
     None \<Rightarrow> Inl KeyNotPinned
   | Some k \<Rightarrow> if tk_status k \<noteq> KeyActive \<or> release \<notin> set (tk_releases k) then Inl KeyNotAuthorized else Inr k)"

text \<open>A key is trusted when it is the root or a trusted key signed the transition to it.\<close>

inductive trusted :: "receipt_externals \<Rightarrow> key_document \<Rightarrow> string \<Rightarrow> bool" for x d where
  root: "kid \<in> set (kids_by RepositoryRoot d) \<Longrightarrow> trusted x d kid"
| signed: "trusted x d (kt_from t) \<Longrightarrow> t \<in> set (td_transitions d) \<Longrightarrow> kt_to t \<in> set (kids_by ByTransition d) \<Longrightarrow>
    check_key_transition x d t = Inr () \<Longrightarrow> trusted x d (kt_to t)"

lemma transition_to_Some:
  assumes "distinct (map kt_to (td_transitions d))"
  shows "transition_to d kid = Some t \<longleftrightarrow> t \<in> set (td_transitions d) \<and> kt_to t = kid"
proof
  assume "transition_to d kid = Some t"
  from find_Some_conj [OF this [unfolded transition_to_def]] show "t \<in> set (td_transitions d) \<and> kt_to t = kid" by simp
next
  assume t: "t \<in> set (td_transitions d) \<and> kt_to t = kid"
  then obtain u where u: "transition_to d kid = Some u"
    by (cases "transition_to d kid") (auto simp: transition_to_def find_None_conj)
  from find_Some_conj [OF u [unfolded transition_to_def]] t assms have "u = t" by (metis distinct_map inj_onD)
  with u show "transition_to d kid = Some t" by simp
qed

text \<open>A round keeps what is established trusted, and splits the targets into established and left over.\<close>

lemma establish_round_trusted:
  assumes "establish_round x d established pending = Inr (es, ps)"
    and "list_all (trusted x d) established" "set pending \<subseteq> set (kids_by ByTransition d)"
    and "distinct (map kt_to (td_transitions d))"
  shows "list_all (trusted x d) es \<and> set es \<union> set ps = set established \<union> set pending \<and> set established \<subseteq> set es \<and>
    set ps \<subseteq> set pending \<and> length ps \<le> length pending"
  using assms
proof (induction pending arbitrary: established es ps)
  case (Cons target rest)
  note d = \<open>distinct (map kt_to (td_transitions d))\<close>
  show ?case
  proof (cases "\<exists>t. transition_to d target = Some t \<and> kt_from t \<in> set established")
    case True
    then obtain t where t: "transition_to d target = Some t" "kt_from t \<in> set established" by blast
    with Cons.prems(1) have c: "check_key_transition x d t = Inr ()"
      and r: "establish_round x d (target # established) rest = Inr (es, ps)" by (auto simp: bind_r_Inr)
    have "trusted x d target"
      using t c Cons.prems transition_to_Some [OF d, of target t] trusted.signed [of x d t] by (auto simp: list_all_iff)
    with Cons.IH [OF r] Cons.prems show ?thesis by auto
  next
    case False
    with Cons.prems obtain ps' where r: "establish_round x d established rest = Inr (es, ps')" "ps = target # ps'"
      by (auto simp: bind_r_Inr split: option.splits if_splits)
    then show ?thesis using Cons.IH [OF r(1)] Cons.prems by auto
  qed
qed simp

text \<open>A round that leaves all its targets over established none: none has an established predecessor.\<close>

lemma establish_round_stuck:
  assumes "establish_round x d established pending = Inr (es, ps)" "length ps = length pending"
    and "list_all (trusted x d) established" "set pending \<subseteq> set (kids_by ByTransition d)"
    and "distinct (map kt_to (td_transitions d))" "target \<in> set pending" "transition_to d target = Some t"
  shows "kt_from t \<notin> set established"
  using assms
proof (induction pending arbitrary: established es ps)
  case (Cons p rest)
  show ?case
  proof (cases "\<exists>t. transition_to d p = Some t \<and> kt_from t \<in> set established")
    case True
    then obtain u where u: "transition_to d p = Some u" "kt_from u \<in> set established" by blast
    with Cons.prems(1) have c: "check_key_transition x d u = Inr ()"
      and r: "establish_round x d (p # established) rest = Inr (es, ps)" by (auto simp: bind_r_Inr)
    have "trusted x d p"
      using u c Cons.prems transition_to_Some [OF Cons.prems(5), of p u] trusted.signed [of x d u] by (auto simp: list_all_iff)
    then show ?thesis using establish_round_trusted [OF r] Cons.prems by auto
  next
    case False
    with Cons.prems obtain ps' where r: "establish_round x d established rest = Inr (es, ps')" "ps = p # ps'"
      by (auto simp: bind_r_Inr split: option.splits if_splits)
    show ?thesis
    proof (cases "target = p")
      case True
      then show ?thesis using \<open>\<not> (\<exists>t. _ t)\<close> Cons.prems by blast
    next
      case False
      then show ?thesis using Cons.IH [OF r(1)] r(2) Cons.prems by auto
    qed
  qed
qed simp

text \<open>A trusted key that is not established waits behind one whose predecessor is.\<close>

lemma trusted_frontier:
  assumes "trusted x d kid" "set (kids_by RepositoryRoot d) \<subseteq> E" "set (kids_by ByTransition d) \<subseteq> E \<union> P"
    and "distinct (map kt_to (td_transitions d))"
  shows "kid \<in> E \<or> (\<exists>target \<in> P. \<exists>t. transition_to d target = Some t \<and> kt_from t \<in> E)"
  using assms(1)
proof induction
  case (root kid)
  then show ?case using assms(2) by blast
next
  case (signed t)
  then show ?case using assms(3) transition_to_Some [OF assms(4), of "kt_to t" t] by blast
qed

lemma establish_round_total:
  assumes "list_all (trusted x d) pending" "list_all (trusted x d) established"
    and "distinct (map kt_to (td_transitions d))" "set pending \<subseteq> set (kids_by ByTransition d)"
    and "set (kids_by RepositoryRoot d) \<inter> set (kids_by ByTransition d) = {}"
  shows "\<exists>r. establish_round x d established pending = Inr r"
  using assms
proof (induction pending arbitrary: established)
  case (Cons target rest)
  have "trusted x d target" using Cons.prems(1) by simp
  then obtain t where t: "transition_to d target = Some t" "check_key_transition x d t = Inr ()"
    using Cons.prems(4,5) transition_to_Some [OF Cons.prems(3)] by cases auto
  have "\<exists>r. establish_round x d (target # established) rest = Inr r" "\<exists>r. establish_round x d established rest = Inr r"
    by (rule Cons.IH; use Cons.prems in simp)+
  then show ?case using t by auto
qed simp

lemma establish_round_disjoint:
  assumes "establish_round x d established pending = Inr (es, ps)" "distinct pending"
    and "set established \<inter> set pending = {}"
  shows "distinct ps \<and> set ps \<subseteq> set pending \<and> set es \<inter> set ps = {} \<and> set es \<subseteq> set established \<union> set pending"
  using assms
proof (induction pending arbitrary: established es ps)
  case (Cons target rest)
  show ?case
  proof (cases "\<exists>t. transition_to d target = Some t \<and> kt_from t \<in> set established")
    case True
    with Cons.prems(1) have r: "establish_round x d (target # established) rest = Inr (es, ps)"
      by (auto simp: bind_r_Inr)
    have "set (target # established) \<inter> set rest = {}" "distinct rest" using Cons.prems by auto
    with Cons.IH [OF r] show ?thesis by auto
  next
    case False
    with Cons.prems obtain ps' where r: "establish_round x d established rest = Inr (es, ps')" "ps = target # ps'"
      by (auto simp: bind_r_Inr split: option.splits if_splits)
    have "set established \<inter> set rest = {}" "distinct rest" "target \<notin> set established \<union> set rest" using Cons.prems by auto
    with Cons.IH [OF r(1)] r(2) show ?thesis by auto
  qed
qed simp

text \<open>The loop succeeds exactly when every pending key is trusted, whatever the order.\<close>

lemma establish_iff:
  assumes "list_all (trusted x d) established" "set (kids_by RepositoryRoot d) \<subseteq> set established"
    and "set (kids_by ByTransition d) \<subseteq> set established \<union> set pending"
    and "distinct (map kt_to (td_transitions d))" "set pending \<subseteq> set (kids_by ByTransition d)"
    and "set (kids_by RepositoryRoot d) \<inter> set (kids_by ByTransition d) = {}"
    and "distinct pending" "set established \<inter> set pending = {}"
  shows "establish x d established pending = Inr () \<longleftrightarrow> list_all (trusted x d) pending"
  using assms
proof (induction "length pending" arbitrary: established pending rule: less_induct)
  case less
  note trust = less(2) and dist = less(5)
  show ?case
  proof (cases "pending = []")
    case True
    then show ?thesis by (simp add: establish.simps)
  next
    case ne: False
    show ?thesis
    proof (cases "establish_round x d established pending")
      case (Inl e)
      then show ?thesis
        using establish_round_total [OF _ trust dist less(6,7)] ne by (auto simp: establish.simps)
    next
      case (Inr r)
      obtain es ps where r: "establish_round x d established pending = Inr (es, ps)" using Inr by (cases r) simp
      note round = establish_round_trusted [OF r trust less(6) dist] and disj = establish_round_disjoint [OF r less(8,9)]
      show ?thesis
      proof (cases "length ps < length pending")
        case True
        have "establish x d es ps = Inr () \<longleftrightarrow> list_all (trusted x d) ps"
          by (rule less(1) [OF True]) (use round disj less(2-9) in auto)
        moreover have "list_all (trusted x d) pending \<longleftrightarrow> list_all (trusted x d) ps"
        proof
          show "list_all (trusted x d) ps" if "list_all (trusted x d) pending" using that round by (auto simp: list_all_iff)
          show "list_all (trusted x d) pending" if "list_all (trusted x d) ps"
            unfolding list_all_iff using that round by (metis UnCI UnE list_all_iff)
        qed
        ultimately show ?thesis using ne r True by (simp add: establish.simps [of x d established pending])
      next
        case stuck: False
        then have l: "length ps = length pending" using round by simp
        have "\<not> list_all (trusted x d) pending"
        proof
          assume all: "list_all (trusted x d) pending"
          obtain p where p: "p \<in> set pending" using ne by (cases pending) auto
          with all have "trusted x d p" by (simp add: list_all_iff)
          from trusted_frontier [OF this less(3,4) dist] p less(9)
          obtain target t where "target \<in> set pending" "transition_to d target = Some t" "kt_from t \<in> set established"
            by blast
          with establish_round_stuck [OF r l trust less(6) dist] show False by blast
        qed
        then show ?thesis using ne r stuck by (simp add: establish.simps [of x d established pending])
      qed
    qed
  qed
qed

section \<open>Signing with the key management service\<close>

datatype kms_value = KText string | KBytes string | KTexts "string list" | KOther

type_synonym kms_response = "(string \<times> kms_value) list"

text \<open>A call that raises is \<open>None\<close>.\<close>

record signer_binding =
  sn_key :: string
  sn_jwk :: jwk
  sn_kid :: string
  sn_kms_key :: string

record signer =
  sg_key_id :: string
  sg_release :: string
  sg_keys :: key_document
  sg_bound :: "signer_binding option"

definition new_signer :: "string \<Rightarrow> string \<Rightarrow> key_document \<Rightarrow> receipt_error + signer" where
  "new_signer key_id release keys =
    (if key_id = [] \<or> release = [] then Inl SignerConfig
     else Inr \<lparr>sg_key_id = key_id, sg_release = release, sg_keys = keys, sg_bound = None\<rparr>)"

definition signer_kid :: "signer \<Rightarrow> receipt_error + string" where
  "signer_kid s = (case sg_bound s of None \<Rightarrow> Inl SignerNotReady | Some n \<Rightarrow> Inr (sn_kid n))"

definition signer_jwk :: "signer \<Rightarrow> receipt_error + jwk" where
  "signer_jwk s = (case sg_bound s of None \<Rightarrow> Inl SignerNotReady | Some n \<Rightarrow> Inr (sn_jwk n))"

definition aws_signing_algorithm :: string where
  "aws_signing_algorithm = ''ED25519_SHA_512''"

definition kms_bytes :: "kms_response \<Rightarrow> string \<Rightarrow> receipt_error \<Rightarrow> receipt_error + string" where
  "kms_bytes r k e = (case map_of r k of Some (KBytes data) \<Rightarrow> Inr data | _ \<Rightarrow> Inl e)"

definition kms_key_id :: "kms_response \<Rightarrow> receipt_error + string" where
  "kms_key_id r = (case map_of r ''KeyId'' of
     Some (KText key_id) \<Rightarrow> if key_id = [] then Inl KmsNoKeyId else Inr key_id
   | _ \<Rightarrow> Inl KmsNoKeyId)"

definition preflight ::
  "receipt_externals \<Rightarrow> kms_response option \<Rightarrow> signer \<Rightarrow> receipt_error + signer" where
  "preflight x response s = (case response of None \<Rightarrow> Inl KmsUnavailable | Some r \<Rightarrow>
     bind_r (check_r (map_of r ''KeySpec'' = Some (KText ''ECC_NIST_EDWARDS25519'')) KmsKeySpec) (\<lambda>_.
     bind_r (check_r (map_of r ''KeyUsage'' = Some (KText ''SIGN_VERIFY'')) KmsKeyUsage) (\<lambda>_.
     bind_r (check_r (case map_of r ''SigningAlgorithms'' of
         Some (KTexts algorithms) \<Rightarrow> aws_signing_algorithm \<in> set algorithms | _ \<Rightarrow> False) KmsAlgorithm) (\<lambda>_.
     bind_r (kms_bytes r ''PublicKey'' KmsNotDer) (\<lambda>der.
     bind_r (public_jwk_from_der x der) (\<lambda>jwk.
     bind_r (jwk_thumbprint x jwk) (\<lambda>kid.
     bind_r (resolve_key (sg_keys s) kid (sg_release s)) (\<lambda>pinned.
     bind_r (check_r (x_jcs x (string_object (tk_jwk pinned)) = x_jcs x (string_object jwk)) KmsKeyDiffers) (\<lambda>_.
     bind_r (kms_key_id r) (\<lambda>key_id.
     bind_r (public_key_from_jwk jwk) (\<lambda>key.
     Inr (s\<lparr>sg_bound := Some \<lparr>sn_key = key, sn_jwk = jwk, sn_kid = kid, sn_kms_key = key_id\<rparr>\<rparr>))))))))))))"

text \<open>\<open>_sign_payload\<close>; \<open>kms key message\<close> is the response of the \<open>sign\<close> call.\<close>

definition sign_payload ::
  "receipt_externals \<Rightarrow> (string \<Rightarrow> string \<Rightarrow> kms_response option) \<Rightarrow> signer \<Rightarrow> string \<Rightarrow> string \<Rightarrow>
     receipt_error + string" where
  "sign_payload x kms s payload typ = (case sg_bound s of None \<Rightarrow> Inl SignerNotReady | Some n \<Rightarrow>
     bind_r (jws_signing_input x payload (sn_kid n) typ) (\<lambda>signing_input.
     case kms (sn_kms_key n) signing_input of None \<Rightarrow> Inl KmsSignFailed | Some r \<Rightarrow>
       bind_r (check_r (map_of r ''SigningAlgorithm'' = Some (KText aws_signing_algorithm)) KmsWrongAlgorithm) (\<lambda>_.
       bind_r (check_r (map_of r ''KeyId'' = Some (KText (sn_kms_key n))) KmsWrongKey) (\<lambda>_.
       bind_r (kms_bytes r ''Signature'' KmsBadSignature) (\<lambda>signature.
       bind_r (check_r (length signature = 64) KmsBadSignature) (\<lambda>_.
       bind_r (check_r (x_verify x (sn_key n) signature signing_input) KmsUnverified) (\<lambda>_.
       Inr (signing_input @ ''.'' @ b64url signature))))))))"

definition receipt_typ :: string where
  "receipt_typ = ''recallops-authority-receipt+jws''"

definition statement_typ :: string where
  "statement_typ = ''recallops-release-evidence+jws''"

definition preflight_typ :: string where
  "preflight_typ = ''recallops-kms-signing-preflight+jws''"

definition sign_manifest ::
  "receipt_externals \<Rightarrow> (string \<Rightarrow> string \<Rightarrow> kms_response option) \<Rightarrow> signer \<Rightarrow> receipt_manifest \<Rightarrow> receipt_error + string" where
  "sign_manifest x kms s m = bind_r (signer_kid s) (\<lambda>kid.
     bind_r (check_r (mf_thumbprint m = kid \<and> rl_release (mf_release m) = sg_release s) SignerBinding) (\<lambda>_.
     bind_r (manifest_canonical (x_jcs x) m) (\<lambda>payload. sign_payload x kms s payload receipt_typ)))"

definition sign_release_statement ::
  "receipt_externals \<Rightarrow> (string \<Rightarrow> string \<Rightarrow> kms_response option) \<Rightarrow> signer \<Rightarrow> release_statement \<Rightarrow> receipt_error + string" where
  "sign_release_statement x kms s st =
     bind_r (check_r (ri_release (st_identity st) = sg_release s) SignerBinding) (\<lambda>_.
     bind_r (signer_kid s) (\<lambda>kid.
     bind_r (check_r (ri_thumbprint (st_identity st) = kid) SignerBinding) (\<lambda>_.
     sign_payload x kms s (x_jcs x (statement_json st)) statement_typ)))"

definition signing_preflight ::
  "receipt_externals \<Rightarrow> (string \<Rightarrow> string \<Rightarrow> kms_response option) \<Rightarrow> signer \<Rightarrow> receipt_error + string" where
  "signing_preflight x kms s = bind_r (signer_kid s) (\<lambda>kid.
     sign_payload x kms s (x_jcs x (string_object
       [(''key_thumbprint'', kid), (''profile'', aws_signing_algorithm), (''release_id'', sg_release s),
        (''type'', ''recallops-kms-signing-preflight-v1'')])) preflight_typ)"

section \<open>Reading manifests and statements\<close>

text \<open>
  \<open>model_validate\<close> of a payload. The record is read property by property and accepted when it is
  valid and prints as the payload again. A payload pydantic would coerce (a number for a truth value,
  another spelling of a UUID, an absent optional property) is not the canonical text of the record it
  gives: the code refuses it one check later, the model here.
\<close>

definition jat :: "json \<Rightarrow> string \<Rightarrow> json" where
  "jat j k = (case j of JObj kvs \<Rightarrow> (case map_of kvs k of None \<Rightarrow> JNull | Some v \<Rightarrow> v) | _ \<Rightarrow> JNull)"

fun text_of :: "json \<Rightarrow> string" where
  "text_of (JStr s) = s"
| "text_of _ = []"

fun opt_text :: "json \<Rightarrow> string option" where
  "opt_text (JStr s) = Some s"
| "opt_text _ = None"

definition truth_of :: "json \<Rightarrow> bool" where
  "truth_of j \<longleftrightarrow> num_value j = Some 1"

definition bindings_of :: "json \<Rightarrow> digest_bindings" where
  "bindings_of j = \<lparr>bd_proposal = text_of (jat j ''proposal''), bd_execution = text_of (jat j ''execution''),
     bd_observation = text_of (jat j ''observation''), bd_assessment = text_of (jat j ''assessment''),
     bd_verdict = text_of (jat j ''policy_verdict''), bd_memory = text_of (jat j ''memory''),
     bd_review = text_of (jat j ''review'')\<rparr>"

definition subjects_from :: "json \<Rightarrow> receipt_subjects" where
  "subjects_from j = \<lparr>sb_operator = text_of (jat j ''operator''), sb_reviewer = text_of (jat j ''reviewer''),
     sb_separated = truth_of (jat j ''separated'')\<rparr>"

definition release_from :: "json \<Rightarrow> release_binding" where
  "release_from j = \<lparr>rl_release = text_of (jat j ''release_id''), rl_source = text_of (jat j ''source_sha''),
     rl_image = text_of (jat j ''image_digest''), rl_evaluation = text_of (jat j ''evaluation_version''),
     rl_claims = text_of (jat j ''claim_registry_digest'')\<rparr>"

definition manifest_record :: "json \<Rightarrow> receipt_manifest" where
  "manifest_record j = \<lparr>mf_version = text_of (jat j ''receipt_version''),
     mf_receipt_policy = text_of (jat j ''receipt_policy_version''),
     mf_capability_policy = text_of (jat j ''capability_policy_version''), mf_run = text_of (jat j ''run_id''),
     mf_tenant_hash = text_of (jat j ''tenant_id_hash''), mf_scenario = text_of (jat j ''scenario_version''),
     mf_workflow = text_of (jat j ''workflow_id''), mf_final_state = text_of (jat j ''final_state''),
     mf_disposition = text_of (jat j ''final_disposition''), mf_first_epoch = text_of (jat j ''first_epoch''),
     mf_last_epoch = text_of (jat j ''last_epoch''), mf_event_count = text_of (jat j ''event_count''),
     mf_first_hash = text_of (jat j ''ledger_first_hash''), mf_head_hash = text_of (jat j ''ledger_head_hash''),
     mf_digests = bindings_of (jat j ''digests''), mf_subjects = subjects_from (jat j ''subjects''),
     mf_release = release_from (jat j ''release''), mf_evidence = text_of (jat j ''evidence_index_digest''),
     mf_signed_at = text_of (jat j ''asserted_signing_time''), mf_expires = text_of (jat j ''expires_at''),
     mf_supersedes = opt_text (jat j ''supersedes_receipt_id''), mf_thumbprint = text_of (jat j ''key_thumbprint''),
     mf_algorithm = text_of (jat j ''signing_algorithm'')\<rparr>"

definition uuid_shape :: "string \<Rightarrow> bool" where
  "uuid_shape s \<longleftrightarrow> length s = 36 \<and>
     list_all (\<lambda>k. if k \<in> {8, 13, 18, 23} then s ! k = CHR ''-'' else lower_hex (s ! k)) [0..<36]"

definition manifest_uuids :: "receipt_manifest \<Rightarrow> bool" where
  "manifest_uuids m \<longleftrightarrow> uuid_shape (mf_run m) \<and> uuid_shape (mf_workflow m) \<and> opt_all uuid_shape (mf_supersedes m)"

definition read_manifest :: "json \<Rightarrow> receipt_error + receipt_manifest" where
  "read_manifest j = (let m = manifest_record j in
     if valid_manifest m \<and> manifest_uuids m \<and> json_eq (manifest_json m) j then Inr m else Inl ManifestSchema)"

definition statement_record :: "json \<Rightarrow> release_statement" where
  "statement_record j = (let i = jat j ''identity'' in
     \<lparr>st_version = text_of (jat j ''statement_version''),
      st_identity = \<lparr>ri_release = text_of (jat i ''release_id''), ri_source = text_of (jat i ''source_sha''),
        ri_image = text_of (jat i ''image_digest''), ri_capability_policy = text_of (jat i ''capability_policy_version''),
        ri_receipt_policy = text_of (jat i ''receipt_policy_version''),
        ri_evaluation = text_of (jat i ''evaluation_version''), ri_thumbprint = text_of (jat i ''receipt_key_thumbprint'')\<rparr>,
      st_live_complete = truth_of (jat j ''live_proof_complete''),
      st_live_digest = text_of (jat j ''live_proof_artifact_digest''),
      st_assurance_complete = truth_of (jat j ''assurance_complete''),
      st_assurance_digest = text_of (jat j ''assurance_artifact_digest''),
      st_ready = truth_of (jat j ''release_ready'')\<rparr>)"

definition read_statement :: "json \<Rightarrow> receipt_error + release_statement" where
  "read_statement j = (let s = statement_record j in
     if valid_statement s \<and> json_eq (statement_json s) j then Inr s else Inl ManifestSchema)"

section \<open>Verifying receipts and statements\<close>

definition header_kid :: "receipt_externals \<Rightarrow> string \<Rightarrow> receipt_error + string" where
  "header_kid x token = bind_r (three_segments token) (\<lambda>(p, _, _).
     bind_r (decode_segment p) (\<lambda>bytes. bind_r (parse_canonical_json x bytes) (\<lambda>protected.
       if \<not> is_object protected then Inl HeaderMismatch
       else if jat protected ''alg'' \<noteq> JStr jose_algorithm then Inl AlgorithmRefused
       else case jat protected ''kid'' of JStr kid \<Rightarrow> Inr kid | _ \<Rightarrow> Inl KidMissing)))"

definition verify_receipt_jws ::
  "receipt_externals \<Rightarrow> key_document \<Rightarrow> string \<Rightarrow> string \<Rightarrow> receipt_error + receipt_manifest" where
  "verify_receipt_jws x d release token =
     bind_r (header_kid x token) (\<lambda>kid.
     bind_r (resolve_key d kid release) (\<lambda>key.
     bind_r (verify_compact x token (tk_jwk key) kid receipt_typ) (\<lambda>(payload, bytes).
     bind_r (read_manifest payload) (\<lambda>m.
     bind_r (manifest_canonical (x_jcs x) m) (\<lambda>encoded.
     bind_r (check_r (encoded = bytes) ManifestNotCanonical) (\<lambda>_.
     bind_r (check_r (mf_thumbprint m = kid \<and> rl_release (mf_release m) = release) TrustBindingMismatch) (\<lambda>_.
     Inr m)))))))"

definition verify_release_statement_jws ::
  "receipt_externals \<Rightarrow> key_document \<Rightarrow> string \<Rightarrow> string \<Rightarrow> receipt_error + release_statement" where
  "verify_release_statement_jws x d release token =
     bind_r (header_kid x token) (\<lambda>kid.
     bind_r (resolve_key d kid release) (\<lambda>key.
     bind_r (verify_compact x token (tk_jwk key) kid statement_typ) (\<lambda>(payload, bytes).
     bind_r (read_statement payload) (\<lambda>s.
     bind_r (check_r (x_jcs x (statement_json s) = bytes \<and> ri_release (st_identity s) = release \<and>
       ri_thumbprint (st_identity s) = kid) TrustBindingMismatch) (\<lambda>_.
     Inr s)))))"

section \<open>Which registries are accepted\<close>

lemma kids_by_set: "kid \<in> set (kids_by trust d) \<longleftrightarrow> (\<exists>k \<in> set (td_keys d). tk_kid k = kid \<and> tk_trust k = trust)"
  by (auto simp: kids_by_def)

lemma kids_partition: "set (map tk_kid (td_keys d)) = set (kids_by RepositoryRoot d) \<union> set (kids_by ByTransition d)"
proof -
  have "tk_trust k = RepositoryRoot \<or> tk_trust k = ByTransition" for k by (cases "tk_trust k") simp_all
  then show ?thesis by (auto simp: kids_by_def)
qed

lemma kids_disjoint:
  assumes "distinct (map tk_kid (td_keys d))"
  shows "set (kids_by RepositoryRoot d) \<inter> set (kids_by ByTransition d) = {}"
proof -
  have "False" if "k \<in> set (td_keys d)" "l \<in> set (td_keys d)" "tk_kid k = tk_kid l"
    "tk_trust k = RepositoryRoot" "tk_trust l = ByTransition" for k l
  proof -
    have "k = l" using assms that by (metis distinct_map inj_onD)
    with that show False by simp
  qed
  then show ?thesis unfolding disjoint_iff kids_by_set by metis
qed

lemma roots_trusted: "list_all (trusted x d) (kids_by RepositoryRoot d)"
  by (auto simp: list_all_iff intro: trusted.root)

definition registry_sound :: "receipt_externals \<Rightarrow> key_document \<Rightarrow> bool" where
  "registry_sound x d \<longleftrightarrow> distinct (map tk_kid (td_keys d)) \<and>
     (if td_keys d = [] then True else length (kids_by RepositoryRoot d) = 1) \<and>
     distinct (map kt_to (td_transitions d)) \<and> list_all (trusted x d) (map tk_kid (td_keys d)) \<and>
     set (map kt_to (td_transitions d)) \<subseteq> set (kids_by ByTransition d)"

lemma build_registry_sound:
  assumes "distinct pending" "set pending = set (kids_by ByTransition d)"
  shows "build_registry x pending d = Inr r \<longleftrightarrow> r = d \<and> registry_sound x d"
proof (cases "distinct (map tk_kid (td_keys d)) \<and> distinct (map kt_to (td_transitions d))")
  case True
  then have disj: "set (kids_by RepositoryRoot d) \<inter> set (kids_by ByTransition d) = {}" using kids_disjoint by blast
  have "establish x d (kids_by RepositoryRoot d) pending = Inr () \<longleftrightarrow> list_all (trusted x d) pending"
    by (rule establish_iff [OF roots_trusted]) (use True assms disj in auto)
  also have "list_all (trusted x d) pending \<longleftrightarrow> list_all (trusted x d) (map tk_kid (td_keys d))"
    using roots_trusted [of x d] unfolding list_all_iff kids_partition assms(2) by auto
  finally have e: "establish x d (kids_by RepositoryRoot d) pending = Inr () \<longleftrightarrow>
      list_all (trusted x d) (map tk_kid (td_keys d))" .
  show ?thesis
    by (cases "establish x d (kids_by RepositoryRoot d) pending"; cases "td_keys d = []")
       (use True e in \<open>auto simp: build_registry_def registry_sound_def\<close>)
next
  case False
  then show ?thesis by (auto simp: build_registry_def registry_sound_def split: if_splits)
qed

text \<open>
  C29. The registry of trusted keys accepts exactly the documents whose keys all derive from one
  repository root by transitions signed by keys already trusted, with one key per kid, one predecessor
  per key and no transition that establishes none; in whatever order its loop walks the keys. So cyclic,
  missing and self-signed transitions are refused, and every document is decided.
\<close>

theorem registry_accepts_iff_trusted:
  assumes "distinct pending" "set pending = set (kids_by ByTransition d)"
  shows "build_registry x pending d = Inr r \<longleftrightarrow> r = d \<and> registry_sound x d"
  by (rule build_registry_sound [OF assms])

definition sample_root :: trusted_key where
  "sample_root = \<lparr>tk_kid = ''root'', tk_jwk = [], tk_trust = RepositoryRoot, tk_status = KeyActive, tk_releases = [''r1'']\<rparr>"

definition sample_orphans :: key_document where
  "sample_orphans = \<lparr>td_version = ''trusted-receipt-keys-v1'',
     td_keys = [sample_root, sample_root\<lparr>tk_kid := ''a'', tk_trust := ByTransition\<rparr>,
       sample_root\<lparr>tk_kid := ''b'', tk_trust := ByTransition\<rparr>],
     td_transitions = [\<lparr>kt_from = ''a'', kt_to = ''b'', kt_jws = []\<rparr>, \<lparr>kt_from = ''b'', kt_to = ''a'', kt_jws = []\<rparr>]\<rparr>"

theorem registry_accepts_iff_trusted_witness:
  "\<forall>x. \<not> registry_sound x sample_orphans \<and> registry_sound x (sample_orphans\<lparr>td_keys := [sample_root], td_transitions := []\<rparr>)"
proof
  fix x
  have "build_registry x [''b'', ''a''] sample_orphans \<noteq> Inr sample_orphans"
    by (simp add: build_registry_def sample_orphans_def sample_root_def kids_by_def establish.simps transition_to_def)
  then have "\<not> registry_sound x sample_orphans"
    using registry_accepts_iff_trusted [of "[''b'', ''a'']" sample_orphans x sample_orphans]
    by (auto simp: sample_orphans_def sample_root_def kids_by_def)
  moreover have "registry_sound x (sample_orphans\<lparr>td_keys := [sample_root], td_transitions := []\<rparr>)"
    using registry_accepts_iff_trusted [of "[]" "sample_orphans\<lparr>td_keys := [sample_root], td_transitions := []\<rparr>" x
      "sample_orphans\<lparr>td_keys := [sample_root], td_transitions := []\<rparr>"]
    by (simp add: sample_root_def kids_by_def build_registry_def establish.simps)
  ultimately show "\<not> registry_sound x sample_orphans \<and>
      registry_sound x (sample_orphans\<lparr>td_keys := [sample_root], td_transitions := []\<rparr>)" by simp
qed

section \<open>What a verified token shows\<close>

lemma split_dots_ne [simp]: "split_dots s \<noteq> []"
  by (induction s) (auto split: list.split)

lemma split_dots_join: "concat (map (\<lambda>p. CHR ''.'' # p) (split_dots s)) = CHR ''.'' # s"
  by (induction s) (auto split: list.split)

lemma split_dots_clean: "CHR ''.'' \<notin> set p \<Longrightarrow> split_dots p = [p]"
  by (induction p) auto

lemma split_dots_append: "CHR ''.'' \<notin> set p \<Longrightarrow> split_dots (p @ CHR ''.'' # r) = p # split_dots r"
  by (induction p) auto

lemma three_segments_Inr: "three_segments token = Inr (a, b, c) \<Longrightarrow> token = a @ ''.'' @ b @ ''.'' @ c"
  using split_dots_join [of token] by (auto simp: three_segments_def split: list.splits)

lemma b64_char_no_dot: "n < 64 \<Longrightarrow> b64_char n \<noteq> CHR ''.''"
  using b64_char_value [of n] by (auto simp: b64_value_def)

lemma b64url_no_dot [simp]: "CHR ''.'' \<notin> set (b64url data)"
proof -
  have "\<forall>n \<in> set (map of_char data). n < (256 :: nat)" by simp
  from b64_encode_chars [OF this] show ?thesis unfolding b64url_def using b64_char_no_dot by metis
qed

lemma three_segments_b64url:
  "three_segments (b64url a @ ''.'' @ b64url b @ ''.'' @ b64url c) = Inr (b64url a, b64url b, b64url c)"
  by (simp add: three_segments_def split_dots_append split_dots_clean)

lemma decode_segment_Inr: "decode_segment s = Inr data \<longleftrightarrow> data \<noteq> [] \<and> s = b64url data"
  using decode_b64url_exact [of s data] by (cases "decode_b64url s") (simp_all add: decode_segment_def)

definition jws_text :: "string \<Rightarrow> string \<Rightarrow> string" where
  "jws_text header payload = b64url header @ ''.'' @ b64url payload"

lemma verify_compact_Inr:
  "verify_compact x token jwk kid typ = Inr (payload, bytes) \<longleftrightarrow>
     (\<exists>header protected signature key. token = jws_text header bytes @ ''.'' @ b64url signature \<and>
        header \<noteq> [] \<and> bytes \<noteq> [] \<and> length signature = 64 \<and>
        parse_canonical_json x header = Inr protected \<and> is_object protected \<and>
        json_eq protected (protected_header kid typ) \<and> public_key_from_jwk jwk = Inr key \<and>
        x_verify x key signature (jws_text header bytes) \<and>
        parse_canonical_json x bytes = Inr payload \<and> is_object payload)" (is "?l = ?r")
proof
  assume ?l
  then obtain p b s header protected signature key where v: "three_segments token = Inr (p, b, s)"
      "decode_segment p = Inr header" "decode_segment b = Inr bytes" "decode_segment s = Inr signature"
      "parse_canonical_json x header = Inr protected" "is_object protected" "json_eq protected (protected_header kid typ)"
      "length signature = 64" "public_key_from_jwk jwk = Inr key" "x_verify x key signature (p @ ''.'' @ b)"
      "parse_canonical_json x bytes = Inr payload" "is_object payload"
    by (auto simp: verify_compact_def bind_r_Inr split: if_splits)
  have "token = jws_text header bytes @ ''.'' @ b64url signature" "p @ ''.'' @ b = jws_text header bytes"
    using v(2-4) three_segments_Inr [OF v(1)] by (simp_all add: decode_segment_Inr jws_text_def)
  with v show ?r by (auto simp: decode_segment_Inr)
next
  assume ?r
  then obtain header protected signature key where
    r: "token = jws_text header bytes @ ''.'' @ b64url signature" "header \<noteq> []" "bytes \<noteq> []" "length signature = 64"
      "parse_canonical_json x header = Inr protected" "is_object protected" "json_eq protected (protected_header kid typ)"
      "public_key_from_jwk jwk = Inr key" "x_verify x key signature (jws_text header bytes)"
      "parse_canonical_json x bytes = Inr payload" "is_object payload" by blast
  have "decode_segment (b64url data) = Inr data" if "data \<noteq> []" for data using decode_segment_Inr that by simp
  moreover have "signature \<noteq> []" using r(4) by auto
  ultimately show ?l
    using r three_segments_b64url [of header bytes signature] by (simp add: verify_compact_def jws_text_def)
qed

lemma resolve_key_Inr:
  "resolve_key d kid release = Inr k \<longleftrightarrow>
     key_of d kid = Some k \<and> tk_status k = KeyActive \<and> release \<in> set (tk_releases k)"
  by (cases "key_of d kid") (auto simp: resolve_key_def)

lemma key_of_Some: "key_of d kid = Some k \<Longrightarrow> k \<in> set (td_keys d) \<and> tk_kid k = kid"
  using find_Some_conj by (force simp: key_of_def)

text \<open>The token carries \<open>payload\<close> under \<open>header\<close>, signed by the active key \<open>kid\<close> of the release.\<close>

definition signed_by_registry :: "receipt_externals \<Rightarrow> key_document \<Rightarrow> string \<Rightarrow> string \<Rightarrow> string \<Rightarrow> string \<Rightarrow> string \<Rightarrow> bool" where
  "signed_by_registry x d release kid typ payload token \<longleftrightarrow>
     (\<exists>k key header protected signature. k \<in> set (td_keys d) \<and> tk_kid k = kid \<and> tk_status k = KeyActive \<and>
        release \<in> set (tk_releases k) \<and> trusted x d kid \<and> public_key_from_jwk (tk_jwk k) = Inr key \<and>
        parse_canonical_json x header = Inr protected \<and> json_eq protected (protected_header kid typ) \<and>
        length signature = 64 \<and> x_verify x key signature (jws_text header payload) \<and>
        token = jws_text header payload @ ''.'' @ b64url signature)"

lemma verified_signed:
  assumes "registry_sound x d" "resolve_key d kid release = Inr k"
    and "verify_compact x token (tk_jwk k) kid typ = Inr (j, bytes)"
  shows "signed_by_registry x d release kid typ bytes token"
proof -
  have k: "k \<in> set (td_keys d)" "tk_kid k = kid" "tk_status k = KeyActive" "release \<in> set (tk_releases k)"
    using assms(2) key_of_Some by (auto simp: resolve_key_Inr)
  then have "trusted x d kid" using assms(1) by (auto simp: registry_sound_def list_all_iff)
  with k assms(3) show ?thesis unfolding verify_compact_Inr signed_by_registry_def by blast
qed

text \<open>
  C27. Verification of receipts and of release statements is sound: over a registry that was accepted, a
  token that verifies is the canonical text of the manifest (statement) returned, signed under the
  frozen header by a key that is active for the release and trusted from the repository root; the
  manifest is valid, within its size, and names that key and release.
\<close>

theorem verified_tokens_are_signed:
  "case build_registry x (kids_by ByTransition d) d of
     Inl _ \<Rightarrow> True
   | Inr r \<Rightarrow>
       (case verify_receipt_jws x r release token of
          Inl _ \<Rightarrow> True
        | Inr m \<Rightarrow> valid_manifest m \<and> rl_release (mf_release m) = release \<and>
            length (x_jcs x (manifest_json m)) \<le> manifest_max_bytes \<and>
            signed_by_registry x d release (mf_thumbprint m) receipt_typ (x_jcs x (manifest_json m)) token) \<and>
       (case verify_release_statement_jws x r release token of
          Inl _ \<Rightarrow> True
        | Inr s \<Rightarrow> valid_statement s \<and> ri_release (st_identity s) = release \<and>
            signed_by_registry x d release (ri_thumbprint (st_identity s)) statement_typ (x_jcs x (statement_json s)) token)"
proof (cases "build_registry x (kids_by ByTransition d) d")
  case (Inr r)
  have "distinct (map tk_kid (td_keys d))" using Inr by (auto simp: build_registry_def split: if_splits)
  then have "distinct (kids_by ByTransition d)" by (simp add: kids_by_def distinct_map_filter)
  then have r: "r = d" "registry_sound x d" using build_registry_sound Inr by blast+
  have "valid_manifest m \<and> rl_release (mf_release m) = release \<and> length (x_jcs x (manifest_json m)) \<le> manifest_max_bytes \<and>
      signed_by_registry x d release (mf_thumbprint m) receipt_typ (x_jcs x (manifest_json m)) token"
    if "verify_receipt_jws x d release token = Inr m" for m
    using that verified_signed [OF r(2)]
    by (auto simp: verify_receipt_jws_def bind_r_Inr read_manifest_def manifest_canonical_def Let_def split: if_splits)
  moreover have "valid_statement s \<and> ri_release (st_identity s) = release \<and>
      signed_by_registry x d release (ri_thumbprint (st_identity s)) statement_typ (x_jcs x (statement_json s)) token"
    if "verify_release_statement_jws x d release token = Inr s" for s
    using that verified_signed [OF r(2)]
    by (auto simp: verify_release_statement_jws_def bind_r_Inr read_statement_def Let_def split: if_splits)
  ultimately show ?thesis by (simp add: Inr r split: sum.split)
qed simp

end
