(* ===== verification/Jws_Roundtrip.thy ===== *)
theory Jws_Roundtrip
  imports Jws
begin

text \<open>
  A receipt the signer of \<^verbatim>\<open>src/recallops/receipts.py\<close> produced verifies to the manifest it was
  made of: the reading of a manifest inverts its printing, and the verifier accepts what the signer
  checked.
\<close>

section \<open>Reading what was printed\<close>

text \<open>What the round trip uses of rfc8785: the canonical text of \<open>j\<close> is canonical and reads as the same value.\<close>

definition canonical_ok :: "receipt_externals \<Rightarrow> json \<Rightarrow> bool" where
  "canonical_ok x j \<longleftrightarrow> (case parse_canonical_json x (x_jcs x j) of
     Inl _ \<Rightarrow> False | Inr v \<Rightarrow> json_eq j v \<and> json_eq v j)"

lemma canonical_okE:
  assumes "canonical_ok x j"
  obtains v where "parse_canonical_json x (x_jcs x j) = Inr v" "json_eq j v" "json_eq v j"
  using assms by (auto simp: canonical_ok_def split: sum.splits)

lemma parse_canonical_nonempty: "parse_canonical_json x data = Inr v \<Longrightarrow> data \<noteq> []"
  by (auto simp: parse_canonical_json_def json_loads_def skip_space_def bad_json_def split: if_splits)

definition has_key :: "json \<Rightarrow> string \<Rightarrow> bool" where
  "has_key j k \<longleftrightarrow> (case j of JObj kvs \<Rightarrow> map_of kvs k \<noteq> None | _ \<Rightarrow> False)"

fun is_text :: "json \<Rightarrow> bool" where
  "is_text (JStr _) = True"
| "is_text _ = False"

lemma json_eq_jat:
  assumes "json_eq j v" "has_key j k"
  shows "json_eq (jat j k) (jat v k)"
proof -
  obtain kvs w where j: "j = JObj kvs" and w: "map_of kvs k = Some w"
    using assms(2) by (auto simp: has_key_def split: json.splits)
  with assms(1) obtain lws where v: "v = JObj lws"
    and a: "list_all (\<lambda>(k, v). case map_of lws k of None \<Rightarrow> False | Some u \<Rightarrow> json_eq v u) kvs"
    by (auto split: json.splits)
  from a map_of_SomeD [OF w] have "case map_of lws k of None \<Rightarrow> False | Some u \<Rightarrow> json_eq w u"
    by (auto simp: list_all_iff)
  then show ?thesis by (auto simp: j v w jat_def split: option.splits)
qed

lemma object_at:
  assumes "json_eq (JObj kvs) v" "map_of kvs k \<noteq> None"
  shows "json_eq (the (map_of kvs k)) (jat v k)"
  using json_eq_jat [OF assms(1), of k] assms(2) by (auto simp: has_key_def jat_def)

lemma object_text:
  assumes "json_eq (JObj kvs) v" "map_of kvs k \<noteq> None" "is_text (the (map_of kvs k))"
  shows "jat v k = the (map_of kvs k)"
  using object_at [OF assms(1,2)] assms(3) by (cases "the (map_of kvs k)") simp_all

lemma json_eq_object: "json_eq (JObj kvs) v \<Longrightarrow> is_object v"
  by (auto split: json.splits)

lemma truth_of_eq: "json_eq (JBool b) u \<Longrightarrow> truth_of u = b"
  by (auto simp: truth_of_def split: if_splits)

lemma opt_text_eq: "json_eq (jopt s) u \<Longrightarrow> opt_text u = s"
  by (cases s) (auto simp: jopt_def)

lemma bindings_of_eq:
  assumes "json_eq (bindings_json b) j"
  shows "bindings_of j = b"
  using object_text [OF assms [unfolded bindings_json_def string_object_def]] by (simp add: bindings_of_def)

lemma release_from_eq:
  assumes "json_eq (release_json r) j"
  shows "release_from j = r"
  using object_text [OF assms [unfolded release_json_def string_object_def]] by (simp add: release_from_def)

lemma subjects_from_eq:
  assumes "json_eq (JObj [(''operator'', JStr (sb_operator s)), (''reviewer'', JStr (sb_reviewer s)),
    (''separated'', JBool (sb_separated s))]) j"
  shows "subjects_from j = s"
  using object_text [OF assms] object_at [OF assms, of "''separated''"] truth_of_eq
  by (simp add: subjects_from_def)

lemma manifest_record_eq:
  assumes "json_eq (manifest_json m) v"
  shows "manifest_record v = m"
proof -
  note o = assms [unfolded manifest_json_def]
  have n: "bindings_of (jat v ''digests'') = mf_digests m" "subjects_from (jat v ''subjects'') = mf_subjects m"
    "release_from (jat v ''release'') = mf_release m" "opt_text (jat v ''supersedes_receipt_id'') = mf_supersedes m"
    using object_at [OF o, of "''digests''"] object_at [OF o, of "''subjects''"] object_at [OF o, of "''release''"]
      object_at [OF o, of "''supersedes_receipt_id''"]
    by (simp_all add: bindings_of_eq subjects_from_eq release_from_eq opt_text_eq del: json_eq.simps)
  show ?thesis using object_text [OF o] by (simp add: manifest_record_def n del: json_eq.simps)
qed

lemma read_manifest_printed:
  assumes "json_eq (manifest_json m) v" "valid_manifest m" "manifest_uuids m"
  shows "read_manifest v = Inr m"
  using assms manifest_record_eq [OF assms(1)] by (simp add: read_manifest_def Let_def del: json_eq.simps)

section \<open>What is signed verifies\<close>

lemma preflight_Inr:
  assumes "preflight x response s = Inr s'"
  obtains n pinned where "s' = s\<lparr>sg_bound := Some n\<rparr>" "resolve_key (sg_keys s) (sn_kid n) (sg_release s) = Inr pinned"
    "x_jcs x (string_object (tk_jwk pinned)) = x_jcs x (string_object (sn_jwk n))"
    "public_key_from_jwk (sn_jwk n) = Inr (sn_key n)" "jwk_thumbprint x (sn_jwk n) = Inr (sn_kid n)"
proof -
  obtain jwk kid pinned arn key where "jwk_thumbprint x jwk = Inr kid"
      "resolve_key (sg_keys s) kid (sg_release s) = Inr pinned"
      "x_jcs x (string_object (tk_jwk pinned)) = x_jcs x (string_object jwk)" "public_key_from_jwk jwk = Inr key"
      "s' = s\<lparr>sg_bound := Some \<lparr>sn_key = key, sn_jwk = jwk, sn_kid = kid, sn_kms_key = arn\<rparr>\<rparr>"
    using assms by (auto simp: preflight_def bind_r_Inr split: option.splits if_splits)
  then show thesis using that [of "\<lparr>sn_key = key, sn_jwk = jwk, sn_kid = kid, sn_kms_key = arn\<rparr>" pinned] by simp
qed

lemma sign_payload_Inr:
  assumes "sign_payload x kms s payload typ = Inr token" "sg_bound s = Some n"
  obtains signature where "length signature = 64"
    "x_verify x (sn_key n) signature (jws_text (x_jcs x (protected_header (sn_kid n) typ)) payload)"
    "token = jws_text (x_jcs x (protected_header (sn_kid n) typ)) payload @ ''.'' @ b64url signature"
proof -
  obtain a signature where a: "jws_signing_input x payload (sn_kid n) typ = Inr a" and sig: "length signature = 64"
      "x_verify x (sn_key n) signature a" "token = a @ ''.'' @ b64url signature"
    using assms by (auto simp: sign_payload_def bind_r_Inr split: option.splits if_splits)
  have "a = jws_text (x_jcs x (protected_header (sn_kid n) typ)) payload"
    using a by (simp add: jws_signing_input_def jws_text_def Let_def split: if_splits)
  with sig show thesis by (intro that) simp_all
qed

text \<open>Two key records with one canonical text hold one public key.\<close>

lemma jwk_same_key:
  assumes "canonical_ok x (string_object j)" "canonical_ok x (string_object k)"
    and "x_jcs x (string_object j) = x_jcs x (string_object k)"
    and "public_key_from_jwk j = Inr a" "public_key_from_jwk k = Inr b"
  shows "a = b"
proof -
  obtain v where v: "json_eq (string_object j) v" "json_eq (string_object k) v"
    using assms(1-3) by (metis canonical_okE sum.inject(2))
  have at: "jat v ''x'' = JStr s" if "json_eq (string_object kvs) v" "map_of kvs ''x'' = Some s" for kvs s
  proof -
    have m: "map_of (map (\<lambda>(k, v). (k, JStr v)) kvs) ''x'' = Some (JStr s)"
      using that(2) by (induction kvs) (auto split: if_splits)
    show ?thesis using object_text [OF that(1) [unfolded string_object_def], of "''x''"] m by simp
  qed
  have x: "\<exists>s. map_of j ''x'' = Some s" if "public_key_from_jwk j = Inr a" for j a
  proof -
    have "''x'' \<in> fst ` set j" using that by (auto simp: public_key_from_jwk_def split: if_splits)
    then show ?thesis by (meson map_of_eq_None_iff not_None_eq)
  qed
  obtain s t where st: "map_of j ''x'' = Some s" "map_of k ''x'' = Some t" using x assms(4,5) by metis
  then have "s = t" using at [OF v(1)] at [OF v(2)] by simp
  with st assms(4,5) show ?thesis by (auto simp: public_key_from_jwk_def split: if_splits sum.splits)
qed

definition signed_values :: "signer \<Rightarrow> receipt_manifest \<Rightarrow> json list" where
  "signed_values s m = [protected_header (mf_thumbprint m) receipt_typ, manifest_json m] @
     map (\<lambda>k. string_object (tk_jwk k)) (td_keys (sg_keys s)) @
     (case sg_bound s of None \<Rightarrow> [] | Some n \<Rightarrow> [string_object (sn_jwk n)])"

lemma verify_signed_manifest:
  assumes "preflight x response s = Inr s'" "sign_manifest x kms s' m = Inr token"
    and "valid_manifest m" "manifest_uuids m" "list_all (valid_trusted_key x) (td_keys (sg_keys s))"
    and "list_all (canonical_ok x) (signed_values s' m)"
  shows "verify_receipt_jws x (sg_keys s) (sg_release s) token = Inr m"
proof -
  obtain n pinned where s': "s' = s\<lparr>sg_bound := Some n\<rparr>"
    and res: "resolve_key (sg_keys s) (sn_kid n) (sg_release s) = Inr pinned"
    and same: "x_jcs x (string_object (tk_jwk pinned)) = x_jcs x (string_object (sn_jwk n))"
    and pub: "public_key_from_jwk (sn_jwk n) = Inr (sn_key n)"
    using preflight_Inr [OF assms(1)] by metis
  have sm: "mf_thumbprint m = sn_kid n" "rl_release (mf_release m) = sg_release s"
    "manifest_canonical (x_jcs x) m = Inr (x_jcs x (manifest_json m))"
    "sign_payload x kms s' (x_jcs x (manifest_json m)) receipt_typ = Inr token"
    using assms(2) by (auto simp: sign_manifest_def signer_kid_def s' bind_r_Inr manifest_canonical_def Let_def split: if_splits)
  let ?h = "x_jcs x (protected_header (sn_kid n) receipt_typ)"
  obtain signature where sig: "length signature = 64"
      "x_verify x (sn_key n) signature (jws_text ?h (x_jcs x (manifest_json m)))"
      "token = jws_text ?h (x_jcs x (manifest_json m)) @ ''.'' @ b64url signature"
    using sign_payload_Inr [OF sm(4)] s' by (metis select_convs(4) surjective update_convs(4))
  have pk: "pinned \<in> set (td_keys (sg_keys s))" using res key_of_Some by (auto simp: resolve_key_Inr)
  have c: "canonical_ok x (protected_header (sn_kid n) receipt_typ)" "canonical_ok x (manifest_json m)"
    "canonical_ok x (string_object (tk_jwk pinned))" "canonical_ok x (string_object (sn_jwk n))"
    using assms(6) pk sm(1) by (auto simp: signed_values_def s' list_all_iff)
  obtain raw where raw: "public_key_from_jwk (tk_jwk pinned) = Inr raw"
    using assms(5) pk by (auto simp: list_all_iff valid_trusted_key_def jwk_thumbprint_def bind_r_Inr)
  have key: "raw = sn_key n" by (rule jwk_same_key [OF c(3,4) same raw pub])
  obtain h where h: "parse_canonical_json x ?h = Inr h" "json_eq (protected_header (sn_kid n) receipt_typ) h"
      "json_eq h (protected_header (sn_kid n) receipt_typ)" by (rule canonical_okE [OF c(1)])
  obtain v where v: "parse_canonical_json x (x_jcs x (manifest_json m)) = Inr v" "json_eq (manifest_json m) v"
    by (rule canonical_okE [OF c(2)])
  have obj: "is_object h" "is_object v"
    using json_eq_object h(2) v(2) unfolding protected_header_def manifest_json_def by blast+
  have ne: "?h \<noteq> []" "x_jcs x (manifest_json m) \<noteq> []" "signature \<noteq> []"
    using parse_canonical_nonempty h(1) v(1) sig(1) by auto
  have "verify_compact x token (tk_jwk pinned) (sn_kid n) receipt_typ = Inr (v, x_jcs x (manifest_json m))"
    unfolding verify_compact_Inr using sig h(1,3) obj v(1) ne raw key by blast
  moreover have "header_kid x token = Inr (sn_kid n)"
  proof -
    have "three_segments token = Inr (b64url ?h, b64url (x_jcs x (manifest_json m)), b64url signature)"
      using three_segments_b64url sig(3) by (simp add: jws_text_def)
    moreover have "decode_segment (b64url ?h) = Inr ?h" using decode_segment_Inr ne by simp
    moreover have "jat h ''alg'' = JStr jose_algorithm" "jat h ''kid'' = JStr (sn_kid n)"
      using object_text [OF h(2) [unfolded protected_header_def], of "''alg''"]
        object_text [OF h(2) [unfolded protected_header_def], of "''kid''"] by simp_all
    ultimately show ?thesis using h(1) obj by (simp add: header_kid_def)
  qed
  moreover have "read_manifest v = Inr m" by (rule read_manifest_printed [OF v(2) assms(3,4)])
  ultimately show ?thesis using res sm by (simp add: verify_receipt_jws_def)
qed

text \<open>
  C28. What the signer signs, the verifier accepts. After a preflight that bound the key service's key
  to the registry, every receipt \<open>sign_manifest\<close> returns for a valid manifest verifies, against the same
  registry and release, to that very manifest: the signer's own checks leave nothing for the verifier
  to refuse, provided canonical JSON text reads back as the value it was made of.
\<close>

theorem signed_receipt_verifies:
  assumes "preflight x response s = Inr s'" "sign_manifest x kms s' m = Inr token"
    and "valid_manifest m" "manifest_uuids m" "list_all (valid_trusted_key x) (td_keys (sg_keys s))"
    and "list_all (canonical_ok x) (signed_values s' m)"
  shows "verify_receipt_jws x (sg_keys s) (sg_release s) token = Inr m"
  by (rule verify_signed_manifest [OF assms])

section \<open>A service that signs\<close>

text \<open>The sample canonicalisation is the writer of \<open>Text_Codecs\<close>, whose texts read back.\<close>

definition sample_externals :: receipt_externals where
  "sample_externals = \<lparr>x_jcs = write_json, x_iso = (\<lambda>_. []), x_ijson = (\<lambda>_. True),
     x_verify = (\<lambda>_ _ _. True), x_der = Some\<rparr>"

lemma sample_externals_simps [simp]:
  "x_jcs sample_externals = write_json" "x_ijson sample_externals v" "x_verify sample_externals k s t"
  "x_der sample_externals d = Some d"
  by (simp_all add: sample_externals_def)

lemma json_eq_self: "writable v \<Longrightarrow> json_eq v v"
proof (induction v)
  case (JArr vs)
  then show ?case by (auto simp: list.rel_refl_strong list_all_iff)
next
  case (JObj kvs)
  have "case map_of kvs k of None \<Rightarrow> False | Some u \<Rightarrow> json_eq v u" if "(k, v) \<in> set kvs" for k v
    using JObj that by (fastforce simp: list_all_iff)
  then show ?case by (auto simp: list_all_iff)
qed simp_all

lemma ascii_marks [simp]:
  "ascii_char quote_mark" "ascii_char backslash" "ascii_char CHR '':''" "ascii_char CHR '',''" "ascii_char CHR ''{''"
  "ascii_char CHR ''}''" "ascii_char CHR ''[''" "ascii_char CHR '']''" "ascii_char CHR ''u''" "ascii_char CHR ''0''"
  "ascii_char CHR ''-''"
  by (simp_all add: ascii_char_def quote_mark_def backslash_def)

lemma nibble_ascii: "n < 16 \<Longrightarrow> ascii_char (nibble n)"
proof -
  have "list_all (\<lambda>n. ascii_char (nibble n)) [0..<16]" by code_simp
  then show "n < 16 \<Longrightarrow> ascii_char (nibble n)" by (simp add: list_all_iff)
qed

lemma write_char_ascii:
  assumes "ascii_char c"
  shows "list_all ascii_char (write_char c)"
proof (cases "(of_char c :: nat) < 32")
  case True
  then have "ascii_char (nibble ((of_char c :: nat) div 16))" "ascii_char (nibble ((of_char c :: nat) mod 16))"
    by (auto intro!: nibble_ascii)
  then show ?thesis using True by (simp add: write_char_def Let_def)
next
  case False
  then show ?thesis using assms by (simp add: write_char_def Let_def)
qed

lemma write_string_ascii: "list_all ascii_char s \<Longrightarrow> list_all ascii_char (write_string s)"
  using write_char_ascii by (auto simp: write_string_def list_all_iff)

lemma join_comma_ascii: "list_all (list_all ascii_char) xs \<Longrightarrow> list_all ascii_char (join_comma xs)"
  by (induction xs rule: join_comma.induct) auto

lemma str_int_ascii: "list_all ascii_char (str_int i)"
proof -
  have "ascii_char c" if "json_digit c" for c using that by (auto simp: json_digit_def ascii_char_def)
  then have "list_all ascii_char (nat_digits n)" for n
    using nat_digits_digits by (auto simp: list_all_iff)
  then show ?thesis by (simp add: str_int_def)
qed

lemma write_json_ascii: "writable v \<Longrightarrow> list_all ascii_char (write_json v)"
proof (induction v)
  case (JArr vs)
  then have "list_all (list_all ascii_char) (map write_json vs)" by (auto simp: list_all_iff)
  from join_comma_ascii [OF this] show ?case by simp
next
  case (JObj kvs)
  have "list_all ascii_char (write_string k @ CHR '':'' # write_json v)" if "(k, v) \<in> set kvs" for k v
  proof -
    have "list_all ascii_char k" "writable v" using JObj.prems that by (auto simp: list_all_iff)
    then show ?thesis using JObj.IH [OF that, of v] write_string_ascii [of k] by simp
  qed
  then have "list_all (list_all ascii_char) (map (\<lambda>(k, v). write_string k @ CHR '':'' # write_json v) kvs)"
    by (auto simp: list_all_iff)
  from join_comma_ascii [OF this] show ?case by simp
qed (simp_all add: write_string_ascii str_int_ascii, simp_all add: ascii_char_def)

lemma canonical_ok_written: "writable v \<Longrightarrow> canonical_ok sample_externals v"
  using json_loads_written [of v] utf8_valid_ascii [OF write_json_ascii [of v]] json_eq_self [of v]
  by (simp add: canonical_ok_def parse_canonical_json_def del: json_eq.simps)

lemma b64_encode_length: "length (b64_encode bs) = (4 * length bs + 2) div 3"
  by (induction bs rule: b64_encode.induct) simp_all

lemma b64url_length: "length (b64url s) = (4 * length s + 2) div 3"
  by (simp add: b64url_def b64_encode_length)

lemma b64url_chars:
  assumes "c \<in> set (b64url s)"
  shows "ascii_char c \<and> write_char c = [c]"
proof -
  have "list_all (\<lambda>n. ascii_char (b64_char n) \<and> write_char (b64_char n) = [b64_char n]) [0..<64]"
    by (simp add: upt_rec b64_char_def b64_alphabet_def ascii_char_def write_char_def quote_mark_def backslash_def)
  moreover have "\<forall>n \<in> set (map of_char s). n < (256 :: nat)" by simp
  ultimately show ?thesis
    using b64_encode_chars assms unfolding b64url_def list_all_iff by (metis atLeastLessThan_iff le0 set_upt)
qed

lemma b64url_ascii [simp]: "list_all ascii_char (b64url s)"
  using b64url_chars by (simp add: list_all_iff)

lemma write_string_length: "list_all (\<lambda>c. write_char c = [c]) s \<Longrightarrow> length (write_string s) = length s + 2"
  by (induction s) (auto simp: write_string_def)

lemma write_b64url_length [simp]: "length (write_string (b64url s)) = length (b64url s) + 2"
  using b64url_chars by (intro write_string_length) (simp add: list_all_iff)

lemma length_sha256_raw [simp]: "length (sha256_raw s) = 32"
  by (simp add: sha256_raw_def)

definition sample_key :: string where
  "sample_key = replicate 32 (CHR ''k'')"

definition sample_jwk :: jwk where
  "sample_jwk = [(''kty'', ''OKP''), (''crv'', ''Ed25519''), (''x'', b64url sample_key)]"

definition sample_kid :: string where
  "sample_kid = b64url (sha256_raw (write_json (string_object
     [(''crv'', ''Ed25519''), (''kty'', ''OKP''), (''x'', b64url sample_key)])))"

lemma sample_kid_length [simp]: "length sample_kid = 43"
  by (simp add: sample_kid_def b64url_length)

lemma sample_jwk_key [simp]: "public_key_from_jwk sample_jwk = Inr sample_key"
proof -
  have "decode_b64url (b64url sample_key) = Inr sample_key" by (simp add: decode_b64url_exact sample_key_def)
  then show ?thesis by (auto simp: public_key_from_jwk_def sample_jwk_def sample_key_def)
qed

lemma sample_thumbprint [simp]: "jwk_thumbprint sample_externals sample_jwk = Inr sample_kid"
  by (simp add: jwk_thumbprint_def sample_kid_def) (simp add: sample_jwk_def)

definition sample_keys :: key_document where
  "sample_keys = \<lparr>td_version = ''trusted-receipt-keys-v1'',
     td_keys = [\<lparr>tk_kid = sample_kid, tk_jwk = sample_jwk, tk_trust = RepositoryRoot, tk_status = KeyActive,
       tk_releases = [''release-1'']\<rparr>],
     td_transitions = []\<rparr>"

definition sample_signer :: signer where
  "sample_signer = \<lparr>sg_key_id = ''alias/receipts'', sg_release = ''release-1'', sg_keys = sample_keys, sg_bound = None\<rparr>"

definition sample_response :: kms_response where
  "sample_response = [(''KeySpec'', KText ''ECC_NIST_EDWARDS25519''), (''KeyUsage'', KText ''SIGN_VERIFY''),
     (''SigningAlgorithms'', KTexts [''ED25519_SHA_512'']), (''PublicKey'', KBytes sample_key), (''KeyId'', KText ''arn'')]"

definition sample_kms :: "string \<Rightarrow> string \<Rightarrow> kms_response option" where
  "sample_kms key message = Some [(''SigningAlgorithm'', KText ''ED25519_SHA_512''), (''KeyId'', KText key),
     (''Signature'', KBytes (replicate 64 (CHR ''s'')))]"

definition bound_signer :: signer where
  "bound_signer = sample_signer\<lparr>sg_bound :=
     Some \<lparr>sn_key = sample_key, sn_jwk = sample_jwk, sn_kid = sample_kid, sn_kms_key = ''arn''\<rparr>\<rparr>"

lemma sample_preflight: "preflight sample_externals (Some sample_response) sample_signer = Inr bound_signer"
proof -
  have "public_jwk_from_der sample_externals sample_key = Inr sample_jwk"
    by (simp add: public_jwk_from_der_def sample_jwk_def)
  moreover have "resolve_key sample_keys sample_kid ''release-1'' = Inr (hd (td_keys sample_keys))"
    by (simp add: resolve_key_def key_of_def sample_keys_def)
  ultimately show ?thesis
    by (simp add: preflight_def sample_response_def aws_signing_algorithm_def kms_bytes_def kms_key_id_def
        bound_signer_def sample_signer_def) (simp add: sample_keys_def)
qed

definition sample_digest :: string where
  "sample_digest = replicate 64 (CHR ''a'')"

definition sample_uuid :: string where
  "sample_uuid = ''00000000-0000-4000-8000-000000000001''"

definition sample_manifest :: receipt_manifest where
  "sample_manifest = \<lparr>mf_version = receipt_version, mf_receipt_policy = ''policy-1'', mf_capability_policy = ''caps-1'',
     mf_run = sample_uuid, mf_tenant_hash = sample_digest, mf_scenario = ''scenario-1'', mf_workflow = sample_uuid,
     mf_final_state = ''REVIEWED'', mf_disposition = ''accepted'', mf_first_epoch = ''0'', mf_last_epoch = ''7'',
     mf_event_count = ''7'', mf_first_hash = sample_digest, mf_head_hash = sample_digest,
     mf_digests = \<lparr>bd_proposal = sample_digest, bd_execution = sample_digest, bd_observation = sample_digest,
       bd_assessment = sample_digest, bd_verdict = sample_digest, bd_memory = sample_digest, bd_review = sample_digest\<rparr>,
     mf_subjects = \<lparr>sb_operator = sample_digest, sb_reviewer = zero_event_hash, sb_separated = True\<rparr>,
     mf_release = \<lparr>rl_release = ''release-1'', rl_source = replicate 40 (CHR ''b''),
       rl_image = ''sha256:'' @ sample_digest, rl_evaluation = ''eval-1'', rl_claims = sample_digest\<rparr>,
     mf_evidence = sample_digest, mf_signed_at = ''2026-01-01T00:00:00Z'', mf_expires = ''2027-01-01T00:00:00Z'',
     mf_supersedes = None, mf_thumbprint = sample_kid, mf_algorithm = jose_algorithm\<rparr>"

lemma sample_digest_hex [simp]: "hex64 sample_digest" "list_all ascii_char sample_digest"
    "list_all (\<lambda>c. write_char c = [c]) sample_digest" "length sample_digest = 64"
  by (simp_all add: hex64_def sample_digest_def list_all_iff lower_hex_def ascii_char_def write_char_def
      quote_mark_def backslash_def)

lemma ulen_ascii: "list_all ascii_char s \<Longrightarrow> ulen s = length s"
  by (induction s) (simp_all add: ulen_def ascii_char_def)

lemma sample_kid_ascii [simp]: "list_all ascii_char sample_kid"
  by (simp add: sample_kid_def)

lemma sample_times: "parse_utc ''2026-01-01T00:00:00Z'' = Some 1767225600000000"
    "parse_utc ''2027-01-01T00:00:00Z'' = Some 1798761600000000"
  by (simp_all add: parse_utc_def utc_shape_def json_digit_def digits_between_def digits_value_def Let_def
      days_in_month_def leap_year_def civil_days_def)

lemma sample_uuid_shape: "uuid_shape sample_uuid"
  by (simp add: uuid_shape_def sample_uuid_def lower_hex_def upt_rec)

lemma sample_release_valid: "valid_release (mf_release sample_manifest)"
proof -
  have "source_sha (replicate 40 (CHR ''b''))" by (simp add: source_sha_def list_all_iff lower_hex_def)
  moreover have "image_digest (''sha256:'' @ sample_digest)" by (simp add: image_digest_def has_prefix_def)
  ultimately show ?thesis by (simp add: valid_release_def sample_manifest_def sized_def ulen_def)
qed

lemma sample_manifest_valid: "valid_manifest sample_manifest"
proof -
  have "sample_digest \<noteq> zero_event_hash" by (simp add: sample_digest_def zero_event_hash_def)
  moreover have "sized 43 43 sample_kid" by (simp add: sized_def ulen_ascii)
  ultimately show ?thesis
    using sample_release_valid sample_times
    by (simp add: valid_manifest_def sample_manifest_def valid_bindings_def sized_def ulen_def receipt_version_def
        decimal_nat_def decimal_pos_def json_digit_def digits_value_def)
qed

lemma sample_manifest_uuids: "manifest_uuids sample_manifest"
  by (simp add: manifest_uuids_def sample_manifest_def sample_uuid_shape opt_all_def)

lemma write_string_lengths:
  "length (write_string []) = 2" "length (write_string (c # s)) = length (write_char c) + length (write_string s)"
  by (simp_all add: write_string_def)

lemma sample_lengths:
  "length (write_string sample_digest) = 66" "length (write_string zero_event_hash) = 66"
  "length (write_string (replicate 40 (CHR ''b''))) = 42" "length (write_string sample_kid) = 45"
proof -
  have "list_all (\<lambda>c. write_char c = [c]) (replicate n (CHR ''0''))" "list_all (\<lambda>c. write_char c = [c]) (replicate n (CHR ''b''))" for n
    by (simp_all add: list_all_iff write_char_def quote_mark_def backslash_def)
  then show "length (write_string zero_event_hash) = 66" "length (write_string (replicate 40 (CHR ''b''))) = 42"
    using write_string_length [of "replicate 64 (CHR ''0'')"] write_string_length [of "replicate 40 (CHR ''b'')"]
    by (simp_all add: zero_event_hash_def)
qed (simp_all add: write_string_length, simp add: sample_kid_def b64url_length)

lemmas sample_sizes = sample_lengths write_string_lengths write_char_def quote_mark_def backslash_def
  sample_uuid_def receipt_version_def jose_algorithm_def

lemma sample_manifest_length: "length (write_json (manifest_json sample_manifest)) \<le> 2000"
  by (simp add: manifest_json_def bindings_json_def release_json_def string_object_def jopt_def sample_manifest_def sample_sizes)

lemma sample_header_length: "length (write_json (protected_header sample_kid receipt_typ)) \<le> 200"
  by (simp add: protected_header_def receipt_typ_def sample_sizes str_int_def nat_digits.simps)

lemma sample_signed:
  "sign_manifest sample_externals sample_kms bound_signer sample_manifest =
     Inr (jws_text (write_json (protected_header sample_kid receipt_typ)) (write_json (manifest_json sample_manifest))
       @ ''.'' @ b64url (replicate 64 (CHR ''s'')))"
proof -
  have "length (b64url (write_json (protected_header sample_kid receipt_typ))) +
      length (b64url (write_json (manifest_json sample_manifest))) < 4096"
    using sample_header_length sample_manifest_length unfolding b64url_length by linarith
  then show ?thesis
    using sample_manifest_length
    by (simp add: sign_manifest_def signer_kid_def bound_signer_def sample_signer_def manifest_canonical_def
        manifest_max_bytes_def sign_payload_def jws_signing_input_def kms_max_bytes_def sample_kms_def
        aws_signing_algorithm_def kms_bytes_def jws_text_def Let_def)
      (simp add: sample_manifest_def)
qed

lemma sample_writable:
  "writable (protected_header sample_kid receipt_typ)" "writable (manifest_json sample_manifest)"
  "writable (string_object sample_jwk)"
proof -
  have "list_all ascii_char zero_event_hash" "list_all ascii_char (replicate 40 (CHR ''b''))"
    by (simp_all add: zero_event_hash_def list_all_iff ascii_char_def)
  moreover have "list_all ascii_char sample_uuid" by (simp add: sample_uuid_def ascii_char_def)
  ultimately show "writable (manifest_json sample_manifest)"
    by (simp add: manifest_json_def bindings_json_def release_json_def string_object_def jopt_def sample_manifest_def)
      (simp add: ascii_char_def receipt_version_def jose_algorithm_def)
  show "writable (protected_header sample_kid receipt_typ)"
    by (simp add: protected_header_def receipt_typ_def jose_algorithm_def) (simp add: ascii_char_def)
  show "writable (string_object sample_jwk)"
    by (simp add: sample_jwk_def string_object_def) (simp add: ascii_char_def)
qed

theorem signed_receipt_verifies_witness:
  "\<exists>token. sign_manifest sample_externals sample_kms bound_signer sample_manifest = Inr token \<and>
     verify_receipt_jws sample_externals sample_keys ''release-1'' token = Inr sample_manifest"
proof -
  have "list_all (valid_trusted_key sample_externals) (td_keys sample_keys)"
    by (simp add: sample_keys_def valid_trusted_key_def sized_def ulen_ascii)
  moreover have "list_all (canonical_ok sample_externals) (signed_values bound_signer sample_manifest)"
    using sample_writable [THEN canonical_ok_written]
    by (simp add: signed_values_def bound_signer_def sample_signer_def sample_keys_def)
      (simp add: sample_manifest_def)
  ultimately show ?thesis
    using signed_receipt_verifies [OF sample_preflight sample_signed sample_manifest_valid sample_manifest_uuids] sample_signed
    by (simp add: sample_signer_def)
qed

end
