(* ===== verification/Lease_Queue.thy ===== *)
theory Lease_Queue
  imports Prelude
begin

text \<open>
  The contract the two outboxes share: messages that a worker claims under a lease, gives back or
  closes. A run is a list of operations of any workers; an operation happens at one reading of the
  database clock.
\<close>

section \<open>Rows of a key\<close>

text \<open>The number of rows an \<open>UPDATE\<close> affects, and the table with the row of one key replaced.\<close>

definition rowcount :: "('r \<Rightarrow> bool) \<Rightarrow> 'r list \<Rightarrow> nat" where
  "rowcount P rows = length (filter P rows)"

definition put_row :: "('r \<Rightarrow> 'k) \<Rightarrow> 'r \<Rightarrow> 'r list \<Rightarrow> 'r list" where
  "put_row key r rows = map (\<lambda>x. if key x = key r then r else x) rows"

lemma put_row_keys [simp]: "map key (put_row key r rows) = map key rows"
  by (simp add: put_row_def comp_def if_distrib cong: if_cong)

lemma put_row_row: "sql_row key k (put_row key r rows) =
    (if k = key r \<and> sql_row key k rows \<noteq> None then Some r else sql_row key k rows)"
  by (induction rows) (auto simp: put_row_def sql_row_def)

lemma put_row_same: "distinct (map key rows) \<Longrightarrow> r \<in> set rows \<Longrightarrow> put_row key r rows = rows"
  unfolding put_row_def by (rule map_idI) (metis distinct_map inj_onD)

text \<open>An update addressed to one key changes one row, or none.\<close>

lemma update_one:
  assumes "distinct (map key rows)" "\<And>r. P r \<longleftrightarrow> key r = k \<and> Q r" "\<And>r. key (f r) = key r"
  obtains r where "sql_row key k rows = Some r" "P r" "rowcount P rows = 1" "sql_update P f rows = put_row key (f r) rows"
      "filter P rows = [r]"
  | "\<forall>r. sql_row key k rows = Some r \<longrightarrow> \<not> P r" "rowcount P rows = 0" "sql_update P f rows = rows" "filter P rows = []"
proof -
  have one: "x = r" if "x \<in> set rows" "key x = k" "sql_row key k rows = Some r" for x r
    using that sql_row_unique [OF assms(1) that(1)] by simp
  show thesis
  proof (cases "\<exists>r. sql_row key k rows = Some r \<and> P r")
    case True
    then obtain r where r: "sql_row key k rows = Some r" "P r" by blast
    have k: "key r = k" "r \<in> set rows" using sql_row_Some [OF r(1)] by simp_all
    have P: "P x \<longleftrightarrow> x = r" if "x \<in> set rows" for x using one [OF that _ r(1)] r(2) assms(2) by blast
    then have "filter P rows = filter (\<lambda>x. x = r) rows" by (intro filter_cong) simp_all
    also have "\<dots> = [r]" using k(2) assms(1)
      by (induction rows) (auto simp: filter_empty_conv image_iff)
    finally have f: "filter P rows = [r]" .
    have "(if P x then f x else x) = (if key x = key (f r) then f r else x)" if "x \<in> set rows" for x
    proof (cases "x = r")
      case True
      then show ?thesis using r(2) assms(3) [of r] by simp
    next
      case False
      then have "\<not> P x" "key x \<noteq> key r" using P [OF that] one [OF that _ r(1)] k(1) by auto
      then show ?thesis using assms(3) [of r] by simp
    qed
    then have "sql_update P f rows = put_row key (f r) rows" by (simp add: sql_update_def put_row_def)
    with that(1) r f show thesis by (simp add: rowcount_def)
  next
    case False
    then have no: "\<not> P x" if "x \<in> set rows" for x
      using False sql_row_unique [OF assms(1) that] assms(2) [of x] by auto
    then have "filter P rows = []" "sql_update P f rows = rows"
      by (simp_all add: filter_empty_conv sql_update_none)
    with that(2) False show thesis by (auto simp: rowcount_def)
  qed
qed

section \<open>Runs\<close>

text \<open>What is observed of each operation of a run, in the state it meets.\<close>

fun history :: "('op \<Rightarrow> 'st \<Rightarrow> 'st) \<Rightarrow> ('op \<Rightarrow> 'st \<Rightarrow> 'obs) \<Rightarrow> 'op list \<Rightarrow> 'st \<Rightarrow> 'obs list" where
  "history step obs [] s = []"
| "history step obs (op # ops) s = obs op s # history step obs ops (step op s)"

lemma length_history [simp]: "length (history step obs ops s) = length ops"
  by (induction ops arbitrary: s) simp_all

lemma history_append:
  "history step obs (ops @ ops') s = history step obs ops s @ history step obs ops' (fold step ops s)"
  by (induction ops arbitrary: s) simp_all

section \<open>The contract\<close>

text \<open>
  \<open>lease_of s i\<close>: who holds message \<open>i\<close> and until when; \<open>claims op s\<close>: the message \<open>op\<close> claims in \<open>s\<close>,
  for whom and until when; \<open>frees op s\<close>: the message whose lease \<open>op\<close> ends, and whose it was;
  \<open>closes op s\<close>: the message that \<open>op\<close> settles for good.
\<close>

locale leased_queue =
  fixes ok :: "'st \<Rightarrow> bool"
    and step :: "'op \<Rightarrow> 'st \<Rightarrow> 'st"
    and clock :: "'op \<Rightarrow> int"
    and lease_of :: "'st \<Rightarrow> 'id \<Rightarrow> (string \<times> int) option"
    and closed :: "'st \<Rightarrow> 'id \<Rightarrow> bool"
    and claims :: "'op \<Rightarrow> 'st \<Rightarrow> ('id \<times> string \<times> int) option"
    and frees :: "'op \<Rightarrow> 'st \<Rightarrow> ('id \<times> string) option"
    and closes :: "'op \<Rightarrow> 'st \<Rightarrow> 'id option"
  assumes step_ok: "ok s \<Longrightarrow> ok (step op s)"
    and claim_free: "ok s \<Longrightarrow> claims op s = Some (i, w, u) \<Longrightarrow>
      \<not> closed s i \<and> (case lease_of s i of None \<Rightarrow> True | Some (v, t) \<Rightarrow> t < clock op) \<and>
      lease_of (step op s) i = Some (w, u)"
    and lease_kept: "ok s \<Longrightarrow> lease_of s i = Some l \<Longrightarrow> lease_of (step op s) i \<noteq> Some l \<Longrightarrow>
      (\<exists>w u. claims op s = Some (i, w, u)) \<or> frees op s = Some (i, fst l)"
    and free_holder: "ok s \<Longrightarrow> frees op s = Some (i, w) \<Longrightarrow> \<exists>u. lease_of s i = Some (w, u)"
    and close_holder: "ok s \<Longrightarrow> closes op s = Some i \<Longrightarrow>
      \<not> closed s i \<and> closed (step op s) i \<and> (\<exists>w. frees op s = Some (i, w))"
    and closed_stays: "ok s \<Longrightarrow> closed s i \<Longrightarrow> closed (step op s) i"
begin

lemma run_ok: "ok s \<Longrightarrow> ok (fold step ops s)"
  by (induction ops arbitrary: s) (simp_all add: step_ok)

text \<open>While a lease lasts and its holder does not end it, the message is nobody else's.\<close>

lemma lease_lasts:
  assumes "ok s" "lease_of s i = Some (w, u)" "list_all (\<lambda>op. clock op \<le> u) ops"
    and "Some (i, w) \<notin> set (history step frees ops s)"
  shows "lease_of (fold step ops s) i = Some (w, u) \<and>
    list_all (\<lambda>c. case c of None \<Rightarrow> True | Some (j, _, _) \<Rightarrow> j \<noteq> i) (history step claims ops s)"
  using assms
proof (induction ops arbitrary: s)
  case (Cons op ops)
  have not_claimed: "claims op s \<noteq> Some (i, v, t)" for v t
    using claim_free [OF \<open>ok s\<close>, of op i v t] Cons.prems by auto
  have kept: "lease_of (step op s) i = Some (w, u)"
  proof (rule ccontr)
    assume "lease_of (step op s) i \<noteq> Some (w, u)"
    from lease_kept [OF \<open>ok s\<close> Cons.prems(2) this] not_claimed Cons.prems(4) show False by auto
  qed
  show ?case
    using Cons.IH [OF step_ok [OF \<open>ok s\<close>] kept] Cons.prems not_claimed by (auto split: option.splits)
qed simp

lemma lease_exclusive:
  assumes "ok s" "claims op s = Some (i, w, u)" "list_all (\<lambda>op. clock op \<le> u) ops"
    and "Some (i, w) \<notin> set (history step frees ops (step op s))"
  shows "list_all (\<lambda>c. case c of None \<Rightarrow> True | Some (j, _, _) \<Rightarrow> j \<noteq> i) (history step claims ops (step op s))"
  using lease_lasts [OF step_ok [OF assms(1)]] claim_free [OF assms(1,2)] assms(3,4) by blast

lemma closed_final:
  assumes "ok s" "closed s i"
  shows "closed (fold step ops s) i \<and> Some i \<notin> set (history step closes ops s) \<and>
    list_all (\<lambda>c. case c of None \<Rightarrow> True | Some (j, _, _) \<Rightarrow> j \<noteq> i) (history step claims ops s)"
  using assms
proof (induction ops arbitrary: s)
  case (Cons op ops)
  have "claims op s \<noteq> Some (i, v, t)" for v t using claim_free [OF \<open>ok s\<close>, of op i v t] Cons.prems by auto
  moreover have "closes op s \<noteq> Some i" using close_holder [OF \<open>ok s\<close>, of op i] Cons.prems by auto
  ultimately show ?case
    using Cons.IH [OF step_ok [OF \<open>ok s\<close>] closed_stays [OF Cons.prems]] by (auto split: option.splits)
qed simp

lemma closed_once:
  assumes "ok s"
  shows "length (filter (\<lambda>c. c = Some i) (history step closes ops s)) \<le> 1"
  using assms
proof (induction ops arbitrary: s)
  case (Cons op ops)
  show ?case
  proof (cases "closes op s = Some i")
    case True
    then have "closed (step op s) i" using close_holder [OF \<open>ok s\<close>] by blast
    then have "Some i \<notin> set (history step closes ops (step op s))"
      using closed_final [OF step_ok [OF \<open>ok s\<close>]] by blast
    then have "filter (\<lambda>c. c = Some i) (history step closes ops (step op s)) = []"
      by (metis (mono_tags) filter_empty_conv)
    with True show ?thesis by simp
  next
    case False
    then show ?thesis using Cons.IH [OF step_ok [OF \<open>ok s\<close>]] by simp
  qed
qed simp

end

end
