(* ===== verification/Outbox.thy ===== *)
theory Outbox
  imports Lease_Queue Hashing
begin

text \<open>
  The evidence outbox of \<^verbatim>\<open>src/recallops/outbox.py\<close> over the table \<open>evidence_outbox\<close>: claiming a
  message under a lease, acknowledging it, giving it back or burying it, the backlog signals, and
  the delivery loop. The archive and what other workers do meanwhile are inputs of the loop.
\<close>

section \<open>The table\<close>

record message =
  ob_id :: uuid
  ob_incident :: uuid
  ob_tenant :: string
  ob_service :: string
  ob_version :: string
  ob_payload :: json
  ob_attempts :: nat
  ob_available :: time
  ob_claimed_by :: "string option"
  ob_until :: "time option"
  ob_delivered :: "time option"
  ob_error :: "string option"
  ob_created :: time
  ob_dead :: "time option"

definition default_max_attempts :: int where
  "default_max_attempts = 8"

definition open_message :: "message \<Rightarrow> bool" where
  "open_message m \<longleftrightarrow> ob_delivered m = None \<and> ob_dead m = None"

definition claimable :: "time \<Rightarrow> message \<Rightarrow> bool" where
  "claimable now m \<longleftrightarrow> open_message m \<and> ob_available m \<le> now \<and>
     (case ob_until m of None \<Rightarrow> True | Some u \<Rightarrow> u < now)"

text \<open>\<open>ORDER BY created_at LIMIT 1\<close>; SQL leaves the order of equal times open, here it is the table's.\<close>

definition next_message :: "time \<Rightarrow> message list \<Rightarrow> message option" where
  "next_message now rows = (case sort_key ob_created (filter (claimable now) rows) of [] \<Rightarrow> None | m # _ \<Rightarrow> Some m)"

definition take_lease :: "string \<Rightarrow> time \<Rightarrow> message \<Rightarrow> message" where
  "take_lease worker until m = m\<lparr>ob_claimed_by := Some worker, ob_until := Some until, ob_attempts := ob_attempts m + 1\<rparr>"

definition claim :: "time \<Rightarrow> string \<Rightarrow> int \<Rightarrow> message list \<Rightarrow> message option \<times> message list" where
  "claim now worker lease rows = (case next_message now rows of None \<Rightarrow> (None, rows)
     | Some m \<Rightarrow> let P = (\<lambda>r. ob_id r = ob_id m); f = take_lease worker (now + seconds lease)
         in (sql_returning P f rows, sql_update P f rows))"

definition held :: "uuid \<Rightarrow> string \<Rightarrow> message \<Rightarrow> bool" where
  "held i worker m \<longleftrightarrow> ob_id m = i \<and> ob_claimed_by m = Some worker \<and> ob_delivered m = None"

definition mark_delivered :: "time \<Rightarrow> uuid \<Rightarrow> string \<Rightarrow> message list \<Rightarrow> bool \<times> message list" where
  "mark_delivered now i worker rows =
     (rowcount (held i worker) rows = 1,
      sql_update (held i worker)
        (\<lambda>m. m\<lparr>ob_delivered := Some now, ob_claimed_by := None, ob_until := None, ob_error := None\<rparr>) rows)"

record backlog =
  bk_pending :: nat
  bk_dead :: nat
  bk_max_attempts :: nat
  bk_oldest_age :: "int option"

text \<open>The signals; the age is in microseconds.\<close>

definition backlog_of :: "time \<Rightarrow> message list \<Rightarrow> backlog" where
  "backlog_of now rows = (let pending = filter open_message rows in
     \<lparr>bk_pending = length pending, bk_dead = rowcount (\<lambda>m. ob_dead m \<noteq> None) rows,
      bk_max_attempts = fold max (map ob_attempts pending) 0,
      bk_oldest_age = (case map ob_created pending of [] \<Rightarrow> None | t # ts \<Rightarrow> Some (now - fold min ts t))\<rparr>)"

text \<open>\<open>error[:1000]\<close>, by code points.\<close>

fun utake :: "nat \<Rightarrow> string \<Rightarrow> string" where
  "utake n [] = []"
| "utake n (c # s) = (if 128 \<le> (of_char c :: nat) \<and> (of_char c :: nat) < 192 then c # utake n s
     else case n of 0 \<Rightarrow> [] | Suc k \<Rightarrow> c # utake k s)"

definition retry_seconds :: "nat \<Rightarrow> int" where
  "retry_seconds attempts = min 300 (2 ^ min attempts 8)"

datatype outbox_error = BadMaxAttempts | ArchiveCrashed

definition give_back :: "uuid \<Rightarrow> string \<Rightarrow> message \<Rightarrow> bool" where
  "give_back i worker m \<longleftrightarrow> held i worker m \<and> ob_dead m = None"

definition bury :: "time \<Rightarrow> string \<Rightarrow> message \<Rightarrow> message" where
  "bury now err m = m\<lparr>ob_dead := Some now, ob_claimed_by := None, ob_until := None, ob_error := Some (utake 1000 err)\<rparr>"

definition postpone :: "time \<Rightarrow> string \<Rightarrow> message \<Rightarrow> message" where
  "postpone until err m =
     m\<lparr>ob_available := until, ob_claimed_by := None, ob_until := None, ob_error := Some (utake 1000 err)\<rparr>"

definition release_failed ::
  "time \<Rightarrow> uuid \<Rightarrow> string \<Rightarrow> nat \<Rightarrow> string \<Rightarrow> int \<Rightarrow> (message list, outbox_error, bool) sx" where
  "release_failed now i worker attempts err max_attempts = (\<lambda>rows.
     if max_attempts < 1 then (Inl BadMaxAttempts, rows)
     else if max_attempts \<le> int attempts
     then (Inr (rowcount (give_back i worker) rows = 1), sql_update (give_back i worker) (bury now err) rows)
     else (Inr False,
       sql_update (give_back i worker) (postpone (now + seconds (retry_seconds attempts)) err) rows))"

section \<open>The delivery loop\<close>

text \<open>
  What one turn meets: the times of its statements, how the archive call ends (a crash is an
  exception the loop does not catch), and what other workers make of the table meanwhile.
\<close>

datatype archiving = Archived | Refused string | Crashed

record turn =
  tn_claim_at :: time
  tn_archive :: "message \<Rightarrow> archiving"
  tn_others :: "message list \<Rightarrow> message list"
  tn_ack_at :: time
  tn_fail_at :: time

text \<open>One turn: \<open>None\<close> when nothing is claimable, otherwise whether it delivered.\<close>

definition fail_message ::
  "turn \<Rightarrow> string \<Rightarrow> int \<Rightarrow> message \<Rightarrow> string \<Rightarrow> (message list, outbox_error, bool option) sx" where
  "fail_message t worker max_attempts m err =
     bind_s (release_failed (tn_fail_at t) (ob_id m) worker (ob_attempts m) err max_attempts)
       (\<lambda>dead. return_s (Some False))"

definition lease_lost :: string where
  "lease_lost = ''outbox lease lost before delivery acknowledgement''"

definition deliver_one ::
  "turn \<Rightarrow> string \<Rightarrow> int \<Rightarrow> int \<Rightarrow> (message list, outbox_error, bool option) sx" where
  "deliver_one t worker max_attempts lease = (\<lambda>rows. case claim (tn_claim_at t) worker lease rows of
     (None, rows1) \<Rightarrow> (Inr None, rows1)
   | (Some m, rows1) \<Rightarrow> let rows2 = tn_others t rows1 in
       (case tn_archive t m of
          Crashed \<Rightarrow> (Inl ArchiveCrashed, rows2)
        | Refused err \<Rightarrow> fail_message t worker max_attempts m err rows2
        | Archived \<Rightarrow> (case mark_delivered (tn_ack_at t) (ob_id m) worker rows2 of
            (True, rows3) \<Rightarrow> (Inr (Some True), rows3)
          | (False, rows3) \<Rightarrow> fail_message t worker max_attempts m lease_lost rows3)))"

fun deliver_available ::
  "(nat \<Rightarrow> turn) \<Rightarrow> string \<Rightarrow> nat \<Rightarrow> int \<Rightarrow> int \<Rightarrow> (message list, outbox_error, nat \<times> nat) sx" where
  "deliver_available turns worker 0 max_attempts lease = return_s (0, 0)"
| "deliver_available turns worker (Suc limit) max_attempts lease =
     bind_s (deliver_one (turns 0) worker max_attempts lease) (\<lambda>r.
       case r of None \<Rightarrow> return_s (0, 0)
       | Some delivered \<Rightarrow>
           bind_s (deliver_available (\<lambda>k. turns (Suc k)) worker limit max_attempts lease) (\<lambda>(d, f).
             return_s (if delivered then (d + 1, f) else (d, f + 1))))"

section \<open>Runs of many workers\<close>

text \<open>The insertion is the store's, with the defaults of the table and its two unique keys.\<close>

definition new_message :: "uuid \<Rightarrow> uuid \<Rightarrow> string \<Rightarrow> string \<Rightarrow> string \<Rightarrow> json \<Rightarrow> time \<Rightarrow> message" where
  "new_message i incident tenant service version payload now = \<lparr>ob_id = i, ob_incident = incident, ob_tenant = tenant,
     ob_service = service, ob_version = version, ob_payload = payload, ob_attempts = 0, ob_available = now,
     ob_claimed_by = None, ob_until = None, ob_delivered = None, ob_error = None, ob_created = now, ob_dead = None\<rparr>"

definition put_message :: "message \<Rightarrow> message list \<Rightarrow> message list" where
  "put_message m rows =
     (if ob_id m \<in> ob_id ` set rows \<or> ob_incident m \<in> ob_incident ` set rows then rows else rows @ [m])"

datatype outbox_op =
    Put uuid uuid string string string json time
  | Claim string int time
  | Deliver uuid string time
  | Fail uuid string nat string int time

fun outbox_step :: "outbox_op \<Rightarrow> message list \<Rightarrow> message list" where
  "outbox_step (Put i inc t sv v p now) rows = put_message (new_message i inc t sv v p now) rows"
| "outbox_step (Claim w lease now) rows = snd (claim now w lease rows)"
| "outbox_step (Deliver i w now) rows = snd (mark_delivered now i w rows)"
| "outbox_step (Fail i w n err k now) rows = snd (release_failed now i w n err k rows)"

fun outbox_clock :: "outbox_op \<Rightarrow> time" where
  "outbox_clock (Put i inc t sv v p now) = now"
| "outbox_clock (Claim w lease now) = now"
| "outbox_clock (Deliver i w now) = now"
| "outbox_clock (Fail i w n err k now) = now"

definition message_lease :: "message list \<Rightarrow> uuid \<Rightarrow> (string \<times> time) option" where
  "message_lease rows i = (case sql_row ob_id i rows of None \<Rightarrow> None
     | Some m \<Rightarrow> (case (ob_claimed_by m, ob_until m) of (Some w, Some u) \<Rightarrow> Some (w, u) | _ \<Rightarrow> None))"

definition message_closed :: "message list \<Rightarrow> uuid \<Rightarrow> bool" where
  "message_closed rows i \<longleftrightarrow> (case sql_row ob_id i rows of None \<Rightarrow> False | Some m \<Rightarrow> \<not> open_message m)"

fun message_claims :: "outbox_op \<Rightarrow> message list \<Rightarrow> (uuid \<times> string \<times> time) option" where
  "message_claims (Claim w lease now) rows =
     map_option (\<lambda>m. (ob_id m, w, now + seconds lease)) (fst (claim now w lease rows))"
| "message_claims _ rows = None"

fun message_frees :: "outbox_op \<Rightarrow> message list \<Rightarrow> (uuid \<times> string) option" where
  "message_frees (Deliver i w now) rows = (if fst (mark_delivered now i w rows) then Some (i, w) else None)"
| "message_frees (Fail i w n err k now) rows =
     (if 1 \<le> k \<and> rowcount (give_back i w) rows = 1 then Some (i, w) else None)"
| "message_frees _ rows = None"

fun message_closes :: "outbox_op \<Rightarrow> message list \<Rightarrow> uuid option" where
  "message_closes (Deliver i w now) rows = (if fst (mark_delivered now i w rows) then Some i else None)"
| "message_closes (Fail i w n err k now) rows =
     (if fst (release_failed now i w n err k rows) = Inr True then Some i else None)"
| "message_closes _ rows = None"

definition row_ok :: "message \<Rightarrow> bool" where
  "row_ok m \<longleftrightarrow> (if open_message m then (ob_claimed_by m = None \<longleftrightarrow> ob_until m = None)
     else ob_claimed_by m = None \<and> ob_until m = None)"

definition outbox_ok :: "message list \<Rightarrow> bool" where
  "outbox_ok rows \<longleftrightarrow> distinct (map ob_id rows) \<and> list_all row_ok rows"

text \<open>An update addressed to one message: what it does to the row of a key.\<close>

lemma rowcount_keyed:
  assumes "distinct (map ob_id rows)" "\<And>r. P r \<longleftrightarrow> ob_id r = i \<and> Q r"
  shows "rowcount P rows = 1 \<longleftrightarrow> (\<exists>m. sql_row ob_id i rows = Some m \<and> Q m)"
    and "rowcount P rows \<le> 1"
proof -
  have *: "filter P rows = (case sql_row ob_id i rows of None \<Rightarrow> [] | Some m \<Rightarrow> if Q m then [m] else [])"
    using assms(1)
  proof (induction rows)
    case (Cons r rows)
    show ?case
    proof (cases "ob_id r = i")
      case True
      then have "sql_row ob_id i rows = None" using Cons.prems by (auto simp: sql_row_None)
      then show ?thesis using Cons True by (simp add: assms(2)) (simp add: sql_row_def)
    next
      case False
      then show ?thesis using Cons by (simp add: assms(2)) (simp add: sql_row_def)
    qed
  qed (simp add: sql_row_def)
  show "rowcount P rows = 1 \<longleftrightarrow> (\<exists>m. sql_row ob_id i rows = Some m \<and> Q m)" "rowcount P rows \<le> 1"
    by (auto simp: rowcount_def * split: option.splits)
qed

lemma next_message_Some:
  assumes "next_message now rows = Some m"
  shows "m \<in> set rows \<and> claimable now m"
proof -
  obtain ms where "sort_key ob_created (filter (claimable now) rows) = m # ms"
    using assms by (auto simp: next_message_def split: list.splits)
  then have "set (filter (claimable now) rows) = set (m # ms)" by (metis set_sort)
  then show ?thesis by auto
qed

lemma update_fields [simp]:
  "ob_id (take_lease w u m) = ob_id m" "ob_id (bury now err m) = ob_id m" "ob_id (postpone u err m) = ob_id m"
  by (simp_all add: take_lease_def bury_def postpone_def)

lemma claim_cases:
  assumes "distinct (map ob_id rows)"
  obtains "claim now w lease rows = (None, rows)" "next_message now rows = None"
  | m where "sql_row ob_id (ob_id m) rows = Some m" "claimable now m"
    "claim now w lease rows = (Some (take_lease w (now + seconds lease) m),
       sql_update (\<lambda>r. ob_id r = ob_id m \<and> True) (take_lease w (now + seconds lease)) rows)"
proof (cases "next_message now rows")
  case None
  then show thesis using that(1) by (simp add: claim_def)
next
  case (Some m)
  note m = next_message_Some [OF Some]
  then have r: "sql_row ob_id (ob_id m) rows = Some m" using sql_row_unique [OF assms] by blast
  have "sql_returning (\<lambda>r. ob_id r = ob_id m) (take_lease w (now + seconds lease)) rows =
      Some (take_lease w (now + seconds lease) m)"
    using r by (simp add: sql_returning_def sql_row_def)
  with that(2) [OF r] m Some show thesis by (simp add: claim_def Let_def)
qed

lemma held_keyed: "held i w r \<longleftrightarrow> ob_id r = i \<and> (ob_claimed_by r = Some w \<and> ob_delivered r = None)"
  by (auto simp: held_def)

lemma give_back_keyed: "give_back i w r \<longleftrightarrow> ob_id r = i \<and> (ob_claimed_by r = Some w \<and> open_message r)"
  by (auto simp: give_back_def held_def open_message_def)

text \<open>The row of a key after each operation.\<close>

lemmas message_updates = sql_update_keyed(1) [where key = ob_id] rowcount_keyed(1)

lemma step_rows:
  assumes "distinct (map ob_id rows)"
  shows "sql_row ob_id j (snd (mark_delivered now i w rows)) = (case sql_row ob_id j rows of None \<Rightarrow> None
      | Some m \<Rightarrow> Some (if held i w m then m\<lparr>ob_delivered := Some now, ob_claimed_by := None, ob_until := None, ob_error := None\<rparr> else m))"
    and "sql_row ob_id j (sql_update (give_back i w) (bury now err) rows) = (case sql_row ob_id j rows of None \<Rightarrow> None
      | Some m \<Rightarrow> Some (if give_back i w m then bury now err m else m))"
    and "sql_row ob_id j (sql_update (give_back i w) (postpone u err) rows) = (case sql_row ob_id j rows of None \<Rightarrow> None
      | Some m \<Rightarrow> Some (if give_back i w m then postpone u err m else m))"
    and "fst (mark_delivered now i w rows) \<longleftrightarrow> (\<exists>m. sql_row ob_id i rows = Some m \<and> held i w m)"
    and "rowcount (give_back i w) rows = 1 \<longleftrightarrow> (\<exists>m. sql_row ob_id i rows = Some m \<and> give_back i w m)"
proof -
  show "sql_row ob_id j (snd (mark_delivered now i w rows)) = (case sql_row ob_id j rows of None \<Rightarrow> None
      | Some m \<Rightarrow> Some (if held i w m then m\<lparr>ob_delivered := Some now, ob_claimed_by := None, ob_until := None, ob_error := None\<rparr> else m))"
    unfolding mark_delivered_def snd_conv by (subst sql_row_update) (auto split: option.split)
  show "sql_row ob_id j (sql_update (give_back i w) (bury now err) rows) = (case sql_row ob_id j rows of None \<Rightarrow> None
      | Some m \<Rightarrow> Some (if give_back i w m then bury now err m else m))"
    "sql_row ob_id j (sql_update (give_back i w) (postpone u err) rows) = (case sql_row ob_id j rows of None \<Rightarrow> None
      | Some m \<Rightarrow> Some (if give_back i w m then postpone u err m else m))"
    by (subst sql_row_update; auto split: option.split)+
  have key: "sql_row ob_id i rows = Some m \<Longrightarrow> ob_id m = i" for m using sql_row_Some by metis
  have "rowcount (held i w) rows = 1 \<longleftrightarrow>
      (\<exists>m. sql_row ob_id i rows = Some m \<and> ob_claimed_by m = Some w \<and> ob_delivered m = None)"
    by (rule rowcount_keyed(1) [OF assms]) (simp add: held_keyed)
  then show "fst (mark_delivered now i w rows) \<longleftrightarrow> (\<exists>m. sql_row ob_id i rows = Some m \<and> held i w m)"
    using key by (auto simp: mark_delivered_def held_keyed)
  have "rowcount (give_back i w) rows = 1 \<longleftrightarrow>
      (\<exists>m. sql_row ob_id i rows = Some m \<and> ob_claimed_by m = Some w \<and> open_message m)"
    by (rule rowcount_keyed(1) [OF assms]) (simp add: give_back_keyed)
  then show "rowcount (give_back i w) rows = 1 \<longleftrightarrow> (\<exists>m. sql_row ob_id i rows = Some m \<and> give_back i w m)"
    using key by (auto simp: give_back_keyed)
qed

text \<open>Every operation keeps the keys and the shape of the rows.\<close>

lemma outbox_ok_update:
  assumes "outbox_ok rows" "\<And>m. ob_id (f m) = ob_id m" "\<And>m. P m \<Longrightarrow> row_ok m \<Longrightarrow> row_ok (f m)"
  shows "outbox_ok (sql_update P f rows)"
proof -
  have "map ob_id (sql_update P f rows) = map ob_id rows" by (rule sql_update_keys) (rule assms(2))
  moreover have "list_all row_ok (sql_update P f rows)"
    using assms(1,3) by (auto simp: outbox_ok_def sql_update_def list_all_iff)
  ultimately show ?thesis using assms(1) by (simp add: outbox_ok_def)
qed

lemma outbox_step_ok:
  assumes "outbox_ok rows"
  shows "outbox_ok (outbox_step op rows)"
proof (cases op)
  case (Put i inc t sv v p now)
  then show ?thesis using assms by (auto simp: put_message_def new_message_def outbox_ok_def row_ok_def open_message_def)
next
  case (Claim w lease now)
  have d: "distinct (map ob_id rows)" using assms by (simp add: outbox_ok_def)
  show ?thesis
  proof (cases rule: claim_cases [OF d, of now w lease])
    case 1
    then show ?thesis using assms Claim by simp
  next
    case (2 m)
    have one: "r = m" if "r \<in> set rows" "ob_id r = ob_id m" for r
      using 2(1) sql_row_unique [OF d that(1)] that(2) by simp
    have "outbox_ok (sql_update (\<lambda>r. ob_id r = ob_id m \<and> open_message r) (take_lease w (now + seconds lease)) rows)"
      by (rule outbox_ok_update [OF assms]) (simp_all add: row_ok_def take_lease_def open_message_def)
    moreover have "sql_update (\<lambda>r. ob_id r = ob_id m \<and> open_message r) (take_lease w (now + seconds lease)) rows =
        sql_update (\<lambda>r. ob_id r = ob_id m \<and> True) (take_lease w (now + seconds lease)) rows"
      unfolding sql_update_def using 2(2) one by (intro map_cong refl) (auto simp: claimable_def)
    ultimately show ?thesis using 2(3) Claim by simp
  qed
next
  case (Deliver i w now)
  then show ?thesis unfolding Deliver outbox_step.simps mark_delivered_def snd_conv
    by (intro outbox_ok_update [OF assms]) (auto simp: row_ok_def open_message_def)
next
  case (Fail i w n err k now)
  have "outbox_ok (sql_update (give_back i w) (bury now err) rows)"
    "outbox_ok (sql_update (give_back i w) (postpone u err) rows)" for u
    by (intro outbox_ok_update [OF assms]; auto simp: row_ok_def open_message_def bury_def postpone_def give_back_keyed)+
  then show ?thesis using assms by (simp add: Fail release_failed_def)
qed

text \<open>What an operation does to the message of a key: nothing, a claim, or the end of its lease.\<close>

definition message_effect :: "outbox_op \<Rightarrow> message list \<Rightarrow> uuid \<Rightarrow> message \<Rightarrow> message \<Rightarrow> bool" where
  "message_effect op rows i m m' \<longleftrightarrow>
     m' = m \<and> message_closes op rows \<noteq> Some i \<and> (\<forall>w. message_frees op rows \<noteq> Some (i, w)) \<or>
     (\<exists>w u. message_claims op rows = Some (i, w, u)) \<and> open_message m \<and> open_message m' \<and>
       message_closes op rows \<noteq> Some i \<and> (\<forall>w. message_frees op rows \<noteq> Some (i, w)) \<or>
     (\<exists>w. message_frees op rows = Some (i, w) \<and> ob_claimed_by m = Some w) \<and> open_message m \<and>
       (open_message m' \<longleftrightarrow> message_closes op rows \<noteq> Some i)"

lemma held_open: "row_ok m \<Longrightarrow> held i w m \<Longrightarrow> open_message m"
  by (auto simp: row_ok_def held_def split: if_splits)

lemma message_change:
  assumes "outbox_ok rows" "sql_row ob_id i rows = Some m"
  obtains m' where "sql_row ob_id i (outbox_step op rows) = Some m'" "message_effect op rows i m m'"
proof (cases op)
  case (Put j inc t sv v p now)
  then show thesis using that assms by (auto simp: put_message_def sql_row_append message_effect_def)
next
  case (Claim w lease now)
  have d: "distinct (map ob_id rows)" using assms by (simp add: outbox_ok_def)
  show thesis
  proof (cases rule: claim_cases [OF d, of now w lease])
    case 1
    then show thesis using that assms Claim by (simp add: message_effect_def)
  next
    case (2 n)
    show thesis
    proof (cases "i = ob_id n")
      case True
      then have "m = n" using 2 assms(2) by simp
      show thesis
        by (rule that [of "take_lease w (now + seconds lease) m"])
           (use 2 True \<open>m = n\<close> Claim assms in \<open>simp_all add: sql_row_update message_effect_def claimable_def
              take_lease_def open_message_def\<close>)
    next
      case False
      show thesis
        by (rule that [of m])
           (use 2 False Claim assms sql_row_Some [OF assms(2)] in \<open>simp_all add: sql_row_update message_effect_def\<close>)
    qed
  qed
next
  case (Deliver j w now)
  have d: "distinct (map ob_id rows)" and r: "row_ok m" using assms sql_row_Some [OF assms(2)]
    by (auto simp: outbox_ok_def list_all_iff)
  have row: "sql_row ob_id i (outbox_step op rows) = Some (if held j w m
      then m\<lparr>ob_delivered := Some now, ob_claimed_by := None, ob_until := None, ob_error := None\<rparr> else m)"
    using step_rows(1) [OF d, of i now j w] by (simp add: Deliver assms(2))
  have key: "ob_id m = i" using sql_row_Some [OF assms(2)] by simp
  note marked = step_rows(4) [OF d, of now j w]
  show thesis
  proof (cases "held j w m")
    case True
    then have "j = i" using key by (simp add: held_def)
    moreover have "fst (mark_delivered now i w rows)" using True marked assms(2) \<open>j = i\<close> by blast
    ultimately show thesis using that [OF row] True held_open [OF r True]
      by (simp add: Deliver message_effect_def held_def open_message_def)
  next
    case False
    have "\<not> fst (mark_delivered now i w rows)" if "j = i" using False marked assms(2) that by auto
    then have "message_effect op rows i m m"
      unfolding Deliver message_effect_def by (cases "j = i") simp_all
    with that [of m] row False show thesis by simp
  qed
next
  case (Fail j w n err k now)
  have d: "distinct (map ob_id rows)" and r: "row_ok m" using assms sql_row_Some [OF assms(2)]
    by (auto simp: outbox_ok_def list_all_iff)
  have key: "ob_id m = i" using sql_row_Some [OF assms(2)] by simp
  note released = step_rows(5) [OF d, of j w]
  define g where "g = (if k \<le> int n then bury now err else postpone (now + seconds (retry_seconds n)) err)"
  have row: "sql_row ob_id i (outbox_step op rows) = Some (if 1 \<le> k \<and> give_back j w m then g m else m)"
    using step_rows(2,3) [OF d, of i j w] by (simp add: Fail release_failed_def assms(2) g_def)
  show thesis
  proof (cases "1 \<le> k \<and> give_back j w m")
    case True
    then have "j = i" "ob_claimed_by m = Some w" "open_message m" using key by (simp_all add: give_back_keyed)
    moreover have "rowcount (give_back i w) rows = 1" using True released assms(2) \<open>j = i\<close> by blast
    moreover have "open_message (g m) \<longleftrightarrow> \<not> k \<le> int n"
      using \<open>open_message m\<close> by (simp add: g_def bury_def postpone_def open_message_def)
    ultimately show thesis using that [OF row] True
      by (simp add: Fail message_effect_def release_failed_def)
  next
    case False
    have "\<not> rowcount (give_back i w) rows = 1" if "j = i" "1 \<le> k" using False released assms(2) that by auto
    then have "message_effect op rows i m m"
      unfolding Fail message_effect_def by (cases "j = i"; cases "1 \<le> k") (simp_all add: release_failed_def)
    with that [of m] row False show thesis by auto
  qed
qed

interpretation oq: leased_queue outbox_ok outbox_step outbox_clock message_lease message_closed message_claims
  message_frees message_closes
proof
  fix rows and op :: outbox_op and i w u l
  show "outbox_ok rows \<Longrightarrow> outbox_ok (outbox_step op rows)" by (rule outbox_step_ok)
  show "\<not> message_closed rows i \<and> (case message_lease rows i of None \<Rightarrow> True | Some (v, t) \<Rightarrow> t < outbox_clock op) \<and>
      message_lease (outbox_step op rows) i = Some (w, u)"
    if ok: "outbox_ok rows" and c: "message_claims op rows = Some (i, w, u)"
  proof (cases op)
    case (Claim v lease now)
    have d: "distinct (map ob_id rows)" using ok by (simp add: outbox_ok_def)
    show ?thesis
    proof (cases rule: claim_cases [OF d, of now v lease])
      case 1
      then show ?thesis using c Claim by simp
    next
      case (2 m)
      then have i: "i = ob_id m" "v = w" "u = now + seconds lease" using c Claim by simp_all
      show ?thesis using 2 i Claim
        by (auto simp: message_closed_def message_lease_def claimable_def sql_row_update take_lease_def split: option.splits)
    qed
  qed (use c in simp_all)
  have d: "distinct (map ob_id rows)" if "outbox_ok rows" using that by (simp add: outbox_ok_def)
  have row: "\<exists>m. sql_row ob_id i rows = Some m \<and> ob_claimed_by m = Some w \<and> open_message m"
    if ok: "outbox_ok rows" and f: "message_frees op rows = Some (i, w)" for w
  proof -
    have r: "row_ok m" if "sql_row ob_id j rows = Some m" for j m
      using ok sql_row_Some [OF that] by (simp add: outbox_ok_def list_all_iff)
    show ?thesis
    proof (cases op)
      case (Deliver j v now)
      then obtain m where m: "sql_row ob_id i rows = Some m" "held i w m"
        using f step_rows(4) [OF d [OF ok], of now j v] by (auto split: if_splits)
      with held_open [OF r [OF m(1)]] show ?thesis by (auto simp: held_def)
    next
      case (Fail j v n err k now)
      then show ?thesis using f step_rows(5) [OF d [OF ok], of j v] by (auto simp: give_back_keyed split: if_splits)
    qed (use f in simp_all)
  qed
  show "\<exists>u. message_lease rows i = Some (w, u)" if ok: "outbox_ok rows" and f: "message_frees op rows = Some (i, w)"
  proof -
    obtain m where m: "sql_row ob_id i rows = Some m" "ob_claimed_by m = Some w" "open_message m"
      using row [OF ok f] by blast
    then have "row_ok m" using ok sql_row_Some [OF m(1)] by (simp add: outbox_ok_def list_all_iff)
    with m show ?thesis by (auto simp: row_ok_def message_lease_def)
  qed
  show "(\<exists>w u. message_claims op rows = Some (i, w, u)) \<or> message_frees op rows = Some (i, fst l)"
    if ok: "outbox_ok rows" and l: "message_lease rows i = Some l" "message_lease (outbox_step op rows) i \<noteq> Some l"
  proof -
    obtain m where m: "sql_row ob_id i rows = Some m" "ob_claimed_by m = Some (fst l)"
      using l(1) by (auto simp: message_lease_def split: option.splits)
    obtain m' where m': "sql_row ob_id i (outbox_step op rows) = Some m'" "message_effect op rows i m m'"
      by (rule message_change [OF ok m(1)])
    have "m' \<noteq> m" using l m(1) m'(1) by (auto simp: message_lease_def)
    with m'(2) m(2) show ?thesis by (auto simp: message_effect_def)
  qed
  show "\<not> message_closed rows i \<and> message_closed (outbox_step op rows) i \<and> (\<exists>w. message_frees op rows = Some (i, w))"
    if ok: "outbox_ok rows" and c: "message_closes op rows = Some i"
  proof -
    have "\<exists>w. message_frees op rows = Some (i, w)"
      using c by (cases op) (auto simp: release_failed_def split: if_splits)
    then obtain w m where f: "message_frees op rows = Some (i, w)" "sql_row ob_id i rows = Some m"
      using row [OF ok] by blast
    obtain m' where m': "sql_row ob_id i (outbox_step op rows) = Some m'" "message_effect op rows i m m'"
      by (rule message_change [OF ok f(2)])
    then show ?thesis using f c by (auto simp: message_effect_def message_closed_def)
  qed
  show "message_closed (outbox_step op rows) i" if ok: "outbox_ok rows" and c: "message_closed rows i"
  proof -
    obtain m where m: "sql_row ob_id i rows = Some m" "\<not> open_message m"
      using c by (auto simp: message_closed_def split: option.splits)
    obtain m' where m': "sql_row ob_id i (outbox_step op rows) = Some m'" "message_effect op rows i m m'"
      by (rule message_change [OF ok m(1)])
    then show ?thesis using m by (auto simp: message_effect_def message_closed_def)
  qed
qed

text \<open>A closed message is frozen: no operation changes its row.\<close>

lemma closed_frozen:
  assumes "outbox_ok rows" "sql_row ob_id i rows = Some m" "\<not> open_message m"
  shows "sql_row ob_id i (fold outbox_step ops rows) = Some m"
  using assms
proof (induction ops arbitrary: rows)
  case (Cons op ops)
  obtain m' where m': "sql_row ob_id i (outbox_step op rows) = Some m'" "message_effect op rows i m m'"
    by (rule message_change [OF Cons.prems(1,2)])
  then have "m' = m" using Cons.prems(3) by (auto simp: message_effect_def)
  with m'(1) Cons.IH [OF outbox_step_ok [OF Cons.prems(1)]] Cons.prems(3) show ?case by simp
qed simp

section \<open>Properties\<close>

lemma outbox_run_ok: "outbox_ok (fold outbox_step ops [])"
  by (rule oq.run_ok) (simp add: outbox_ok_def)

text \<open>
  C31. A lease is exclusive. In any run of any workers, from the claim of a message until the lease ends
  or its holder acknowledges or gives it back, no operation claims that message.
\<close>

theorem outbox_lease_exclusive:
  assumes "message_claims op (fold outbox_step before []) = Some (i, w, u)" "list_all (\<lambda>q. outbox_clock q \<le> u) ops"
    and "Some (i, w) \<notin> set (history outbox_step message_frees ops (fold outbox_step (before @ [op]) []))"
  shows "list_all (\<lambda>c. case c of None \<Rightarrow> True | Some (j, _, _) \<Rightarrow> j \<noteq> i)
    (history outbox_step message_claims ops (fold outbox_step (before @ [op]) []))"
  using oq.lease_exclusive [OF outbox_run_ok assms(1,2)] assms(3) by simp

definition sample_put :: outbox_op where
  "sample_put = Put ''m1'' ''i1'' ''t1'' ''checkout'' ''1.0.0'' JNull 0"

theorem outbox_lease_exclusive_witness:
  "message_claims (Claim ''a'' 120 1000000) (fold outbox_step [sample_put] []) = Some (''m1'', ''a'', 121000000) \<and>
   list_all (\<lambda>c. case c of None \<Rightarrow> True | Some (j, _, _) \<Rightarrow> j \<noteq> ''m1'')
     (history outbox_step message_claims [Claim ''b'' 60 2000000, Claim ''a'' 60 121000000]
       (fold outbox_step ([sample_put] @ [Claim ''a'' 120 1000000]) []))"
proof
  have m: "next_message 1000000 [new_message ''m1'' ''i1'' ''t1'' ''checkout'' ''1.0.0'' JNull 0] =
      Some (new_message ''m1'' ''i1'' ''t1'' ''checkout'' ''1.0.0'' JNull 0)"
    by (simp add: next_message_def claimable_def open_message_def new_message_def)
  show c: "message_claims (Claim ''a'' 120 1000000) (fold outbox_step [sample_put] []) = Some (''m1'', ''a'', 121000000)"
    by (simp add: sample_put_def put_message_def claim_def m sql_returning_def take_lease_def Let_def)
      (simp add: new_message_def)
  show "list_all (\<lambda>c. case c of None \<Rightarrow> True | Some (j, _, _) \<Rightarrow> j \<noteq> ''m1'')
     (history outbox_step message_claims [Claim ''b'' 60 2000000, Claim ''a'' 60 121000000]
       (fold outbox_step ([sample_put] @ [Claim ''a'' 120 1000000]) []))"
    by (rule outbox_lease_exclusive [OF c]) simp_all
qed

text \<open>
  C30. A message is settled at most once: in any run of any workers, at most one operation acknowledges
  or buries it, and from then on its row does not change and it is never claimed again.
\<close>

theorem outbox_settled_once:
  "length (filter (\<lambda>c. c = Some i) (history outbox_step message_closes ops [])) \<le> 1 \<and>
   (case sql_row ob_id i (fold outbox_step ops []) of
      None \<Rightarrow> True
    | Some m \<Rightarrow> if open_message m then True
        else sql_row ob_id i (fold outbox_step (ops @ later) []) = Some m \<and>
          list_all (\<lambda>c. case c of None \<Rightarrow> True | Some (j, _, _) \<Rightarrow> j \<noteq> i)
            (history outbox_step message_claims later (fold outbox_step ops [])))"
proof
  show "length (filter (\<lambda>c. c = Some i) (history outbox_step message_closes ops [])) \<le> 1"
    using oq.closed_once outbox_run_ok [of "[]"] by simp
  show "case sql_row ob_id i (fold outbox_step ops []) of None \<Rightarrow> True
    | Some m \<Rightarrow> if open_message m then True
        else sql_row ob_id i (fold outbox_step (ops @ later) []) = Some m \<and>
          list_all (\<lambda>c. case c of None \<Rightarrow> True | Some (j, _, _) \<Rightarrow> j \<noteq> i)
            (history outbox_step message_claims later (fold outbox_step ops []))"
    using closed_frozen [OF outbox_run_ok, of i ops _ later] oq.closed_final [OF outbox_run_ok, of ops i later]
    by (auto simp: message_closed_def split: option.split)
qed

lemma retry_seconds_bounds: "1 \<le> retry_seconds n \<and> retry_seconds n \<le> 256"
proof -
  have "(2 :: int) ^ min n 8 \<le> 2 ^ 8" by (rule power_increasing) simp_all
  then show ?thesis by (simp add: retry_seconds_def)
qed



text \<open>One turn of the loop when no other worker interferes.\<close>

definition is_delivered :: "message \<Rightarrow> bool" where
  "is_delivered m \<longleftrightarrow> ob_delivered m \<noteq> None"

definition attempts_of :: "message list \<Rightarrow> nat" where
  "attempts_of rows = sum_list (map ob_attempts rows)"

lemma sum_update:
  assumes "distinct (map ob_id rows)" "sql_row ob_id i rows = Some m" "\<And>r. P r \<longleftrightarrow> ob_id r = i \<and> Q r" "Q m"
  shows "sum_list (map (g :: message \<Rightarrow> nat) (sql_update P f rows)) + g m = sum_list (map g rows) + g (f m)"
  using assms(1,2)
proof (induction rows)
  case (Cons r rows)
  show ?case
  proof (cases "ob_id r = i")
    case True
    then have "\<not> P q" if "q \<in> set rows" for q using Cons.prems(1) that by (auto simp: assms(3) image_iff)
    then have "sql_update P f rows = rows" by (intro sql_update_none) blast
    then show ?thesis using True Cons.prems assms(3,4) by (simp add: sql_update_def sql_row_def)
  next
    case False
    then show ?thesis using Cons assms(3) by (simp add: sql_update_def sql_row_def)
  qed
qed (simp add: sql_row_def)

definition delivered_count :: "message list \<Rightarrow> nat" where
  "delivered_count rows = sum_list (map (\<lambda>m. if is_delivered m then 1 else 0) rows)"

lemma deliver_one_alone:
  assumes "outbox_ok rows" "tn_others t = (\<lambda>rows. rows)" "1 \<le> k"
  shows "case deliver_one t w k lease rows of
     (Inl e, rows') \<Rightarrow> e = ArchiveCrashed
   | (Inr None, rows') \<Rightarrow> rows' = rows \<and> next_message (tn_claim_at t) rows = None
   | (Inr (Some b), rows') \<Rightarrow> outbox_ok rows' \<and> map ob_id rows' = map ob_id rows \<and>
       delivered_count rows' = delivered_count rows + (if b then 1 else 0) \<and> attempts_of rows' = attempts_of rows + 1"
proof -
  have d: "distinct (map ob_id rows)" using assms(1) by (simp add: outbox_ok_def)
  show ?thesis
  proof (cases rule: claim_cases [OF d, of "tn_claim_at t" w lease])
    case 1
    then show ?thesis by (simp add: deliver_one_def)
  next
    case (2 m)
    define f where "f = take_lease w (tn_claim_at t + seconds lease)"
    define rows1 where "rows1 = sql_update (\<lambda>r. ob_id r = ob_id m \<and> True) f rows"
    have c: "claim (tn_claim_at t) w lease rows = (Some (f m), rows1)" using 2(3) by (simp add: f_def rows1_def)
    have ok1: "outbox_ok rows1" using outbox_step_ok [OF assms(1), of "Claim w lease (tn_claim_at t)"] c by simp
    then have d1: "distinct (map ob_id rows1)" by (simp add: outbox_ok_def)
    have ids1: "map ob_id rows1 = map ob_id rows"
      unfolding rows1_def by (rule sql_update_keys) (simp add: f_def)
    have row1: "sql_row ob_id (ob_id m) rows1 = Some (f m)"
      using 2(1) unfolding rows1_def by (subst sql_row_update) (simp_all add: f_def)
    note sum1 = sum_update [OF d 2(1), of "\<lambda>r. ob_id r = ob_id m \<and> True" "\<lambda>_. True" _ f, folded rows1_def]
    have s1: "attempts_of rows1 = attempts_of rows + 1" "delivered_count rows1 = delivered_count rows"
      using sum1 [of ob_attempts] sum1 [of "\<lambda>m. if is_delivered m then 1 else 0"]
      by (simp_all add: attempts_of_def delivered_count_def f_def take_lease_def is_delivered_def)
    have h: "held (ob_id m) w (f m)" "give_back (ob_id m) w (f m)"
      using 2(2) by (simp_all add: f_def take_lease_def held_def give_back_def claimable_def open_message_def)
    have key: "ob_id (f m) = ob_id m" by (simp add: f_def)
    note sum_back = sum_update [OF d1 row1, where P = "give_back (ob_id m) w" and
        Q = "\<lambda>r. ob_claimed_by r = Some w \<and> open_message r", OF give_back_keyed]
    have fail: "\<exists>rows'. fail_message t w k (f m) err rows1 = (Inr (Some False), rows') \<and> outbox_ok rows' \<and>
        map ob_id rows' = map ob_id rows \<and> delivered_count rows' = delivered_count rows \<and>
        attempts_of rows' = attempts_of rows + 1" for err
    proof -
      define g where "g = (if k \<le> int (ob_attempts (f m)) then bury (tn_fail_at t) err
         else postpone (tn_fail_at t + seconds (retry_seconds (ob_attempts (f m)))) err)"
      have g: "ob_attempts (g n) = ob_attempts n" "is_delivered (g n) = is_delivered n" for n
        by (simp_all add: g_def bury_def postpone_def is_delivered_def)
      define rows2 where "rows2 = sql_update (give_back (ob_id m) w) g rows1"
      have r: "snd (release_failed (tn_fail_at t) (ob_id m) w (ob_attempts (f m)) err k rows1) = rows2"
        "\<exists>b. fst (release_failed (tn_fail_at t) (ob_id m) w (ob_attempts (f m)) err k rows1) = Inr b"
        using assms(3) by (auto simp: release_failed_def rows2_def g_def)
      then have "fail_message t w k (f m) err rows1 = (Inr (Some False), rows2)"
        by (cases "release_failed (tn_fail_at t) (ob_id m) w (ob_attempts (f m)) err k rows1")
           (auto simp: fail_message_def key bind_s_def return_s_def)
      moreover have "outbox_ok rows2"
        using outbox_step_ok [OF ok1, of "Fail (ob_id m) w (ob_attempts (f m)) err k (tn_fail_at t)"] r by simp
      moreover have "map ob_id rows2 = map ob_id rows"
        unfolding rows2_def ids1 [symmetric] by (rule sql_update_keys) (simp add: g_def)
      moreover have "attempts_of rows2 = attempts_of rows1" "delivered_count rows2 = delivered_count rows1"
        using sum_back [of ob_attempts g] sum_back [of "\<lambda>m. if is_delivered m then 1 else 0" g] h(2)
        by (simp_all add: attempts_of_def delivered_count_def rows2_def give_back_keyed g)
      ultimately show ?thesis using s1 by auto
    qed
    have ack: "\<exists>rows'. mark_delivered (tn_ack_at t) (ob_id m) w rows1 = (True, rows') \<and> outbox_ok rows' \<and>
        map ob_id rows' = map ob_id rows \<and> delivered_count rows' = delivered_count rows + 1 \<and>
        attempts_of rows' = attempts_of rows + 1"
    proof -
      define g :: "message \<Rightarrow> message" where "g = (\<lambda>m. m\<lparr>ob_delivered := Some (tn_ack_at t), ob_claimed_by := None, ob_until := None, ob_error := None\<rparr>)"
      define rows2 where "rows2 = sql_update (held (ob_id m) w) g rows1"
      note sum_held = sum_update [OF d1 row1, where P = "held (ob_id m) w" and
        Q = "\<lambda>r. ob_claimed_by r = Some w \<and> ob_delivered r = None", OF held_keyed]
      have r: "mark_delivered (tn_ack_at t) (ob_id m) w rows1 = (True, rows2)"
        using step_rows(4) [OF d1, of "tn_ack_at t" "ob_id m" w] row1 h(1) by (simp add: mark_delivered_def rows2_def g_def)
      moreover have "outbox_ok rows2" using outbox_step_ok [OF ok1, of "Deliver (ob_id m) w (tn_ack_at t)"] r by simp
      moreover have "map ob_id rows2 = map ob_id rows"
        unfolding rows2_def ids1 [symmetric] by (rule sql_update_keys) (simp add: g_def)
      moreover have "attempts_of rows2 = attempts_of rows1" "delivered_count rows2 = delivered_count rows1 + 1"
        using sum_held [of ob_attempts g] sum_held [of "\<lambda>m. if is_delivered m then 1 else 0" g] h(1)
        by (simp_all add: attempts_of_def delivered_count_def rows2_def held_keyed g_def is_delivered_def)
      ultimately show ?thesis using s1 by auto
    qed
    obtain rows3 where ack3: "mark_delivered (tn_ack_at t) (ob_id m) w rows1 = (True, rows3)" "outbox_ok rows3"
        "map ob_id rows3 = map ob_id rows" "delivered_count rows3 = delivered_count rows + 1"
        "attempts_of rows3 = attempts_of rows + 1" using ack by blast
    show ?thesis
    proof (cases "tn_archive t (f m)")
      case (Refused err)
      then show ?thesis using c fail [of err] by (auto simp: deliver_one_def assms(2) Let_def)
    qed (use c ack3 in \<open>simp_all add: deliver_one_def assms(2) key Let_def\<close>)
  qed
qed


definition sample_turn :: turn where
  "sample_turn = \<lparr>tn_claim_at = 1000000, tn_archive = (\<lambda>_. Archived), tn_others = (\<lambda>rows. rows),
     tn_ack_at = 2000000, tn_fail_at = 3000000\<rparr>"


end
