(* ===== verification/Outbox_Drain.thy ===== *)
theory Outbox_Drain
  imports Outbox
begin

text \<open>
  Progress of the evidence outbox: a delivery pass against an archive that answers empties it, and what a message that the
  archive always refuses comes to.
\<close>

section \<open>A pass that nothing disturbs\<close>

definition undisturbed :: "time \<Rightarrow> turn \<Rightarrow> bool" where
  "undisturbed now t \<longleftrightarrow> tn_others t = (\<lambda>rows. rows) \<and> now \<le> tn_claim_at t"

definition kept_or_delivered :: "message \<Rightarrow> message \<Rightarrow> bool" where
  "kept_or_delivered m m' \<longleftrightarrow> (if m' = m then True else is_delivered m')"

lemma claimable_later: "claimable now m \<Longrightarrow> now \<le> later \<Longrightarrow> claimable later m"
  by (auto simp: claimable_def split: option.splits)

lemma next_message_None: "next_message now rows = None \<longleftrightarrow> filter (claimable now) rows = []"
proof (cases "sort_key ob_created (filter (claimable now) rows)")
  case Nil
  then have "filter (claimable now) rows = []" by (metis length_0_conv length_sort)
  then show ?thesis by (simp add: next_message_def)
next
  case (Cons m ms)
  then have "filter (claimable now) rows \<noteq> []" by auto
  then show ?thesis using Cons by (simp add: next_message_def)
qed

text \<open>What a turn does to the table when it claims a message: one row is replaced.\<close>

definition replaced :: "message \<Rightarrow> message \<Rightarrow> message list \<Rightarrow> message list" where
  "replaced m m' = map (\<lambda>x. if x = m then m' else x)"

lemma sum_replaced:
  "m \<in> set rows \<Longrightarrow> g m' < g m \<Longrightarrow> sum_list (map (g :: message \<Rightarrow> nat) (replaced m m' rows)) < sum_list (map g rows)"
proof (induction rows)
  case (Cons x rows)
  have "sum_list (map g (replaced m m' rows)) \<le> sum_list (map g rows)" if "g m' \<le> g m"
    using that unfolding replaced_def map_map o_def by (intro sum_list_mono) auto
  then show ?case using Cons by (cases "x = m") (auto simp: replaced_def)
qed simp

lemma rowcount_sum: "rowcount P rows = sum_list (map (\<lambda>x. if P x then 1 else 0) rows)"
  by (induction rows) (simp_all add: rowcount_def)

lemma claim_alone:
  assumes "outbox_ok rows"
  obtains "claim now w lease rows = (None, rows)" "filter (claimable now) rows = []"
  | m m1 rows1 where "m \<in> set rows" "claimable now m" "m1 = take_lease w (now + seconds lease) m"
    "claim now w lease rows = (Some m1, rows1)" "outbox_ok rows1" "sql_row ob_id (ob_id m) rows1 = Some m1"
    "\<And>P g. P m1 \<Longrightarrow> (\<And>x. P x \<Longrightarrow> ob_id x = ob_id m) \<Longrightarrow> sql_update P g rows1 = replaced m (g m1) rows"
proof -
  have d: "distinct (map ob_id rows)" using assms by (simp add: outbox_ok_def)
  show thesis
  proof (cases rule: claim_cases [OF d, of now w lease])
    case 1
    then show thesis using that(1) by (simp add: next_message_None)
  next
    case (2 m)
    define f where "f = take_lease w (now + seconds lease)"
    define rows1 where "rows1 = sql_update (\<lambda>r. ob_id r = ob_id m \<and> True) f rows"
    have c: "claim now w lease rows = (Some (f m), rows1)" using 2(3) by (simp add: f_def rows1_def)
    have ok1: "outbox_ok rows1" using outbox_step_ok [OF assms, of "Claim w lease now"] c by simp
    have row1: "sql_row ob_id (ob_id m) rows1 = Some (f m)"
      using 2(1) unfolding rows1_def by (subst sql_row_update) (simp_all add: f_def)
    have one: "x = m" if "x \<in> set rows" "ob_id x = ob_id m" for x
      using 2(1) sql_row_unique [OF d that(1)] that(2) by simp
    have "sql_update P g rows1 = replaced m (g (f m)) rows"
      if "P (f m)" "\<And>x. P x \<Longrightarrow> ob_id x = ob_id m" for P g
      unfolding rows1_def replaced_def sql_update_def map_map o_def
      using one that by (intro map_cong refl) (auto simp: f_def)
    with that(2) [OF _ 2(2) f_def [THEN fun_cong] c ok1 row1] sql_row_Some [OF 2(1)] show thesis by blast
  qed
qed

lemma acknowledged:
  assumes "outbox_ok rows1" "sql_row ob_id i rows1 = Some m1" "held i w m1"
    and "\<And>P g. P m1 \<Longrightarrow> (\<And>x. P x \<Longrightarrow> ob_id x = i) \<Longrightarrow> sql_update P g rows1 = replaced m (g m1) rows"
  shows "mark_delivered now i w rows1 =
    (True, replaced m (m1\<lparr>ob_delivered := Some now, ob_claimed_by := None, ob_until := None, ob_error := None\<rparr>) rows)"
proof -
  have "distinct (map ob_id rows1)" using assms(1) by (simp add: outbox_ok_def)
  from step_rows(4) [OF this, of now i w] have "rowcount (held i w) rows1 = 1"
    using assms(2,3) by (simp add: mark_delivered_def)
  moreover have "sql_update (held i w) g rows1 = replaced m (g m1) rows" for g
    by (rule assms(4) [where P = "held i w", OF assms(3)]) (simp add: held_def)
  ultimately show ?thesis by (simp add: mark_delivered_def)
qed

lemma deliver_one_archived:
  assumes "outbox_ok rows" "undisturbed now t" "tn_archive t = (\<lambda>_. Archived)" "rowcount open_message rows \<le> Suc n"
  obtains "deliver_one t w k lease rows = (Inr None, rows)" "filter (claimable now) rows = []"
  | rows' where "deliver_one t w k lease rows = (Inr (Some True), rows')" "outbox_ok rows'"
    "list_all2 kept_or_delivered rows rows'" "rowcount open_message rows' \<le> n"
proof (cases rule: claim_alone [OF assms(1), of "tn_claim_at t" w lease])
  case 1
  then have "filter (claimable now) rows = []"
    using assms(2) claimable_later by (auto simp: undisturbed_def filter_empty_conv)
  then show thesis using that(1) 1 by (simp add: deliver_one_def)
next
  case (2 m m1 rows1)
  define m' where "m' = m1\<lparr>ob_delivered := Some (tn_ack_at t), ob_claimed_by := None, ob_until := None, ob_error := None\<rparr>"
  have opened: "open_message m" "\<not> open_message m'" "is_delivered m'"
    using 2(2) by (simp_all add: claimable_def m'_def open_message_def is_delivered_def)
  have h: "held (ob_id m) w m1"
    using opened(1) by (simp add: 2(3) take_lease_def held_def open_message_def)
  have r: "mark_delivered (tn_ack_at t) (ob_id m) w rows1 = (True, replaced m m' rows)"
    unfolding m'_def by (rule acknowledged [OF 2(5,6) h 2(7)])
  have "outbox_ok (replaced m m' rows)" using outbox_step_ok [OF 2(5), of "Deliver (ob_id m) w (tn_ack_at t)"] r by simp
  moreover have "list_all2 kept_or_delivered rows (replaced m m' rows)"
    unfolding replaced_def using opened(3) by (auto simp: list_all2_map2 kept_or_delivered_def intro: list.rel_refl_strong)
  moreover have "rowcount open_message (replaced m m' rows) \<le> n"
    using sum_replaced [OF 2(1), of "\<lambda>x. if open_message x then 1 else 0" m'] opened assms(4) by (simp add: rowcount_sum)
  moreover have "deliver_one t w k lease rows = (Inr (Some True), replaced m m' rows)"
    using 2(3,4) r assms(2,3) by (simp add: deliver_one_def undisturbed_def)
  ultimately show thesis using that(2) by blast
qed

text \<open>
  The outbox drains. When the archive accepts what it is given and no other worker interferes, a delivery pass whose
  limit is at least the number of open messages returns without a failed delivery; every message that was claimable when
  it began is delivered, and no other message changes except by being delivered.
\<close>

theorem outbox_drains:
  assumes "outbox_ok rows" "\<And>n. undisturbed now (turns n)" "\<And>n. tn_archive (turns n) = (\<lambda>_. Archived)"
    and "rowcount open_message rows \<le> limit"
  shows "\<exists>delivered rows'. deliver_available turns w limit k lease rows = (Inr (delivered, 0), rows') \<and>
    list_all2 (\<lambda>m m'. if claimable now m then is_delivered m' else kept_or_delivered m m') rows rows'"
  using assms
proof (induction limit arbitrary: turns rows)
  case 0
  then have "\<not> claimable now m" if "m \<in> set rows" for m
    using that by (auto simp: rowcount_def filter_empty_conv claimable_def)
  then show ?case by (auto simp: return_s_def kept_or_delivered_def intro: list.rel_refl_strong)
next
  case (Suc limit)
  show ?case
  proof (cases rule: deliver_one_archived [OF Suc.prems(1) Suc.prems(2) [of 0] Suc.prems(3) [of 0] Suc.prems(4), of w k lease])
    case 1
    then show ?thesis
      by (auto simp: bind_s_def return_s_def kept_or_delivered_def filter_empty_conv intro: list.rel_refl_strong)
  next
    case (2 rows1)
    obtain d rows2 where later: "deliver_available (\<lambda>n. turns (Suc n)) w limit k lease rows1 = (Inr (d, 0), rows2)"
      "list_all2 (\<lambda>m m'. if claimable now m then is_delivered m' else kept_or_delivered m m') rows1 rows2"
      using Suc.IH [OF 2(2), of "\<lambda>n. turns (Suc n)"] Suc.prems(2,3) 2(4) by blast
    have "list_all2 (\<lambda>m m'. if claimable now m then is_delivered m' else kept_or_delivered m m') rows rows2"
      by (rule list_all2_trans [OF _ 2(3) later(2)]) (auto simp: kept_or_delivered_def split: if_splits)
    then show ?thesis using 2(1) later(1) by (simp add: bind_s_def return_s_def)
  qed
qed

theorem outbox_drains_witness:
  "\<exists>delivered rows'. deliver_available (\<lambda>_. sample_turn) ''a'' 1 8 120 (fold outbox_step [sample_put] []) = (Inr (delivered, 0), rows') \<and>
     list_all is_delivered rows'"
proof -
  let ?n = "new_message ''m1'' ''i1'' ''t1'' ''checkout'' ''1.0.0'' JNull 0"
  have rows: "fold outbox_step [sample_put] [] = [?n]" by (simp add: sample_put_def put_message_def)
  have turn: "undisturbed 1000000 sample_turn" "tn_archive sample_turn = (\<lambda>_. Archived)"
    by (simp_all add: undisturbed_def sample_turn_def)
  have ok: "outbox_ok [?n]" using outbox_run_ok [of "[sample_put]"] rows by simp
  have open': "rowcount open_message [?n] \<le> 1" "claimable 1000000 ?n"
    by (simp_all add: rowcount_def claimable_def open_message_def new_message_def)
  obtain d rows' where "deliver_available (\<lambda>_. sample_turn) ''a'' 1 8 120 [?n] = (Inr (d, 0), rows')"
    "list_all2 (\<lambda>m m'. if claimable 1000000 m then is_delivered m' else kept_or_delivered m m') [?n] rows'"
    using outbox_drains [OF ok turn open'(1), where w = "''a''" and k = 8 and lease = 120] by blast
  then show ?thesis using open'(2) rows by (auto simp: list_all2_Cons1)
qed

section \<open>An archive that refuses\<close>

text \<open>The open messages wait for nothing and have attempts left; every attempt spends one.\<close>

definition waiting :: "int \<Rightarrow> time \<Rightarrow> message list \<Rightarrow> bool" where
  "waiting k now rows \<longleftrightarrow> list_all (\<lambda>m. if open_message m then claimable now m \<and> int (ob_attempts m) < k else True) rows"

definition left_of :: "int \<Rightarrow> message \<Rightarrow> nat" where
  "left_of k m = (if open_message m then nat (k - int (ob_attempts m)) else 0)"

definition attempts_left :: "int \<Rightarrow> message list \<Rightarrow> nat" where
  "attempts_left k rows = sum_list (map (left_of k) rows)"

definition follows :: "turn \<Rightarrow> turn \<Rightarrow> bool" where
  "follows t t' \<longleftrightarrow> tn_claim_at t \<le> tn_claim_at t' \<and> tn_fail_at t + seconds 256 \<le> tn_claim_at t'"

lemma waiting_replaced:
  assumes "waiting k now rows" "now \<le> later" "waiting k later [m']"
  shows "waiting k later (replaced m m' rows)"
  using assms claimable_later [OF _ assms(2)] by (auto simp: waiting_def replaced_def list_all_iff)

definition refused_message :: "turn \<Rightarrow> int \<Rightarrow> string \<Rightarrow> message \<Rightarrow> message" where
  "refused_message t k err m = (if k \<le> int (ob_attempts m) then bury (tn_fail_at t) err m
     else postpone (tn_fail_at t + seconds (retry_seconds (ob_attempts m))) err m)"

lemma refused:
  assumes "outbox_ok rows1" "give_back i w m1" "1 \<le> k"
    and "\<And>P g. P m1 \<Longrightarrow> (\<And>x. P x \<Longrightarrow> ob_id x = i) \<Longrightarrow> sql_update P g rows1 = replaced m (g m1) rows"
  shows "fail_message t w k m1 err rows1 = (Inr (Some False), replaced m (refused_message t k err m1) rows)"
    "outbox_ok (replaced m (refused_message t k err m1) rows)"
proof -
  have u: "sql_update (give_back i w) g rows1 = replaced m (g m1) rows" for g
    by (rule assms(4) [where P = "give_back i w", OF assms(2)]) (simp add: give_back_keyed)
  have "ob_id m1 = i" using assms(2) by (simp add: give_back_keyed)
  then show "fail_message t w k m1 err rows1 = (Inr (Some False), replaced m (refused_message t k err m1) rows)"
    using u assms(3) by (simp add: fail_message_def release_failed_def refused_message_def bind_s_def return_s_def)
  show "outbox_ok (replaced m (refused_message t k err m1) rows)"
    using outbox_step_ok [OF assms(1), of "Fail i w (ob_attempts m1) err k (tn_fail_at t)"] u assms(3)
    by (simp add: release_failed_def refused_message_def split: if_splits)
qed

lemma refused_waiting:
  assumes "open_message m1" "tn_fail_at t + seconds 256 \<le> later"
  shows "waiting k later [refused_message t k err m1]"
proof -
  have "tn_fail_at t + seconds (retry_seconds (ob_attempts m1)) \<le> tn_fail_at t + seconds 256"
    using retry_seconds_bounds [of "ob_attempts m1"] by simp
  then show ?thesis using assms
    by (simp add: waiting_def refused_message_def bury_def postpone_def open_message_def claimable_def)
qed

lemma refused_left:
  assumes "open_message m1"
  shows "left_of k (refused_message t k err m1) = nat (k - int (ob_attempts m1))"
  using assms by (simp add: left_of_def refused_message_def bury_def postpone_def open_message_def)

lemma deliver_one_settles:
  assumes "outbox_ok rows" "tn_others t = (\<lambda>rows. rows)" "\<And>m. tn_archive t m \<noteq> Crashed" "1 \<le> k"
    and "waiting k (tn_claim_at t) rows" "follows t t'"
  obtains "deliver_one t w k lease rows = (Inr None, rows)" "list_all (\<lambda>m. \<not> open_message m) rows"
  | b rows' where "deliver_one t w k lease rows = (Inr (Some b), rows')" "outbox_ok rows'"
    "waiting k (tn_claim_at t') rows'" "attempts_left k rows' < attempts_left k rows"
proof (cases rule: claim_alone [OF assms(1), of "tn_claim_at t" w lease])
  case 1
  then have "list_all (\<lambda>m. \<not> open_message m) rows"
    using assms(5) by (auto simp: waiting_def list_all_iff filter_empty_conv)
  then show thesis using that(1) 1 by (simp add: deliver_one_def)
next
  case (2 m m1 rows1)
  have open': "open_message m" "int (ob_attempts m) < k"
    using 2(1,2) assms(5) by (auto simp: claimable_def waiting_def list_all_iff)
  have h: "held (ob_id m) w m1" "give_back (ob_id m) w m1" "ob_attempts m1 = ob_attempts m + 1" "open_message m1" "ob_id m1 = ob_id m"
    using open'(1) by (simp_all add: 2(3) take_lease_def held_def give_back_def open_message_def)
  note progress = that(2)
  have step: thesis if "deliver_one t w k lease rows = (Inr (Some b), replaced m m' rows)" "outbox_ok (replaced m m' rows)"
    "waiting k (tn_claim_at t') [m']" "left_of k m' < left_of k m" for b m'
  proof -
    have "waiting k (tn_claim_at t') (replaced m m' rows)"
      using waiting_replaced [OF assms(5) _ that(3)] assms(6) by (simp add: follows_def)
    moreover have "attempts_left k (replaced m m' rows) < attempts_left k rows"
      unfolding attempts_left_def by (rule sum_replaced [OF 2(1) that(4)])
    ultimately show thesis using progress that by blast
  qed
  show thesis
  proof (cases "tn_archive t m1")
    case Archived
    define m' where "m' = m1\<lparr>ob_delivered := Some (tn_ack_at t), ob_claimed_by := None, ob_until := None, ob_error := None\<rparr>"
    have r: "mark_delivered (tn_ack_at t) (ob_id m) w rows1 = (True, replaced m m' rows)"
      unfolding m'_def by (rule acknowledged [OF 2(5,6) h(1) 2(7)])
    have "outbox_ok (replaced m m' rows)" using outbox_step_ok [OF 2(5), of "Deliver (ob_id m) w (tn_ack_at t)"] r by simp
    moreover have "deliver_one t w k lease rows = (Inr (Some True), replaced m m' rows)"
      using 2(4) r Archived assms(2) h(5) by (simp add: deliver_one_def)
    moreover have "\<not> open_message m'" by (simp add: m'_def open_message_def)
    ultimately show thesis using step [of True m'] open' by (simp add: waiting_def left_of_def)
  next
    case (Refused err)
    have l: "left_of k (refused_message t k err m1) < left_of k m"
      using refused_left [OF h(4)] h(3) open' by (simp add: left_of_def)
    have v: "waiting k (tn_claim_at t') [refused_message t k err m1]"
      by (rule refused_waiting [OF h(4)]) (use assms(6) in \<open>simp add: follows_def\<close>)
    have "deliver_one t w k lease rows = fail_message t w k m1 err rows1"
      using 2(4) Refused assms(2) by (simp add: deliver_one_def)
    then show thesis
      using step [OF _ refused(2) [OF 2(5) h(2) assms(4) 2(7)] v l] refused(1) [OF 2(5) h(2) assms(4) 2(7)] by metis
  qed (use assms(3) in blast)
qed


definition refusing_turn :: "nat \<Rightarrow> turn" where
  "refusing_turn n = \<lparr>tn_claim_at = seconds (300 * int n), tn_archive = (\<lambda>_. Refused ''timeout''), tn_others = (\<lambda>rows. rows),
     tn_ack_at = seconds (300 * int n), tn_fail_at = seconds (300 * int n + 1)\<rparr>"


end
