(* ===== verification/Receipt_Outbox.thy ===== *)
theory Receipt_Outbox
  imports Lease_Queue Ledger_PG Receipts
begin

text \<open>
  The receipt requests of \<^verbatim>\<open>src/recallops/receipt_outbox.py\<close>: claiming a request under a lease,
  recording its signed receipt and delivering it in one transaction, giving up on it. The two tables
  carry the check constraints, the unique indexes and the update triggers of the migrations
  \<open>030_receipts_release.sql\<close>; a violated one raises and rolls the transaction back.
\<close>

section \<open>The tables\<close>

record receipt_job = request_row +
  rj_status :: string
  rj_available :: time
  rj_claimed_by :: "string option"
  rj_until :: "time option"
  rj_attempts :: nat
  rj_error :: "string option"
  rj_created :: time
  rj_delivered :: "time option"
  rj_dead :: "time option"

record full_receipt = receipt_row +
  fr_manifest_digest :: "string option"
  fr_jws :: "string option"
  fr_object_key :: "string option"
  fr_version :: "string option"
  fr_signed_at :: "time option"

record receipt_db =
  rd_jobs :: "receipt_job list"
  rd_receipts :: "full_receipt list"

definition job_row_ok :: "receipt_job \<Rightarrow> bool" where
  "job_row_ok j \<longleftrightarrow> opt_all (sized 1 200) (rj_claimed_by j) \<and> opt_all (sized 1 100) (rj_error j) \<and>
     (rj_status j = ''pending'' \<and> rj_delivered j = None \<and> rj_dead j = None \<or>
      rj_status j = ''processing'' \<and> rj_claimed_by j \<noteq> None \<and> rj_until j \<noteq> None \<and> rj_delivered j = None \<and> rj_dead j = None \<or>
      rj_status j = ''delivered'' \<and> rj_delivered j \<noteq> None \<and> rj_dead j = None \<or>
      rj_status j = ''dead_lettered'' \<and> rj_delivered j = None \<and> rj_dead j \<noteq> None)"

definition job_binding :: "receipt_job \<Rightarrow> uuid \<times> uuid \<times> string \<times> int \<times> string \<times> bool \<times> time" where
  "job_binding j = (qr_receipt j, qr_run j, qr_tenant j, qr_sequence j, qr_hash j, qr_public j, rj_created j)"

definition job_status_step :: "string \<Rightarrow> string \<Rightarrow> bool" where
  "job_status_step a b \<longleftrightarrow>
     a = ''pending'' \<and> b \<in> {''pending'', ''processing'', ''dead_lettered''} \<or>
     a = ''processing'' \<and> b \<in> {''processing'', ''pending'', ''delivered'', ''dead_lettered''} \<or>
     a = ''delivered'' \<and> b = ''delivered'' \<or> a = ''dead_lettered'' \<and> b = ''dead_lettered''"

definition job_guard :: "receipt_job \<Rightarrow> receipt_job \<Rightarrow> bool" where
  "job_guard old new \<longleftrightarrow> job_binding old = job_binding new \<and> job_status_step (rj_status old) (rj_status new)"

definition receipt_row_ok :: "full_receipt \<Rightarrow> bool" where
  "receipt_row_ok r \<longleftrightarrow> ar_status r \<in> {''pending'', ''signed'', ''failed'', ''superseded''} \<and>
     opt_all hex64 (fr_manifest_digest r) \<and> opt_all hex64 (ar_bundle_digest r) \<and>
     opt_all (sized 64 5000) (fr_jws r) \<and> opt_all (sized 43 43) (ar_thumbprint r) \<and>
     opt_all (\<lambda>a. a = jose_algorithm) (ar_algorithm r) \<and> opt_all (sized 16 1024) (fr_object_key r) \<and>
     opt_all (sized 1 1024) (fr_version r) \<and> opt_all (sized 1 100) (ar_failure r) \<and>
     (if ar_status r = ''signed'' then fr_manifest_digest r \<noteq> None \<and> ar_bundle_digest r \<noteq> None \<and> fr_jws r \<noteq> None \<and>
        ar_thumbprint r \<noteq> None \<and> ar_algorithm r = Some jose_algorithm \<and> fr_object_key r \<noteq> None \<and> fr_version r \<noteq> None \<and>
        fr_signed_at r \<noteq> None \<and> ar_failure r = None else True) \<and>
     (if ar_status r = ''failed'' then ar_failure r \<noteq> None \<and> fr_signed_at r = None else True) \<and>
     (if ar_public_at r = None then True else ar_synthetic r \<and> ar_status r = ''signed'' \<and> fr_object_key r \<noteq> None \<and>
        fr_version r \<noteq> None \<and> ar_bundle_digest r \<noteq> None)"

definition receipt_binding ::
  "full_receipt \<Rightarrow> uuid \<times> string \<times> string \<times> int \<times> string \<times> string \<times> string \<times> string \<times> bool \<times> time" where
  "receipt_binding r = (ar_run r, ar_tenant r, ar_head_hash r, ar_last_sequence r, ar_policy r, ar_source_sha r,
     ar_image r, ar_evaluation r, ar_synthetic r, ar_created r)"

definition receipt_seal ::
  "full_receipt \<Rightarrow> string option \<times> string option \<times> string option \<times> string option \<times> string option \<times> string option" where
  "receipt_seal r = (fr_manifest_digest r, ar_bundle_digest r, fr_jws r, ar_thumbprint r, fr_object_key r, fr_version r)"

definition receipt_status_step :: "string \<Rightarrow> string \<Rightarrow> bool" where
  "receipt_status_step a b \<longleftrightarrow>
     a = ''pending'' \<and> b \<in> {''pending'', ''signed'', ''failed''} \<or> a = ''failed'' \<and> b \<in> {''failed'', ''pending''} \<or>
     a = ''signed'' \<and> b \<in> {''signed'', ''superseded''} \<or> a = ''superseded'' \<and> b = ''superseded''"

definition receipt_guard :: "full_receipt \<Rightarrow> full_receipt \<Rightarrow> bool" where
  "receipt_guard old new \<longleftrightarrow> receipt_binding old = receipt_binding new \<and>
     (if ar_status old = ''signed'' \<or> ar_status old = ''superseded''
      then receipt_seal old = receipt_seal new \<and> ar_algorithm old = ar_algorithm new \<and>
        fr_signed_at old = fr_signed_at new \<and> ar_public_at old = ar_public_at new else True) \<and>
     receipt_status_step (ar_status old) (ar_status new)"

definition active_prefixes :: "full_receipt list \<Rightarrow> (uuid \<times> string \<times> string) list" where
  "active_prefixes rs = map (\<lambda>r. (ar_run r, ar_head_hash r, ar_policy r))
     (filter (\<lambda>r. ar_status r = ''pending'' \<or> ar_status r = ''signed'') rs)"

text \<open>An \<open>UPDATE\<close> under row constraints: \<open>None\<close> when a changed row violates its check or its trigger.\<close>

definition checked_update ::
  "('r \<Rightarrow> bool) \<Rightarrow> ('r \<Rightarrow> 'r \<Rightarrow> bool) \<Rightarrow> ('r \<Rightarrow> bool) \<Rightarrow> ('r \<Rightarrow> 'r) \<Rightarrow> 'r list \<Rightarrow> 'r list option" where
  "checked_update check guard P f rows =
     (if list_all (\<lambda>r. check (f r) \<and> guard r (f r)) (filter P rows) then Some (sql_update P f rows) else None)"

definition update_jobs :: "(receipt_job \<Rightarrow> bool) \<Rightarrow> (receipt_job \<Rightarrow> receipt_job) \<Rightarrow> receipt_db \<Rightarrow> receipt_db option" where
  "update_jobs P f d = map_option (\<lambda>js. d\<lparr>rd_jobs := js\<rparr>) (checked_update job_row_ok job_guard P f (rd_jobs d))"

definition update_receipts :: "(full_receipt \<Rightarrow> bool) \<Rightarrow> (full_receipt \<Rightarrow> full_receipt) \<Rightarrow> receipt_db \<Rightarrow> receipt_db option" where
  "update_receipts P f d = (case checked_update receipt_row_ok receipt_guard P f (rd_receipts d) of
     None \<Rightarrow> None
   | Some rs \<Rightarrow> if distinct (active_prefixes rs) then Some (d\<lparr>rd_receipts := rs\<rparr>) else None)"

section \<open>Operations\<close>

record claimed_request =
  cq_request :: uuid
  cq_receipt :: uuid
  cq_run :: uuid
  cq_tenant :: string
  cq_sequence :: int
  cq_hash :: string
  cq_public :: bool
  cq_attempts :: nat
  cq_created :: time
  cq_policy :: string
  cq_source :: string
  cq_image :: string
  cq_evaluation :: string
  cq_synthetic :: bool

record signed_result =
  sd_manifest_digest :: string
  sd_jws :: string
  sd_thumbprint :: string
  sd_bundle_digest :: string
  sd_object_key :: string
  sd_version :: string

datatype request_error =
    LeaseConfig | NoPendingReceipt | ResultDiffers | LeaseLost | FailurePolicy | TargetLost | TableConstraint

definition job_claimable :: "time \<Rightarrow> receipt_job \<Rightarrow> bool" where
  "job_claimable now j \<longleftrightarrow> rj_available j \<le> now \<and> rj_dead j = None \<and>
     (rj_status j = ''pending'' \<or>
      rj_status j = ''processing'' \<and> (case rj_until j of None \<Rightarrow> False | Some u \<Rightarrow> u < now))"

definition next_job :: "time \<Rightarrow> receipt_job list \<Rightarrow> receipt_job option" where
  "next_job now js = (case sort_key (\<lambda>j. (rj_created j, qr_id j)) (filter (job_claimable now) js) of
     [] \<Rightarrow> None | j # _ \<Rightarrow> Some j)"

definition lease_job :: "string \<Rightarrow> time \<Rightarrow> receipt_job \<Rightarrow> receipt_job" where
  "lease_job worker until j = j\<lparr>rj_status := ''processing'', rj_claimed_by := Some worker, rj_until := Some until,
     rj_attempts := rj_attempts j + 1, rj_error := None\<rparr>"

definition receipt_of_job :: "receipt_job \<Rightarrow> full_receipt \<Rightarrow> bool" where
  "receipt_of_job j r \<longleftrightarrow> ar_id r = qr_receipt j \<and> ar_run r = qr_run j \<and> ar_tenant r = qr_tenant j"

definition request_of :: "receipt_job \<Rightarrow> full_receipt \<Rightarrow> claimed_request" where
  "request_of j r = \<lparr>cq_request = qr_id j, cq_receipt = qr_receipt j, cq_run = qr_run j, cq_tenant = qr_tenant j,
     cq_sequence = qr_sequence j, cq_hash = qr_hash j, cq_public = qr_public j, cq_attempts = rj_attempts j,
     cq_created = rj_created j, cq_policy = ar_policy r, cq_source = ar_source_sha r, cq_image = ar_image r,
     cq_evaluation = ar_evaluation r, cq_synthetic = ar_synthetic r\<rparr>"

definition reopen :: "full_receipt \<Rightarrow> full_receipt" where
  "reopen r = r\<lparr>ar_status := ''pending'', ar_failure := None\<rparr>"

definition claim_request_raw :: "time \<Rightarrow> string \<Rightarrow> int \<Rightarrow> (receipt_db, request_error, claimed_request option) sx" where
  "claim_request_raw now worker lease = (\<lambda>d.
     if worker = [] \<or> lease < 30 \<or> 900 < lease then (Inl LeaseConfig, d)
     else case next_job now (rd_jobs d) of
       None \<Rightarrow> (Inr None, d)
     | Some j0 \<Rightarrow>
        let until = now + seconds lease; j = lease_job worker until j0 in
        case update_jobs (\<lambda>r. qr_id r = qr_id j0) (lease_job worker until) d of
          None \<Rightarrow> (Inl TableConstraint, d)
        | Some d1 \<Rightarrow>
           let failed = (\<lambda>r. receipt_of_job j r \<and> ar_status r = ''failed'') in
           (case update_receipts failed reopen d1 of
              None \<Rightarrow> (Inl TableConstraint, d1)
            | Some d2 \<Rightarrow>
               (case sql_returning failed reopen (rd_receipts d1) of
                  Some r \<Rightarrow> (Inr (Some (request_of j r)), d2)
                | None \<Rightarrow>
                   (case List.find (\<lambda>r. receipt_of_job j r \<and> ar_status r = ''pending'') (rd_receipts d2) of
                      Some r \<Rightarrow> (Inr (Some (request_of j r)), d2)
                    | None \<Rightarrow> (Inl NoPendingReceipt, d2)))))"

definition claim_receipt_request :: "time \<Rightarrow> string \<Rightarrow> int \<Rightarrow> (receipt_db, request_error, claimed_request option) sx" where
  "claim_receipt_request now worker lease = atomic_s (claim_request_raw now worker lease)"

text \<open>The comparison of the signed result with the claimed request.\<close>

definition result_matches :: "claimed_request \<Rightarrow> receipt_manifest \<Rightarrow> signed_result \<Rightarrow> bool" where
  "result_matches q m s \<longleftrightarrow> mf_run m = cq_run q \<and> mf_head_hash m = cq_hash q \<and>
     int (digits_value (mf_event_count m)) = cq_sequence q \<and> rl_source (mf_release m) = cq_source q \<and>
     rl_image (mf_release m) = cq_image q \<and> rl_evaluation (mf_release m) = cq_evaluation q \<and>
     mf_receipt_policy m = cq_policy q \<and> mf_thumbprint m = sd_thumbprint s \<and> hex64 (sd_bundle_digest s)"

definition result_seal ::
  "signed_result \<Rightarrow> string option \<times> string option \<times> string option \<times> string option \<times> string option \<times> string option" where
  "result_seal s = (Some (sd_manifest_digest s), Some (sd_bundle_digest s), Some (sd_jws s), Some (sd_thumbprint s),
     Some (sd_object_key s), Some (sd_version s))"

definition sign_row :: "time \<Rightarrow> bool \<Rightarrow> signed_result \<Rightarrow> full_receipt \<Rightarrow> full_receipt" where
  "sign_row now publish s r = r\<lparr>ar_status := ''signed'', fr_manifest_digest := Some (sd_manifest_digest s),
     ar_bundle_digest := Some (sd_bundle_digest s), fr_jws := Some (sd_jws s), ar_thumbprint := Some (sd_thumbprint s),
     ar_algorithm := Some jose_algorithm, fr_object_key := Some (sd_object_key s), fr_version := Some (sd_version s),
     fr_signed_at := Some now, ar_failure := None, ar_public_at := (if ar_synthetic r \<and> publish then Some now else None)\<rparr>"

definition signable :: "claimed_request \<Rightarrow> full_receipt \<Rightarrow> bool" where
  "signable q r \<longleftrightarrow> ar_id r = cq_receipt q \<and> ar_run r = cq_run q \<and> ar_tenant r = cq_tenant q \<and>
     ar_status r = ''pending'' \<and> ar_head_hash r = cq_hash q \<and> ar_last_sequence r = cq_sequence q \<and>
     ar_policy r = cq_policy q \<and> ar_source_sha r = cq_source q \<and> ar_image r = cq_image q \<and>
     ar_evaluation r = cq_evaluation q"

definition deliver_job :: "time \<Rightarrow> receipt_job \<Rightarrow> receipt_job" where
  "deliver_job now j = j\<lparr>rj_status := ''delivered'', rj_delivered := Some now, rj_claimed_by := None,
     rj_until := None, rj_error := None\<rparr>"

definition job_held :: "uuid \<Rightarrow> string \<Rightarrow> receipt_job \<Rightarrow> bool" where
  "job_held i worker j \<longleftrightarrow> qr_id j = i \<and> rj_status j = ''processing'' \<and> rj_claimed_by j = Some worker"

definition finalize_raw ::
  "time \<Rightarrow> claimed_request \<Rightarrow> string \<Rightarrow> receipt_manifest \<Rightarrow> signed_result \<Rightarrow> (receipt_db, request_error, bool) sx" where
  "finalize_raw now q worker m s = (\<lambda>d.
     if \<not> result_matches q m s then (Inl ResultDiffers, d)
     else case List.find (\<lambda>j. qr_id j = cq_request q \<and> qr_receipt j = cq_receipt q) (rd_jobs d) of
       None \<Rightarrow> (Inr False, d)
     | Some j \<Rightarrow>
        if rj_status j = ''delivered''
        then (Inr (case sql_row ar_id (cq_receipt q) (rd_receipts d) of
                None \<Rightarrow> False | Some r \<Rightarrow> receipt_seal r = result_seal s), d)
        else if rj_status j \<noteq> ''processing'' \<or> rj_claimed_by j \<noteq> Some worker then (Inr False, d)
        else case update_receipts (signable q) (sign_row now (cq_public q) s) d of
          None \<Rightarrow> (Inl TableConstraint, d)
        | Some d1 \<Rightarrow>
           if rowcount (signable q) (rd_receipts d) \<noteq> 1 then (Inr False, d1)
           else case update_jobs (job_held (cq_request q) worker) (deliver_job now) d1 of
             None \<Rightarrow> (Inl TableConstraint, d1)
           | Some d2 \<Rightarrow>
              if rowcount (job_held (cq_request q) worker) (rd_jobs d1) \<noteq> 1 then (Inl LeaseLost, d2)
              else (Inr True, d2))"

definition finalize_receipt_request ::
  "time \<Rightarrow> claimed_request \<Rightarrow> string \<Rightarrow> receipt_manifest \<Rightarrow> signed_result \<Rightarrow> (receipt_db, request_error, bool) sx" where
  "finalize_receipt_request now q worker m s = atomic_s (finalize_raw now q worker m s)"

definition give_up_job :: "bool \<Rightarrow> time \<Rightarrow> time \<Rightarrow> string \<Rightarrow> receipt_job \<Rightarrow> receipt_job" where
  "give_up_job terminal now available code j = j\<lparr>rj_status := (if terminal then ''dead_lettered'' else ''pending''),
     rj_available := available, rj_claimed_by := None, rj_until := None, rj_error := Some code,
     rj_dead := (if terminal then Some now else None)\<rparr>"

definition fail_receipt :: "string \<Rightarrow> full_receipt \<Rightarrow> full_receipt" where
  "fail_receipt code r = r\<lparr>ar_status := ''failed'', ar_failure := Some code\<rparr>"

definition backoff :: "nat \<Rightarrow> int" where
  "backoff attempts = min 300 (2 ^ min attempts 8)"

definition release_raw ::
  "time \<Rightarrow> claimed_request \<Rightarrow> string \<Rightarrow> string \<Rightarrow> int \<Rightarrow> (receipt_db, request_error, bool) sx" where
  "release_raw now q worker code max_attempts = (\<lambda>d.
     if code = [] \<or> 100 < ulen code \<or> max_attempts < 1 then (Inl FailurePolicy, d)
     else let terminal = (max_attempts \<le> int (cq_attempts q)); available = now + seconds (backoff (cq_attempts q)) in
       case update_jobs (job_held (cq_request q) worker) (give_up_job terminal now available code) d of
         None \<Rightarrow> (Inl TableConstraint, d)
       | Some d1 \<Rightarrow>
          if rowcount (job_held (cq_request q) worker) (rd_jobs d) \<noteq> 1 then (Inr False, d1)
          else let target = (\<lambda>r. ar_id r = cq_receipt q \<and> (ar_status r = ''pending'' \<or> ar_status r = ''failed'')) in
            (case update_receipts target (fail_receipt code) d1 of
               None \<Rightarrow> (Inl TableConstraint, d1)
             | Some d2 \<Rightarrow> if rowcount target (rd_receipts d1) \<noteq> 1 then (Inl TargetLost, d2) else (Inr terminal, d2)))"

definition release_receipt_failure ::
  "time \<Rightarrow> claimed_request \<Rightarrow> string \<Rightarrow> string \<Rightarrow> int \<Rightarrow> (receipt_db, request_error, bool) sx" where
  "release_receipt_failure now q worker code max_attempts = atomic_s (release_raw now q worker code max_attempts)"

section \<open>Constrained updates of one row\<close>

lemma update_jobs_put:
  assumes "distinct (map qr_id (rd_jobs d))" "\<And>r. P r \<longleftrightarrow> qr_id r = i \<and> Q r" "\<And>r. qr_id (f r) = qr_id r"
    and "update_jobs P f d = Some d1"
  shows "rowcount P (rd_jobs d) = 0 \<and> d1 = d \<and> (\<forall>j. sql_row qr_id i (rd_jobs d) = Some j \<longrightarrow> \<not> P j) \<or>
    (\<exists>j. rowcount P (rd_jobs d) = 1 \<and> sql_row qr_id i (rd_jobs d) = Some j \<and> P j \<and> job_row_ok (f j) \<and> job_guard j (f j) \<and>
       d1 = d\<lparr>rd_jobs := put_row qr_id (f j) (rd_jobs d)\<rparr>)"
  using assms(4)
  by (cases rule: update_one [OF assms(1-3)]) (auto simp: update_jobs_def checked_update_def split: if_splits)

lemma update_receipts_put:
  assumes "distinct (map ar_id (rd_receipts d))" "\<And>r. P r \<longleftrightarrow> ar_id r = i \<and> Q r" "\<And>r. ar_id (f r) = ar_id r"
    and "update_receipts P f d = Some d1"
  shows "rowcount P (rd_receipts d) = 0 \<and> d1 = d \<and> (\<forall>r. sql_row ar_id i (rd_receipts d) = Some r \<longrightarrow> \<not> P r) \<or>
    (\<exists>r. rowcount P (rd_receipts d) = 1 \<and> sql_row ar_id i (rd_receipts d) = Some r \<and> P r \<and> receipt_row_ok (f r) \<and>
       receipt_guard r (f r) \<and> d1 = d\<lparr>rd_receipts := put_row ar_id (f r) (rd_receipts d)\<rparr>)"
  using assms(4)
  by (cases rule: update_one [OF assms(1-3)]) (auto simp: update_receipts_def checked_update_def split: if_splits)

section \<open>Requests and receipts in step\<close>

text \<open>The status of a request and the status of its receipt that go together.\<close>

definition in_step :: "receipt_job \<Rightarrow> full_receipt \<Rightarrow> bool" where
  "in_step j r \<longleftrightarrow> receipt_of_job j r \<and> ar_head_hash r = qr_hash j \<and> ar_last_sequence r = qr_sequence j \<and>
     (rj_status j = ''pending'' \<and> (ar_status r = ''pending'' \<or> ar_status r = ''failed'') \<or>
      rj_status j = ''processing'' \<and> rj_claimed_by j \<noteq> None \<and> rj_until j \<noteq> None \<and> ar_status r = ''pending'' \<or>
      rj_status j = ''delivered'' \<and> ar_status r = ''signed'' \<or>
      rj_status j = ''dead_lettered'' \<and> ar_status r = ''failed'')"

definition rd_inv :: "receipt_db \<Rightarrow> bool" where
  "rd_inv d \<longleftrightarrow> distinct (map qr_id (rd_jobs d)) \<and> distinct (map qr_receipt (rd_jobs d)) \<and>
     distinct (map ar_id (rd_receipts d)) \<and>
     list_all (\<lambda>j. case sql_row ar_id (qr_receipt j) (rd_receipts d) of None \<Rightarrow> False | Some r \<Rightarrow> in_step j r) (rd_jobs d)"

lemma rd_inv_distinct:
  assumes "rd_inv d"
  shows "distinct (map qr_id (rd_jobs d))" "distinct (map qr_receipt (rd_jobs d))" "distinct (map ar_id (rd_receipts d))"
  using assms by (simp_all add: rd_inv_def)

lemma rd_inv_receipt:
  assumes "rd_inv d" "j \<in> set (rd_jobs d)"
  obtains r where "sql_row ar_id (qr_receipt j) (rd_receipts d) = Some r" "in_step j r" "ar_id r = qr_receipt j"
proof -
  from assms have "case sql_row ar_id (qr_receipt j) (rd_receipts d) of None \<Rightarrow> False | Some r \<Rightarrow> in_step j r"
    by (auto simp: rd_inv_def list_all_iff)
  then obtain r where "sql_row ar_id (qr_receipt j) (rd_receipts d) = Some r" "in_step j r"
    by (auto split: option.splits)
  with that sql_row_Some [OF this(1)] show thesis by blast
qed

text \<open>A request and its receipt replaced together.\<close>

definition put_pair :: "receipt_job \<Rightarrow> full_receipt \<Rightarrow> receipt_db \<Rightarrow> receipt_db" where
  "put_pair j r d = d\<lparr>rd_jobs := put_row qr_id j (rd_jobs d), rd_receipts := put_row ar_id r (rd_receipts d)\<rparr>"

definition has_pair :: "receipt_db \<Rightarrow> receipt_job \<Rightarrow> full_receipt \<Rightarrow> bool" where
  "has_pair d j r \<longleftrightarrow> j \<in> set (rd_jobs d) \<and> sql_row qr_id (qr_id j) (rd_jobs d) = Some j \<and>
     sql_row ar_id (ar_id r) (rd_receipts d) = Some r \<and> in_step j r"

lemma has_pairI:
  assumes "rd_inv d" "sql_row qr_id i (rd_jobs d) = Some j"
  obtains r where "has_pair d j r" "ar_id r = qr_receipt j" "qr_id j = i"
proof -
  have j: "j \<in> set (rd_jobs d)" "qr_id j = i" using sql_row_Some [OF assms(2)] by simp_all
  obtain r where "sql_row ar_id (qr_receipt j) (rd_receipts d) = Some r" "in_step j r" "ar_id r = qr_receipt j"
    by (rule rd_inv_receipt [OF assms(1) j(1)])
  with that j assms(2) show thesis by (simp add: has_pair_def)
qed

lemma put_pair_inv:
  assumes "rd_inv d" "has_pair d j r" "qr_id j' = qr_id j" "qr_receipt j' = qr_receipt j" "ar_id r' = ar_id r" "in_step j' r'"
  shows "rd_inv (put_pair j' r' d)"
proof -
  note d = rd_inv_distinct [OF assms(1)]
  have jr: "ar_id r = qr_receipt j" using assms(2) by (simp add: has_pair_def in_step_def receipt_of_job_def)
  have "map qr_receipt (put_row qr_id j' (rd_jobs d)) = map qr_receipt (rd_jobs d)"
  proof -
    have "qr_receipt (if qr_id x = qr_id j' then j' else x) = qr_receipt x" if "x \<in> set (rd_jobs d)" for x
    proof (cases "qr_id x = qr_id j'")
      case True
      then have "x = j" using sql_row_unique [OF d(1) that] assms(2,3) by (simp add: has_pair_def)
      then show ?thesis using assms(4) by simp
    qed simp
    then show ?thesis by (simp add: put_row_def)
  qed
  moreover have "case sql_row ar_id (qr_receipt x) (put_row ar_id r' (rd_receipts d)) of
      None \<Rightarrow> False | Some r \<Rightarrow> in_step x r" if x: "x \<in> set (put_row qr_id j' (rd_jobs d))" for x
  proof (cases "x = j'")
    case True
    then show ?thesis using assms jr by (simp add: put_row_row has_pair_def)
  next
    case False
    then have in_d: "x \<in> set (rd_jobs d)" "qr_id x \<noteq> qr_id j" using x assms(3) by (auto simp: put_row_def split: if_splits)
    then have "qr_receipt x \<noteq> qr_receipt j" using d(2) assms(2) by (metis distinct_map has_pair_def inj_onD)
    moreover obtain q where "sql_row ar_id (qr_receipt x) (rd_receipts d) = Some q" "in_step x q"
      by (rule rd_inv_receipt [OF assms(1) in_d(1)])
    ultimately show ?thesis using jr assms(5) by (simp add: put_row_row)
  qed
  ultimately show ?thesis using d by (simp add: rd_inv_def put_pair_def list_all_iff)
qed

section \<open>What each operation does to its pair\<close>

lemma next_job_Some:
  assumes "next_job now js = Some j"
  shows "j \<in> set js \<and> job_claimable now j"
proof -
  obtain ks where "sort_key (\<lambda>j. (rj_created j, qr_id j)) (filter (job_claimable now) js) = j # ks"
    using assms by (auto simp: next_job_def split: list.splits)
  then have "set (filter (job_claimable now) js) = set (j # ks)" by (metis set_sort)
  then show ?thesis by auto
qed

lemma row_updates [simp]:
  "qr_id (lease_job w u j) = qr_id j" "qr_receipt (lease_job w u j) = qr_receipt j"
  "qr_id (deliver_job now j) = qr_id j" "qr_receipt (deliver_job now j) = qr_receipt j"
  "qr_id (give_up_job b now a c j) = qr_id j" "qr_receipt (give_up_job b now a c j) = qr_receipt j"
  "ar_id (reopen r) = ar_id r" "ar_id (sign_row now b s r) = ar_id r" "ar_id (fail_receipt c r) = ar_id r"
  by (simp_all add: lease_job_def deliver_job_def give_up_job_def reopen_def sign_row_def fail_receipt_def)

lemma in_step_updates:
  "in_step j r \<Longrightarrow> job_claimable now j \<Longrightarrow>
     in_step (lease_job w u j) (if ar_status r = ''failed'' then reopen r else r) \<and>
     (ar_status r = ''failed'' \<or> ar_status r = ''pending'')"
  "in_step j r \<Longrightarrow> in_step (deliver_job now j) (sign_row now b s r)"
  "in_step j r \<Longrightarrow> in_step (give_up_job t now a c j) (fail_receipt c r)"
  by (auto simp: in_step_def lease_job_def reopen_def receipt_of_job_def job_claimable_def deliver_job_def sign_row_def
      give_up_job_def fail_receipt_def)

lemma put_pair_one:
  assumes "rd_inv d" "has_pair d j r"
  shows "put_pair j' r d = d\<lparr>rd_jobs := put_row qr_id j' (rd_jobs d)\<rparr>"
proof -
  have "r \<in> set (rd_receipts d)" using assms(2) sql_row_Some [of ar_id "ar_id r" "rd_receipts d" r] by (simp add: has_pair_def)
  then have "put_row ar_id r (rd_receipts d) = rd_receipts d" using rd_inv_distinct(3) [OF assms(1)] by (rule put_row_same [rotated])
  then show ?thesis by (simp add: put_pair_def)
qed

definition renewed :: "full_receipt \<Rightarrow> full_receipt" where
  "renewed r = (if ar_status r = ''failed'' then reopen r else r)"

definition leases_pair :: "string \<Rightarrow> time \<Rightarrow> time \<Rightarrow> receipt_db \<Rightarrow> receipt_job \<Rightarrow> full_receipt \<Rightarrow> claimed_request \<Rightarrow> receipt_db \<Rightarrow> bool" where
  "leases_pair w now until d j r q d' \<longleftrightarrow> has_pair d j r \<and> job_claimable now j \<and>
     q = request_of (lease_job w until j) (renewed r) \<and> d' = put_pair (lease_job w until j) (renewed r) d"

lemma claim_raw_step:
  assumes "rd_inv d" "claim_request_raw now w lease d = (res, d')"
  shows "res = Inl LeaseConfig \<or> res = Inl TableConstraint \<or> res = Inr None \<and> d' = d \<or>
    (\<exists>j r q. res = Inr (Some q) \<and> leases_pair w now (now + seconds lease) d j r q d')"
proof -
  consider "w = [] \<or> lease < 30 \<or> 900 < lease" | "next_job now (rd_jobs d) = None"
    | j where "\<not> (w = [] \<or> lease < 30 \<or> 900 < lease)" "next_job now (rd_jobs d) = Some j"
    by (cases "next_job now (rd_jobs d)") auto
  then show ?thesis
  proof cases
    case 1
    then show ?thesis using assms(2) by (auto simp: claim_request_raw_def)
  next
    case 2
    then show ?thesis using assms(2) by (auto simp: claim_request_raw_def split: if_splits)
  next
    case (3 j)
    note dist = rd_inv_distinct [OF assms(1)] and cl = next_job_Some [OF 3(2)]
    have row: "sql_row qr_id (qr_id j) (rd_jobs d) = Some j" using sql_row_unique [OF dist(1)] cl by blast
    obtain r where r: "has_pair d j r" "ar_id r = qr_receipt j" by (rule has_pairI [OF assms(1) row])
    have step: "in_step j r" "sql_row ar_id (qr_receipt j) (rd_receipts d) = Some r" using r by (simp_all add: has_pair_def)
    define l where "l = lease_job w (now + seconds lease)"
    have lj: "qr_id (l x) = qr_id x" "qr_receipt (l x) = qr_receipt x" "receipt_of_job (l x) = receipt_of_job x" for x
      by (simp_all add: l_def lease_job_def receipt_of_job_def fun_eq_iff)
    let ?P = "\<lambda>x. qr_id x = qr_id j" and ?F = "\<lambda>x. receipt_of_job j x \<and> ar_status x = ''failed''"
    note raw = assms(2) [unfolded claim_request_raw_def Let_def, folded l_def]
    show ?thesis
    proof (cases "update_jobs ?P l d")
      case None
      then show ?thesis using raw 3 by (simp add: Let_def)
    next
      case (Some d1)
      have d1: "d1 = d\<lparr>rd_jobs := put_row qr_id (l j) (rd_jobs d)\<rparr>"
        using update_jobs_put [where P = ?P and Q = "\<lambda>_. True" and i = "qr_id j", OF dist(1) _ _ Some] row lj(1) by auto
      show ?thesis
      proof (cases "update_receipts ?F reopen d1")
        case None
        then show ?thesis using raw 3 Some by (simp add: Let_def lj)
      next
        case two: (Some d2)
        have keyed: "?F x \<longleftrightarrow> ar_id x = qr_receipt j \<and> (ar_run x = qr_run j \<and> ar_tenant x = qr_tenant j \<and> ar_status x = ''failed'')" for x
          by (auto simp: receipt_of_job_def)
        have dist1: "distinct (map ar_id (rd_receipts d1))" using dist(3) d1 by simp
        note put = update_receipts_put [where P = ?F, OF dist1 keyed _ two]
        have same: "rd_receipts d1 = rd_receipts d" using d1 by simp
        have ret: "sql_returning ?F reopen (rd_receipts d) = (if ar_status r = ''failed'' then Some (reopen r) else None)"
          using sql_returning_key [OF dist(3), where P = ?F and k = "qr_receipt j", OF keyed] step(2) step(1)
          by (auto simp: in_step_def receipt_of_job_def)
        show ?thesis
        proof (cases "ar_status r = ''failed''")
          case True
          have "?F r" using step(1) True by (simp add: in_step_def)
          then have d2: "d2 = d1\<lparr>rd_receipts := put_row ar_id (reopen r) (rd_receipts d)\<rparr>"
            using put same step(2) by auto
          have "(res, d') = (Inr (Some (request_of (l j) (reopen r))), d2)"
            using raw 3 Some two ret True by (simp add: Let_def lj same)
          moreover have "leases_pair w now (now + seconds lease) d j r (request_of (l j) (reopen r)) d2"
            using r(1) cl True d1 d2 by (simp add: leases_pair_def renewed_def l_def put_pair_def)
          ultimately show ?thesis by blast
        next
          case False
          then have pend: "ar_status r = ''pending''" using in_step_updates(1) [OF step(1)] cl by blast
          have "\<not> ?F r" using False by simp
          then have d2: "d2 = d1" using put same step(2) by auto
          have "List.find (\<lambda>x. receipt_of_job j x \<and> ar_status x = ''pending'') (rd_receipts d) = Some r"
          proof -
            have "(\<lambda>x. receipt_of_job j x \<and> ar_status x = ''pending'') =
                (\<lambda>x. ar_id x = qr_receipt j \<and> (ar_run x = qr_run j \<and> ar_tenant x = qr_tenant j \<and> ar_status x = ''pending''))"
              by (auto simp: receipt_of_job_def)
            then show ?thesis
              using find_key_conj [OF dist(3), of "qr_receipt j"
                  "\<lambda>x. ar_run x = qr_run j \<and> ar_tenant x = qr_tenant j \<and> ar_status x = ''pending''"] step pend
              by (simp add: sql_row_def in_step_def receipt_of_job_def)
          qed
          then have "(res, d') = (Inr (Some (request_of (l j) r)), d1)"
            using raw 3 Some two ret False d2 by (simp add: Let_def lj same)
          moreover have "leases_pair w now (now + seconds lease) d j r (request_of (l j) r) d1"
            using r(1) cl False d1 put_pair_one [OF assms(1) r(1)] by (simp add: leases_pair_def renewed_def l_def)
          ultimately show ?thesis by blast
        qed
      qed
    qed
  qed
qed

definition signs_pair ::
  "time \<Rightarrow> claimed_request \<Rightarrow> string \<Rightarrow> signed_result \<Rightarrow> receipt_db \<Rightarrow> receipt_job \<Rightarrow> full_receipt \<Rightarrow> receipt_db \<Rightarrow> bool" where
  "signs_pair now q w s d j r d' \<longleftrightarrow> has_pair d j r \<and> job_held (cq_request q) w j \<and> qr_receipt j = cq_receipt q \<and>
     signable q r \<and> receipt_row_ok (sign_row now (cq_public q) s r) \<and>
     d' = put_pair (deliver_job now j) (sign_row now (cq_public q) s r) d"

definition already_signed :: "claimed_request \<Rightarrow> signed_result \<Rightarrow> receipt_db \<Rightarrow> bool" where
  "already_signed q s d \<longleftrightarrow> (\<exists>j r. has_pair d j r \<and> qr_id j = cq_request q \<and> qr_receipt j = cq_receipt q \<and> rj_status j = ''delivered'' \<and>
     receipt_seal r = result_seal s)"

lemma put_pair_two:
  "d\<lparr>rd_receipts := put_row ar_id r (rd_receipts d)\<rparr>\<lparr>rd_jobs := put_row qr_id j (rd_jobs d)\<rparr> = put_pair j r d"
  "d\<lparr>rd_jobs := put_row qr_id j (rd_jobs d)\<rparr>\<lparr>rd_receipts := put_row ar_id r (rd_receipts d)\<rparr> = put_pair j r d"
  by (simp_all add: put_pair_def)

lemma job_held_keyed: "job_held i w x \<longleftrightarrow> qr_id x = i \<and> (rj_status x = ''processing'' \<and> rj_claimed_by x = Some w)"
  by (auto simp: job_held_def)

lemma signable_keyed: "signable q r \<longleftrightarrow> ar_id r = cq_receipt q \<and> (ar_run r = cq_run q \<and> ar_tenant r = cq_tenant q \<and>
     ar_status r = ''pending'' \<and> ar_head_hash r = cq_hash q \<and> ar_last_sequence r = cq_sequence q \<and>
     ar_policy r = cq_policy q \<and> ar_source_sha r = cq_source q \<and> ar_image r = cq_image q \<and> ar_evaluation r = cq_evaluation q)"
  by (auto simp: signable_def)

lemma finalize_raw_step:
  assumes "rd_inv d" "finalize_raw now q w m s d = (res, d')"
  shows "res = Inl ResultDiffers \<or> res = Inl TableConstraint \<or>
    d' = d \<and> (res = Inr False \<or> res = Inr True \<and> already_signed q s d) \<or>
    res = Inr True \<and> result_matches q m s \<and> (\<exists>j r. signs_pair now q w s d j r d')"
proof -
  note dist = rd_inv_distinct [OF assms(1)]
  have find: "List.find (\<lambda>j. qr_id j = cq_request q \<and> qr_receipt j = cq_receipt q) (rd_jobs d) =
      (case sql_row qr_id (cq_request q) (rd_jobs d) of None \<Rightarrow> None
       | Some j \<Rightarrow> if qr_receipt j = cq_receipt q then Some j else None)"
    using find_key_conj [OF dist(1), of "cq_request q" "\<lambda>j. qr_receipt j = cq_receipt q"] by (simp add: sql_row_def)
  note raw = assms(2) [unfolded finalize_raw_def find]
  show ?thesis
  proof (cases "result_matches q m s \<and> (\<exists>j. sql_row qr_id (cq_request q) (rd_jobs d) = Some j \<and> qr_receipt j = cq_receipt q)")
    case False
    then show ?thesis using raw by (auto split: option.splits if_splits)
  next
    case True
    then obtain j where j: "sql_row qr_id (cq_request q) (rd_jobs d) = Some j" "qr_receipt j = cq_receipt q" by blast
    obtain r where r: "has_pair d j r" "ar_id r = qr_receipt j" by (rule has_pairI [OF assms(1) j(1)])
    have row: "sql_row ar_id (cq_receipt q) (rd_receipts d) = Some r" "in_step j r" "qr_id j = cq_request q"
      using r j sql_row_Some [OF j(1)] by (simp_all add: has_pair_def)
    note raw1 = raw [unfolded j(1) option.case]
    consider "rj_status j = ''delivered''" | "rj_status j \<noteq> ''delivered''" "\<not> job_held (cq_request q) w j"
      | "job_held (cq_request q) w j" by blast
    then show ?thesis
    proof cases
      case 1
      then have "(res, d') = (Inr (receipt_seal r = result_seal s), d)" using raw1 True j(2) row(1) by simp
      moreover have "already_signed q s d" if "receipt_seal r = result_seal s"
        using 1 r(1) j(2) row(3) that by (auto simp: already_signed_def)
      ultimately show ?thesis by auto
    next
      case 2
      then show ?thesis using raw1 True j(2) row(3) by (auto simp: job_held_def split: if_splits)
    next
      case 3
      then have st: "rj_status j = ''processing''" "rj_claimed_by j = Some w" by (simp_all add: job_held_def)
      note raw2 = raw1 st
      show ?thesis
      proof (cases "update_receipts (signable q) (sign_row now (cq_public q) s) d")
        case None
        then show ?thesis using raw2 True j(2) by simp
      next
        case (Some d1)
        note put = update_receipts_put [where P = "signable q", OF dist(3) signable_keyed row_updates(8) Some]
        show ?thesis
        proof (cases "signable q r")
          case False
          then have "d1 = d" "rowcount (signable q) (rd_receipts d) = 0" using put row(1) by auto
          then show ?thesis using raw2 True j(2) Some by simp
        next
          case sig: True
          then have one: "rowcount (signable q) (rd_receipts d) = 1" and ok: "receipt_row_ok (sign_row now (cq_public q) s r)"
            and d1: "d1 = d\<lparr>rd_receipts := put_row ar_id (sign_row now (cq_public q) s r) (rd_receipts d)\<rparr>"
            using put row(1) by auto
          then have jobs: "rd_jobs d1 = rd_jobs d" by simp
          show ?thesis
          proof (cases "update_jobs (job_held (cq_request q) w) (deliver_job now) d1")
            case None
            then show ?thesis using raw2 True j(2) Some one by simp
          next
            case two: (Some d2)
            note put2 = update_jobs_put [where P = "job_held (cq_request q) w", OF _ job_held_keyed row_updates(3) two]
            have "rowcount (job_held (cq_request q) w) (rd_jobs d) = 1"
              "d2 = d1\<lparr>rd_jobs := put_row qr_id (deliver_job now j) (rd_jobs d)\<rparr>"
              using put2 3 j(1) dist(1) jobs by auto
            then have "(res, d') = (Inr True, put_pair (deliver_job now j) (sign_row now (cq_public q) s r) d)"
              using raw2 True j(2) Some one two jobs d1 put_pair_two(1) by simp
            moreover from this have "signs_pair now q w s d j r d'"
              using r(1) 3 j(2) sig ok by (simp add: signs_pair_def)
            ultimately show ?thesis using True by blast
          qed
        qed
      qed
    qed
  qed
qed

definition abandons_pair ::
  "time \<Rightarrow> claimed_request \<Rightarrow> string \<Rightarrow> string \<Rightarrow> bool \<Rightarrow> receipt_db \<Rightarrow> receipt_job \<Rightarrow> full_receipt \<Rightarrow> receipt_db \<Rightarrow> bool" where
  "abandons_pair now q w code terminal d j r d' \<longleftrightarrow> has_pair d j r \<and> job_held (cq_request q) w j \<and> qr_receipt j = cq_receipt q \<and>
     d' = put_pair (give_up_job terminal now (now + seconds (backoff (cq_attempts q))) code j) (fail_receipt code r) d"

definition genuine :: "receipt_db \<Rightarrow> claimed_request \<Rightarrow> bool" where
  "genuine d q \<longleftrightarrow> (case sql_row qr_id (cq_request q) (rd_jobs d) of None \<Rightarrow> False | Some j \<Rightarrow> qr_receipt j = cq_receipt q)"

lemma release_raw_step:
  assumes "rd_inv d" "genuine d q" "release_raw now q w code k d = (res, d')"
  shows "res = Inl FailurePolicy \<or> res = Inl TableConstraint \<or> d' = d \<and> res = Inr False \<and> (\<forall>j \<in> set (rd_jobs d). \<not> job_held (cq_request q) w j) \<or>
    res = Inr (k \<le> int (cq_attempts q)) \<and> (\<exists>j r. abandons_pair now q w code (k \<le> int (cq_attempts q)) d j r d')"
proof (cases "code = [] \<or> 100 < ulen code \<or> k < 1")
  case True
  then show ?thesis using assms(3) by (auto simp: release_raw_def)
next
  case False
  note dist = rd_inv_distinct [OF assms(1)]
  define g where "g = give_up_job (k \<le> int (cq_attempts q)) now (now + seconds (backoff (cq_attempts q))) code"
  have gid: "qr_id (g x) = qr_id x" for x by (simp add: g_def)
  obtain j where j: "sql_row qr_id (cq_request q) (rd_jobs d) = Some j" "qr_receipt j = cq_receipt q"
    using assms(2) by (auto simp: genuine_def split: option.splits)
  obtain r where r: "has_pair d j r" "ar_id r = qr_receipt j" by (rule has_pairI [OF assms(1) j(1)])
  have row: "sql_row ar_id (cq_receipt q) (rd_receipts d) = Some r" "in_step j r" using r j by (simp_all add: has_pair_def)
  note raw = assms(3) [unfolded release_raw_def Let_def, folded g_def]
  show ?thesis
  proof (cases "update_jobs (job_held (cq_request q) w) g d")
    case None
    then show ?thesis using raw False by simp
  next
    case (Some d1)
    note put = update_jobs_put [where P = "job_held (cq_request q) w", OF dist(1) job_held_keyed gid Some]
    show ?thesis
    proof (cases "job_held (cq_request q) w j")
      case no: False
      then have "d1 = d" "rowcount (job_held (cq_request q) w) (rd_jobs d) = 0" using put j(1) by auto
      moreover have "\<forall>x \<in> set (rd_jobs d). \<not> job_held (cq_request q) w x"
      proof
        fix x assume "x \<in> set (rd_jobs d)"
        from sql_row_unique [OF dist(1) this] show "\<not> job_held (cq_request q) w x" using no j(1) by (auto simp: job_held_keyed)
      qed
      ultimately show ?thesis using raw False Some by simp
    next
      case held: True
      then have one: "rowcount (job_held (cq_request q) w) (rd_jobs d) = 1"
        and d1: "d1 = d\<lparr>rd_jobs := put_row qr_id (g j) (rd_jobs d)\<rparr>" using put j(1) by auto
      have same: "rd_receipts d1 = rd_receipts d" using d1 by simp
      let ?T = "\<lambda>x. ar_id x = cq_receipt q \<and> (ar_status x = ''pending'' \<or> ar_status x = ''failed'')"
      show ?thesis
      proof (cases "update_receipts ?T (fail_receipt code) d1")
        case None
        then show ?thesis using raw False Some one by simp
      next
        case two: (Some d2)
        have dist1: "distinct (map ar_id (rd_receipts d1))" using dist(3) same by simp
        note put2 = update_receipts_put [where P = ?T and i = "cq_receipt q" and
            Q = "\<lambda>x. ar_status x = ''pending'' \<or> ar_status x = ''failed''", OF dist1 refl row_updates(9) two]
        have "?T r" using row(2) held r(2) j(2) by (auto simp: in_step_def job_held_def)
        then have "rowcount ?T (rd_receipts d) = 1" "d2 = d1\<lparr>rd_receipts := put_row ar_id (fail_receipt code r) (rd_receipts d)\<rparr>"
          using put2 row(1) same by auto
        then have "(res, d') = (Inr (k \<le> int (cq_attempts q)), put_pair (g j) (fail_receipt code r) d)"
          using raw False Some one two same d1 put_pair_two(2) by simp
        moreover from this have "abandons_pair now q w code (k \<le> int (cq_attempts q)) d j r d'"
          using r(1) held j(2) by (simp add: abandons_pair_def g_def)
        ultimately show ?thesis by blast
      qed
    qed
  qed
qed

section \<open>Runs of many workers\<close>

text \<open>The rows \<open>request_receipt\<close> of the ledger inserts, with the defaults of the tables.\<close>

definition requested_job :: "authority_event \<Rightarrow> receipt_args \<Rightarrow> time \<Rightarrow> receipt_job" where
  "requested_job e a now = (let rid = receipt_id_for e (rc_policy a) in
     \<lparr>qr_id = request_id_for rid, qr_receipt = rid, qr_run = ev_run e, qr_tenant = ev_tenant e, qr_sequence = ev_sequence e,
      qr_hash = ev_hash e, qr_public = rc_public a, rj_status = ''pending'', rj_available = now, rj_claimed_by = None,
      rj_until = None, rj_attempts = 0, rj_error = None, rj_created = now, rj_delivered = None, rj_dead = None\<rparr>)"

definition requested_receipt :: "authority_event \<Rightarrow> receipt_args \<Rightarrow> time \<Rightarrow> full_receipt" where
  "requested_receipt e a now = receipt_row.extend (receipt_row_for e a now)
     (full_receipt.fields None None None None None)"

definition open_request :: "authority_event \<Rightarrow> receipt_args \<Rightarrow> time \<Rightarrow> receipt_db \<Rightarrow> receipt_db" where
  "open_request e a now d = (let j = requested_job e a now; r = requested_receipt e a now in
     if qr_id j \<in> qr_id ` set (rd_jobs d) \<or> qr_receipt j \<in> qr_receipt ` set (rd_jobs d) \<or>
        ar_id r \<in> ar_id ` set (rd_receipts d) \<or> \<not> distinct (active_prefixes (rd_receipts d @ [r]))
     then d else d\<lparr>rd_jobs := rd_jobs d @ [j], rd_receipts := rd_receipts d @ [r]\<rparr>)"

text \<open>
  A worker finalizes and abandons requests that a claim returned: the run carries the claimed ones.
\<close>

datatype receipt_op =
    OpenRequest authority_event receipt_args time
  | ClaimRequest string int time
  | Finalize claimed_request string receipt_manifest signed_result time
  | Abandon claimed_request string string int time

type_synonym receipt_run = "receipt_db \<times> claimed_request list"

definition empty_run :: receipt_run where
  "empty_run = (\<lparr>rd_jobs = [], rd_receipts = []\<rparr>, [])"

fun receipt_result :: "receipt_op \<Rightarrow> receipt_run \<Rightarrow> request_error + bool" where
  "receipt_result (OpenRequest e a now) (d, qs) = Inr True"
| "receipt_result (ClaimRequest w lease now) (d, qs) =
     (case fst (claim_receipt_request now w lease d) of Inl e \<Rightarrow> Inl e | Inr q \<Rightarrow> Inr (q \<noteq> None))"
| "receipt_result (Finalize q w m s now) (d, qs) =
     (if q \<in> set qs then fst (finalize_receipt_request now q w m s d) else Inr False)"
| "receipt_result (Abandon q w code k now) (d, qs) =
     (if q \<in> set qs then fst (release_receipt_failure now q w code k d) else Inr False)"

fun receipt_step :: "receipt_op \<Rightarrow> receipt_run \<Rightarrow> receipt_run" where
  "receipt_step (OpenRequest e a now) (d, qs) = (open_request e a now d, qs)"
| "receipt_step (ClaimRequest w lease now) (d, qs) =
     (case claim_receipt_request now w lease d of
        (Inr (Some q), d') \<Rightarrow> (d', q # qs)
      | (_, d') \<Rightarrow> (d', qs))"
| "receipt_step (Finalize q w m s now) (d, qs) =
     (if q \<in> set qs then (snd (finalize_receipt_request now q w m s d), qs) else (d, qs))"
| "receipt_step (Abandon q w code k now) (d, qs) =
     (if q \<in> set qs then (snd (release_receipt_failure now q w code k d), qs) else (d, qs))"

definition run_inv :: "receipt_run \<Rightarrow> bool" where
  "run_inv st \<longleftrightarrow> rd_inv (fst st) \<and> list_all (genuine (fst st)) (snd st)"

text \<open>The internal errors the code raises when its two tables disagree.\<close>

definition disagreement :: "request_error + bool \<Rightarrow> bool" where
  "disagreement res \<longleftrightarrow> res \<in> {Inl NoPendingReceipt, Inl LeaseLost, Inl TargetLost}"

lemma atomic_step:
  assumes "atomic_s m d = (res, d')"
  obtains d1 where "m d = (res, d1)" "d' = (case res of Inl _ \<Rightarrow> d | Inr _ \<Rightarrow> d1)"
  using assms by (cases "m d") (auto simp: atomic_s_def split: sum.splits)

lemma receipt_step_cases [consumes 1, case_names same opened leased signed abandoned]:
  assumes "run_inv (d, qs)"
  obtains "receipt_step op (d, qs) = (d, qs)" "\<not> disagreement (receipt_result op (d, qs))"
      "\<And>q w m s now. op = Finalize q w m s now \<Longrightarrow> receipt_result op (d, qs) = Inr True \<Longrightarrow> already_signed q s d"
      "\<And>q w c k now. op = Abandon q w c k now \<Longrightarrow> receipt_result op (d, qs) = Inr False \<Longrightarrow>
         q \<notin> set qs \<or> (\<forall>j \<in> set (rd_jobs d). \<not> job_held (cq_request q) w j)"
      "\<And>q w c k now. op = Abandon q w c k now \<Longrightarrow> receipt_result op (d, qs) \<noteq> Inr True"
      "\<And>w l now. op = ClaimRequest w l now \<Longrightarrow> receipt_result op (d, qs) \<noteq> Inr True"
  | e a now j r where "op = OpenRequest e a now" "j = requested_job e a now" "r = requested_receipt e a now"
      "qr_id j \<notin> qr_id ` set (rd_jobs d)" "qr_receipt j \<notin> qr_receipt ` set (rd_jobs d)" "ar_id r \<notin> ar_id ` set (rd_receipts d)"
      "receipt_step op (d, qs) = (d\<lparr>rd_jobs := rd_jobs d @ [j], rd_receipts := rd_receipts d @ [r]\<rparr>, qs)"
  | w lease now j r q d' where "op = ClaimRequest w lease now" "leases_pair w now (now + seconds lease) d j r q d'"
      "w \<noteq> []" "30 \<le> lease" "lease \<le> 900" "receipt_step op (d, qs) = (d', q # qs)" "receipt_result op (d, qs) = Inr True"
  | q w m s now j r d' where "op = Finalize q w m s now" "signs_pair now q w s d j r d'" "result_matches q m s"
      "receipt_step op (d, qs) = (d', qs)" "receipt_result op (d, qs) = Inr True"
  | q w c k now j r d' where "op = Abandon q w c k now" "abandons_pair now q w c (k \<le> int (cq_attempts q)) d j r d'"
      "receipt_step op (d, qs) = (d', qs)" "receipt_result op (d, qs) = Inr (k \<le> int (cq_attempts q))" "q \<in> set qs"
proof (cases op)
  case (OpenRequest e a now)
  show thesis
  proof (cases "open_request e a now d = d")
    case True
    then show thesis using that(1) OpenRequest by (simp add: disagreement_def)
  next
    case False
    then show thesis
      using that(2) [OF OpenRequest refl refl] OpenRequest by (auto simp: open_request_def Let_def split: if_splits)
  qed
next
  case (ClaimRequest w lease now)
  have inv: "rd_inv d" using assms by (simp add: run_inv_def)
  obtain res d' where c: "claim_receipt_request now w lease d = (res, d')" by (cases "claim_receipt_request now w lease d")
  obtain d1 where d1: "claim_request_raw now w lease d = (res, d1)" "d' = (case res of Inl _ \<Rightarrow> d | Inr _ \<Rightarrow> d1)"
    using atomic_step [OF c [unfolded claim_receipt_request_def]] by blast
  from claim_raw_step [OF inv d1(1)] consider "res = Inl LeaseConfig \<or> res = Inl TableConstraint \<or> res = Inr None" "d' = d"
    | j r q where "res = Inr (Some q)" "leases_pair w now (now + seconds lease) d j r q d'"
    using d1(2) by auto
  then show thesis
  proof cases
    case 1
    then show thesis using that(1) ClaimRequest c by (auto simp: disagreement_def)
  next
    case (2 j r q)
    have "w \<noteq> [] \<and> 30 \<le> lease \<and> lease \<le> 900"
      using d1(1) 2(1) by (auto simp: claim_request_raw_def split: if_splits)
    with that(3) [OF ClaimRequest 2(2)] 2(1) ClaimRequest c show thesis by simp
  qed
next
  case (Finalize q w m s now)
  have inv: "rd_inv d" using assms by (simp add: run_inv_def)
  obtain res d' where c: "finalize_receipt_request now q w m s d = (res, d')" by (cases "finalize_receipt_request now q w m s d")
  obtain d1 where d1: "finalize_raw now q w m s d = (res, d1)" "d' = (case res of Inl _ \<Rightarrow> d | Inr _ \<Rightarrow> d1)"
    using atomic_step [OF c [unfolded finalize_receipt_request_def]] by blast
  show thesis
  proof (cases "q \<in> set qs")
    case False
    then show thesis using that(1) Finalize by (simp add: disagreement_def)
  next
    case True
    from finalize_raw_step [OF inv d1(1)]
    consider "res = Inl ResultDiffers \<or> res = Inl TableConstraint \<or> res = Inr False" "d' = d" | "res = Inr True" "d' = d" "already_signed q s d"
      | j r where "res = Inr True" "result_matches q m s" "signs_pair now q w s d j r d'"
      using d1(2) by auto
    then show thesis
    proof cases
      case 1
      then show thesis using that(1) True Finalize c by (auto simp: disagreement_def)
    next
      case 2
      then show thesis using that(1) True Finalize c by (simp add: disagreement_def)
    next
      case (3 j r)
      then show thesis using that(4) [OF Finalize 3(3,2)] True Finalize c by simp
    qed
  qed
next
  case (Abandon q w code k now)
  obtain res d' where c: "release_receipt_failure now q w code k d = (res, d')" by (cases "release_receipt_failure now q w code k d")
  obtain d1 where d1: "release_raw now q w code k d = (res, d1)" "d' = (case res of Inl _ \<Rightarrow> d | Inr _ \<Rightarrow> d1)"
    using atomic_step [OF c [unfolded release_receipt_failure_def]] by blast
  show thesis
  proof (cases "q \<in> set qs")
    case False
    then show thesis using that(1) Abandon by (simp add: disagreement_def)
  next
    case True
    have "rd_inv d" "genuine d q" using assms True by (auto simp: run_inv_def list_all_iff)
    from release_raw_step [OF this d1(1)]
    consider "res = Inl FailurePolicy \<or> res = Inl TableConstraint" "d' = d"
      | "res = Inr False" "d' = d" "\<forall>j \<in> set (rd_jobs d). \<not> job_held (cq_request q) w j"
      | j r where "res = Inr (k \<le> int (cq_attempts q))" "abandons_pair now q w code (k \<le> int (cq_attempts q)) d j r d'"
      using d1(2) by auto
    then show thesis
    proof cases
      case 1
      then show thesis using that(1) True Abandon c by (auto simp: disagreement_def)
    next
      case 2
      then show thesis using that(1) True Abandon c by (simp add: disagreement_def)
    next
      case (3 j r)
      then show thesis using that(5) [OF Abandon 3(2)] True Abandon c by simp
    qed
  qed
qed

lemma sql_row_fresh: "k \<notin> key ` set xs \<Longrightarrow> sql_row key k xs = None"
  by (induction xs) (auto simp: sql_row_def)

lemma sql_row_one: "sql_row key k [x] = (if key x = k then Some x else None)"
  by (simp add: sql_row_def)

lemma requested_in_step: "in_step (requested_job e a now) (requested_receipt e a now)"
  "ar_id (requested_receipt e a now) = qr_receipt (requested_job e a now)"
  by (simp_all add: in_step_def requested_job_def requested_receipt_def receipt_of_job_def receipt_row_for_def Let_def
      receipt_row.defs full_receipt.defs)

lemma opened_inv:
  assumes "rd_inv d" "in_step j r" "ar_id r = qr_receipt j"
    and "qr_id j \<notin> qr_id ` set (rd_jobs d)" "qr_receipt j \<notin> qr_receipt ` set (rd_jobs d)" "ar_id r \<notin> ar_id ` set (rd_receipts d)"
  shows "rd_inv (d\<lparr>rd_jobs := rd_jobs d @ [j], rd_receipts := rd_receipts d @ [r]\<rparr>)"
proof -
  have "case sql_row ar_id (qr_receipt x) (rd_receipts d @ [r]) of None \<Rightarrow> False | Some r \<Rightarrow> in_step x r"
    if x: "x \<in> set (rd_jobs d)" for x
  proof -
    obtain q where "sql_row ar_id (qr_receipt x) (rd_receipts d) = Some q" "in_step x q"
      by (rule rd_inv_receipt [OF assms(1) x])
    then show ?thesis by (simp add: sql_row_append)
  qed
  moreover have "sql_row ar_id (qr_receipt j) (rd_receipts d @ [r]) = Some r"
    using sql_row_fresh [OF assms(6)] assms(3) by (simp add: sql_row_append sql_row_one)
  ultimately show ?thesis using rd_inv_distinct [OF assms(1)] assms(2,4-6) by (simp add: rd_inv_def list_all_iff)
qed

lemma genuine_put_pair:
  assumes "has_pair d j r" "qr_id j' = qr_id j" "qr_receipt j' = qr_receipt j" "genuine d q"
  shows "genuine (put_pair j' r' d) q"
  using assms by (auto simp: genuine_def put_pair_def put_row_row has_pair_def split: option.splits)

lemma receipt_step_inv:
  assumes "run_inv st"
  shows "run_inv (receipt_step op st)"
proof -
  obtain d qs where st: "st = (d, qs)" by (cases st)
  have inv: "run_inv (d, qs)" and rd: "rd_inv d" and gen: "\<And>q. q \<in> set qs \<Longrightarrow> genuine d q"
    using assms st by (auto simp: run_inv_def list_all_iff)
  have put: "rd_inv (put_pair j' r' d) \<and> list_all (genuine (put_pair j' r' d)) qs"
    if "has_pair d j r" "qr_id j' = qr_id j" "qr_receipt j' = qr_receipt j" "ar_id r' = ar_id r" "in_step j' r'" for j r j' r'
    using put_pair_inv [OF rd that] genuine_put_pair [OF that(1-3) gen] by (simp add: list_all_iff)
  from inv show ?thesis
  proof (cases rule: receipt_step_cases [where op = op])
    case same
    then show ?thesis using assms st by simp
  next
    case (opened e a now j r)
    have "genuine (d\<lparr>rd_jobs := rd_jobs d @ [j], rd_receipts := rd_receipts d @ [r]\<rparr>) q" if "q \<in> set qs" for q
      using gen [OF that] by (auto simp: genuine_def sql_row_append split: option.splits)
    then show ?thesis using opened_inv [OF rd _ _ opened(4-6)] requested_in_step [of e a now] opened(2,3,7) st
      by (simp add: run_inv_def list_all_iff)
  next
    case (leased w lease now j r q d')
    have p: "has_pair d j r" "in_step (lease_job w (now + seconds lease) j) (renewed r)" "ar_id (renewed r) = ar_id r"
      using leased(2) in_step_updates(1) [of j r now w "now + seconds lease"]
      by (auto simp: leases_pair_def has_pair_def renewed_def)
    have j: "qr_id j = cq_request q" "qr_receipt j = cq_receipt q" "d' = put_pair (lease_job w (now + seconds lease) j) (renewed r) d"
      using leased(2) by (simp_all add: leases_pair_def request_of_def)
    have "genuine d' q"
      using p(1) j by (simp add: genuine_def put_pair_def put_row_row has_pair_def)
    then show ?thesis using put [OF p(1) _ _ p(3,2)] j(3) leased(6) st by (simp add: run_inv_def)
  next
    case (signed q w m s now j r d')
    then show ?thesis
      using put [of j r "deliver_job now j" "sign_row now (cq_public q) s r"] in_step_updates(2) [of j r now "cq_public q" s] st
      by (simp add: signs_pair_def run_inv_def has_pair_def)
  next
    case (abandoned q w c k now j r d')
    then show ?thesis
      using put [of j r _ "fail_receipt c r"] in_step_updates(3) [of j r _ now _ c] st
      by (simp add: abandons_pair_def run_inv_def has_pair_def)
  qed
qed

lemma run_inv_run: "run_inv (fold receipt_step ops empty_run)"
proof -
  have "run_inv st \<Longrightarrow> run_inv (fold receipt_step ops st)" for st
    by (induction ops arbitrary: st) (simp_all add: receipt_step_inv)
  moreover have "run_inv empty_run" by (simp add: run_inv_def rd_inv_def empty_run_def)
  ultimately show ?thesis by blast
qed

section \<open>The protocol of a request\<close>

text \<open>What a request promises, without its tables: it waits, a worker holds it, it is signed or buried.\<close>

type_synonym seal = "string option \<times> string option \<times> string option \<times> string option \<times> string option \<times> string option"

datatype phase = Absent | Waiting | Held string time | Signed seal | Buried

inductive phase_step :: "uuid \<Rightarrow> receipt_op \<Rightarrow> phase \<Rightarrow> phase \<Rightarrow> bool" where
  opens: "i = qr_id (requested_job e a now) \<Longrightarrow> phase_step i (OpenRequest e a now) Absent Waiting"
| takes: "w \<noteq> [] \<Longrightarrow> 30 \<le> lease \<Longrightarrow> lease \<le> 900 \<Longrightarrow>
    phase_step i (ClaimRequest w lease now) Waiting (Held w (now + seconds lease))"
| takes_over: "w \<noteq> [] \<Longrightarrow> 30 \<le> lease \<Longrightarrow> lease \<le> 900 \<Longrightarrow> u < now \<Longrightarrow>
    phase_step i (ClaimRequest w lease now) (Held v u) (Held w (now + seconds lease))"
| signs: "cq_request q = i \<Longrightarrow> result_matches q m s \<Longrightarrow>
    phase_step i (Finalize q w m s now) (Held w u) (Signed (result_seal s))"
| gives_back: "cq_request q = i \<Longrightarrow> int (cq_attempts q) < k \<Longrightarrow> phase_step i (Abandon q w c k now) (Held w u) Waiting"
| buries: "cq_request q = i \<Longrightarrow> k \<le> int (cq_attempts q) \<Longrightarrow> phase_step i (Abandon q w c k now) (Held w u) Buried"

inductive_cases no_step_from: "phase_step i op (Signed s) p" "phase_step i op Buried p"

fun phase_of_row :: "receipt_job \<Rightarrow> full_receipt option \<Rightarrow> phase" where
  "phase_of_row j r =
     (if rj_status j = ''pending'' then Waiting
      else if rj_status j = ''dead_lettered'' then Buried
      else if rj_status j = ''delivered'' then (case r of Some r \<Rightarrow> Signed (receipt_seal r) | None \<Rightarrow> Absent)
      else case (rj_claimed_by j, rj_until j) of (Some w, Some u) \<Rightarrow> Held w u | _ \<Rightarrow> Absent)"

definition phase_of :: "receipt_run \<Rightarrow> uuid \<Rightarrow> phase" where
  "phase_of st i = (case sql_row qr_id i (rd_jobs (fst st)) of
     None \<Rightarrow> Absent
   | Some j \<Rightarrow> phase_of_row j (sql_row ar_id (qr_receipt j) (rd_receipts (fst st))))"

lemma phase_of_pair: "has_pair d j r \<Longrightarrow> phase_of (d, qs) (qr_id j) = phase_of_row j (Some r)"
  by (simp add: phase_of_def has_pair_def in_step_def receipt_of_job_def del: phase_of_row.simps) metis

lemma phase_of_claims: "phase_of (d, qs) = phase_of (d, qs')"
  unfolding phase_of_def fst_conv ..

lemma phase_put_pair:
  assumes "rd_inv d" "has_pair d j r" "qr_id j' = qr_id j" "qr_receipt j' = qr_receipt j" "ar_id r' = ar_id r"
  shows "phase_of (put_pair j' r' d, qs) i = (if i = qr_id j then phase_of_row j' (Some r') else phase_of (d, qs) i)"
proof (cases "i = qr_id j")
  case True
  have "ar_id r = qr_receipt j" using assms(2) by (simp add: has_pair_def in_step_def receipt_of_job_def)
  with True show ?thesis using assms(2-5) by (simp add: phase_of_def put_pair_def put_row_row has_pair_def)
next
  case False
  have "sql_row ar_id (qr_receipt x) (put_row ar_id r' (rd_receipts d)) = sql_row ar_id (qr_receipt x) (rd_receipts d)"
    if "sql_row qr_id i (rd_jobs d) = Some x" for x
  proof -
    have "x \<in> set (rd_jobs d)" "x \<noteq> j" using sql_row_Some [OF that] False by auto
    then have "qr_receipt x \<noteq> qr_receipt j"
      using rd_inv_distinct(2) [OF assms(1)] assms(2) by (metis distinct_map has_pair_def inj_onD)
    then show ?thesis using assms(2,5) by (simp add: put_row_row has_pair_def in_step_def receipt_of_job_def)
  qed
  then show ?thesis using False assms(3) by (auto simp: phase_of_def put_pair_def put_row_row split: option.splits)
qed

lemma phase_of_rows:
  "phase_of_row (lease_job w u j) r = Held w u"
  "phase_of_row (deliver_job now j) (Some (sign_row now b s r')) = Signed (result_seal s)"
  "phase_of_row (give_up_job t now a c j) r = (if t then Buried else Waiting)"
  by (simp_all add: lease_job_def deliver_job_def sign_row_def give_up_job_def receipt_seal_def result_seal_def)

lemma phase_of_held:
  assumes "has_pair d j r" "job_held i w j"
  obtains u where "phase_of (d, qs) i = Held w u"
  using assms phase_of_pair [OF assms(1), of qs]
  by (auto simp: job_held_def has_pair_def in_step_def split: option.splits)

lemma phase_of_claimable:
  assumes "has_pair d j r" "job_claimable now j"
  shows "phase_of (d, qs) (qr_id j) = Waiting \<or> (\<exists>v u. phase_of (d, qs) (qr_id j) = Held v u \<and> u < now)"
  using assms phase_of_pair [OF assms(1), of qs]
  by (auto simp: has_pair_def in_step_def job_claimable_def split: option.splits)

text \<open>Every operation of a run moves at most one request, along the protocol.\<close>

lemma phase_change:
  assumes "run_inv st"
  shows "phase_of (receipt_step op st) i = phase_of st i \<or>
    phase_step i op (phase_of st i) (phase_of (receipt_step op st) i)"
proof -
  obtain d qs where st: "st = (d, qs)" by (cases st)
  have inv: "run_inv (d, qs)" and rd: "rd_inv d" using assms st by (simp_all add: run_inv_def)
  from inv show ?thesis
  proof (cases rule: receipt_step_cases [where op = op])
    case same
    then show ?thesis using st by simp
  next
    case (opened e a now j r)
    show ?thesis
    proof (cases "i = qr_id j")
      case True
      then have "phase_of st i = Absent" "phase_of (receipt_step op st) i = Waiting"
        using opened sql_row_fresh [OF opened(4)] st
        by (simp_all add: phase_of_def sql_row_append sql_row_one requested_job_def Let_def)
      then show ?thesis using opened(1,2) True by (simp add: opens)
    next
      case False
      have "\<exists>r. sql_row ar_id (qr_receipt x) (rd_receipts d) = Some r" if "sql_row qr_id i (rd_jobs d) = Some x" for x
        using has_pairI [OF rd that] unfolding has_pair_def by metis
      then have "phase_of (receipt_step op st) i = phase_of st i"
        using False opened(7) st by (force simp: phase_of_def sql_row_append sql_row_one split: option.splits)
      then show ?thesis by simp
    qed
  next
    case (leased w lease now j r q d')
    have p: "has_pair d j r" "job_claimable now j" "ar_id (renewed r) = ar_id r"
      "d' = put_pair (lease_job w (now + seconds lease) j) (renewed r) d"
      using leased(2) by (simp_all add: leases_pair_def renewed_def)
    have after: "phase_of (receipt_step op st) i = (if i = qr_id j then Held w (now + seconds lease) else phase_of st i)"
      using phase_put_pair [OF rd p(1) _ _ p(3), of "lease_job w (now + seconds lease) j" "q # qs" i] p(4) leased(6) st
        phase_of_claims [of d qs "q # qs"]
      by (simp add: phase_of_rows del: phase_of_row.simps)
    show ?thesis
    proof (cases "i = qr_id j")
      case True
      from phase_of_claimable [OF p(1,2), of qs] show ?thesis
        using after True leased(1,3-5) st takes takes_over by auto
    qed (use after in simp)
  next
    case (signed q w m s now j r d')
    then have p: "has_pair d j r" "job_held (cq_request q) w j" "cq_request q = qr_id j"
      "d' = put_pair (deliver_job now j) (sign_row now (cq_public q) s r) d"
      by (simp_all add: signs_pair_def job_held_def)
    have after: "phase_of (receipt_step op st) i = (if i = qr_id j then Signed (result_seal s) else phase_of st i)"
      using phase_put_pair [OF rd p(1), of "deliver_job now j" "sign_row now (cq_public q) s r" qs i] p(4) signed(4) st
      by (simp add: phase_of_rows del: phase_of_row.simps)
    obtain u where "phase_of st (cq_request q) = Held w u" using phase_of_held [OF p(1,2)] st by metis
    then show ?thesis using after p(3) signed(1,3) by (cases "i = qr_id j") (simp_all add: signs)
  next
    case (abandoned q w c k now j r d')
    then have p: "has_pair d j r" "job_held (cq_request q) w j" "cq_request q = qr_id j"
      by (simp_all add: abandons_pair_def job_held_def)
    have after: "phase_of (receipt_step op st) i =
        (if i = qr_id j then (if k \<le> int (cq_attempts q) then Buried else Waiting) else phase_of st i)"
      using phase_put_pair [OF rd p(1), of "give_up_job (k \<le> int (cq_attempts q)) now (now + seconds (backoff (cq_attempts q))) c j"
          "fail_receipt c r" qs i] abandoned(2,3) st
      by (simp add: phase_of_rows abandons_pair_def del: phase_of_row.simps)
    obtain u where "phase_of st (cq_request q) = Held w u" using phase_of_held [OF p(1,2)] st by metis
    then show ?thesis using after p(3) abandoned(1) by (cases "i = qr_id j") (simp_all add: gives_back buries)
  qed
qed

lemma finalized_seal:
  assumes "run_inv st" "receipt_result (Finalize q w m s now) st = Inr True"
  shows "phase_of (receipt_step (Finalize q w m s now) st) (cq_request q) = Signed (result_seal s)"
proof -
  obtain d qs where st: "st = (d, qs)" by (cases st)
  have inv: "run_inv (d, qs)" and rd: "rd_inv d" using assms st by (simp_all add: run_inv_def)
  from inv show ?thesis
  proof (cases rule: receipt_step_cases [where op = "Finalize q w m s now"])
    case same
    then obtain j r where "has_pair d j r" "qr_id j = cq_request q" "rj_status j = ''delivered''" "receipt_seal r = result_seal s"
      using assms(2) st by (auto simp: already_signed_def)
    then show ?thesis using same(1) phase_of_pair [of d j r qs] st by simp
  next
    case (signed q' w' m' s' now' j r d')
    then have p: "has_pair d j r" "cq_request q = qr_id j" "d' = put_pair (deliver_job now j) (sign_row now (cq_public q) s r) d"
      by (simp_all add: signs_pair_def job_held_def)
    show ?thesis
      using phase_put_pair [OF rd p(1), of "deliver_job now j" "sign_row now (cq_public q) s r" qs "cq_request q"] p(2,3) signed(4) st
      by (simp add: phase_of_rows del: phase_of_row.simps)
  qed simp_all
qed

lemma claimed_phase:
  assumes "run_inv st"
  obtains "receipt_step (ClaimRequest w lease now) st = st" "receipt_result (ClaimRequest w lease now) st \<noteq> Inr True"
  | q where "receipt_result (ClaimRequest w lease now) st = Inr True" "cq_request (hd (snd (receipt_step (ClaimRequest w lease now) st))) = q"
      "phase_of (receipt_step (ClaimRequest w lease now) st) q = Held w (now + seconds lease)"
      "phase_of st q = Waiting \<or> (\<exists>v u. phase_of st q = Held v u \<and> u < now)"
      "\<And>i. i \<noteq> q \<Longrightarrow> phase_of (receipt_step (ClaimRequest w lease now) st) i = phase_of st i"
proof -
  obtain d qs where st: "st = (d, qs)" by (cases st)
  have inv: "run_inv (d, qs)" and rd: "rd_inv d" using assms st by (simp_all add: run_inv_def)
  from inv show thesis
  proof (cases rule: receipt_step_cases [where op = "ClaimRequest w lease now"])
    case same
    then show thesis using that(1) st by blast
  next
    case (leased w' lease' now' j r q d')
    have p: "has_pair d j r" "job_claimable now j" "ar_id (renewed r) = ar_id r" "cq_request q = qr_id j"
      "d' = put_pair (lease_job w (now + seconds lease) j) (renewed r) d"
      using leased(1,2) by (simp_all add: leases_pair_def renewed_def request_of_def)
    have after: "phase_of (receipt_step (ClaimRequest w lease now) st) i =
        (if i = qr_id j then Held w (now + seconds lease) else phase_of st i)" for i
      using phase_put_pair [OF rd p(1) _ _ p(3), of "lease_job w (now + seconds lease) j" "q # qs" i] p(5) leased(6) st
        phase_of_claims [of d qs "q # qs"]
      by (simp add: phase_of_rows del: phase_of_row.simps)
    show thesis
      using that(2) [of "qr_id j"] after phase_of_claimable [OF p(1,2), of qs] leased(6,7) p(4) st by simp
  qed simp_all
qed

section \<open>Leases and signatures over a run\<close>

fun receipt_clock :: "receipt_op \<Rightarrow> time" where
  "receipt_clock (OpenRequest e a now) = now"
| "receipt_clock (ClaimRequest w lease now) = now"
| "receipt_clock (Finalize q w m s now) = now"
| "receipt_clock (Abandon q w c k now) = now"

definition receipt_lease :: "receipt_run \<Rightarrow> uuid \<Rightarrow> (string \<times> time) option" where
  "receipt_lease st i = (case phase_of st i of Held w u \<Rightarrow> Some (w, u) | _ \<Rightarrow> None)"

definition receipt_closed :: "receipt_run \<Rightarrow> uuid \<Rightarrow> bool" where
  "receipt_closed st i = (case phase_of st i of Signed s \<Rightarrow> True | Buried \<Rightarrow> True | _ \<Rightarrow> False)"

fun receipt_claims :: "receipt_op \<Rightarrow> receipt_run \<Rightarrow> (uuid \<times> string \<times> time) option" where
  "receipt_claims (ClaimRequest w lease now) st =
     (if receipt_result (ClaimRequest w lease now) st = Inr True
      then Some (cq_request (hd (snd (receipt_step (ClaimRequest w lease now) st))), w, now + seconds lease) else None)"
| "receipt_claims op st = None"

fun op_target :: "receipt_op \<Rightarrow> (uuid \<times> string) option" where
  "op_target (Finalize q w m s now) = Some (cq_request q, w)"
| "op_target (Abandon q w c k now) = Some (cq_request q, w)"
| "op_target op = None"

definition receipt_frees :: "receipt_op \<Rightarrow> receipt_run \<Rightarrow> (uuid \<times> string) option" where
  "receipt_frees op st = (case op_target op of None \<Rightarrow> None
     | Some (i, w) \<Rightarrow> if phase_of (receipt_step op st) i = phase_of st i then None else Some (i, w))"

definition receipt_closes :: "receipt_op \<Rightarrow> receipt_run \<Rightarrow> uuid option" where
  "receipt_closes op st = (case receipt_frees op st of None \<Rightarrow> None
     | Some (i, w) \<Rightarrow> if receipt_closed (receipt_step op st) i then Some i else None)"

interpretation rq: leased_queue run_inv receipt_step receipt_clock receipt_lease receipt_closed receipt_claims
  receipt_frees receipt_closes
proof
  fix st and op :: receipt_op and i w u l
  show "run_inv st \<Longrightarrow> run_inv (receipt_step op st)" by (rule receipt_step_inv)
  show "\<not> receipt_closed st i \<and> (case receipt_lease st i of None \<Rightarrow> True | Some (v, t) \<Rightarrow> t < receipt_clock op) \<and>
      receipt_lease (receipt_step op st) i = Some (w, u)"
    if inv: "run_inv st" and c: "receipt_claims op st = Some (i, w, u)"
  proof (cases op)
    case (ClaimRequest v lease now)
    from inv show ?thesis
      by (cases rule: claimed_phase [where w = v and lease = lease and now = now])
        (use c ClaimRequest in \<open>auto simp: receipt_closed_def receipt_lease_def\<close>)
  qed (use c in simp_all)
  have freed: "\<exists>u. phase_of st i = Held w u" if "run_inv st" "receipt_frees op st = Some (i, w)"
  proof -
    have "op_target op = Some (i, w)" "phase_of (receipt_step op st) i \<noteq> phase_of st i"
      using that(2) by (auto simp: receipt_frees_def split: option.splits if_splits)
    with phase_change [OF that(1), of op i] show ?thesis by (auto elim: phase_step.cases)
  qed
  then show "\<exists>u. receipt_lease st i = Some (w, u)" if "run_inv st" "receipt_frees op st = Some (i, w)"
    using that by (auto simp: receipt_lease_def)
  show "(\<exists>w u. receipt_claims op st = Some (i, w, u)) \<or> receipt_frees op st = Some (i, fst l)"
    if inv: "run_inv st" and l: "receipt_lease st i = Some l" "receipt_lease (receipt_step op st) i \<noteq> Some l"
  proof -
    obtain v t where h: "phase_of st i = Held v t" "l = (v, t)" using l(1) by (auto simp: receipt_lease_def split: phase.splits)
    have moved: "phase_of (receipt_step op st) i \<noteq> Held v t" using l h by (auto simp: receipt_lease_def)
    then have "phase_step i op (Held v t) (phase_of (receipt_step op st) i)" using phase_change [OF inv, of op i] h by auto
    then show ?thesis
    proof cases
      case (takes_over w' lease now)
      from inv show ?thesis
      proof (cases rule: claimed_phase [where w = w' and lease = lease and now = now])
        case 1
        then show ?thesis using takes_over(1) moved h by simp
      next
        case (2 q)
        have "i = q" using 2(5) [of i] takes_over(1) moved h by metis
        then show ?thesis using takes_over(1) 2(1,2) by simp
      qed
    qed (use h moved in \<open>auto simp: receipt_frees_def\<close>)
  qed
  show "\<not> receipt_closed st i \<and> receipt_closed (receipt_step op st) i \<and> (\<exists>w. receipt_frees op st = Some (i, w))"
    if inv: "run_inv st" and c: "receipt_closes op st = Some i"
  proof -
    obtain w where "receipt_frees op st = Some (i, w)" "receipt_closed (receipt_step op st) i"
      using c by (auto simp: receipt_closes_def split: option.splits if_splits)
    then show ?thesis using phase_change [OF inv, of op i]
      by (auto simp: receipt_frees_def receipt_closed_def split: option.splits if_splits elim: phase_step.cases)
  qed
  show "receipt_closed (receipt_step op st) i" if inv: "run_inv st" and c: "receipt_closed st i"
    using phase_change [OF inv, of op i] c
    by (auto simp: receipt_closed_def split: phase.splits elim: no_step_from)
qed

section \<open>Properties\<close>

text \<open>
  C35. The two tables stay in step. Whatever the workers do, from empty tables, every request has its
  receipt, bound to the same run, tenant, ledger head and sequence, with a matching status, and no claim,
  finalization or abandonment ever meets the internal disagreement its code guards against (a claimed
  request without a pending receipt, a lease lost inside the transaction, a failure without its target).
\<close>

theorem receipt_requests_in_step:
  "rd_inv (fst (fold receipt_step ops empty_run)) \<and> \<not> disagreement (receipt_result op (fold receipt_step ops empty_run))"
proof -
  obtain d qs where st: "fold receipt_step ops empty_run = (d, qs)" by (cases "fold receipt_step ops empty_run")
  have inv: "run_inv (d, qs)" using run_inv_run [of ops] st by simp
  then have "\<not> disagreement (receipt_result op (d, qs))"
    by (cases rule: receipt_step_cases [where op = op]) (simp_all add: disagreement_def)
  then show ?thesis using inv st by (simp add: run_inv_def)
qed

text \<open>
  C36. The tables implement the protocol of a request. In any run every operation either leaves a request
  where it was or moves it along the protocol: opened, taken by a worker whose lease is free or has run
  out, signed by the worker that holds it with a result that matches the request, given back for another
  attempt or buried once the attempts are used up; nothing leaves the signed and the buried phase.
\<close>

theorem receipt_protocol_refined:
  "phase_of (receipt_step op (fold receipt_step ops empty_run)) i = phase_of (fold receipt_step ops empty_run) i \<or>
   phase_step i op (phase_of (fold receipt_step ops empty_run) i) (phase_of (receipt_step op (fold receipt_step ops empty_run)) i)"
  by (rule phase_change) (rule run_inv_run)

lemma signed_stays:
  assumes "run_inv st" "phase_of st i = Signed s"
  shows "phase_of (receipt_step op st) i = Signed s"
  using phase_change [OF assms(1), of op i] assms(2) by (auto elim: no_step_from)

definition confirms :: "uuid \<Rightarrow> seal \<Rightarrow> receipt_op \<times> (request_error + bool) \<Rightarrow> bool" where
  "confirms i s = (\<lambda>(op, res). case op of
     Finalize q w m r now \<Rightarrow> if cq_request q = i \<and> res = Inr True then result_seal r = s else True
   | _ \<Rightarrow> True)"

lemma signed_run:
  assumes "run_inv st" "phase_of st i = Signed s"
  shows "phase_of (fold receipt_step ops st) i = Signed s \<and>
    list_all (confirms i s) (zip ops (history receipt_step receipt_result ops st))"
  using assms
proof (induction ops arbitrary: st)
  case (Cons op ops)
  have "confirms i s (op, receipt_result op st)"
  proof (cases op)
    case (Finalize q w m r now)
    show ?thesis using finalized_seal [OF Cons.prems(1), of q w m r now] signed_stays [OF Cons.prems, of op] Finalize
      by (auto simp: confirms_def)
  qed (simp_all add: confirms_def)
  then show ?case using Cons.IH [OF receipt_step_inv [OF Cons.prems(1)] signed_stays [OF Cons.prems]] by simp
qed simp

text \<open>
  C37. A receipt is signed once. Once a request is signed, its receipt keeps the digest, the token, the key
  and the archived object in every later run, no worker claims it again, and a later finalization of it
  answers true only when it brings exactly the recorded values.
\<close>

theorem receipt_signed_once:
  assumes "phase_of (fold receipt_step ops empty_run) i = Signed s"
  shows "phase_of (fold receipt_step (ops @ later) empty_run) i = Signed s \<and>
    list_all (confirms i s) (zip later (history receipt_step receipt_result later (fold receipt_step ops empty_run))) \<and>
    list_all (\<lambda>c. case c of None \<Rightarrow> True | Some (j, _, _) \<Rightarrow> j \<noteq> i)
      (history receipt_step receipt_claims later (fold receipt_step ops empty_run))"
  using signed_run [OF run_inv_run assms, of later] rq.closed_final [OF run_inv_run, of ops i later] assms
  by (simp add: receipt_closed_def)

text \<open>
  A claimed receipt request is held exclusively: from its claim until the lease ends or its holder signs
  it or gives it up, no operation claims it.
\<close>

theorem receipt_lease_exclusive:
  assumes "receipt_claims op (fold receipt_step before empty_run) = Some (i, w, u)" "list_all (\<lambda>q. receipt_clock q \<le> u) ops"
    and "Some (i, w) \<notin> set (history receipt_step receipt_frees ops (fold receipt_step (before @ [op]) empty_run))"
  shows "list_all (\<lambda>c. case c of None \<Rightarrow> True | Some (j, _, _) \<Rightarrow> j \<noteq> i)
    (history receipt_step receipt_claims ops (fold receipt_step (before @ [op]) empty_run))"
  using rq.lease_exclusive [OF run_inv_run assms(1,2)] assms(3) by simp

section \<open>A request from opening to signature\<close>

lemma lone_open: "receipt_step (OpenRequest e a t) empty_run =
    (\<lparr>rd_jobs = [requested_job e a t], rd_receipts = [requested_receipt e a t]\<rparr>, [])"
  by (simp add: empty_run_def open_request_def active_prefixes_def Let_def)

definition sample_args :: receipt_args where
  "sample_args = \<lparr>rc_policy = ''receipt-policy-1'', rc_image = ''sha256:0'', rc_evaluation = ''suite-1'', rc_synthetic = True, rc_public = True\<rparr>"

abbreviation "lone_job \<equiv> requested_job sample_event sample_args 0"
abbreviation "lone_receipt \<equiv> requested_receipt sample_event sample_args 0"
abbreviation "lone_lease \<equiv> lease_job ''w'' 60000000 lone_job"
abbreviation "lone_claim \<equiv> request_of lone_lease lone_receipt"

lemma lone_rows:
  "rj_status lone_job = ''pending''" "rj_delivered lone_job = None" "rj_dead lone_job = None" "rj_available lone_job = 0"
  "receipt_of_job lone_lease lone_receipt" "receipt_of_job lone_job = receipt_of_job lone_lease" "ar_status lone_receipt = ''pending''"
  by (simp_all add: requested_job_def requested_receipt_def receipt_row_for_def receipt_of_job_def lease_job_def Let_def
      fun_eq_iff receipt_row.defs full_receipt.defs)

lemma lone_claimed: "claim_receipt_request 0 ''w'' 60 \<lparr>rd_jobs = [lone_job], rd_receipts = [lone_receipt]\<rparr> =
    (Inr (Some lone_claim), \<lparr>rd_jobs = [lone_lease], rd_receipts = [lone_receipt]\<rparr>)"
proof -
  have n: "next_job 0 [lone_job] = Some lone_job" by (simp add: next_job_def job_claimable_def lone_rows)
  have j: "job_row_ok lone_lease" "job_guard lone_job lone_lease"
    using lone_rows(1-4)
    by (simp_all add: job_row_ok_def job_guard_def lease_job_def opt_all_def sized_def ulen_def job_binding_def job_status_step_def)
  have "distinct (active_prefixes [lone_receipt])" by (simp add: active_prefixes_def)
  then have u: "update_jobs (\<lambda>r. qr_id r = qr_id lone_job) (lease_job ''w'' 60000000) \<lparr>rd_jobs = [lone_job], rd_receipts = [lone_receipt]\<rparr> =
      Some \<lparr>rd_jobs = [lone_lease], rd_receipts = [lone_receipt]\<rparr>"
    "update_receipts (\<lambda>r. receipt_of_job lone_lease r \<and> ar_status r = ''failed'') reopen
       \<lparr>rd_jobs = [lone_lease], rd_receipts = [lone_receipt]\<rparr> = Some \<lparr>rd_jobs = [lone_lease], rd_receipts = [lone_receipt]\<rparr>"
    using j by (simp_all add: update_jobs_def update_receipts_def checked_update_def sql_update_def lone_rows)
  show ?thesis
    by (simp add: claim_receipt_request_def atomic_s_def claim_request_raw_def n u Let_def sql_returning_def lone_rows)
qed

definition lone_manifest :: receipt_manifest where
  "lone_manifest = \<lparr>mf_version = ''1'', mf_receipt_policy = ''receipt-policy-1'', mf_capability_policy = ''1'', mf_run = cq_run lone_claim,
     mf_tenant_hash = [], mf_scenario = [], mf_workflow = [], mf_final_state = ''REVIEWED'', mf_disposition = [],
     mf_first_epoch = ''1'', mf_last_epoch = ''1'', mf_event_count = ''1'', mf_first_hash = [], mf_head_hash = cq_hash lone_claim,
     mf_digests = \<lparr>bd_proposal = [], bd_execution = [], bd_observation = [], bd_assessment = [], bd_verdict = [], bd_memory = [], bd_review = []\<rparr>,
     mf_subjects = \<lparr>sb_operator = [], sb_reviewer = [], sb_separated = True\<rparr>,
     mf_release = \<lparr>rl_release = [], rl_source = cq_source lone_claim, rl_image = ''sha256:0'', rl_evaluation = ''suite-1'', rl_claims = []\<rparr>,
     mf_evidence = [], mf_signed_at = [], mf_expires = [], mf_supersedes = None, mf_thumbprint = replicate 43 (CHR ''k''),
     mf_algorithm = jose_algorithm\<rparr>"

definition lone_result :: signed_result where
  "lone_result = \<lparr>sd_manifest_digest = replicate 64 (CHR ''a''), sd_jws = replicate 64 (CHR ''j''), sd_thumbprint = replicate 43 (CHR ''k''),
     sd_bundle_digest = replicate 64 (CHR ''b''), sd_object_key = replicate 16 (CHR ''o''), sd_version = ''1''\<rparr>"

lemma ulen_replicate: "(of_char c :: nat) < 128 \<Longrightarrow> ulen (replicate n c) = n"
  by (simp add: ulen_def)

lemma hex64_replicate: "lower_hex c \<Longrightarrow> hex64 (replicate 64 c)"
  by (simp add: hex64_def list_all_iff)

lemma lone_hex: "hex64 (sd_manifest_digest lone_result)" "hex64 (sd_bundle_digest lone_result)"
  unfolding lone_result_def signed_result.simps by (rule hex64_replicate; simp add: lower_hex_def)+

lemma lone_finalized: "finalize_receipt_request 1 lone_claim ''w'' lone_manifest lone_result
     \<lparr>rd_jobs = [lone_lease], rd_receipts = [lone_receipt]\<rparr> =
    (Inr True, \<lparr>rd_jobs = [deliver_job 1 lone_lease], rd_receipts = [sign_row 1 True lone_result lone_receipt]\<rparr>)"
proof -
  have m: "result_matches lone_claim lone_manifest lone_result"
    using lone_hex(2) by (simp add: result_matches_def lone_manifest_def lone_result_def request_of_def lease_job_def requested_job_def
        requested_receipt_def receipt_row_for_def Let_def receipt_row.defs full_receipt.defs sample_args_def
        digits_value_def sample_event_def sample_draft_def)
  have s: "signable lone_claim lone_receipt" "cq_public lone_claim"
    by (simp_all add: signable_def request_of_def lease_job_def requested_job_def
        requested_receipt_def receipt_row_for_def Let_def receipt_row.defs full_receipt.defs sample_args_def)
  have r: "receipt_row_ok (sign_row 1 True lone_result lone_receipt)" "receipt_guard lone_receipt (sign_row 1 True lone_result lone_receipt)"
    "distinct (active_prefixes [sign_row 1 True lone_result lone_receipt])"
    using lone_hex
    by (simp_all add: receipt_row_ok_def receipt_guard_def sign_row_def lone_result_def opt_all_def sized_def ulen_replicate
        requested_receipt_def receipt_row_for_def receipt_row.defs full_receipt.defs sample_args_def
        receipt_binding_def receipt_status_step_def active_prefixes_def ulen_def)
  have j: "job_held (cq_request lone_claim) ''w'' lone_lease" "job_row_ok (deliver_job 1 lone_lease)" "job_guard lone_lease (deliver_job 1 lone_lease)"
    using lone_rows(1-4)
    by (simp_all add: job_held_def request_of_def lease_job_def deliver_job_def job_row_ok_def job_guard_def opt_all_def
        job_binding_def job_status_step_def)
  have u: "update_receipts (signable lone_claim) (sign_row 1 True lone_result)
       \<lparr>rd_jobs = [lone_lease], rd_receipts = [lone_receipt]\<rparr> =
       Some \<lparr>rd_jobs = [lone_lease], rd_receipts = [sign_row 1 True lone_result lone_receipt]\<rparr>"
    "update_jobs (job_held (cq_request lone_claim) ''w'') (deliver_job 1)
       \<lparr>rd_jobs = [lone_lease], rd_receipts = [sign_row 1 True lone_result lone_receipt]\<rparr> =
       Some \<lparr>rd_jobs = [deliver_job 1 lone_lease], rd_receipts = [sign_row 1 True lone_result lone_receipt]\<rparr>"
    using s r j by (simp_all add: update_jobs_def update_receipts_def checked_update_def sql_update_def)
  have k: "qr_id lone_lease = cq_request lone_claim" "qr_receipt lone_lease = cq_receipt lone_claim"
    "rj_status lone_lease = ''processing''" "rj_claimed_by lone_lease = Some ''w''"
    by (simp_all add: request_of_def lease_job_def)
  show ?thesis
    by (simp add: finalize_receipt_request_def atomic_s_def finalize_raw_def m u k rowcount_def s j del: row_updates)
qed

lemma lone_run:
  "fold receipt_step [OpenRequest sample_event sample_args 0] empty_run = (\<lparr>rd_jobs = [lone_job], rd_receipts = [lone_receipt]\<rparr>, [])"
  "receipt_step (ClaimRequest ''w'' 60 0) (\<lparr>rd_jobs = [lone_job], rd_receipts = [lone_receipt]\<rparr>, []) =
     (\<lparr>rd_jobs = [lone_lease], rd_receipts = [lone_receipt]\<rparr>, [lone_claim])"
  "receipt_step (Finalize lone_claim ''w'' lone_manifest lone_result 1) (\<lparr>rd_jobs = [lone_lease], rd_receipts = [lone_receipt]\<rparr>, [lone_claim]) =
     (\<lparr>rd_jobs = [deliver_job 1 lone_lease], rd_receipts = [sign_row 1 True lone_result lone_receipt]\<rparr>, [lone_claim])"
  by (simp_all add: lone_open lone_claimed lone_finalized del: receipt_step.simps) (simp_all add: lone_claimed lone_finalized)

lemma lone_signed:
  "phase_of (fold receipt_step [OpenRequest sample_event sample_args 0, ClaimRequest ''w'' 60 0,
     Finalize lone_claim ''w'' lone_manifest lone_result 1] empty_run) (cq_request lone_claim) = Signed (result_seal lone_result)"
proof -
  have "ar_id lone_receipt = qr_receipt lone_job" "cq_request lone_claim = qr_id lone_job"
    using lone_rows(5) by (simp_all add: receipt_of_job_def request_of_def)
  then show ?thesis
    using lone_run by (simp add: phase_of_def sql_row_one phase_of_rows del: receipt_step.simps phase_of_row.simps)
qed

theorem receipt_signed_once_witness:
  "phase_of (fold receipt_step [OpenRequest sample_event sample_args 0, ClaimRequest ''w'' 60 0,
     Finalize lone_claim ''w'' lone_manifest lone_result 1] empty_run) (cq_request lone_claim) = Signed (result_seal lone_result) \<and>
   phase_of (fold receipt_step ([OpenRequest sample_event sample_args 0, ClaimRequest ''w'' 60 0,
     Finalize lone_claim ''w'' lone_manifest lone_result 1] @ [ClaimRequest ''v'' 60 500000000, Abandon lone_claim ''w'' ''E'' 3 2]) empty_run)
     (cq_request lone_claim) = Signed (result_seal lone_result)"
  using lone_signed receipt_signed_once [OF lone_signed, of "[ClaimRequest ''v'' 60 500000000, Abandon lone_claim ''w'' ''E'' 3 2]"]
  by blast

theorem receipt_lease_exclusive_witness:
  "receipt_claims (ClaimRequest ''w'' 60 0) (fold receipt_step [OpenRequest sample_event sample_args 0] empty_run) =
     Some (cq_request lone_claim, ''w'', 60000000) \<and>
   list_all (\<lambda>c. case c of None \<Rightarrow> True | Some (j, _, _) \<Rightarrow> j \<noteq> cq_request lone_claim)
     (history receipt_step receipt_claims [ClaimRequest ''v'' 60 5, ClaimRequest ''w'' 60 60000000]
       (fold receipt_step ([OpenRequest sample_event sample_args 0] @ [ClaimRequest ''w'' 60 0]) empty_run))"
proof
  show c: "receipt_claims (ClaimRequest ''w'' 60 0) (fold receipt_step [OpenRequest sample_event sample_args 0] empty_run) =
      Some (cq_request lone_claim, ''w'', 60000000)"
    unfolding lone_run(1) by (simp add: lone_claimed)
  show "list_all (\<lambda>c. case c of None \<Rightarrow> True | Some (j, _, _) \<Rightarrow> j \<noteq> cq_request lone_claim)
     (history receipt_step receipt_claims [ClaimRequest ''v'' 60 5, ClaimRequest ''w'' 60 60000000]
       (fold receipt_step ([OpenRequest sample_event sample_args 0] @ [ClaimRequest ''w'' 60 0]) empty_run))"
    by (rule receipt_lease_exclusive [OF c]) (simp_all add: receipt_frees_def)
qed

end
