(* ===== verification/Service.thy ===== *)
theory Service
  imports Store Sandbox
begin

text \<open>
  \<open>IncidentService\<close> of \<^verbatim>\<open>src/recallops/service.py\<close> over the in-memory store: the analysis of an
  incident from governed memory with its abstentions and degradations, approvals, attested
  executions, learned outcomes, and the comparison of a recurrence. The embedder, the reasoner, the
  diagnostic inspectors and the evidence verifier are the protocols the service is built with: the
  record \<open>providers\<close>. A provider that is unavailable names its dependency.
\<close>

datatype service_error =
    ServiceStore store_error
  | ServiceRetrieval retrieval_error
  | ServiceDigest digest_error
  | RecordInvalid
  | Unavailable string
  | ReadOnlyNeedsNoApproval
  | LacksProposalDigest
  | ApprovalMismatch
  | LegacyAnalysis
  | ExecutionMismatch
  | EvidenceUnverified
  | ApprovalRequired
  | ExecutionRequired
  | ObservedActionMismatch
  | WindowRequired
  | SandboxRequired
  | ObservationNotBound
  | AssessmentNotBound
  | AnalysisNotFound

record diagnostic_scope =
  ds_tenant :: string
  ds_service :: string

definition alnum :: "char \<Rightarrow> bool" where
  "alnum c \<longleftrightarrow> slug_char c \<and> c \<noteq> CHR ''_'' \<and> c \<noteq> CHR ''-''"

definition identity_part :: "string \<Rightarrow> bool" where
  "identity_part s \<longleftrightarrow> (case s of [] \<Rightarrow> False
     | c # r \<Rightarrow> alnum c \<and> length r \<le> 63 \<and> list_all (\<lambda>d. slug_char d \<or> d = CHR ''.'') r)"

definition scope_of :: "string \<Rightarrow> string \<Rightarrow> diagnostic_scope option" where
  "scope_of tenant service = (if identity_part tenant \<and> identity_part service
     then Some \<lparr>ds_tenant = tenant, ds_service = service\<rparr> else None)"

text \<open>
  An inspection is its evidence reference and its fields; \<open>pr_model_json\<close> is the text pydantic prints
  for an incident, \<open>pr_float\<close> the text of a float, \<open>pr_jcs\<close> the canonical JSON of RFC 8785.
\<close>

type_synonym inspector = "diagnostic_scope \<Rightarrow> string + string \<times> json"

record providers =
  pr_space :: string
  pr_embed :: "string \<Rightarrow> string + real list"
  pr_diagnosis :: "incident \<Rightarrow> string \<Rightarrow> string + string"
  pr_tools :: "(inspector \<times> inspector) option"
  pr_verify :: "evidence_verification \<Rightarrow> string list \<Rightarrow> string + bool"
  pr_model_json :: "incident \<Rightarrow> string"
  pr_float :: "real \<Rightarrow> string"
  pr_jcs :: jcs

record service_config =
  sv_max_memories :: int
  sv_min_similarity :: real
  sv_min_confidence :: real
  sv_min_rank :: real
  sv_min_margin :: real
  sv_attempts :: int
  sv_timeout :: real
  sv_policy :: compatibility_policy
  sv_policy_version :: string
  sv_ttl_days :: int

definition action_hash :: "string \<Rightarrow> string" where
  "action_hash command = sha256_hex command"

fun join_with :: "char \<Rightarrow> string list \<Rightarrow> string" where
  "join_with c [] = []"
| "join_with c [x] = x"
| "join_with c (x # y # zs) = x @ [c] @ join_with c (y # zs)"

definition trace_input_digest :: "string list \<Rightarrow> string" where
  "trace_input_digest vs = sha256_hex (join_with (CHR 0x1F) vs)"

definition deterministic_diagnosis :: "incident \<Rightarrow> string \<Rightarrow> string" where
  "deterministic_diagnosis i evidence = in_service i @ '' is exhibiting '' @ in_symptom i @
     ''. Compatible successful incident memory: '' @ evidence"

section \<open>Abstention\<close>

text \<open>\<open>str.strip\<close> and \<open>str.casefold\<close> on ASCII text.\<close>

definition py_strip :: "string \<Rightarrow> string" where
  "py_strip s = rev (dropWhile py_space (rev (dropWhile py_space s)))"

definition casefold :: "string \<Rightarrow> string" where
  "casefold = map (\<lambda>c. if 65 \<le> (of_char c :: nat) \<and> (of_char c :: nat) \<le> 90 then char_of ((of_char c :: nat) + 32) else c)"

definition top_candidates_conflict :: "service_config \<Rightarrow> retrieved_memory list \<Rightarrow> bool" where
  "top_candidates_conflict cfg ms = (case ms of
     best # runner_up # _ \<Rightarrow> rm_rank best - rm_rank runner_up < sv_min_margin cfg \<and>
       casefold (py_strip (mm_action (rm_memory best))) \<noteq> casefold (py_strip (mm_action (rm_memory runner_up)))
   | _ \<Rightarrow> False)"

definition reason_if :: "bool \<Rightarrow> string \<Rightarrow> string list" where
  "reason_if b r = (if b then [r] else [])"

definition threshold_reasons :: "service_config \<Rightarrow> retrieved_memory \<Rightarrow> string list" where
  "threshold_reasons cfg r =
     reason_if (rm_similarity r < sv_min_similarity cfg) ''similarity_below_threshold'' @
     reason_if (rm_confidence r < sv_min_confidence cfg) ''evidence_confidence_below_threshold'' @
     reason_if (rm_rank r < sv_min_rank cfg) ''rank_score_below_threshold'' @
     reason_if (rm_compatibility r < 1) ''service_version_incompatible''"

definition abstention_reasons :: "service_config \<Rightarrow> retrieved_memory list \<Rightarrow> string list" where
  "abstention_reasons cfg ms = (case ms of
     [] \<Rightarrow> [''no_governed_memory'']
   | best # _ \<Rightarrow> threshold_reasons cfg best @ reason_if (top_candidates_conflict cfg ms) ''top_candidates_ambiguous'')"

definition positive :: "retrieved_memory \<Rightarrow> bool" where
  "positive r \<longleftrightarrow> mm_semantics (rm_memory r) = Some OutcomePositive"

definition retrieval_abstention :: "service_config \<Rightarrow> retrieved_memory list \<Rightarrow> string list" where
  "retrieval_abstention cfg ms = (if ms \<noteq> [] \<and> filter positive ms = [] then [''outcome_not_positive'']
     else abstention_reasons cfg (filter positive ms))"

text \<open>The selected candidate, by its position in the retrieved list.\<close>

definition best_index :: "service_config \<Rightarrow> retrieved_memory list \<Rightarrow> nat option" where
  "best_index cfg ms = (if filter positive ms \<noteq> [] \<and> retrieval_abstention cfg ms = []
     then Some (length (takeWhile (\<lambda>r. \<not> positive r) ms)) else None)"

definition best_of :: "service_config \<Rightarrow> retrieved_memory list \<Rightarrow> retrieved_memory option" where
  "best_of cfg ms = map_option ((!) ms) (best_index cfg ms)"

definition candidate_reasons :: "service_config \<Rightarrow> retrieved_memory list \<Rightarrow> nat \<Rightarrow> retrieved_memory \<Rightarrow> string list" where
  "candidate_reasons cfg ms n r = threshold_reasons cfg r @
     reason_if (mm_score (rm_memory r) \<le> 0) ''outcome_not_positive'' @
     reason_if (n = 0 \<and> top_candidates_conflict cfg ms) ''top_candidates_ambiguous''"

definition candidate_decisions :: "service_config \<Rightarrow> retrieved_memory list \<Rightarrow> candidate_decision list" where
  "candidate_decisions cfg ms = map (\<lambda>(n, r). let reasons = candidate_reasons cfg ms n r in
     \<lparr>cd_memory = mm_id (rm_memory r),
      cd_disposition = (if best_index cfg ms = Some n then CandidateSelected
         else if reasons \<noteq> [] then CandidateRejected else EligibleNotSelected),
      cd_reasons = reasons, cd_rank = rm_rank r\<rparr>) (enumerate 0 ms)"

section \<open>Plan and trace\<close>

definition plan_of :: "bool \<Rightarrow> plan_step list" where
  "plan_of diagnostics =
    [\<lparr>ps_sequence = 1, ps_objective = ''Represent the incident in the configured semantic space'',
      ps_tool = ''embed_incident'', ps_risk = READ_ONLY,
      ps_stop = ''A valid 1024-dimensional embedding exists or retrieval abstains''\<rparr>,
     \<lparr>ps_sequence = 2, ps_objective = ''Retrieve only governed tenant and service memory'',
      ps_tool = ''retrieve_governed_memory'', ps_risk = READ_ONLY,
      ps_stop = ''Bounded candidates are ranked or no eligible evidence exists''\<rparr>] @
    (if diagnostics then
      [\<lparr>ps_sequence = 3, ps_objective = ''Inspect bounded deployment alarms'',
        ps_tool = ''inspect_cloudwatch_alarms'', ps_risk = READ_ONLY,
        ps_stop = ''A bounded alarm snapshot or explicit degradation is recorded''\<rparr>,
       \<lparr>ps_sequence = 4, ps_objective = ''Inspect the bounded ECS deployment'',
        ps_tool = ''inspect_ecs_deployments'', ps_risk = READ_ONLY,
        ps_stop = ''A bounded deployment snapshot or explicit degradation is recorded''\<rparr>]
     else []) @
    [\<lparr>ps_sequence = (if diagnostics then 5 else 3),
      ps_objective = ''Produce an evidence-grounded diagnosis and bounded proposal'',
      ps_tool = ''reason_from_evidence'', ps_risk = READ_ONLY,
      ps_stop = ''A cited proposal or explicit diagnostic abstention is produced''\<rparr>]"

definition tool_name :: "string \<Rightarrow> bool" where
  "tool_name s \<longleftrightarrow> sized 3 80 s \<and>
     list_all (\<lambda>c. (let n = of_char c :: nat in 48 \<le> n \<and> n \<le> 57 \<or> 97 \<le> n \<and> n \<le> 122 \<or> n = 95)) s"

definition valid_trace :: "tool_trace \<Rightarrow> bool" where
  "valid_trace t \<longleftrightarrow> 1 \<le> tt_sequence t \<and> tool_name (tt_tool t) \<and> hex64 (tt_input_digest t) \<and>
     1 \<le> tt_attempts t \<and> tt_attempts t \<le> 10 \<and> opt_all (\<lambda>s. 0 < s \<and> s \<le> 120) (tt_timeout t) \<and>
     length (tt_refs t) \<le> 20 \<and> opt_all (sized 3 120) (tt_degraded t)"

definition make_trace ::
  "int \<Rightarrow> string \<Rightarrow> tool_status \<Rightarrow> string \<Rightarrow> int \<Rightarrow> real option \<Rightarrow> string list \<Rightarrow> string option \<Rightarrow> service_error + tool_trace" where
  "make_trace n tool status digest attempts timeout refs reason =
    (let t = \<lparr>tt_sequence = n, tt_tool = tool, tt_risk = READ_ONLY, tt_status = status, tt_input_digest = digest,
        tt_attempts = attempts, tt_timeout = timeout, tt_refs = refs, tt_degraded = reason\<rparr>
     in if valid_trace t then Inr t else Inl RecordInvalid)"

section \<open>The evidence for the reasoner\<close>

text \<open>\<open>json.dumps\<close> with compact separators and the keys in insertion order.\<close>

fun json_compact :: "(real \<Rightarrow> string) \<Rightarrow> json \<Rightarrow> string" where
  "json_compact frepr (JArr js) = ''['' @ join_comma (map (json_compact frepr) js) @ '']''"
| "json_compact frepr (JObj kvs) =
     ''{'' @ join_comma (map (\<lambda>(k, v). json_string k @ '':'' @ json_compact frepr v) kvs) @ ''}''"
| "json_compact frepr j = json_dumps frepr j"

definition reasoning_evidence ::
  "(real \<Rightarrow> string) \<Rightarrow> retrieved_memory option \<Rightarrow> retrieved_memory list \<Rightarrow> (string \<times> json) list \<Rightarrow> string" where
  "reasoning_evidence frepr best ms diagnostics = json_compact frepr (case best of
     None \<Rightarrow> JObj [(''selected'', JNull), (''message'', JStr ''No compatible historical memory was found.''),
       (''diagnostics'', JObj diagnostics)]
   | Some r \<Rightarrow> let m = rm_memory r in JObj
      [(''selected'', JObj
         [(''memory_id'', JStr (mm_id m)), (''historical_symptom'', JStr (mm_symptom m)), (''action'', JStr (mm_action m)),
          (''outcome'', JStr (mm_outcome m)), (''outcome_score'', JNum (mm_score m)),
          (''service_version'', JStr (mm_version m)), (''compatibility_policy'', JStr (policy_value (mm_policy m))),
          (''compatibility_policy_version'', JStr (mm_policy_version m)),
          (''semantic_similarity'', JNum (rm_similarity r)), (''compatibility'', JNum (rm_compatibility r)),
          (''effective_confidence'', JNum (rm_confidence r)), (''freshness'', JNum (rm_freshness r)),
          (''reviewed_by'', jopt (mm_reviewed_by m)), (''source_incident_id'', jopt (mm_source_incident m))]),
       (''competing_memory_ids'', JArr (map (\<lambda>c. JStr (mm_id (rm_memory c))) (tl ms))),
       (''diagnostics'', JObj diagnostics)])"

section \<open>The analysis of an incident\<close>

text \<open>
  The two diagnostic tools in their order. A state is the degraded dependencies, the trace and the
  evidence so far; each tool runs on the scope, or degrades when the identity has none.
\<close>

type_synonym diagnosis_state = "string list \<times> tool_trace list \<times> (string \<times> json) list"

definition add_once :: "string \<Rightarrow> string list \<Rightarrow> string list" where
  "add_once x xs = (if x \<in> set xs then xs else xs @ [x])"

fun inspect_tools ::
  "service_config \<Rightarrow> incident \<Rightarrow> diagnostic_scope option \<Rightarrow> int \<Rightarrow> (string \<times> string \<times> inspector) list
     \<Rightarrow> diagnosis_state \<Rightarrow> service_error + diagnosis_state" where
  "inspect_tools cfg i scope n [] st = Inr st"
| "inspect_tools cfg i scope n ((tool, dependency, inspect) # rest) (degraded, trace, evidence) =
     (let digest = trace_input_digest [in_tenant i, in_service i, dependency];
          observed = (case scope of None \<Rightarrow> Inl ''diagnostic_scope_invalid'' | Some sc \<Rightarrow> inspect sc) in
      case observed of
        Inr (ref, seen) \<Rightarrow>
          bind_r (make_trace n tool ToolSucceeded digest (sv_attempts cfg) (Some (sv_timeout cfg)) [ref] None) (\<lambda>t.
            inspect_tools cfg i scope (n + 1) rest (degraded, trace @ [t], evidence @ [(tool, seen)]))
      | Inl d \<Rightarrow>
          bind_r (make_trace n tool ToolDegraded digest (sv_attempts cfg) (Some (sv_timeout cfg)) [] (Some d)) (\<lambda>t.
            inspect_tools cfg i scope (n + 1) rest (add_once d degraded, trace @ [t], evidence)))"

definition run_diagnostics ::
  "service_config \<Rightarrow> providers \<Rightarrow> incident \<Rightarrow> string list \<Rightarrow> tool_trace list \<Rightarrow> service_error + diagnosis_state" where
  "run_diagnostics cfg pr i degraded trace = (case pr_tools pr of
     None \<Rightarrow> Inr (degraded, trace, [])
   | Some (alarms, deployments) \<Rightarrow>
       let scope = scope_of (in_tenant i) (in_service i);
           degraded1 = (if scope = None then degraded @ [''diagnostic_scope_invalid''] else degraded)
       in inspect_tools cfg i scope 3
            [(''inspect_cloudwatch_alarms'', ''cloudwatch_diagnostics'', alarms),
             (''inspect_ecs_deployments'', ''ecs_diagnostics'', deployments)] (degraded1, trace, []))"

definition embedding_input :: "incident \<Rightarrow> string" where
  "embedding_input i = in_service i @ '' '' @ in_symptom i"

definition embed_trace :: "service_config \<Rightarrow> providers \<Rightarrow> incident \<Rightarrow> service_error + tool_trace" where
  "embed_trace cfg pr i =
    (let digest = trace_input_digest [embedding_input i, pr_space pr] in
     case pr_embed pr (embedding_input i) of
       Inr _ \<Rightarrow> make_trace 1 ''embed_incident'' ToolSucceeded digest (sv_attempts cfg) (Some (sv_timeout cfg))
         [''embedding-space:'' @ pr_space pr] None
     | Inl d \<Rightarrow> make_trace 1 ''embed_incident'' ToolDegraded digest (sv_attempts cfg) (Some (sv_timeout cfg)) [] (Some d))"

definition retrieve_trace ::
  "providers \<Rightarrow> incident \<Rightarrow> bool \<Rightarrow> retrieved_memory list \<Rightarrow> service_error + tool_trace" where
  "retrieve_trace pr i embedded ms = make_trace 2 ''retrieve_governed_memory'' (if embedded then ToolSucceeded else ToolSkipped)
     (trace_input_digest [in_tenant i, in_service i, in_version i, pr_space pr]) 1 None
     (map (\<lambda>r. ''memory:'' @ mm_id (rm_memory r)) ms) (if embedded then None else Some ''embedding_unavailable'')"

definition propose :: "incident \<Rightarrow> retrieved_memory option \<Rightarrow> proposed_action" where
  "propose i best = (case best of
     Some r \<Rightarrow> \<lparr>pa_name = ''apply_prior_remediation'', pa_command = mm_action (rm_memory r), pa_risk = MUTATING,
        pa_rationale = ''Successful compatible memory '' @ mm_id (rm_memory r), pa_requires_approval = True,
        pa_hash = Some (action_hash (mm_action (rm_memory r)))\<rparr>
   | None \<Rightarrow> let command = ''inspect logs and metrics for '' @ in_service i in
       \<lparr>pa_name = ''collect_diagnostics'', pa_command = command, pa_risk = READ_ONLY,
        pa_rationale = ''No sufficiently compatible successful remediation exists'', pa_requires_approval = False,
        pa_hash = Some (action_hash command)\<rparr>)"

definition proposal_confidence :: "retrieved_memory option \<Rightarrow> real" where
  "proposal_confidence best = (case best of None \<Rightarrow> 0.25 | Some r \<Rightarrow> min 0.95 (max 0.1 (rm_rank r)))"

definition valid_analysis :: "analysis \<Rightarrow> bool" where
  "valid_analysis a \<longleftrightarrow> 0 \<le> an_confidence a \<and> an_confidence a \<le> 1 \<and> length (an_trace a) \<le> 20 \<and>
     length (an_plan a) \<le> 10 \<and> length (an_candidates a) \<le> 100 \<and> sized 0 80 (an_policy a) \<and>
     opt_all hex64 (pa_hash (an_action a)) \<and> list_all (\<lambda>c. length (cd_reasons c) \<le> 20) (an_candidates a)"

text \<open>
  \<open>prepare_analysis\<close>, in two parts: from the diagnostics on, the diagnosis and the proposal; before
  them, the embedding and the retrieval. The identifier and the clock of the new analysis are inputs.
\<close>

definition reason_trace ::
  "service_config \<Rightarrow> providers \<Rightarrow> incident \<Rightarrow> retrieved_memory option \<Rightarrow> string \<Rightarrow> service_error + tool_trace" where
  "reason_trace cfg pr i best evidence =
    (let digest = trace_input_digest [pr_model_json pr i, evidence];
         refs = (case best of None \<Rightarrow> [] | Some r \<Rightarrow> [''memory:'' @ mm_id (rm_memory r)]);
         n = (if pr_tools pr = None then 3 else 5)
     in case pr_diagnosis pr i evidence of
          Inr _ \<Rightarrow> make_trace n ''reason_from_evidence'' ToolSucceeded digest (sv_attempts cfg) (Some (sv_timeout cfg)) refs None
        | Inl d \<Rightarrow> make_trace n ''reason_from_evidence'' ToolDegraded digest (sv_attempts cfg) (Some (sv_timeout cfg)) refs (Some d))"

definition conclude_analysis ::
  "service_config \<Rightarrow> providers \<Rightarrow> incident \<Rightarrow> retrieved_memory list \<Rightarrow> uuid \<Rightarrow> time \<Rightarrow> diagnosis_state \<Rightarrow> service_error + analysis" where
  "conclude_analysis cfg pr i ms aid now st = (case st of (degraded, trace, diagnostics) \<Rightarrow>
     let best = best_of cfg ms;
         evidence = reasoning_evidence (pr_float pr) best ms diagnostics;
         reply = pr_diagnosis pr i evidence in
     bind_r (reason_trace cfg pr i best evidence) (\<lambda>t.
     let a = \<lparr>an_incident = aid, an_status = IncidentOpen,
           an_diagnosis = (case reply of Inr text \<Rightarrow> text | Inl _ \<Rightarrow> deterministic_diagnosis i evidence),
           an_confidence = proposal_confidence best, an_memories = ms, an_action = propose i best,
           an_trace = trace @ [t], an_plan = plan_of (pr_tools pr \<noteq> None),
           an_candidates = candidate_decisions cfg ms, an_abstention = retrieval_abstention cfg ms,
           an_degraded = degraded @ (case reply of Inr _ \<Rightarrow> [] | Inl d \<Rightarrow> [d]),
           an_policy = ''outcome-governance-v2'', an_created = now\<rparr>
     in if valid_analysis a then Inr a else Inl RecordInvalid))"

definition retrieve ::
  "service_config \<Rightarrow> providers \<Rightarrow> mem_store \<Rightarrow> incident \<Rightarrow> time \<Rightarrow> service_error + retrieved_memory list" where
  "retrieve cfg pr s i now = (case pr_embed pr (embedding_input i) of
     Inl _ \<Rightarrow> Inr []
   | Inr v \<Rightarrow> (case find_memories s i v (pr_space pr) (sv_max_memories cfg) now of
       Inl e \<Rightarrow> Inl (ServiceRetrieval e) | Inr ms \<Rightarrow> Inr ms))"

definition prepare_analysis ::
  "service_config \<Rightarrow> providers \<Rightarrow> mem_store \<Rightarrow> incident \<Rightarrow> uuid \<Rightarrow> time \<Rightarrow> service_error + analysis" where
  "prepare_analysis cfg pr s i aid now =
     bind_r (embed_trace cfg pr i) (\<lambda>t1.
     bind_r (retrieve cfg pr s i now) (\<lambda>ms.
     bind_r (retrieve_trace pr i (ok (pr_embed pr (embedding_input i))) ms) (\<lambda>t2.
     bind_r (run_diagnostics cfg pr i (case pr_embed pr (embedding_input i) of Inl d \<Rightarrow> [d] | Inr _ \<Rightarrow> []) [t1, t2]) (\<lambda>st.
     conclude_analysis cfg pr i ms aid now st))))"

section \<open>Approvals and attested executions\<close>

definition in_store :: "(mem_store, store_error, 'a) sx \<Rightarrow> (mem_store, service_error, 'a) sx" where
  "in_store m = (\<lambda>s. case m s of (Inl e, s') \<Rightarrow> (Inl (ServiceStore e), s') | (Inr a, s') \<Rightarrow> (Inr a, s'))"

definition persist_analysis :: "incident \<Rightarrow> analysis \<Rightarrow> (mem_store, service_error, analysis) sx" where
  "persist_analysis i a = in_store (save_analysis i a)"

record approval_request =
  aq_tenant :: string
  aq_approved :: bool
  aq_actor :: string
  aq_hash :: string
  aq_reason :: string

definition decide_approval :: "uuid \<Rightarrow> approval_request \<Rightarrow> time \<Rightarrow> (mem_store, service_error, bool) sx" where
  "decide_approval i q now = (\<lambda>s. case get_analysis s i (aq_tenant q) of
       None \<Rightarrow> (Inr False, s)
     | Some a \<Rightarrow>
         if \<not> pa_requires_approval (an_action a) then (Inl ReadOnlyNeedsNoApproval, s)
         else (case pa_hash (an_action a) of
             None \<Rightarrow> (Inl LacksProposalDigest, s)
           | Some h \<Rightarrow>
               if aq_hash q \<noteq> h then (Inl ApprovalMismatch, s)
               else in_store (record_approval i (aq_tenant q) (aq_actor q) (aq_approved q) h (aq_reason q) now) s))"

record execution_request =
  xq_tenant :: string
  xq_actor :: string
  xq_hash :: string
  xq_action :: string
  xq_refs :: "string list"
  xq_verification :: evidence_verification

definition validate_evidence :: "providers \<Rightarrow> evidence_verification \<Rightarrow> string list \<Rightarrow> service_error + unit" where
  "validate_evidence pr v refs = (case pr_verify pr v refs of
     Inl d \<Rightarrow> Inl (Unavailable d) | Inr verified \<Rightarrow> check_r verified EvidenceUnverified)"

text \<open>\<open>IncidentService.prepare_execution\<close>; the sandbox has an operation of that name too.\<close>

definition prepare_attestation ::
  "providers \<Rightarrow> mem_store \<Rightarrow> uuid \<Rightarrow> execution_request \<Rightarrow> time \<Rightarrow> service_error + attestation option" where
  "prepare_attestation pr s i q now = (case get_analysis s i (xq_tenant q) of
     None \<Rightarrow> Inr None
   | Some a \<Rightarrow>
       let action = an_action a in
       bind_r (check_r (pa_hash action \<noteq> None) LegacyAnalysis) (\<lambda>_.
       bind_r (check_r (pa_hash action = Some (xq_hash q) \<and> xq_action q = pa_command action) ExecutionMismatch) (\<lambda>_.
       bind_r (validate_evidence pr (xq_verification q) (xq_refs q)) (\<lambda>_.
       bind_r (check_r (if pa_requires_approval action
                 then (case get_approval s i (xq_tenant q) of None \<Rightarrow> False | Some p \<Rightarrow> ap_approved p) else True)
               ApprovalRequired) (\<lambda>_.
       Inr (Some \<lparr>at_incident = i, at_tenant = xq_tenant q, at_actor = xq_actor q, at_hash = xq_hash q,
          at_action = xq_action q, at_refs = xq_refs q, at_verification = xq_verification q, at_created = now\<rparr>))))))"

definition persist_execution :: "attestation \<Rightarrow> (mem_store, service_error, attestation) sx" where
  "persist_execution x = in_store (record_execution x)"

section \<open>Learned outcomes\<close>

record outcome_observation =
  oo_tenant :: string
  oo_action :: string
  oo_outcome :: string
  oo_score :: real
  oo_confidence :: real
  oo_actor :: string
  oo_verification :: evidence_verification
  oo_refs :: "string list"
  oo_window :: "int option"
  oo_postconditions :: "string list"

definition confidence_cap :: "evidence_verification \<Rightarrow> real" where
  "confidence_cap v = (if v = ManualAttestation then 0.70 else if v = SystemObserved then 0.90 else 1)"

definition made :: "domain_error + memory \<Rightarrow> service_error + memory" where
  "made r = (case r of Inl _ \<Rightarrow> Inl RecordInvalid | Inr m \<Rightarrow> Inr m)"

definition expiry :: "service_config \<Rightarrow> time \<Rightarrow> time" where
  "expiry cfg now = now + seconds (86400 * sv_ttl_days cfg)"

definition prepare_outcome ::
  "service_config \<Rightarrow> providers \<Rightarrow> mem_store \<Rightarrow> uuid \<Rightarrow> outcome_observation \<Rightarrow> uuid \<Rightarrow> time \<Rightarrow> service_error + memory option" where
  "prepare_outcome cfg pr s i ob mid now = (case get_incident s i (oo_tenant ob) of
     None \<Rightarrow> Inr None
   | Some inc \<Rightarrow>
      (case get_execution s i (oo_tenant ob) of
        None \<Rightarrow> Inl ExecutionRequired
      | Some x \<Rightarrow>
          bind_r (check_r (oo_action ob = at_action x) ObservedActionMismatch) (\<lambda>_.
          bind_r (validate_evidence pr (oo_verification ob) (oo_refs ob)) (\<lambda>_.
          bind_r (check_r (oo_verification ob = ManualAttestation \<or> oo_window ob \<noteq> None \<and> oo_postconditions ob \<noteq> [])
                  WindowRequired) (\<lambda>_.
          (case pr_embed pr (embedding_input inc) of
             Inl d \<Rightarrow> Inl (Unavailable d)
           | Inr embedding \<Rightarrow>
               bind_r (made (make_memory (pr_jcs pr) \<lparr>mm_id = mid, mm_tenant = in_tenant inc, mm_service = in_service inc,
                 mm_version = in_version inc, mm_policy = sv_policy cfg, mm_policy_version = sv_policy_version cfg,
                 mm_symptom = in_symptom inc, mm_action = oo_action ob, mm_outcome = oo_outcome ob, mm_score = oo_score ob,
                 mm_semantics = None, mm_confidence = min (oo_confidence ob) (confidence_cap (oo_verification ob)),
                 mm_valid = False, mm_state = MPendingReview, mm_superseded_by = None, mm_source_incident = Some i,
                 mm_observed_by = Some (oo_actor ob), mm_verification = oo_verification ob, mm_evidence_refs = oo_refs ob,
                 mm_window = oo_window ob, mm_postconditions = oo_postconditions ob, mm_reviewed_by = None,
                 mm_reviewed_at = None, mm_observation_digest = None, mm_assessment_digest = None,
                 mm_verdict_digest = None, mm_digest = None, mm_governance_policy = ''memory-governance-v1'',
                 mm_governance_version = 1, mm_expires_at = Some (expiry cfg now), mm_superseded_at = None,
                 mm_revoked_at = None, mm_space = pr_space pr, mm_embedding = embedding, mm_created = now\<rparr>))
               (\<lambda>m. Inr (Some m))))))))"

definition persist_outcome :: "memory \<Rightarrow> (mem_store, service_error, memory) sx" where
  "persist_outcome m = in_store (save_outcome_memory m)"

text \<open>The outcome of a verified post-check; the assessment and the verdict enter by their digests.\<close>

fun verified_outcome :: "postcheck_class \<Rightarrow> string \<times> real \<times> memory_outcome" where
  "verified_outcome Recovered = (''verified recovery after sandbox remediation'', 1, OutcomePositive)"
| "verified_outcome NotRecovered = (''verified postcheck failure after sandbox remediation'', - 1, OutcomeNegative)"
| "verified_outcome Inconclusive = (''verified postcheck was inconclusive'', 0, OutcomeInconclusive)"

definition lift_digest :: "digest_error + string \<Rightarrow> service_error + string" where
  "lift_digest r = (case r of Inl e \<Rightarrow> Inl (ServiceDigest e) | Inr d \<Rightarrow> Inr d)"

definition assessment_digest :: "jcs \<Rightarrow> postcheck_assessment \<Rightarrow> digest_error + string" where
  "assessment_digest jcs a = content_digest jcs ''recallops-assessment-v1'' (JObj
     [(''observation_digest'', JStr (pt_digest a)), (''agent_subject'', JStr (pt_agent a)),
      (''classification'', JStr (class_value (pt_class a))), (''rationale'', JStr (pt_rationale a)),
      (''created_at'', JStr (iso_z (pt_created a)))])"

definition analysis_action :: "mem_store \<Rightarrow> uuid \<Rightarrow> string \<Rightarrow> service_error + string" where
  "analysis_action s i tenant = (case get_analysis s i tenant of
     None \<Rightarrow> Inl AnalysisNotFound | Some a \<Rightarrow> Inr (pa_command (an_action a)))"

definition bound_to_execution :: "uuid \<Rightarrow> postcheck_observation \<Rightarrow> sandbox_execution \<Rightarrow> bool" where
  "bound_to_execution i obs x \<longleftrightarrow> po_incident obs = i \<and> po_execution obs = sx_id x \<and>
     po_proposal obs = sx_proposal x \<and> po_execution_digest obs = sx_digest x"

definition bound_to_observation ::
  "uuid \<Rightarrow> postcheck_observation \<Rightarrow> policy_verdict \<Rightarrow> postcheck_assessment \<Rightarrow> bool" where
  "bound_to_observation i obs verdict a \<longleftrightarrow> pv_digest verdict = po_digest obs \<and> pt_observation a = po_id obs \<and>
     pt_digest a = po_digest obs \<and> pt_incident a = i \<and> pt_tenant a = po_tenant obs"

definition prepare_verified_outcome ::
  "service_config \<Rightarrow> providers \<Rightarrow> mem_store \<Rightarrow> uuid \<Rightarrow> postcheck_observation \<Rightarrow> policy_verdict \<Rightarrow> postcheck_assessment
     \<Rightarrow> uuid \<Rightarrow> time \<Rightarrow> service_error + memory option" where
  "prepare_verified_outcome cfg pr s i obs verdict a mid now = (case get_incident s i (po_tenant obs) of
     None \<Rightarrow> Inr None
   | Some inc \<Rightarrow>
      (case get_sandbox_execution s i (po_tenant obs) of
        None \<Rightarrow> Inl SandboxRequired
      | Some x \<Rightarrow>
          bind_r (check_r (bound_to_execution i obs x) ObservationNotBound) (\<lambda>_.
          bind_r (check_r (bound_to_observation i obs verdict a) AssessmentNotBound) (\<lambda>_.
          (case pr_embed pr (embedding_input inc) of
             Inl d \<Rightarrow> Inl (Unavailable d)
           | Inr embedding \<Rightarrow>
               bind_r (lift_digest (assessment_digest (pr_jcs pr) a)) (\<lambda>ad.
               bind_r (lift_digest (policy_verdict_digest (pr_jcs pr) verdict)) (\<lambda>vd.
               bind_r (analysis_action s i (in_tenant inc)) (\<lambda>action.
               bind_r (made (make_memory (pr_jcs pr) \<lparr>mm_id = mid, mm_tenant = in_tenant inc, mm_service = in_service inc,
                 mm_version = in_version inc, mm_policy = sv_policy cfg, mm_policy_version = sv_policy_version cfg,
                 mm_symptom = in_symptom inc, mm_action = action,
                 mm_outcome = fst (verified_outcome (pv_class verdict)),
                 mm_score = fst (snd (verified_outcome (pv_class verdict))),
                 mm_semantics = Some (snd (snd (verified_outcome (pv_class verdict)))), mm_confidence = 1,
                 mm_valid = False, mm_state = MPendingReview, mm_superseded_by = None, mm_source_incident = Some i,
                 mm_observed_by = Some (pt_agent a), mm_verification = SystemObserved,
                 mm_evidence_refs = [''urn:recallops:observation:'' @ po_id obs,
                    ''urn:recallops:policy:'' @ pv_policy verdict, ''urn:recallops:assessment:'' @ pt_id a],
                 mm_window = Some (po_window obs), mm_postconditions = pv_passed verdict @ pv_failed verdict,
                 mm_reviewed_by = None, mm_reviewed_at = None, mm_observation_digest = Some (po_digest obs),
                 mm_assessment_digest = Some ad, mm_verdict_digest = Some vd, mm_digest = None,
                 mm_governance_policy = ''memory-governance-v1'', mm_governance_version = 1,
                 mm_expires_at = Some (expiry cfg now), mm_superseded_at = None, mm_revoked_at = None,
                 mm_space = pr_space pr, mm_embedding = embedding, mm_created = now\<rparr>))
               (\<lambda>m. Inr (Some m))))))))))"

definition persist_verified_outcome ::
  "postcheck_assessment \<Rightarrow> memory \<Rightarrow> (mem_store, service_error, postcheck_assessment \<times> memory) sx" where
  "persist_verified_outcome a m = bind_s (in_store (record_postcheck_assessment a)) (\<lambda>recorded.
     bind_s (in_store (save_outcome_memory m)) (\<lambda>saved. return_s (recorded, saved)))"

section \<open>Recurrence\<close>

record recurrence =
  rv_service :: string
  rv_version :: string
  rv_symptom :: string
  rv_baseline :: "uuid option"
  rv_baseline_recommendation :: string
  rv_pre_review :: "uuid option"
  rv_pre_review_recommendation :: string
  rv_governed :: "uuid option"
  rv_governed_recommendation :: string
  rv_authority_changed :: bool
  rv_action_changed :: bool
  rv_explanation :: string
  rv_eligible :: "uuid list"
  rv_warnings :: "uuid list"
  rv_policy_version :: string

fun similarities :: "real list \<Rightarrow> memory list \<Rightarrow> retrieval_error + (real \<times> int \<times> string) list" where
  "similarities v [] = Inr []"
| "similarities v (m # ms) = bind_r (cosine_similarity (mm_embedding m) v) (\<lambda>sim.
     bind_r (similarities v ms) (\<lambda>rest. Inr ((sim, mm_created m, mm_id m) # rest)))"

text \<open>\<open>max\<close> with a key: the first of the greatest elements.\<close>

fun max_by :: "('a \<times> 'k :: linorder) list \<Rightarrow> 'a option" where
  "max_by [] = None"
| "max_by ((x, k) # rest) = Some (fst (foldl (\<lambda>(y, j) (z, l). if j < l then (z, l) else (y, j)) (x, k) rest))"

definition abstained :: string where
  "abstained = ''abstain: no compatible certified positive memory''"

definition first_memory :: "retrieved_memory list \<Rightarrow> memory option" where
  "first_memory rs = (case rs of [] \<Rightarrow> None | r # _ \<Rightarrow> Some (rm_memory r))"

definition recommend :: "memory option \<Rightarrow> string" where
  "recommend m = (case m of None \<Rightarrow> abstained | Some m \<Rightarrow> mm_action m)"

definition recurrence_view ::
  "service_config \<Rightarrow> providers \<Rightarrow> mem_store \<Rightarrow> incident \<Rightarrow> uuid option \<Rightarrow> time \<Rightarrow> service_error + recurrence" where
  "recurrence_view cfg pr s i reviewed now = (case pr_embed pr (embedding_input i) of
     Inl d \<Rightarrow> Inl (Unavailable d)
   | Inr v \<Rightarrow>
      (let pool = filter (\<lambda>m. mm_space m = pr_space pr) (list_memories s (in_tenant i) (in_service i)) in
       case similarities v pool of Inl e \<Rightarrow> Inl (ServiceRetrieval e) | Inr keys \<Rightarrow>
      (let baseline = max_by (zip pool keys) in
       case find_memories s i v (pr_space pr) (sv_max_memories cfg) now of
         Inl e \<Rightarrow> Inl (ServiceRetrieval e)
       | Inr found \<Rightarrow>
          let compatible = filter (\<lambda>r. positive r \<and> rm_compatibility r = 1) found;
              governed = first_memory compatible;
              before = first_memory (filter (\<lambda>r. Some (mm_id (rm_memory r)) \<noteq> reviewed) compatible);
              authority = (case (reviewed, governed) of
                 (Some n, Some g) \<Rightarrow> mm_id g = n \<and> (case before of None \<Rightarrow> True | Some b \<Rightarrow> mm_id b \<noteq> mm_id g)
               | _ \<Rightarrow> False);
              action = (authority \<and> recommend before \<noteq> recommend governed) in
          Inr \<lparr>rv_service = in_service i, rv_version = in_version i, rv_symptom = in_symptom i,
            rv_baseline = map_option mm_id baseline,
            rv_baseline_recommendation = (case baseline of None \<Rightarrow> ''abstain: no historical memory'' | Some m \<Rightarrow> mm_action m),
            rv_pre_review = map_option mm_id before, rv_pre_review_recommendation = recommend before,
            rv_governed = map_option mm_id governed, rv_governed_recommendation = recommend governed,
            rv_authority_changed = authority, rv_action_changed = action,
            rv_explanation =
              (if authority \<and> action
               then ''Independent review changed both the selected evidence authority and the bounded recommendation.''
               else if authority
               then ''Independent review replaced the prior evidence authority with the locally verified memory; the bounded action remained stable.''
               else ''Independent review did not change the selected evidence authority for this recurrence.''),
            rv_eligible = map (\<lambda>r. mm_id (rm_memory r)) compatible,
            rv_warnings = map (\<lambda>r. mm_id (rm_memory r)) (filter (\<lambda>r. mm_semantics (rm_memory r) = Some OutcomeNegative \<and>
               version_compatibility (mm_version (rm_memory r)) (in_version i) (mm_policy (rm_memory r)) = 1) found),
            rv_policy_version = sv_policy_version cfg\<rparr>)))"

section \<open>What an analysis proposes\<close>

lemma nth_takeWhile_filter: "filter P xs \<noteq> [] \<Longrightarrow>
    length (takeWhile (\<lambda>x. \<not> P x) xs) < length xs \<and> xs ! length (takeWhile (\<lambda>x. \<not> P x) xs) = hd (filter P xs)"
  by (induction xs) auto

lemma reason_if_Nil [simp]: "reason_if b r = [] \<longleftrightarrow> \<not> b"
  by (simp add: reason_if_def)

lemma threshold_reasons_Nil: "threshold_reasons cfg r = [] \<longleftrightarrow>
    sv_min_similarity cfg \<le> rm_similarity r \<and> sv_min_confidence cfg \<le> rm_confidence r \<and>
    sv_min_rank cfg \<le> rm_rank r \<and> 1 \<le> rm_compatibility r"
  by (auto simp: threshold_reasons_def)

lemma best_of_Some:
  assumes "best_of cfg ms = Some r"
  shows "r = hd (filter positive ms)" "r \<in> set ms" "positive r" "threshold_reasons cfg r = []"
    "\<not> top_candidates_conflict cfg (filter positive ms)" "retrieval_abstention cfg ms = []"
proof -
  have f: "filter positive ms \<noteq> []" "retrieval_abstention cfg ms = []" "r = ms ! length (takeWhile (\<lambda>r. \<not> positive r) ms)"
    using assms by (auto simp: best_of_def best_index_def split: if_splits)
  then show hd: "r = hd (filter positive ms)" "retrieval_abstention cfg ms = []"
    using nth_takeWhile_filter [of positive ms] by simp_all
  have "r \<in> set (filter positive ms)" unfolding hd(1) using f(1) by (rule hd_in_set)
  then show "r \<in> set ms" "positive r" by simp_all
  obtain rest where "filter positive ms = r # rest" using f(1) hd(1) by (cases "filter positive ms") auto
  then have "abstention_reasons cfg (r # rest) = []" using f(1,2) by (auto simp: retrieval_abstention_def)
  then show "threshold_reasons cfg r = []" "\<not> top_candidates_conflict cfg (filter positive ms)"
    using \<open>filter positive ms = r # rest\<close> by (simp_all add: abstention_reasons_def)
qed

lemma best_of_None:
  assumes "best_of cfg ms = None"
  shows "retrieval_abstention cfg ms \<noteq> []"
  using assms by (auto simp: best_of_def best_index_def retrieval_abstention_def abstention_reasons_def)

lemma best_of_highest:
  assumes "best_of cfg ms = Some r" "sorted_wrt (\<lambda>a b. retrieval_key b \<le> retrieval_key a) ms" "q \<in> set ms" "positive q"
  shows "rm_rank q \<le> rm_rank r"
proof -
  have "sorted_wrt (\<lambda>a b. retrieval_key b \<le> retrieval_key a) (filter positive ms)"
    using assms(2) by (rule sorted_wrt_filter)
  moreover have "q \<in> set (filter positive ms)" using assms(3,4) by simp
  ultimately have "retrieval_key q \<le> retrieval_key r" using best_of_Some(1) [OF assms(1)]
    by (cases "filter positive ms") auto
  then show ?thesis by (auto simp: retrieval_key_def less_eq_prod_def)
qed

lemma candidate_decisions_selected:
  "length (candidate_decisions cfg ms) = length ms"
  "n < length ms \<Longrightarrow> cd_memory (candidate_decisions cfg ms ! n) = mm_id (rm_memory (ms ! n))"
  "n < length ms \<Longrightarrow> cd_disposition (candidate_decisions cfg ms ! n) = CandidateSelected \<longleftrightarrow> best_index cfg ms = Some n"
  by (simp_all add: candidate_decisions_def enumerate_eq_zip Let_def)

lemma make_trace_Inr:
  "make_trace n tool st digest k t refs reason = Inr x \<Longrightarrow>
     tt_sequence x = n \<and> tt_tool x = tool \<and> tt_status x = st \<and> tt_refs x = refs \<and> tt_degraded x = reason \<and> valid_trace x"
  by (auto simp: make_trace_def Let_def split: if_splits)

lemma inspect_tools_trace:
  assumes "inspect_tools cfg i scope n tools (d, tr, ev) = Inr (d', tr', ev')"
  shows "map tt_tool tr' = map tt_tool tr @ map fst tools \<and>
    map tt_sequence tr' = map tt_sequence tr @ map (\<lambda>k. n + int k) [0..<length tools]"
  using assms
proof (induction tools arbitrary: n d tr ev)
  case (Cons tool tools)
  obtain name dep f where tool: "tool = (name, dep, f)" by (cases tool)
  obtain t d1 ev1 where step: "tt_tool t = name" "tt_sequence t = n"
    "inspect_tools cfg i scope (n + 1) tools (d1, tr @ [t], ev1) = Inr (d', tr', ev')"
    using Cons.prems unfolding tool
    by (auto simp: Let_def bind_r_Inr dest!: make_trace_Inr split: sum.splits option.splits)
  have shift: "map (\<lambda>k. n + int k) [0..<length (tool # tools)] = n # map (\<lambda>k. n + 1 + int k) [0..<length tools]"
    by (simp add: upt_conv_Cons map_Suc_upt [symmetric] comp_def algebra_simps del: upt_Suc)
  show ?case using Cons.IH [OF step(3)] step(1,2) shift tool by simp
qed simp

lemma run_diagnostics_trace:
  assumes "run_diagnostics cfg pr i d [t1, t2] = Inr (d', tr', ev')"
    "tt_tool t1 = ''embed_incident''" "tt_sequence t1 = 1" "tt_tool t2 = ''retrieve_governed_memory''" "tt_sequence t2 = 2"
  shows "map tt_tool tr' @ [''reason_from_evidence''] = map ps_tool (plan_of (pr_tools pr \<noteq> None)) \<and>
    map tt_sequence tr' @ [if pr_tools pr = None then 3 else 5] = map ps_sequence (plan_of (pr_tools pr \<noteq> None))"
proof (cases "pr_tools pr")
  case None
  then show ?thesis using assms by (auto simp: run_diagnostics_def plan_of_def)
next
  case (Some tools)
  obtain alarms deployments where tools: "tools = (alarms, deployments)" by (cases tools)
  have "map tt_tool tr' = map tt_tool [t1, t2] @ map fst [(''inspect_cloudwatch_alarms'', ''cloudwatch_diagnostics'', alarms),
         (''inspect_ecs_deployments'', ''ecs_diagnostics'', deployments)] \<and>
      map tt_sequence tr' = map tt_sequence [t1, t2] @ map (\<lambda>k. 3 + int k) [0..<length
        [(''inspect_cloudwatch_alarms'', ''cloudwatch_diagnostics'', alarms),
         (''inspect_ecs_deployments'', ''ecs_diagnostics'', deployments)]]"
    using assms(1) unfolding run_diagnostics_def Some tools option.case prod.case Let_def by (rule inspect_tools_trace)
  then show ?thesis using assms(2-5) Some by (simp add: plan_of_def upt_rec)
qed

lemma prepare_analysis_Inr:
  assumes "prepare_analysis cfg pr s i aid now = Inr a"
  obtains ms where "an_memories a = ms"
    "(\<exists>d. pr_embed pr (embedding_input i) = Inl d) \<and> ms = [] \<or>
     (\<exists>v. pr_embed pr (embedding_input i) = Inr v \<and>
        find_memories s i v (pr_space pr) (sv_max_memories cfg) now = Inr ms)"
    "an_action a = propose i (best_of cfg ms)" "an_confidence a = proposal_confidence (best_of cfg ms)"
    "an_candidates a = candidate_decisions cfg ms" "an_abstention a = retrieval_abstention cfg ms"
    "map tt_tool (an_trace a) = map ps_tool (an_plan a)" "map tt_sequence (an_trace a) = map ps_sequence (an_plan a)"
    "valid_analysis a" "an_incident a = aid"
proof -
  obtain t1 ms t2 st where t1: "embed_trace cfg pr i = Inr t1" and ms: "retrieve cfg pr s i now = Inr ms"
    and t2: "retrieve_trace pr i (ok (pr_embed pr (embedding_input i))) ms = Inr t2"
    and diag: "run_diagnostics cfg pr i (case pr_embed pr (embedding_input i) of Inl d \<Rightarrow> [d] | Inr _ \<Rightarrow> []) [t1, t2] = Inr st"
    and concl: "conclude_analysis cfg pr i ms aid now st = Inr a"
    using assms unfolding prepare_analysis_def bind_r_Inr by blast
  obtain d tr ev where st: "st = (d, tr, ev)" by (cases st)
  obtain t3 where t3: "tt_tool t3 = ''reason_from_evidence''" "tt_sequence t3 = (if pr_tools pr = None then 3 else 5)"
    and a: "an_memories a = ms" "an_action a = propose i (best_of cfg ms)"
      "an_confidence a = proposal_confidence (best_of cfg ms)" "an_candidates a = candidate_decisions cfg ms"
      "an_abstention a = retrieval_abstention cfg ms" "an_trace a = tr @ [t3]"
      "an_plan a = plan_of (pr_tools pr \<noteq> None)" "valid_analysis a" "an_incident a = aid"
  proof -
    obtain t where t: "reason_trace cfg pr i (best_of cfg ms) (reasoning_evidence (pr_float pr) (best_of cfg ms) ms ev) = Inr t"
      using concl unfolding conclude_analysis_def st prod.case Let_def bind_r_Inr by blast
    then have "tt_tool t = ''reason_from_evidence'' \<and> tt_sequence t = (if pr_tools pr = None then 3 else 5)"
      by (auto simp: reason_trace_def Let_def dest!: make_trace_Inr split: sum.splits)
    then show thesis using concl t by (intro that [of t]) (auto simp: conclude_analysis_def st Let_def split: if_splits)
  qed
  have emb: "tt_tool t1 = ''embed_incident''" "tt_sequence t1 = 1" "tt_tool t2 = ''retrieve_governed_memory''" "tt_sequence t2 = 2"
    using t1 t2 by (auto simp: embed_trace_def retrieve_trace_def Let_def dest!: make_trace_Inr split: sum.splits)
  have "map tt_tool (an_trace a) = map ps_tool (an_plan a)" "map tt_sequence (an_trace a) = map ps_sequence (an_plan a)"
    using run_diagnostics_trace [OF diag [unfolded st] emb] t3 a(6,7) by simp_all
  then show thesis using that [OF a(1) _ a(2-5) _ _ a(8,9)] ms by (auto simp: retrieve_def split: sum.splits)
qed

lemma map_pairs_eq:
  "map f xs = map f' ys \<Longrightarrow> map g xs = map g' ys \<Longrightarrow> map (\<lambda>x. (f x, g x)) xs = map (\<lambda>y. (f' y, g' y)) ys"
  by (induction xs ys rule: list_induct2') simp_all

lemma selected_count:
  "length (filter (\<lambda>c. cd_disposition c = CandidateSelected) (candidate_decisions cfg ms)) =
     (case best_of cfg ms of None \<Rightarrow> 0 | Some _ \<Rightarrow> 1)"
proof -
  have "{n. n < length ms \<and> best_index cfg ms = Some n} = (case best_index cfg ms of None \<Rightarrow> {} | Some n \<Rightarrow> {n})"
    using nth_takeWhile_filter [of positive ms] by (auto simp: best_index_def split: if_splits)
  moreover have "{n. n < length (candidate_decisions cfg ms) \<and> cd_disposition (candidate_decisions cfg ms ! n) = CandidateSelected} =
      {n. n < length ms \<and> best_index cfg ms = Some n}"
    using candidate_decisions_selected by auto
  ultimately show ?thesis
    by (simp add: length_filter_conv_card best_of_def split: option.splits)
qed

text \<open>
  C7. An analysis proposes governed actions only. Every memory it shows is one of the store, admissible for
  the incident at the time. A mutating proposal is the action of the highest-ranked positive one among them,
  fully version-compatible and above every threshold, bound to its digest and to an approval; otherwise the
  proposal is the read-only inspection and the reasons to abstain are given. The confidence stays between
  0.1 and 0.95, exactly one candidate is selected for a mutating proposal and none otherwise, and the trace
  records the steps of the plan in order.
\<close>

theorem analysis_is_governed:
  assumes "prepare_analysis cfg pr s i aid now = Inr a"
  shows "(\<forall>r \<in> set (an_memories a). rm_memory r \<in> set (ms_memories s) \<and> admissible i (pr_space pr) now (rm_memory r)) \<and>
    (case pa_risk (an_action a) of
       MUTATING \<Rightarrow> an_abstention a = [] \<and> pa_requires_approval (an_action a) \<and>
         (\<exists>r \<in> set (an_memories a). pa_command (an_action a) = mm_action (rm_memory r) \<and>
            mm_semantics (rm_memory r) = Some OutcomePositive \<and> 1 \<le> rm_compatibility r \<and>
            sv_min_similarity cfg \<le> rm_similarity r \<and> sv_min_confidence cfg \<le> rm_confidence r \<and> sv_min_rank cfg \<le> rm_rank r \<and>
            (\<forall>q \<in> set (an_memories a). positive q \<longrightarrow> rm_rank q \<le> rm_rank r))
     | READ_ONLY \<Rightarrow> an_abstention a \<noteq> [] \<and> \<not> pa_requires_approval (an_action a) \<and>
         pa_command (an_action a) = ''inspect logs and metrics for '' @ in_service i) \<and>
    pa_hash (an_action a) = Some (sha256_hex (pa_command (an_action a))) \<and>
    1 / 10 \<le> an_confidence a \<and> an_confidence a \<le> 95 / 100 \<and>
    length (filter (\<lambda>c. cd_disposition c = CandidateSelected) (an_candidates a)) =
      (if pa_risk (an_action a) = MUTATING then 1 else 0) \<and>
    map (\<lambda>t. (tt_sequence t, tt_tool t)) (an_trace a) = map (\<lambda>p. (ps_sequence p, ps_tool p)) (an_plan a)"
proof -
  obtain ms where a: "an_memories a = ms"
    "(\<exists>d. pr_embed pr (embedding_input i) = Inl d) \<and> ms = [] \<or>
     (\<exists>v. pr_embed pr (embedding_input i) = Inr v \<and> find_memories s i v (pr_space pr) (sv_max_memories cfg) now = Inr ms)"
    "an_action a = propose i (best_of cfg ms)" "an_confidence a = proposal_confidence (best_of cfg ms)"
    "an_candidates a = candidate_decisions cfg ms" "an_abstention a = retrieval_abstention cfg ms"
    and trace: "map tt_tool (an_trace a) = map ps_tool (an_plan a)" "map tt_sequence (an_trace a) = map ps_sequence (an_plan a)"
    by (rule prepare_analysis_Inr [OF assms])
  have mem: "\<forall>r \<in> set ms. rm_memory r \<in> set (ms_memories s) \<and> admissible i (pr_space pr) now (rm_memory r)"
    using a(2) find_in_members by (auto simp: find_memories_def)
  have sorted: "sorted_wrt (\<lambda>a b. retrieval_key b \<le> retrieval_key a) ms"
    using a(2) find_in_sorted by (auto simp: find_memories_def)
  have steps: "map (\<lambda>t. (tt_sequence t, tt_tool t)) (an_trace a) = map (\<lambda>p. (ps_sequence p, ps_tool p)) (an_plan a)"
    using trace(2,1) by (rule map_pairs_eq)
  show ?thesis
  proof (cases "best_of cfg ms")
    case None
    then show ?thesis using mem steps a best_of_None [OF None]
      by (simp add: propose_def proposal_confidence_def selected_count action_hash_def Let_def)
  next
    case (Some r)
    note best = best_of_Some [OF Some]
    have "\<forall>q \<in> set ms. positive q \<longrightarrow> rm_rank q \<le> rm_rank r" using best_of_highest [OF Some sorted] by blast
    then show ?thesis using mem steps a Some best(2-4,6)
      by (auto simp: propose_def proposal_confidence_def selected_count action_hash_def threshold_reasons_Nil positive_def)
  qed
qed

definition sample_config :: service_config where
  "sample_config = \<lparr>sv_max_memories = 5, sv_min_similarity = 0.55, sv_min_confidence = 0.5, sv_min_rank = 0.65,
     sv_min_margin = 0.03, sv_attempts = 3, sv_timeout = 15, sv_policy = ExactVersion, sv_policy_version = ''semver-v1'', sv_ttl_days = 180\<rparr>"

definition sample_providers :: providers where
  "sample_providers = \<lparr>pr_space = ''space-1'', pr_embed = (\<lambda>_. Inr [1, 0]), pr_diagnosis = (\<lambda>_ _. Inr ''diagnosed''), pr_tools = None,
     pr_verify = (\<lambda>v _. Inr (v = ManualAttestation)), pr_model_json = (\<lambda>_. ''{}''), pr_float = (\<lambda>_. ''1.0''), pr_jcs = (\<lambda>_. ''{}'')\<rparr>"

lemma sample_retrieved: "retrieve sample_config sample_providers (new_store [sample_memory]) sample_incident 0 =
    Inr [rank_memory sample_memory 1 ''1.2.0'' 0]"
proof -
  have "cosine_similarity (mm_embedding sample_memory) [1, 0] = Inr 1"
    by (simp add: cosine_similarity_def norm_l_def dot_def sample_memory_def)
  then show ?thesis
    by (simp add: retrieve_def sample_providers_def find_memories_def new_store_def find_in_def sample_config_def
        py_prefix_def sorted_desc_def retrievable_def bind_r_Inr)
      (simp add: sample_memory_def sample_incident_def)
qed

lemma sample_best: "best_of sample_config [rank_memory sample_memory 1 ''1.2.0'' 0] = Some (rank_memory sample_memory 1 ''1.2.0'' 0)"
proof -
  have f: "freshness (age_days 0 sample_memory) = 1" by (simp add: freshness_def age_days_def sample_memory_def)
  have "positive (rank_memory sample_memory 1 ''1.2.0'' 0)" by (simp add: positive_def) (simp add: sample_memory_def)
  moreover have "threshold_reasons sample_config (rank_memory sample_memory 1 ''1.2.0'' 0) = []"
    unfolding threshold_reasons_Nil rank_memory_def f Let_def
    by (simp add: sample_config_def sample_memory_def version_compatibility_def memory_rank_score_def)
  ultimately show ?thesis
    by (simp add: best_of_def best_index_def retrieval_abstention_def abstention_reasons_def top_candidates_conflict_def)
qed

lemma make_trace_ok:
  "1 \<le> n \<Longrightarrow> tool_name tool \<Longrightarrow> length refs \<le> 20 \<Longrightarrow> 1 \<le> k \<Longrightarrow> k \<le> 10 \<Longrightarrow> opt_all (\<lambda>s. 0 < s \<and> s \<le> 120) timeout \<Longrightarrow>
     \<exists>t. make_trace n tool st (trace_input_digest ds) k timeout refs None = Inr t"
  by (simp add: make_trace_def Let_def valid_trace_def trace_input_digest_def hex64_sha256_hex)

lemma sample_prepared:
  assumes pr: "\<And>x. pr_embed pr x = Inr v" "pr_tools pr = None" "\<And>i e. pr_diagnosis pr i e = Inr ''diagnosed''"
    and retrieved: "retrieve sample_config pr s sample_incident now = Inr [r]"
  obtains a where "prepare_analysis sample_config pr s sample_incident aid now = Inr a"
    "an_memories a = [r]" "an_action a = propose sample_incident (best_of sample_config [r])"
proof -
  let ?best = "best_of sample_config [r]"
  have names: "tool_name ''embed_incident''" "tool_name ''retrieve_governed_memory''" "tool_name ''reason_from_evidence''"
    by (simp_all add: tool_name_def sized_def ulen_def)
  have cfg: "sv_attempts sample_config = 3" "sv_timeout sample_config = 15" by (simp_all add: sample_config_def)
  have "\<exists>t. embed_trace sample_config pr sample_incident = Inr t"
    unfolding embed_trace_def pr cfg Let_def sum.case by (rule make_trace_ok [OF _ names(1)]) (simp_all add: opt_all_def)
  then obtain t1 where t1: "embed_trace sample_config pr sample_incident = Inr t1" ..
  have "\<exists>t. retrieve_trace pr sample_incident True [r] = Inr t"
    unfolding retrieve_trace_def if_True by (rule make_trace_ok [OF _ names(2)]) (simp_all add: opt_all_def)
  then obtain t2 where t2: "retrieve_trace pr sample_incident True [r] = Inr t2" ..
  define e where "e = reasoning_evidence (pr_float pr) ?best [r] []"
  have "\<exists>t. reason_trace sample_config pr sample_incident ?best e = Inr t"
    unfolding reason_trace_def pr cfg Let_def sum.case
    by (rule make_trace_ok [OF _ names(3)]) (simp_all add: opt_all_def split: option.splits)
  then obtain t3 where t3: "reason_trace sample_config pr sample_incident ?best e = Inr t3" ..
  have dec: "list_all (\<lambda>c. length (cd_reasons c) \<le> 20) (candidate_decisions sample_config [r])"
    "length (candidate_decisions sample_config [r]) \<le> 100"
    by (simp_all add: candidate_decisions_def candidate_reasons_def threshold_reasons_def reason_if_def Let_def enumerate_eq_zip)
  have conf: "0 \<le> proposal_confidence ?best \<and> proposal_confidence ?best \<le> 1"
    by (simp add: proposal_confidence_def max_def min_def split: option.splits)
  have act: "opt_all hex64 (pa_hash (propose sample_incident ?best))"
    by (simp add: propose_def action_hash_def hex64_sha256_hex Let_def split: option.splits)
  define a where "a = \<lparr>an_incident = aid, an_status = IncidentOpen, an_diagnosis = ''diagnosed'',
           an_confidence = proposal_confidence ?best, an_memories = [r], an_action = propose sample_incident ?best,
           an_trace = [t1, t2, t3], an_plan = plan_of False, an_candidates = candidate_decisions sample_config [r],
           an_abstention = retrieval_abstention sample_config [r], an_degraded = [],
           an_policy = ''outcome-governance-v2'', an_created = now\<rparr>"
  have "valid_analysis a" using dec conf act
    by (simp add: valid_analysis_def a_def plan_of_def sized_def ulen_def)
  then have "prepare_analysis sample_config pr s sample_incident aid now = Inr a"
    by (simp add: prepare_analysis_def t1 retrieved pr t2 run_diagnostics_def conclude_analysis_def
        e_def [symmetric] t3 a_def Let_def)
  then show thesis by (rule that) (simp_all add: a_def)
qed

theorem analysis_is_governed_witness:
  "\<exists>a. prepare_analysis sample_config sample_providers (new_store [sample_memory]) sample_incident ''a1'' 0 = Inr a \<and>
     pa_risk (an_action a) = MUTATING \<and> pa_requires_approval (an_action a) \<and>
     pa_hash (an_action a) = Some (sha256_hex (pa_command (an_action a)))"
proof -
  have pr: "pr_embed sample_providers x = Inr [1, 0]" "pr_tools sample_providers = None"
    "pr_diagnosis sample_providers i e = Inr ''diagnosed''" for x i e
    by (simp_all add: sample_providers_def)
  obtain a where a: "prepare_analysis sample_config sample_providers (new_store [sample_memory]) sample_incident ''a1'' 0 = Inr a"
    "an_action a = propose sample_incident (best_of sample_config [rank_memory sample_memory 1 ''1.2.0'' 0])"
    by (rule sample_prepared [OF pr sample_retrieved])
  from a(2) have risk: "pa_risk (an_action a) = MUTATING" by (simp add: sample_best propose_def)
  show ?thesis using analysis_is_governed [OF a(1)] a(1) risk by (intro exI [of _ a] conjI) simp_all
qed

section \<open>What a recurrence recalls\<close>

lemma first_memory_Some: "first_memory (filter P rs) = Some m \<Longrightarrow> \<exists>r \<in> set rs. P r \<and> rm_memory r = m"
  by (auto simp: first_memory_def split: list.splits dest!: filter_eq_ConsD)



end
