(* ===== verification/Provenance.thy ===== *)
theory Provenance
  imports Service
begin

text \<open>
  Runs of the incident service: many callers, each reading before it writes, so that an attestation or a
  memory that was prepared is persisted in a later state. What a stored execution, a learned memory and an
  active memory imply about what happened before them.
\<close>

section \<open>Runs\<close>

record service_run =
  rn_store :: mem_store
  rn_attested :: "attestation list"
  rn_learned :: "memory list"
  rn_verified :: "(postcheck_assessment \<times> memory) list"

definition new_run :: service_run where
  "new_run = \<lparr>rn_store = new_store [], rn_attested = [], rn_learned = [], rn_verified = []\<rparr>"

text \<open>
  A fixture memory has no source incident and no observer. The identifier of a new analysis is fresh (it is a
  random UUID): an analysis under a taken identifier is not persisted here.
\<close>

datatype service_op =
    Fixture memory
  | PersistAnalysis incident analysis
  | Decide uuid approval_request time
  | PrepareExecution uuid execution_request time
  | PersistExecution attestation
  | PersistSandbox sandbox_execution
  | PersistPostcheck postcheck_observation policy_verdict
  | PrepareOutcome uuid outcome_observation uuid time
  | PersistOutcome memory
  | PrepareVerified uuid postcheck_observation policy_verdict postcheck_assessment uuid time
  | PersistVerified postcheck_assessment memory
  | Govern uuid governance_request uuid time

definition on_store :: "(mem_store, 'e, 'a) sx \<Rightarrow> service_run \<Rightarrow> service_run" where
  "on_store m r = r\<lparr>rn_store := snd (m (rn_store r))\<rparr>"

fun service_step :: "service_config \<Rightarrow> providers \<Rightarrow> service_op \<Rightarrow> service_run \<Rightarrow> service_run" where
  "service_step cfg pr (Fixture m) r = on_store (add_memory (m\<lparr>mm_source_incident := None, mm_observed_by := None\<rparr>)) r"
| "service_step cfg pr (PersistAnalysis i a) r =
     (if ms_analyses (rn_store r) (in_tenant i, an_incident a) = None then on_store (persist_analysis i a) r else r)"
| "service_step cfg pr (Decide i q now) r = on_store (decide_approval i q now) r"
| "service_step cfg pr (PrepareExecution i q now) r = (case prepare_attestation pr (rn_store r) i q now of
     Inr (Some x) \<Rightarrow> r\<lparr>rn_attested := x # rn_attested r\<rparr> | _ \<Rightarrow> r)"
| "service_step cfg pr (PersistExecution x) r =
     (if x \<in> set (rn_attested r) then on_store (persist_execution x) r else r)"
| "service_step cfg pr (PersistSandbox x) r = on_store (in_store (record_sandbox_execution x)) r"
| "service_step cfg pr (PersistPostcheck ob v) r = on_store (in_store (record_postcheck (ob, v))) r"
| "service_step cfg pr (PrepareOutcome i ob mid now) r = (case prepare_outcome cfg pr (rn_store r) i ob mid now of
     Inr (Some m) \<Rightarrow> r\<lparr>rn_learned := m # rn_learned r\<rparr> | _ \<Rightarrow> r)"
| "service_step cfg pr (PersistOutcome m) r =
     (if m \<in> set (rn_learned r) then on_store (persist_outcome m) r else r)"
| "service_step cfg pr (PrepareVerified i ob v a mid now) r = (case prepare_verified_outcome cfg pr (rn_store r) i ob v a mid now of
     Inr (Some m) \<Rightarrow> r\<lparr>rn_verified := (a, m) # rn_verified r\<rparr> | _ \<Rightarrow> r)"
| "service_step cfg pr (PersistVerified a m) r =
     (if (a, m) \<in> set (rn_verified r) then on_store (persist_verified_outcome a m) r else r)"
| "service_step cfg pr (Govern i q eid now) r = on_store (in_store (govern_memory i q eid now)) r"

section \<open>Write-once facts\<close>

definition grows :: "mem_store \<Rightarrow> mem_store \<Rightarrow> bool" where
  "grows s s' \<longleftrightarrow> ms_analyses s \<subseteq>\<^sub>m ms_analyses s' \<and> ms_incidents s \<subseteq>\<^sub>m ms_incidents s' \<and>
     ms_approvals s \<subseteq>\<^sub>m ms_approvals s' \<and> ms_executions s \<subseteq>\<^sub>m ms_executions s' \<and> ms_sandbox s \<subseteq>\<^sub>m ms_sandbox s'"

lemma grows_refl [simp]: "grows s s"
  by (simp add: grows_def)

lemma growsD:
  assumes "grows s s'"
  shows "ms_analyses s k = Some a \<Longrightarrow> ms_analyses s' k = Some a"
    "ms_incidents s k = Some i \<Longrightarrow> ms_incidents s' k = Some i"
    "ms_approvals s k = Some p \<Longrightarrow> ms_approvals s' k = Some p"
    "ms_executions s k = Some x \<Longrightarrow> ms_executions s' k = Some x"
    "ms_sandbox s k = Some y \<Longrightarrow> ms_sandbox s' k = Some y"
  using assms unfolding grows_def map_le_def dom_def by (metis (mono_tags, lifting) mem_Collect_eq option.distinct(1))+

lemma map_le_upd_new: "m k = None \<Longrightarrow> m \<subseteq>\<^sub>m m(k \<mapsto> v)"
  by (auto simp: map_le_def dom_def)

definition attested :: "mem_store \<Rightarrow> attestation \<Rightarrow> bool" where
  "attested s x \<longleftrightarrow> (case ms_analyses s (at_tenant x, at_incident x) of None \<Rightarrow> False
     | Some a \<Rightarrow> at_action x = pa_command (an_action a) \<and> pa_hash (an_action a) = Some (at_hash x) \<and>
         (if pa_requires_approval (an_action a)
          then (case ms_approvals s (at_tenant x, at_incident x) of None \<Rightarrow> False
                | Some p \<Rightarrow> ap_approved p \<and> ap_hash p = at_hash x) else True))"

definition from_incident :: "mem_store \<Rightarrow> uuid \<Rightarrow> memory \<Rightarrow> bool" where
  "from_incident s i m \<longleftrightarrow> (case ms_incidents s (mm_tenant m, i) of None \<Rightarrow> False
     | Some inc \<Rightarrow> mm_service m = in_service inc \<and> mm_version m = in_version inc \<and> mm_symptom m = in_symptom inc)"

definition from_execution :: "mem_store \<Rightarrow> uuid \<Rightarrow> memory \<Rightarrow> bool" where
  "from_execution s i m \<longleftrightarrow> (case ms_executions s (mm_tenant m, i) of None \<Rightarrow> False
     | Some x \<Rightarrow> mm_action m = at_action x) \<and> mm_confidence m \<le> confidence_cap (mm_verification m)"

definition from_postcheck :: "mem_store \<Rightarrow> uuid \<Rightarrow> memory \<Rightarrow> bool" where
  "from_postcheck s i m \<longleftrightarrow> ms_sandbox s (mm_tenant m, i) \<noteq> None \<and>
     (case ms_analyses s (mm_tenant m, i) of None \<Rightarrow> False | Some a \<Rightarrow> mm_action m = pa_command (an_action a)) \<and>
     mm_verification m = SystemObserved \<and> mm_observation_digest m \<noteq> None \<and> mm_assessment_digest m \<noteq> None \<and>
     mm_verdict_digest m \<noteq> None"

text \<open>What a memory learned from an incident rests on, and what an active one has been through.\<close>

definition learned :: "mem_store \<Rightarrow> memory \<Rightarrow> bool" where
  "learned s m \<longleftrightarrow> mm_observed_by m \<noteq> None \<and> (case mm_source_incident m of None \<Rightarrow> False
     | Some i \<Rightarrow> from_incident s i m \<and> (from_execution s i m \<or> from_postcheck s i m))"

definition reviewed :: "memory \<Rightarrow> bool" where
  "reviewed m \<longleftrightarrow> mm_reviewed_by m \<noteq> None \<and> mm_reviewed_by m \<noteq> mm_observed_by m"

definition store_inv :: "mem_store \<Rightarrow> bool" where
  "store_inv s \<longleftrightarrow>
     (\<forall>k i. ms_incidents s k = Some i \<longrightarrow> in_tenant i = fst k \<and> ms_analyses s k \<noteq> None) \<and>
     (\<forall>k p. ms_approvals s k = Some p \<longrightarrow>
        (\<exists>a. ms_analyses s k = Some a \<and> pa_hash (an_action a) = Some (ap_hash p))) \<and>
     (\<forall>k x. ms_executions s k = Some x \<longrightarrow> k = (at_tenant x, at_incident x) \<and> attested s x) \<and>
     (\<forall>m \<in> set (ms_memories s). mm_source_incident m \<noteq> None \<longrightarrow>
        learned s m \<and> (mm_state m = MActive \<longrightarrow> reviewed m))"

definition service_inv :: "service_run \<Rightarrow> bool" where
  "service_inv r \<longleftrightarrow> store_inv (rn_store r) \<and> list_all (attested (rn_store r)) (rn_attested r) \<and>
     list_all (\<lambda>m. learned (rn_store r) m \<and> mm_state m = MPendingReview) (rn_learned r) \<and>
     list_all (\<lambda>(a, m). learned (rn_store r) m \<and> mm_state m = MPendingReview) (rn_verified r)"

lemma attested_iff: "attested s x \<longleftrightarrow> (\<exists>a. ms_analyses s (at_tenant x, at_incident x) = Some a \<and>
    at_action x = pa_command (an_action a) \<and> pa_hash (an_action a) = Some (at_hash x) \<and>
    (pa_requires_approval (an_action a) \<longrightarrow>
      (\<exists>p. ms_approvals s (at_tenant x, at_incident x) = Some p \<and> ap_approved p \<and> ap_hash p = at_hash x)))"
  by (auto simp: attested_def split: option.splits)

lemma attested_grows: "grows s s' \<Longrightarrow> attested s x \<Longrightarrow> attested s' x"
  unfolding attested_iff by (meson growsD)

lemma learned_grows: "grows s s' \<Longrightarrow> learned s m \<Longrightarrow> learned s' m"
  by (auto simp: learned_def from_incident_def from_execution_def from_postcheck_def dest: growsD split: option.splits)

text \<open>The records of an incident are written once: every operation of the store only adds to them.\<close>

lemma in_store_run: "in_store m s = (res, s') \<Longrightarrow> \<exists>res'. m s = (res', s')"
  by (auto simp: in_store_def split: prod.splits sum.splits)

lemma snd_in_store [simp]: "snd (in_store m s) = snd (m s)"
  by (simp add: in_store_def split: prod.splits sum.splits)

lemma grows_updates:
  "ms_analyses s k = None \<Longrightarrow> ms_incidents s k = None \<Longrightarrow>
     grows s (s\<lparr>ms_idempotency := d, ms_analyses := (ms_analyses s)(k \<mapsto> a), ms_incidents := (ms_incidents s)(k \<mapsto> i)\<rparr>)"
  "ms_approvals s k = None \<Longrightarrow> grows s (s\<lparr>ms_approvals := (ms_approvals s)(k \<mapsto> p)\<rparr>)"
  "ms_executions s k = None \<Longrightarrow> grows s (s\<lparr>ms_executions := (ms_executions s)(k \<mapsto> x)\<rparr>)"
  "ms_sandbox s k = None \<Longrightarrow> grows s (s\<lparr>ms_sandbox := (ms_sandbox s)(k \<mapsto> y)\<rparr>)"
  by (simp_all add: grows_def map_le_upd_new)

lemma grows_same:
  "ms_analyses s' = ms_analyses s \<Longrightarrow> ms_incidents s' = ms_incidents s \<Longrightarrow> ms_approvals s' = ms_approvals s \<Longrightarrow>
     ms_executions s' = ms_executions s \<Longrightarrow> ms_sandbox s' = ms_sandbox s \<Longrightarrow> grows s s'"
  by (simp add: grows_def)

text \<open>What happens to the memories: nothing, one is added, or one is governed.\<close>

definition memories_step :: "mem_store \<Rightarrow> mem_store \<Rightarrow> memory set \<Rightarrow> bool" where
  "memories_step s s' new \<longleftrightarrow> (\<forall>m \<in> set (ms_memories s'). m \<in> set (ms_memories s) \<or> m \<in> new \<or>
     (\<exists>m0 q t now ms. m0 \<in> set (ms_memories s) \<and> governance_target m0 q ms now = Inr t \<and> m = governed t q now m0))"

lemma memories_step_same: "ms_memories s' = ms_memories s \<Longrightarrow> memories_step s s' new"
  by (simp add: memories_step_def)

lemma govern_memory_effect:
  assumes "govern_memory i q eid now s = (res, s')"
  shows "grows s s' \<and> memories_step s s' {}"
proof (cases "get_memory s i (gr_tenant q)")
  case None
  then show ?thesis using assms by (simp add: govern_memory_def memories_step_same)
next
  case (Some m)
  have m: "m \<in> set (ms_memories s)" using find_Some_conj [OF Some [unfolded get_memory_def]] by simp
  show ?thesis
  proof (cases "governance_target m q (ms_memories s) now")
    case (Inl e)
    then show ?thesis using assms Some by (simp add: govern_memory_def memories_step_same)
  next
    case (Inr t)
    then have "ms_memories s' = replace_first m (governed t q now m) (ms_memories s)" "grows s s'"
      using assms Some by (auto simp: govern_memory_def Let_def split: option.splits if_splits intro!: grows_same)
    moreover have "memories_step s s' {}"
      unfolding memories_step_def
    proof
      fix n assume "n \<in> set (ms_memories s')"
      then have "n = governed t q now m \<or> n \<in> set (ms_memories s)"
        using calculation(1) set_replace_first_subset [of m "governed t q now m" "ms_memories s"] by auto
      then show "n \<in> set (ms_memories s) \<or> n \<in> {} \<or>
          (\<exists>m0 q t now ms. m0 \<in> set (ms_memories s) \<and> governance_target m0 q ms now = Inr t \<and> n = governed t q now m0)"
        using m Inr by blast
    qed
    ultimately show ?thesis by simp
  qed
qed

lemma save_outcome_effect:
  assumes "save_outcome_memory m s = (res, s')"
  shows "grows s s' \<and> memories_step s s' {m}"
  using assms
  by (auto simp: save_outcome_memory_def memories_step_def split: option.splits intro!: grows_same)

section \<open>The invariant\<close>

lemma governed_evidence:
  "mm_observed_by (governed t q now m) = mm_observed_by m" "mm_service (governed t q now m) = mm_service m"
  "mm_version (governed t q now m) = mm_version m" "mm_symptom (governed t q now m) = mm_symptom m"
  "mm_action (governed t q now m) = mm_action m" "mm_confidence (governed t q now m) = mm_confidence m"
  "mm_verification (governed t q now m) = mm_verification m"
  "mm_observation_digest (governed t q now m) = mm_observation_digest m"
  "mm_assessment_digest (governed t q now m) = mm_assessment_digest m"
  "mm_verdict_digest (governed t q now m) = mm_verdict_digest m"
  by (simp_all add: governed_def)

lemma learned_governed: "learned s (governed t q now m) = learned s m"
  by (simp add: learned_def from_incident_def from_execution_def from_postcheck_def governed_evidence cong: option.case_cong)

lemma governed_reviewed:
  assumes "governance_target m q ms now = Inr MActive"
  shows "reviewed (governed MActive q now m)"
  using governance_target_independent [OF assms] by (auto simp: reviewed_def governed_def)

lemma store_inv_step:
  assumes inv: "store_inv s" and grow: "grows s s'" and mem: "memories_step s s' new"
    and inc: "\<And>k i. ms_incidents s' k = Some i \<Longrightarrow> ms_incidents s k = Some i \<or> in_tenant i = fst k \<and> ms_analyses s' k \<noteq> None"
    and app: "\<And>k p. ms_approvals s' k = Some p \<Longrightarrow> ms_approvals s k = Some p \<or>
        (\<exists>a. ms_analyses s' k = Some a \<and> pa_hash (an_action a) = Some (ap_hash p))"
    and ex: "\<And>k x. ms_executions s' k = Some x \<Longrightarrow> ms_executions s k = Some x \<or>
        k = (at_tenant x, at_incident x) \<and> attested s' x"
    and new: "\<And>m. m \<in> new \<Longrightarrow> mm_source_incident m \<noteq> None \<Longrightarrow> learned s' m \<and> mm_state m = MPendingReview"
  shows "store_inv s'"
proof -
  have "in_tenant i = fst k \<and> ms_analyses s' k \<noteq> None" if "ms_incidents s' k = Some i" for k i
  proof (cases "ms_incidents s k")
    case None
    then show ?thesis using inc [OF that] by simp
  next
    case (Some j)
    have "in_tenant j = fst k \<and> ms_analyses s k \<noteq> None" using inv Some unfolding store_inv_def by blast
    moreover have "j = i" using growsD(2) [OF grow Some] that by simp
    ultimately show ?thesis using growsD(1) [OF grow] by blast
  qed
  moreover have "\<exists>a. ms_analyses s' k = Some a \<and> pa_hash (an_action a) = Some (ap_hash p)" if "ms_approvals s' k = Some p" for k p
    using app [OF that] inv growsD(1) [OF grow] unfolding store_inv_def by meson
  moreover have "k = (at_tenant x, at_incident x) \<and> attested s' x" if "ms_executions s' k = Some x" for k x
    using ex [OF that] inv attested_grows [OF grow] unfolding store_inv_def by blast
  moreover have "learned s' m \<and> (mm_state m = MActive \<longrightarrow> reviewed m)"
    if m: "m \<in> set (ms_memories s')" "mm_source_incident m \<noteq> None" for m
  proof -
    have old: "learned s n \<and> (mm_state n = MActive \<longrightarrow> reviewed n)" if "n \<in> set (ms_memories s)" "mm_source_incident n \<noteq> None" for n
      using inv that unfolding store_inv_def by blast
    consider "m \<in> set (ms_memories s)" | "m \<in> new"
      | m0 q t now ms where "m0 \<in> set (ms_memories s)" "governance_target m0 q ms now = Inr t" "m = governed t q now m0"
      using mem m(1) unfolding memories_step_def by blast
    then show ?thesis
    proof cases
      case 1
      then show ?thesis using old m(2) learned_grows [OF grow] by blast
    next
      case 2
      then show ?thesis using new m(2) by simp
    next
      case (3 m0 q t now ms)
      then have "learned s m0" using old m(2) by simp
      then show ?thesis using 3 governed_reviewed [of m0 q ms now] learned_grows [OF grow] learned_governed by (cases t) simp_all
    qed
  qed
  ultimately show ?thesis unfolding store_inv_def by blast
qed

lemma service_inv_store:
  assumes "service_inv r" "store_inv (snd (m (rn_store r)))" "grows (rn_store r) (snd (m (rn_store r)))"
  shows "service_inv (on_store m r)"
  using assms attested_grows [OF assms(3)] learned_grows [OF assms(3)]
  by (auto simp: service_inv_def on_store_def list_all_iff)

lemma prepare_attestation_attested:
  assumes "store_inv s" "prepare_attestation pr s i q now = Inr (Some x)"
  shows "attested s x"
proof -
  obtain a where a: "ms_analyses s (xq_tenant q, i) = Some a"
    using assms(2) by (auto simp: prepare_attestation_def get_analysis_def split: option.splits)
  have x: "at_tenant x = xq_tenant q" "at_incident x = i" "at_action x = pa_command (an_action a)"
    "pa_hash (an_action a) = Some (at_hash x)"
    "pa_requires_approval (an_action a) \<longrightarrow> (\<exists>p. ms_approvals s (xq_tenant q, i) = Some p \<and> ap_approved p)"
    using assms(2) a
    by (auto simp: prepare_attestation_def get_analysis_def get_approval_def Let_def bind_r_Inr check_r_Inr split: option.splits if_splits)
  have "ap_hash p = at_hash x" if "ms_approvals s (xq_tenant q, i) = Some p" for p
    using assms(1) that a x(4) unfolding store_inv_def by fastforce
  then show ?thesis using a x by (auto simp: attested_iff)
qed

text \<open>A memory the service prepares rests on the incident and what was done about it.\<close>

lemma make_memory_fields:
  assumes "make_memory jcs m = Inr m'"
  shows "m' = m\<lparr>mm_semantics := mm_semantics m', mm_digest := mm_digest m'\<rparr>"
  using assms by (auto simp: make_memory_def derive_policy_fields_def Let_def bind_r_Inr split: if_splits option.splits)

lemma make_memory_learned:
  assumes "make_memory jcs m = Inr m'"
  shows "learned s m' = learned s m" "mm_state m' = mm_state m"
  by (subst make_memory_fields [OF assms],
      simp add: learned_def from_incident_def from_execution_def from_postcheck_def cong: option.case_cong)+

lemma made_Inr: "made r = Inr m \<longleftrightarrow> r = Inr m"
  by (simp add: made_def split: sum.splits)

lemma prepare_outcome_learned:
  assumes "store_inv s" "prepare_outcome cfg pr s i ob mid now = Inr (Some m)"
  shows "learned s m \<and> mm_state m = MPendingReview"
proof -
  obtain inc x where s: "ms_incidents s (oo_tenant ob, i) = Some inc" "ms_executions s (oo_tenant ob, i) = Some x"
    using assms(2) by (auto simp: prepare_outcome_def get_incident_def get_execution_def split: option.splits)
  have t: "in_tenant inc = oo_tenant ob" using assms(1) s(1) unfolding store_inv_def by fastforce
  note eq = assms(2) [unfolded prepare_outcome_def get_incident_def get_execution_def s option.case bind_r_Inr]
  obtain e where e: "pr_embed pr (embedding_input inc) = Inr e" using eq by (auto split: sum.splits)
  obtain m0 where m0: "make_memory (pr_jcs pr) m0 = Inr m" "mm_state m0 = MPendingReview" "learned s m0"
    using eq [unfolded e sum.case bind_r_Inr made_Inr] s t
    by (elim exE conjE) (auto simp: learned_def from_incident_def from_execution_def)
  then show ?thesis using make_memory_learned [OF m0(1)] by simp
qed

lemma prepare_verified_learned:
  assumes "store_inv s" "prepare_verified_outcome cfg pr s i ob v a mid now = Inr (Some m)"
  shows "learned s m \<and> mm_state m = MPendingReview"
proof -
  obtain inc x where s: "ms_incidents s (po_tenant ob, i) = Some inc" "ms_sandbox s (po_tenant ob, i) = Some x"
    using assms(2) by (auto simp: prepare_verified_outcome_def get_incident_def get_sandbox_execution_def split: option.splits)
  have t: "in_tenant inc = po_tenant ob" using assms(1) s(1) unfolding store_inv_def by fastforce
  note eq = assms(2) [unfolded prepare_verified_outcome_def get_incident_def get_sandbox_execution_def s option.case bind_r_Inr]
  obtain e where e: "pr_embed pr (embedding_input inc) = Inr e" using eq by (auto split: sum.splits)
  obtain m0 where m0: "make_memory (pr_jcs pr) m0 = Inr m" "mm_state m0 = MPendingReview" "learned s m0"
    using eq [unfolded e sum.case bind_r_Inr made_Inr] s t
    by (elim exE conjE) (auto simp: learned_def from_incident_def from_postcheck_def analysis_action_def get_analysis_def
        split: option.splits)
  then show ?thesis using make_memory_learned [OF m0(1)] by simp
qed

lemma make_memory_key:
  assumes "make_memory jcs m = Inr m'"
  shows "mm_tenant m' = mm_tenant m" "mm_source_incident m' = mm_source_incident m"
  by (subst make_memory_fields [OF assms], simp)+

lemma prepare_outcome_key:
  assumes "store_inv s" "prepare_outcome cfg pr s i ob mid now = Inr (Some m)"
  shows "mm_tenant m = oo_tenant ob \<and> mm_source_incident m = Some i"
proof -
  obtain inc x where s: "ms_incidents s (oo_tenant ob, i) = Some inc" "ms_executions s (oo_tenant ob, i) = Some x"
    using assms(2) by (auto simp: prepare_outcome_def get_incident_def get_execution_def split: option.splits)
  have t: "in_tenant inc = oo_tenant ob" using assms(1) s(1) unfolding store_inv_def by fastforce
  note eq = assms(2) [unfolded prepare_outcome_def get_incident_def get_execution_def s option.case bind_r_Inr]
  obtain e where e: "pr_embed pr (embedding_input inc) = Inr e" using eq by (auto split: sum.splits)
  obtain m0 where m0: "make_memory (pr_jcs pr) m0 = Inr m" "mm_tenant m0 = oo_tenant ob" "mm_source_incident m0 = Some i"
    using eq [unfolded e sum.case bind_r_Inr made_Inr] t by (elim exE conjE) auto
  then show ?thesis using make_memory_key [OF m0(1)] by simp
qed

lemma prepare_verified_key:
  assumes "store_inv s" "prepare_verified_outcome cfg pr s i ob v a mid now = Inr (Some m)"
  shows "mm_tenant m = po_tenant ob \<and> mm_source_incident m = Some i"
proof -
  obtain inc x where s: "ms_incidents s (po_tenant ob, i) = Some inc" "ms_sandbox s (po_tenant ob, i) = Some x"
    using assms(2) by (auto simp: prepare_verified_outcome_def get_incident_def get_sandbox_execution_def split: option.splits)
  have t: "in_tenant inc = po_tenant ob" using assms(1) s(1) unfolding store_inv_def by fastforce
  note eq = assms(2) [unfolded prepare_verified_outcome_def get_incident_def get_sandbox_execution_def s option.case bind_r_Inr]
  obtain e where e: "pr_embed pr (embedding_input inc) = Inr e" using eq by (auto split: sum.splits)
  obtain m0 where m0: "make_memory (pr_jcs pr) m0 = Inr m" "mm_tenant m0 = po_tenant ob" "mm_source_incident m0 = Some i"
    using eq [unfolded e sum.case bind_r_Inr made_Inr] t by (elim exE conjE) auto
  then show ?thesis using make_memory_key [OF m0(1)] by simp
qed

lemma persist_analysis_effect:
  assumes "store_inv s" "ms_analyses s (in_tenant i, an_incident a) = None"
  shows "store_inv (snd (persist_analysis i a s)) \<and> grows s (snd (persist_analysis i a s))"
proof -
  let ?s' = "snd (persist_analysis i a s)"
  have s': "?s' = s \<or> ?s' = s\<lparr>ms_idempotency := (ms_idempotency s)((in_tenant i, in_key i) \<mapsto> an_incident a),
      ms_analyses := (ms_analyses s)((in_tenant i, an_incident a) \<mapsto> a),
      ms_incidents := (ms_incidents s)((in_tenant i, an_incident a) \<mapsto> i)\<rparr>"
    by (simp add: persist_analysis_def save_analysis_def split: option.splits)
  have "ms_incidents s (in_tenant i, an_incident a) = None"
    using assms unfolding store_inv_def by (metis option.exhaust)
  then have grow: "grows s ?s'" using s' grows_updates(1) [OF assms(2)] by auto
  moreover have "store_inv ?s'"
    by (rule store_inv_step [OF assms(1) grow memories_step_same]) (use s' in \<open>auto split: if_splits\<close>)
  ultimately show ?thesis by simp
qed

lemma decide_approval_effect:
  assumes "store_inv s"
  shows "store_inv (snd (decide_approval i q now s)) \<and> grows s (snd (decide_approval i q now s))"
proof -
  let ?s' = "snd (decide_approval i q now s)" and ?k = "(aq_tenant q, i)"
  define p where "p = \<lparr>ap_incident = i, ap_tenant = aq_tenant q, ap_actor = aq_actor q, ap_approved = aq_approved q,
     ap_hash = aq_hash q, ap_reason = aq_reason q, ap_created = now\<rparr>"
  have "?s' = s \<or> (\<exists>a. ms_analyses s ?k = Some a \<and> pa_hash (an_action a) = Some (aq_hash q) \<and> ms_approvals s ?k = None \<and>
      ?s' = s\<lparr>ms_approvals := (ms_approvals s)(?k \<mapsto> p)\<rparr>)"
    by (auto simp: decide_approval_def get_analysis_def record_approval_def p_def split: option.splits)
  moreover have "ap_hash p = aq_hash q" by (simp add: p_def)
  ultimately consider "?s' = s" | a where "ms_analyses s ?k = Some a" "pa_hash (an_action a) = Some (ap_hash p)"
      "ms_approvals s ?k = None" "?s' = s\<lparr>ms_approvals := (ms_approvals s)(?k \<mapsto> p)\<rparr>"
    by metis
  then show ?thesis
  proof cases
    case (2 a)
    then have grow: "grows s ?s'" by (simp add: grows_updates)
    moreover have "store_inv ?s'"
      by (rule store_inv_step [OF assms grow memories_step_same]) (use 2 in \<open>auto split: if_splits\<close>)
    ultimately show ?thesis by simp
  qed (use assms in simp)
qed

lemma persist_execution_effect:
  assumes "store_inv s" "attested s x"
  shows "store_inv (snd (persist_execution x s)) \<and> grows s (snd (persist_execution x s))"
proof -
  let ?s' = "snd (persist_execution x s)" and ?k = "(at_tenant x, at_incident x)"
  have s': "?s' = s \<or> ms_executions s ?k = None \<and> ?s' = s\<lparr>ms_executions := (ms_executions s)(?k \<mapsto> x)\<rparr>"
    by (auto simp: persist_execution_def record_execution_def split: option.splits)
  then have grow: "grows s ?s'" by (auto simp: grows_updates)
  moreover have "store_inv ?s'"
    by (rule store_inv_step [OF assms(1) grow memories_step_same])
      (use s' attested_grows [OF grow assms(2)] in \<open>auto split: if_splits\<close>)
  ultimately show ?thesis by simp
qed

text \<open>Operations that touch no analysis, incident, approval or execution.\<close>

lemma store_inv_records:
  assumes "store_inv s" "grows s s'" "memories_step s s' new"
    "ms_incidents s' = ms_incidents s" "ms_approvals s' = ms_approvals s" "ms_executions s' = ms_executions s"
    "\<And>m. m \<in> new \<Longrightarrow> mm_source_incident m \<noteq> None \<Longrightarrow> learned s m \<and> mm_state m = MPendingReview"
  shows "store_inv s'"
  using assms(4-7) learned_grows [OF assms(2)] by (intro store_inv_step [OF assms(1-3)]) auto

lemma outcome_effect:
  assumes "store_inv s" "learned s m \<and> mm_state m = MPendingReview"
  shows "store_inv (snd (save_outcome_memory m s)) \<and> grows s (snd (save_outcome_memory m s))"
proof -
  let ?s' = "snd (save_outcome_memory m s)"
  have e: "grows s ?s'" "memories_step s ?s' {m}" using save_outcome_effect [of m s] by (metis prod.collapse)+
  moreover have "store_inv ?s'"
    by (rule store_inv_records [OF assms(1) e])
      (use assms(2) in \<open>auto simp: save_outcome_memory_def split: option.splits\<close>)
  ultimately show ?thesis by simp
qed

lemma plain_effect:
  "store_inv s \<Longrightarrow> store_inv (snd (add_memory (m\<lparr>mm_source_incident := None, mm_observed_by := None\<rparr>) s)) \<and>
     grows s (snd (add_memory (m\<lparr>mm_source_incident := None, mm_observed_by := None\<rparr>) s))"
  "store_inv s \<Longrightarrow> store_inv (snd (record_sandbox_execution x s)) \<and> grows s (snd (record_sandbox_execution x s))"
  "store_inv s \<Longrightarrow> store_inv (snd (record_postcheck ov s)) \<and> grows s (snd (record_postcheck ov s))"
  "store_inv s \<Longrightarrow> store_inv (snd (record_postcheck_assessment a s)) \<and> grows s (snd (record_postcheck_assessment a s))"
  "store_inv s \<Longrightarrow> store_inv (snd (govern_memory i q eid now s)) \<and> grows s (snd (govern_memory i q eid now s))"
proof -
  assume inv: "store_inv s"
  show "store_inv (snd (add_memory (m\<lparr>mm_source_incident := None, mm_observed_by := None\<rparr>) s)) \<and>
      grows s (snd (add_memory (m\<lparr>mm_source_incident := None, mm_observed_by := None\<rparr>) s))"
    using store_inv_records [OF inv, of _ "{m\<lparr>mm_source_incident := None, mm_observed_by := None\<rparr>}"]
    by (auto simp: add_memory_def memories_step_def grows_same)
  have sb: "snd (record_sandbox_execution x s) = s \<or> ms_sandbox s (sx_tenant x, sx_incident x) = None \<and>
      snd (record_sandbox_execution x s) = s\<lparr>ms_sandbox := (ms_sandbox s)((sx_tenant x, sx_incident x) \<mapsto> x)\<rparr>"
    by (simp add: record_sandbox_execution_def split: option.splits)
  then have "grows s (snd (record_sandbox_execution x s))" by (auto simp: grows_updates)
  then show "store_inv (snd (record_sandbox_execution x s)) \<and> grows s (snd (record_sandbox_execution x s))"
    using store_inv_records [OF inv _ memories_step_same [of _ _ "{}"]] sb by auto
  have pc: "snd (record_postcheck ov s) = s \<or> (\<exists>f. snd (record_postcheck ov s) = s\<lparr>ms_postchecks := f\<rparr>)"
    by (auto simp: record_postcheck_def split: option.splits prod.splits)
  then have "grows s (snd (record_postcheck ov s))" by (auto intro: grows_same)
  then show "store_inv (snd (record_postcheck ov s)) \<and> grows s (snd (record_postcheck ov s))"
    using store_inv_records [OF inv _ memories_step_same [of _ _ "{}"]] pc by auto
  have pa: "snd (record_postcheck_assessment a s) = s \<or> (\<exists>f. snd (record_postcheck_assessment a s) = s\<lparr>ms_assessments := f\<rparr>)"
    by (auto simp: record_postcheck_assessment_def split: option.splits)
  then have "grows s (snd (record_postcheck_assessment a s))" by (auto intro: grows_same)
  then show "store_inv (snd (record_postcheck_assessment a s)) \<and> grows s (snd (record_postcheck_assessment a s))"
    using store_inv_records [OF inv _ memories_step_same [of _ _ "{}"]] pa by auto
  have gm: "grows s (snd (govern_memory i q eid now s))" "memories_step s (snd (govern_memory i q eid now s)) {}"
    using govern_memory_effect [of i q eid now s] by (metis prod.collapse)+
  moreover have "ms_incidents (snd (govern_memory i q eid now s)) = ms_incidents s"
    "ms_approvals (snd (govern_memory i q eid now s)) = ms_approvals s"
    "ms_executions (snd (govern_memory i q eid now s)) = ms_executions s"
    by (simp_all add: govern_memory_def Let_def split: option.splits sum.splits)
  ultimately show "store_inv (snd (govern_memory i q eid now s)) \<and> grows s (snd (govern_memory i q eid now s))"
    using store_inv_records [OF inv gm] by auto
qed

lemma grows_trans: "grows s s' \<Longrightarrow> grows s' s'' \<Longrightarrow> grows s s''"
  unfolding grows_def by (meson map_le_trans)

lemma persist_verified_effect:
  assumes "store_inv s" "learned s m \<and> mm_state m = MPendingReview"
  shows "store_inv (snd (persist_verified_outcome a m s)) \<and> grows s (snd (persist_verified_outcome a m s))"
proof -
  let ?s1 = "snd (record_postcheck_assessment a s)"
  have one: "store_inv ?s1" "grows s ?s1" using plain_effect(4) [OF assms(1)] by simp_all
  then have two: "store_inv (snd (save_outcome_memory m ?s1)) \<and> grows ?s1 (snd (save_outcome_memory m ?s1))"
    using outcome_effect [OF one(1)] learned_grows [OF one(2)] assms(2) by blast
  have "snd (persist_verified_outcome a m s) = ?s1 \<or> snd (persist_verified_outcome a m s) = snd (save_outcome_memory m ?s1)"
    by (simp add: persist_verified_outcome_def bind_s_def in_store_def return_s_def split: prod.splits sum.splits)
  then show ?thesis using one two grows_trans [OF one(2)] by auto
qed

lemma on_store_inv:
  assumes "service_inv r"
  shows "store_inv (snd (m (rn_store r))) \<and> grows (rn_store r) (snd (m (rn_store r))) \<Longrightarrow> service_inv (on_store m r)"
  using service_inv_store [OF assms] by blast

lemma service_step_inv:
  assumes "service_inv r"
  shows "service_inv (service_step cfg pr op r)"
proof -
  have s: "store_inv (rn_store r)" using assms by (simp add: service_inv_def)
  have mem: "x \<in> set (rn_attested r) \<Longrightarrow> attested (rn_store r) x"
    "m \<in> set (rn_learned r) \<Longrightarrow> learned (rn_store r) m \<and> mm_state m = MPendingReview"
    "(a, m) \<in> set (rn_verified r) \<Longrightarrow> learned (rn_store r) m \<and> mm_state m = MPendingReview" for x m a
    using assms by (auto simp: service_inv_def list_all_iff)
  note on = on_store_inv [OF assms]
  show ?thesis
  proof (cases op)
    case (PrepareExecution i q now)
    then show ?thesis using prepare_attestation_attested [OF s] assms
      by (auto simp: service_inv_def split: sum.splits option.splits)
  next
    case (PrepareOutcome i ob mid now)
    then show ?thesis using prepare_outcome_learned [OF s] assms
      by (auto simp: service_inv_def split: sum.splits option.splits)
  next
    case (PrepareVerified i ob v a mid now)
    then show ?thesis using prepare_verified_learned [OF s] assms
      by (auto simp: service_inv_def split: sum.splits option.splits)
  qed (use assms on [where m = "persist_analysis i a" for i a] on [where m = "decide_approval i q now" for i q now]
         on [where m = "persist_execution x" for x] on [where m = "in_store (record_sandbox_execution x)" for x]
         on [where m = "in_store (record_postcheck v)" for v] on [where m = "in_store (govern_memory i q eid now)" for i q eid now] on [where m = "persist_outcome m" for m]
         on [where m = "persist_verified_outcome a m" for a m] on [where m = "add_memory m" for m]
         persist_analysis_effect [OF s] decide_approval_effect [OF s] persist_execution_effect [OF s] outcome_effect [OF s]
         persist_verified_effect [OF s] plain_effect [OF s] mem
       in \<open>simp_all add: persist_outcome_def\<close>)
qed

lemma service_inv_new: "service_inv new_run"
  by (simp add: service_inv_def new_run_def new_store_def store_inv_def)

lemma service_inv_run: "service_inv (fold (service_step cfg pr) ops r)" if "service_inv r"
  using that by (induction ops arbitrary: r) (simp_all add: service_step_inv)

lemma store_inv_memory:
  assumes "store_inv s" "m \<in> set (ms_memories s)" "mm_source_incident m = Some i" "mm_state m = MActive"
  shows "reviewed m" "from_incident s i m" "from_execution s i m \<or> from_postcheck s i m"
  using assms by (auto simp: store_inv_def learned_def)


definition sample_sp :: providers where
  "sample_sp = sample_providers\<lparr>pr_embed := \<lambda>_. Inr (replicate 1024 1)\<rparr>"

definition sample_proposal :: proposed_action where
  "sample_proposal = \<lparr>pa_name = ''apply_prior_remediation'', pa_command = ''rollback'', pa_risk = MUTATING,
     pa_rationale = ''prior'', pa_requires_approval = True, pa_hash = Some (action_hash ''rollback'')\<rparr>"

definition stored_analysis :: analysis where
  "stored_analysis = \<lparr>an_incident = ''i9'', an_status = IncidentOpen, an_diagnosis = ''diagnosed'', an_confidence = 1 / 2,
     an_memories = [], an_action = sample_proposal, an_trace = [], an_plan = plan_of False, an_candidates = [],
     an_abstention = [], an_degraded = [], an_policy = ''outcome-governance-v2'', an_created = 0\<rparr>"

definition sample_attestation :: attestation where
  "sample_attestation = \<lparr>at_incident = ''i9'', at_tenant = ''acme'', at_actor = ''op-1'', at_hash = action_hash ''rollback'',
     at_action = ''rollback'', at_refs = [], at_verification = ManualAttestation, at_created = 0\<rparr>"

definition sample_unmade :: memory where
  "sample_unmade = \<lparr>mm_id = ''m9'', mm_tenant = ''acme'', mm_service = ''checkout'', mm_version = ''1.2.0'',
     mm_policy = ExactVersion, mm_policy_version = ''semver-v1'', mm_symptom = ''latency'',
     mm_action = ''rollback'', mm_outcome = ''recovered'', mm_score = 1, mm_semantics = None,
     mm_confidence = 7 / 10, mm_valid = False, mm_state = MPendingReview, mm_superseded_by = None,
     mm_source_incident = Some ''i9'', mm_observed_by = Some ''op-1'', mm_verification = ManualAttestation,
     mm_evidence_refs = [], mm_window = None, mm_postconditions = [], mm_reviewed_by = None,
     mm_reviewed_at = None, mm_observation_digest = None, mm_assessment_digest = None,
     mm_verdict_digest = None, mm_digest = None, mm_governance_policy = ''memory-governance-v1'',
     mm_governance_version = 1, mm_expires_at = Some (expiry sample_config 0), mm_superseded_at = None, mm_revoked_at = None,
     mm_space = ''space-1'', mm_embedding = replicate 1024 1, mm_created = 0\<rparr>"

definition sample_learned :: memory where
  "sample_learned = sample_unmade\<lparr>mm_semantics := Some OutcomePositive,
     mm_digest := Some (memory_evidence_digest (pr_jcs sample_sp) sample_unmade)\<rparr>"

definition sample_observation :: outcome_observation where
  "sample_observation = \<lparr>oo_tenant = ''acme'', oo_action = ''rollback'', oo_outcome = ''recovered'', oo_score = 1,
     oo_confidence = 1, oo_actor = ''op-1'', oo_verification = ManualAttestation, oo_refs = [], oo_window = None,
     oo_postconditions = []\<rparr>"

definition sample_review :: governance_request where
  "sample_review = \<lparr>gr_tenant = ''acme'', gr_actor = ''rev-1'', gr_action = GCertify, gr_reason = ''checked'',
     gr_code = EVIDENCE_ACCEPTED, gr_replacement = None\<rparr>"

definition service_ops :: "service_op list" where
  "service_ops = [PersistAnalysis sample_incident stored_analysis,
     Decide ''i9'' \<lparr>aq_tenant = ''acme'', aq_approved = True, aq_actor = ''op-2'', aq_hash = action_hash ''rollback'', aq_reason = ''ok''\<rparr> 0,
     PrepareExecution ''i9'' \<lparr>xq_tenant = ''acme'', xq_actor = ''op-1'', xq_hash = action_hash ''rollback'', xq_action = ''rollback'',
       xq_refs = [], xq_verification = ManualAttestation\<rparr> 0,
     PersistExecution sample_attestation,
     PrepareOutcome ''i9'' sample_observation ''m9'' 0, PersistOutcome sample_learned,
     Govern ''m9'' sample_review ''e9'' 1]"

lemma sample_made: "make_memory (pr_jcs sample_sp) sample_unmade = Inr sample_learned"
proof -
  have "memory_fields_ok sample_unmade" "mm_semantics sample_unmade = None" "mm_score sample_unmade = 1" "mm_digest sample_unmade = None"
    by (simp_all add: memory_fields_ok_def sample_unmade_def sized_def ulen_def opt_all_def)
  then show ?thesis
    by (simp add: make_memory_def derive_policy_fields_def sample_learned_def derived_outcome_def bind_r_Inr Let_def)
qed

text \<open>The two halves of the run: up to the attested execution, and the learned memory and its review.\<close>

lemma sample_attested_run:
  obtains s where "fold (service_step sample_config sample_sp) (take 4 service_ops) new_run =
      \<lparr>rn_store = s, rn_attested = [sample_attestation], rn_learned = [], rn_verified = []\<rparr>"
    "ms_incidents s (''acme'', ''i9'') = Some sample_incident" "ms_executions s (''acme'', ''i9'') = Some sample_attestation"
    "ms_memories s = []" "ms_outcomes s = Map.empty"
  by (rule that)
    (simp add: service_ops_def on_store_def persist_analysis_def in_store_def save_analysis_def new_run_def new_store_def
      sample_incident_def stored_analysis_def sample_proposal_def decide_approval_def get_analysis_def record_approval_def
      prepare_attestation_def validate_evidence_def sample_sp_def sample_providers_def get_approval_def persist_execution_def
      record_execution_def sample_attestation_def)+

definition sample_recalled :: memory where
  "sample_recalled = governed MActive sample_review 1 sample_learned"

lemma sample_learned_fields:
  "mm_id sample_learned = ''m9''" "mm_tenant sample_learned = ''acme''" "mm_state sample_learned = MPendingReview"
  "mm_semantics sample_learned = Some OutcomePositive" "mm_observed_by sample_learned = Some ''op-1''"
  "mm_source_incident sample_learned = Some ''i9''" "mm_service sample_learned = ''checkout''"
  "mm_space sample_learned = ''space-1''" "mm_expires_at sample_learned = Some (expiry sample_config 0)"
  "mm_superseded_at sample_learned = None" "mm_revoked_at sample_learned = None" "mm_embedding sample_learned = replicate 1024 1"
  by (simp_all add: sample_learned_def sample_unmade_def)

lemma sample_prepared_outcome:
  assumes "ms_incidents s (''acme'', ''i9'') = Some sample_incident" "ms_executions s (''acme'', ''i9'') = Some sample_attestation"
  shows "prepare_outcome sample_config sample_sp s ''i9'' sample_observation ''m9'' 0 = Inr (Some sample_learned)"
proof -
  have "sample_unmade = \<lparr>mm_id = ''m9'', mm_tenant = in_tenant sample_incident, mm_service = in_service sample_incident,
     mm_version = in_version sample_incident, mm_policy = sv_policy sample_config, mm_policy_version = sv_policy_version sample_config,
     mm_symptom = in_symptom sample_incident,
     mm_action = oo_action sample_observation, mm_outcome = oo_outcome sample_observation, mm_score = oo_score sample_observation,
     mm_semantics = None, mm_confidence = min (oo_confidence sample_observation) (confidence_cap (oo_verification sample_observation)),
     mm_valid = False, mm_state = MPendingReview, mm_superseded_by = None, mm_source_incident = Some ''i9'',
     mm_observed_by = Some (oo_actor sample_observation), mm_verification = oo_verification sample_observation,
     mm_evidence_refs = oo_refs sample_observation, mm_window = oo_window sample_observation,
     mm_postconditions = oo_postconditions sample_observation, mm_reviewed_by = None,
     mm_reviewed_at = None, mm_observation_digest = None, mm_assessment_digest = None,
     mm_verdict_digest = None, mm_digest = None, mm_governance_policy = ''memory-governance-v1'',
     mm_governance_version = 1, mm_expires_at = Some (expiry sample_config 0), mm_superseded_at = None,
     mm_revoked_at = None, mm_space = pr_space sample_sp, mm_embedding = replicate 1024 1, mm_created = 0\<rparr>"
    by (simp add: sample_unmade_def sample_incident_def sample_observation_def sample_sp_def sample_providers_def sample_config_def
        confidence_cap_def)
  note made = sample_made [unfolded this]
  have ob: "oo_tenant sample_observation = ''acme''" "oo_action sample_observation = at_action sample_attestation"
    "oo_verification sample_observation = ManualAttestation" "oo_refs sample_observation = []"
    by (simp_all add: sample_observation_def sample_attestation_def)
  have pr: "pr_embed sample_sp x = Inr (replicate 1024 1)" "pr_verify sample_sp ManualAttestation [] = Inr True" for x
    by (simp_all add: sample_sp_def sample_providers_def)
  show ?thesis
    unfolding prepare_outcome_def get_incident_def get_execution_def ob(1) assms option.case pr sum.case made made_def validate_evidence_def
    using made by (simp add: ob pr validate_evidence_def made_def)
qed

lemma sample_outcome_run:
  assumes "ms_incidents s (''acme'', ''i9'') = Some sample_incident" "ms_executions s (''acme'', ''i9'') = Some sample_attestation"
    "ms_memories s = []" "ms_outcomes s = Map.empty"
  shows "ms_memories (rn_store (fold (service_step sample_config sample_sp) (drop 4 service_ops)
      \<lparr>rn_store = s, rn_attested = [sample_attestation], rn_learned = [], rn_verified = []\<rparr>)) = [sample_recalled]"
proof -
  define s1 where "s1 = snd (persist_outcome sample_learned s)"
  have s1: "ms_memories s1 = [sample_learned]"
    using assms by (simp add: s1_def persist_outcome_def save_outcome_memory_def sample_learned_fields)
  have target: "governance_target sample_learned sample_review [sample_learned] 1 = Inr MActive"
    by (simp add: governance_target_def sample_learned_fields sample_review_def)
  have "gr_tenant sample_review = ''acme''" by (simp add: sample_review_def)
  then have "ms_memories (snd (govern_memory ''m9'' sample_review ''e9'' 1 s1)) = [sample_recalled]"
    using target by (simp add: govern_memory_def get_memory_def s1 sample_learned_fields Let_def sample_recalled_def)
  then show ?thesis
    using sample_prepared_outcome [OF assms(1,2)] by (simp add: service_ops_def on_store_def s1_def [symmetric])
qed

lemma sample_run: "ms_memories (rn_store (fold (service_step sample_config sample_sp) service_ops new_run)) = [sample_recalled]"
proof -
  obtain s where s: "fold (service_step sample_config sample_sp) (take 4 service_ops) new_run =
      \<lparr>rn_store = s, rn_attested = [sample_attestation], rn_learned = [], rn_verified = []\<rparr>"
    "ms_incidents s (''acme'', ''i9'') = Some sample_incident" "ms_executions s (''acme'', ''i9'') = Some sample_attestation"
    "ms_memories s = []" "ms_outcomes s = Map.empty"
    by (rule sample_attested_run)
  have "fold f xs st = fold f (drop 4 xs) (fold f (take 4 xs) st)" for f :: "'a \<Rightarrow> 'b \<Rightarrow> 'b" and xs st
    by (metis append_take_drop_id comp_apply fold_append)
  then show ?thesis using sample_outcome_run [OF s(2-5)] s(1) by metis
qed

lemma sample_recall:
  assumes "ms_memories s = [sample_recalled]"
  obtains r where "retrieve sample_config sample_sp s sample_incident 2 = Inr [r]" "rm_memory r = sample_recalled"
proof -
  let ?r = "rank_memory sample_recalled (similarity_to (replicate 1024 1) sample_recalled) ''1.2.0'' 2"
  have "retrievable sample_incident ''space-1'' 2 sample_recalled"
    by (simp add: retrievable_def sample_recalled_def governed_def sample_learned_fields sample_incident_def sample_review_def
        expiry_def sample_config_def)
  then have "find_in [sample_recalled] sample_incident (replicate 1024 1) ''space-1'' 5 2 = Inr [?r]"
    by (simp add: find_in_def rank_all_eq py_prefix_def sorted_desc_def)
      (simp add: sample_recalled_def governed_def sample_learned_fields sample_incident_def)
  then have "retrieve sample_config sample_sp s sample_incident 2 = Inr [?r]"
    by (simp add: retrieve_def find_memories_def assms sample_sp_def sample_providers_def sample_config_def)
  moreover have "rm_memory ?r = sample_recalled" by (simp add: rank_memory_def Let_def)
  ultimately show thesis by (rule that)
qed


end
