(* ===== verification/Auth.thy ===== *)
theory Auth
  imports Sessions Service
begin

text \<open>
  \<^verbatim>\<open>src/recallops/auth.py\<close>: the principal of a request, and the demo, OIDC and judge-session
  authenticators. The judge sessions live in a session repository (\<^verbatim>\<open>Sessions\<close>). Fetching the signing key
  and decoding a bearer token are \<open>jwt\<close>'s: the argument \<open>decode\<close>, which gives the claims of a token that
  verifies. The random tokens of a new session are inputs.
\<close>

record principal =
  id_subject :: string
  id_tenant :: string
  id_roles :: "string set"
  id_method :: string
  id_session :: "string option"
  id_csrf :: "string option"
  id_run :: "uuid option"
  id_generation :: "int option"
  id_handoff :: "string option"

datatype auth_error =
    NotAuthenticated string
  | NotAuthorized string
  | PrincipalInvalid
  | ComparedNonAscii
  | AuthRepository session_error

definition valid_principal :: "principal \<Rightarrow> bool" where
  "valid_principal p \<longleftrightarrow> sized 1 200 (id_subject p) \<and> sized 1 80 (id_tenant p) \<and> slug (id_tenant p)"

definition make_principal :: "principal \<Rightarrow> auth_error + principal" where
  "make_principal p = (if valid_principal p then Inr p else Inl PrincipalInvalid)"

definition bare_principal :: "string \<Rightarrow> string \<Rightarrow> string set \<Rightarrow> principal" where
  "bare_principal subject tenant roles = \<lparr>id_subject = subject, id_tenant = tenant, id_roles = roles,
     id_method = ''header'', id_session = None, id_csrf = None, id_run = None, id_generation = None, id_handoff = None\<rparr>"

definition require :: "principal \<Rightarrow> string \<Rightarrow> auth_error + unit" where
  "require p role = check_r (role \<in> id_roles p) (NotAuthorized (''role required: '' @ role))"

section \<open>Demo headers\<close>

fun split_at :: "char \<Rightarrow> string \<Rightarrow> string list" where
  "split_at c [] = [[]]"
| "split_at c (d # s) = (if d = c then [] # split_at c s
     else (case split_at c s of [] \<Rightarrow> [[d]] | w # ws \<Rightarrow> (d # w) # ws))"

definition demo_authenticate ::
  "string option \<Rightarrow> string option \<Rightarrow> string option \<Rightarrow> auth_error + principal" where
  "demo_authenticate tenant actor roles = (case py_or tenant None of
     None \<Rightarrow> Inl (NotAuthenticated ''X-Tenant-ID is required in demo auth mode'')
   | Some t \<Rightarrow>
       (let listed = the (py_or roles (Some ''operator,reviewer''));
            names = filter (\<lambda>r. r \<noteq> []) (map py_strip (split_at (CHR '','') listed))
        in make_principal (bare_principal (the (py_or actor (Some ''demo-operator''))) t (set names))))"

section \<open>Bearer tokens\<close>

record oidc_config =
  oc_audience :: string
  oc_tenant_claim :: string
  oc_roles_claim :: string
  oc_leeway :: int
  oc_max_age :: int

type_synonym claims = "(string \<times> json) list"

text \<open>\<open>str.partition\<close> at the first space.\<close>

definition partition_space :: "string \<Rightarrow> string \<times> bool \<times> string" where
  "partition_space s = (case dropWhile (\<lambda>c. c \<noteq> CHR '' '') s of
     [] \<Rightarrow> (s, False, [])
   | _ # rest \<Rightarrow> (takeWhile (\<lambda>c. c \<noteq> CHR '' '') s, True, rest))"

lemma dropWhile_shorter [termination_simp]: "length (dropWhile P s) < Suc (length s)"
  using length_dropWhile_le [of P s] by simp

fun split_words :: "string \<Rightarrow> string list" where
  "split_words [] = []"
| "split_words (c # s) = (if py_space c then split_words s
     else (c # takeWhile (\<lambda>d. \<not> py_space d) s) # split_words (dropWhile (\<lambda>d. \<not> py_space d) s))"

text \<open>\<open>hmac.compare_digest\<close> of two texts refuses those that are not ASCII with a \<open>TypeError\<close>.\<close>

definition compare_digest :: "string \<Rightarrow> string \<Rightarrow> auth_error + bool" where
  "compare_digest a b =
     (if list_all ascii_char a \<and> list_all ascii_char b then Inr (a = b) else Inl ComparedNonAscii)"

fun any_audience :: "string \<Rightarrow> json list \<Rightarrow> auth_error + bool" where
  "any_audience aud [] = Inr False"
| "any_audience aud (JStr c # rest) =
     bind_r (compare_digest c aud) (\<lambda>same. if same then Inr True else any_audience aud rest)"
| "any_audience aud (_ # rest) = any_audience aud rest"

definition validate_client :: "oidc_config \<Rightarrow> claims \<Rightarrow> auth_error + unit" where
  "validate_client cfg claims =
    (let claim = (case map_of claims ''client_id'' of Some c \<Rightarrow> c
           | None \<Rightarrow> (case map_of claims ''aud'' of Some c \<Rightarrow> c | None \<Rightarrow> JNull));
         audiences = (case claim of JArr cs \<Rightarrow> cs | c \<Rightarrow> [c])
     in bind_r (any_audience (oc_audience cfg) audiences)
          (\<lambda>same. check_r same (NotAuthenticated ''token audience does not match this application'')))"

definition validate_token_age :: "oidc_config \<Rightarrow> claims \<Rightarrow> time \<Rightarrow> auth_error + unit" where
  "validate_token_age cfg claims now =
     (case (case map_of claims ''iat'' of Some (JInt n) \<Rightarrow> Some (of_int n) | Some (JNum x) \<Rightarrow> Some x | _ \<Rightarrow> None) of
        None \<Rightarrow> Inl (NotAuthenticated ''token issued-at claim is invalid'')
      | Some issued \<Rightarrow> check_r (real_of_int now / 1000000 - issued \<le> real_of_int (oc_max_age cfg + oc_leeway cfg))
          (NotAuthenticated ''access token is older than the allowed lifetime''))"

fun roles_of_claim :: "json option \<Rightarrow> string set" where
  "roles_of_claim (Some (JArr cs)) =
     (if list_all (\<lambda>c. case c of JStr _ \<Rightarrow> True | _ \<Rightarrow> False) cs
      then set (map (\<lambda>c. case c of JStr r \<Rightarrow> r | _ \<Rightarrow> []) cs) else {})"
| "roles_of_claim (Some (JStr s)) = set (split_words s)"
| "roles_of_claim _ = {}"

definition oidc_authenticate ::
  "oidc_config \<Rightarrow> (string \<Rightarrow> claims option) \<Rightarrow> string option \<Rightarrow> time \<Rightarrow> auth_error + principal" where
  "oidc_authenticate cfg decode authorization now = (case py_or authorization None of
     None \<Rightarrow> Inl (NotAuthenticated ''Bearer token required'')
   | Some header \<Rightarrow> (case partition_space header of (scheme, separator, token) \<Rightarrow>
       if \<not> separator \<or> casefold scheme \<noteq> ''bearer'' \<or> py_strip token = []
       then Inl (NotAuthenticated ''Bearer token required'')
       else (case decode (py_strip token) of
           None \<Rightarrow> Inl (NotAuthenticated ''invalid bearer token'')
         | Some claims \<Rightarrow>
             bind_r (validate_client cfg claims) (\<lambda>_.
             bind_r (check_r (map_of claims ''token_use'' = Some (JStr ''access'')) (NotAuthenticated ''access token required'')) (\<lambda>_.
             (case (map_of claims (oc_tenant_claim cfg), map_of claims ''sub'') of
                (Some (JStr tenant), Some (JStr subject)) \<Rightarrow>
                   bind_r (validate_token_age cfg claims now) (\<lambda>_.
                     make_principal (bare_principal subject tenant (roles_of_claim (map_of claims (oc_roles_claim cfg)))))
              | _ \<Rightarrow> Inl (NotAuthenticated ''required identity claims missing'')))))))"

section \<open>Judge sessions\<close>

record judge_config =
  jc_ttl :: int
  jc_attempts :: int
  jc_window :: int
  jc_rate_key :: string

definition session_principal :: "judge_session \<Rightarrow> principal" where
  "session_principal j = \<lparr>id_subject = js_subject j, id_tenant = js_tenant j,
     id_roles = (if js_role j = ''operator'' then {js_role j, ''agent''} else {js_role j}),
     id_method = ''judge_session'', id_session = Some (js_hash j), id_csrf = Some (js_csrf j),
     id_run = Some (js_run j), id_generation = Some (js_generation j), id_handoff = js_handoff j\<rparr>"

definition auth_repo :: "('s, session_error, 'a) sx \<Rightarrow> ('s, auth_error, 'a) sx" where
  "auth_repo m = (\<lambda>s. case m s of (Inl e, s') \<Rightarrow> (Inl (AuthRepository e), s') | (Inr a, s') \<Rightarrow> (Inr a, s'))"

definition lift_auth :: "auth_error + 'a \<Rightarrow> ('s, auth_error, 'a) sx" where
  "lift_auth r = (\<lambda>s. (r, s))"

text \<open>The checks on a new session: a reviewer is independent of the operator and carries a handoff.\<close>

definition check_session ::
  "'s session_repo \<Rightarrow> string \<Rightarrow> uuid \<Rightarrow> string \<Rightarrow> int \<Rightarrow> string \<Rightarrow> string option \<Rightarrow> time \<Rightarrow> ('s, auth_error, unit) sx" where
  "check_session R role run tenant gen subject handoff now =
    (if role \<noteq> ''operator'' \<and> role \<noteq> ''reviewer'' then raise_s (NotAuthenticated ''invalid judge session role'')
     else if role = ''reviewer'' then
       bind_s (auth_repo (sr_get_run R run now)) (\<lambda>found. (case found of
           None \<Rightarrow> raise_s (NotAuthenticated ''judge run is invalid or expired'')
         | Some r \<Rightarrow>
             if jn_tenant r \<noteq> tenant \<or> jn_generation r \<noteq> gen then raise_s (NotAuthenticated ''judge run is invalid or expired'')
             else bind_s (lift_auth (compare_digest (jn_operator r) subject)) (\<lambda>same.
               if same then raise_s (NotAuthenticated ''reviewer subject must be independent'')
               else check_s (handoff \<noteq> None) (NotAuthenticated ''reviewer session requires a consumed handoff''))))
     else check_s (handoff = None) (NotAuthenticated ''operator session cannot carry reviewer authority''))"

definition create_session ::
  "judge_config \<Rightarrow> 's session_repo \<Rightarrow> string \<Rightarrow> uuid \<Rightarrow> string \<Rightarrow> int \<Rightarrow> string \<Rightarrow> string option \<Rightarrow> string \<Rightarrow> string \<Rightarrow> time
     \<Rightarrow> ('s, auth_error, string \<times> string \<times> principal) sx" where
  "create_session cfg R role run tenant gen subject handoff token csrf now =
     bind_s (check_session R role run tenant gen subject handoff now) (\<lambda>_.
     (let j = \<lparr>js_hash = sha256_hex token, js_csrf = sha256_hex csrf, js_tenant = tenant, js_subject = subject,
            js_role = role, js_run = run, js_generation = gen, js_handoff = handoff,
            js_expires = now + seconds (jc_ttl cfg), js_revoked = None\<rparr> in
      bind_s (auth_repo (sr_save R j)) (\<lambda>_.
      bind_s (lift_auth (make_principal (session_principal j))) (\<lambda>p. return_s (token, csrf, p)))))"

definition consume_launch :: "judge_config \<Rightarrow> 's session_repo \<Rightarrow> string \<Rightarrow> int \<Rightarrow> time \<Rightarrow> ('s, session_error, bool) sx" where
  "consume_launch cfg R client limit now =
     sr_attempt R (hmac_sha256 (jc_rate_key cfg) (''judge-run-launch'' @ [nul] @ client)) limit (jc_window cfg) now"

definition consume_handoff_attempt :: "judge_config \<Rightarrow> 's session_repo \<Rightarrow> string \<Rightarrow> time \<Rightarrow> ('s, session_error, bool) sx" where
  "consume_handoff_attempt cfg R client now =
     sr_attempt R (hmac_sha256 (jc_rate_key cfg) (''review-handoff'' @ [nul] @ client)) (jc_attempts cfg) (jc_window cfg) now"

definition judge_authenticate :: "'s session_repo \<Rightarrow> string option \<Rightarrow> time \<Rightarrow> ('s, auth_error, principal) sx" where
  "judge_authenticate R cookie now = (case py_or cookie None of
     None \<Rightarrow> raise_s (NotAuthenticated ''judge session cookie required'')
   | Some c \<Rightarrow> (\<lambda>s. case sr_get R s (sha256_hex c) of
       None \<Rightarrow> (Inl (NotAuthenticated ''judge session is invalid or expired''), s)
     | Some j \<Rightarrow>
         if js_revoked j \<noteq> None \<or> js_expires j \<le> now
         then (Inl (NotAuthenticated ''judge session is invalid or expired''), s)
         else bind_s (auth_repo (sr_run_current R (js_run j) (js_tenant j) (js_generation j) now)) (\<lambda>current.
           if current then lift_auth (make_principal (session_principal j))
           else raise_s (NotAuthenticated ''judge session is invalid or expired'')) s))"

definition validate_csrf :: "principal \<Rightarrow> string option \<Rightarrow> auth_error + unit" where
  "validate_csrf p token = (case (id_csrf p, token) of
     (Some h, Some t) \<Rightarrow> bind_r (compare_digest h (sha256_hex t))
        (\<lambda>same. check_r same (NotAuthorized ''valid CSRF token required''))
   | _ \<Rightarrow> Inl (NotAuthorized ''valid CSRF token required''))"

definition revoke_principal :: "'s session_repo \<Rightarrow> principal \<Rightarrow> time \<Rightarrow> ('s, session_error, unit) sx" where
  "revoke_principal R p now = (case id_session p of None \<Rightarrow> return_s () | Some h \<Rightarrow> sr_revoke R h now)"

section \<open>The authenticator of a deployment\<close>

datatype authenticator = Demo | Oidc oidc_config "string \<Rightarrow> claims option" | Judge judge_config

record auth_headers =
  ah_authorization :: "string option"
  ah_tenant :: "string option"
  ah_actor :: "string option"
  ah_roles :: "string option"
  ah_operator_cookie :: "string option"
  ah_reviewer_cookie :: "string option"

text \<open>
  \<open>principal\<close> of the routes: the path selects the cookie, so that a request to a reviewer route never
  runs with an operator session, nor the reverse.
\<close>

fun request_principal ::
  "authenticator \<Rightarrow> 's session_repo \<Rightarrow> bool \<Rightarrow> auth_headers \<Rightarrow> time \<Rightarrow> ('s, auth_error, principal) sx" where
  "request_principal Demo R reviewer_path h now = lift_auth (demo_authenticate (ah_tenant h) (ah_actor h) (ah_roles h))"
| "request_principal (Oidc cfg decode) R reviewer_path h now = lift_auth (oidc_authenticate cfg decode (ah_authorization h) now)"
| "request_principal (Judge cfg) R reviewer_path h now =
     judge_authenticate R (if reviewer_path then ah_reviewer_cookie h else ah_operator_cookie h) now"

section \<open>Whom a session authenticates\<close>

lemma make_principal_Inr: "make_principal p = Inr q \<longleftrightarrow> q = p \<and> valid_principal p"
  by (auto simp: make_principal_def)

lemma compare_digest_Inr: "compare_digest a b = Inr c \<longleftrightarrow> c = (a = b) \<and> list_all ascii_char a \<and> list_all ascii_char b"
  by (auto simp: compare_digest_def)

lemma judge_authenticate_Inr:
  assumes "judge_authenticate R (Some cookie) now s = (Inr p, s')"
  shows "\<exists>j. sr_get R s (sha256_hex cookie) = Some j \<and> js_revoked j = None \<and> now < js_expires j \<and>
    fst (sr_run_current R (js_run j) (js_tenant j) (js_generation j) now s) = Inr True \<and> p = session_principal j"
  using assms
  by (auto simp: judge_authenticate_def bind_s_def auth_repo_def lift_auth_def raise_s_def make_principal_Inr py_or_def
      split: option.splits if_splits prod.splits sum.splits)

lemma check_session_Inr:
  assumes "check_session R role run tenant gen subject handoff now s = (Inr u, s1)"
  shows "role = ''operator'' \<and> handoff = None \<and> s1 = s \<or>
    role = ''reviewer'' \<and> handoff \<noteq> None \<and> s1 = snd (sr_get_run R run now s) \<and>
      (\<exists>r. fst (sr_get_run R run now s) = Inr (Some r) \<and> jn_tenant r = tenant \<and> jn_generation r = gen \<and> jn_operator r \<noteq> subject)"
  using assms
  by (auto simp: check_session_def bind_s_def auth_repo_def lift_auth_def raise_s_def check_s_def compare_digest_Inr
      split: option.splits if_splits prod.splits sum.splits)

text \<open>A saved session is the one found under its hash, in memory and in the table.\<close>

definition finds_saved :: "'s session_repo \<Rightarrow> bool" where
  "finds_saved R \<longleftrightarrow> (\<forall>j s u s1. js_revoked j = None \<longrightarrow> sr_save R j s = (Inr u, s1) \<longrightarrow> sr_get R s1 (js_hash j) = Some j)"

lemma finds_saved_repos: "finds_saved mem_session_repo" "finds_saved pg_session_repo"
proof -
  show "finds_saved mem_session_repo"
    by (auto simp: finds_saved_def mem_session_repo_def mem_save_session_def mem_get_session_def)
  have "sr_get pg_session_repo s1 (js_hash j) = Some j"
    if "js_revoked j = None" "sr_save pg_session_repo j s = (Inr u, s1)" for j s s1 and u :: unit
  proof -
    have s1: "\<not> (\<exists>r \<in> set (pj_sessions s). session_row_clash j r)" "s1 = s\<lparr>pj_sessions := pj_sessions s @ [j\<lparr>js_revoked := None\<rparr>]\<rparr>"
      using that(2) by (auto simp: pg_session_repo_def pg_save_session_def split: if_splits)
    then have "find (\<lambda>r. js_hash r = js_hash j) (pj_sessions s) = None"
      by (auto simp: find_None_iff session_row_clash_def)
    moreover have "j\<lparr>js_revoked := None\<rparr> = j" using that(1) by simp
    ultimately show ?thesis
      by (simp add: s1(2) pg_session_repo_def pg_get_session_def sql_row_def find_append_new)
  qed
  then show "finds_saved pg_session_repo" by (simp add: finds_saved_def)
qed

text \<open>What a session that was just created is good for.\<close>

definition issued_soundly ::
  "judge_config \<Rightarrow> 's session_repo \<Rightarrow> string \<Rightarrow> uuid \<Rightarrow> string \<Rightarrow> int \<Rightarrow> string \<Rightarrow> string option \<Rightarrow> string \<Rightarrow> string \<Rightarrow> time
     \<Rightarrow> 's \<Rightarrow> principal \<Rightarrow> 's \<Rightarrow> bool" where
  "issued_soundly cfg R role run tenant gen subject handoff token csrf now s p s1 \<longleftrightarrow>
     (role = ''operator'' \<and> handoff = None \<and> id_roles p = {''operator'', ''agent''} \<or>
      role = ''reviewer'' \<and> handoff \<noteq> None \<and> id_roles p = {''reviewer''} \<and>
        (\<exists>r. fst (sr_get_run R run now s) = Inr (Some r) \<and> jn_tenant r = tenant \<and> jn_generation r = gen \<and>
           jn_operator r \<noteq> subject)) \<and>
     id_subject p = subject \<and> id_tenant p = tenant \<and> id_run p = Some run \<and> id_handoff p = handoff \<and>
     (\<forall>later. fst (judge_authenticate R (Some token) later s1) = Inr p \<longleftrightarrow>
        later < now + seconds (jc_ttl cfg) \<and> fst (sr_run_current R run tenant gen later s1) = Inr True) \<and>
     (\<forall>later q. fst (judge_authenticate R (Some token) later s1) = Inr q \<longrightarrow> q = p) \<and>
     (\<forall>t. validate_csrf p (Some t) = Inr () \<longleftrightarrow> sha256_hex t = sha256_hex csrf)"

lemma ascii_hex: "hex64 h \<Longrightarrow> list_all ascii_char h"
proof -
  have "list_all ascii_char ''0123456789abcdef''" by code_simp
  then show "hex64 h \<Longrightarrow> list_all ascii_char h"
    unfolding hex64_def lower_hex_def list_all_iff by blast
qed

lemma create_session_sound:
  assumes finds: "finds_saved R" and token: "token \<noteq> []"
    and run: "create_session cfg R role run tenant gen subject handoff token csrf now s = (Inr (token', csrf', p), s1)"
  shows "issued_soundly cfg R role run tenant gen subject handoff token csrf now s p s1"
proof -
  define j where "j = \<lparr>js_hash = sha256_hex token, js_csrf = sha256_hex csrf, js_tenant = tenant, js_subject = subject,
            js_role = role, js_run = run, js_generation = gen, js_handoff = handoff,
            js_expires = now + seconds (jc_ttl cfg), js_revoked = None\<rparr>"
  note run' = run [unfolded create_session_def Let_def bind_s_Inr_iff, folded j_def]
  obtain u s0 v where chk: "check_session R role run tenant gen subject handoff now s = (Inr u, s0)"
    and save: "sr_save R j s0 = (Inr v, s1)" and p: "p = session_principal j" "valid_principal p"
    using run' by (elim exE conjE) (auto simp: auth_repo_def lift_auth_def return_s_def make_principal_Inr split: sum.splits prod.splits)
  have got: "sr_get R s1 (sha256_hex token) = Some j"
    using finds save unfolding finds_saved_def by (force simp: j_def)
  have auth: "judge_authenticate R (Some token) later s1 =
      (if now + seconds (jc_ttl cfg) \<le> later then (Inl (NotAuthenticated ''judge session is invalid or expired''), s1)
       else bind_s (auth_repo (sr_run_current R run tenant gen later)) (\<lambda>current.
           if current then lift_auth (make_principal (session_principal j))
           else raise_s (NotAuthenticated ''judge session is invalid or expired'')) s1)" for later
    using token by (simp add: judge_authenticate_def got) (simp add: j_def)
  have make: "make_principal (session_principal j) = Inr p" using p by (simp add: make_principal_Inr)
  have same: "fst (judge_authenticate R (Some token) later s1) = Inr q \<Longrightarrow> q = p" for later q
    unfolding auth make by (auto simp: bind_s_def auth_repo_def lift_auth_def raise_s_def split: if_splits prod.splits sum.splits)
  have iff: "fst (judge_authenticate R (Some token) later s1) = Inr p \<longleftrightarrow>
        later < now + seconds (jc_ttl cfg) \<and> fst (sr_run_current R run tenant gen later s1) = Inr True" for later
    unfolding auth make by (auto simp: bind_s_def auth_repo_def lift_auth_def raise_s_def split: prod.splits sum.splits)
  have csrf: "validate_csrf p (Some t) = Inr () \<longleftrightarrow> sha256_hex t = sha256_hex csrf" for t
    by (auto simp: validate_csrf_def p(1) session_principal_def j_def compare_digest_def ascii_hex)
  show ?thesis
    using check_session_Inr [OF chk] iff same csrf
    by (auto simp: issued_soundly_def p(1) session_principal_def j_def)
qed

text \<open>
  C39. The life of a judge session. Over the in-memory and over the Postgres repository, a session is only created for
  an operator without a handoff, or for a reviewer other than the operator of a run of that tenant and generation with a
  handoff; its token then authenticates exactly until its time to live ends and as long as its run is
  current, and never as anybody but the principal it was created for; and a CSRF token is accepted for it
  exactly when it has the digest of the one issued with it.
\<close>

theorem judge_session_lifecycle:
  assumes "token \<noteq> []"
  shows "(\<forall>p s1. create_session cfg mem_session_repo role run tenant gen subject handoff token csrf now s = (Inr (token, csrf, p), s1) \<longrightarrow>
      issued_soundly cfg mem_session_repo role run tenant gen subject handoff token csrf now s p s1) \<and>
    (\<forall>p t1. create_session cfg pg_session_repo role run tenant gen subject handoff token csrf now t = (Inr (token, csrf, p), t1) \<longrightarrow>
      issued_soundly cfg pg_session_repo role run tenant gen subject handoff token csrf now t p t1)"
  by (intro conjI allI impI; rule create_session_sound [OF _ assms]; simp add: finds_saved_repos)

lemma judge_session_lifecycle_witness:
  "\<exists>p s1. create_session \<lparr>jc_ttl = 600, jc_attempts = 8, jc_window = 300, jc_rate_key = ''k''\<rparr> mem_session_repo ''reviewer'' ''r1'' ''t1'' 1
       ''rev'' (Some ''h1'') ''tok'' ''csrf'' 4 (snd (session_run mem_session_repo sample_calls mem_sessions_empty)) = (Inr (''tok'', ''csrf'', p), s1) \<and>
     id_roles p = {''reviewer''} \<and> validate_csrf p (Some ''csrf'') = Inr ()"
proof -
  let ?cfg = "\<lparr>jc_ttl = 600, jc_attempts = 8, jc_window = 300, jc_rate_key = ''k''\<rparr>"
    and ?s = "snd (session_run mem_session_repo sample_calls mem_sessions_empty)"
  have run: "\<exists>s0. sr_get_run mem_session_repo ''r1'' 4 ?s = (Inr (Some sample_run), s0)"
    by (simp add: sample_calls_def session_ops mem_sessions_empty_def sample_run_def sample_session_def sample_handoff_def expire_run_def)
  have ascii: "list_all ascii_char (jn_operator sample_run) \<and> list_all ascii_char ''rev''" by code_simp
  have "jn_tenant sample_run = ''t1''" "jn_generation sample_run = 1" "jn_operator sample_run = ''op''"
    by (simp_all add: sample_run_def)
  then obtain s0 where "check_session mem_session_repo ''reviewer'' ''r1'' ''t1'' 1 ''rev'' (Some ''h1'') 4 ?s = (Inr (), s0)"
    using run ascii
    by (auto simp: check_session_def bind_s_def auth_repo_def lift_auth_def compare_digest_def check_s_def)
  moreover have "valid_principal (session_principal \<lparr>js_hash = h, js_csrf = c, js_tenant = ''t1'', js_subject = ''rev'',
      js_role = r, js_run = i, js_generation = g, js_handoff = o1, js_expires = e, js_revoked = None\<rparr>)" for h c r i g o1 e
    by (simp add: valid_principal_def session_principal_def sized_def ulen_def slug_def slug_char_def)
  moreover have save: "sr_save mem_session_repo j s = (Inr (), s\<lparr>mj_sessions := (mj_sessions s)(js_hash j \<mapsto> j)\<rparr>)" for j s
    by (simp add: mem_session_repo_def mem_save_session_def)
  ultimately obtain p s1 where c: "create_session ?cfg mem_session_repo ''reviewer'' ''r1'' ''t1'' 1 ''rev'' (Some ''h1'') ''tok'' ''csrf'' 4 ?s
      = (Inr (''tok'', ''csrf'', p), s1)"
    using save by (auto simp: create_session_def bind_s_def auth_repo_def lift_auth_def return_s_def make_principal_def Let_def)
  have "''tok'' \<noteq> []" by simp
  from judge_session_lifecycle [OF this, THEN conjunct1, rule_format, OF c] c show ?thesis
    by (auto simp: issued_soundly_def)
qed

text \<open>After an accepted reset no cookie authenticates anybody of the run, as long as it is not revived.\<close>

lemma dead_run_unauthenticated:
  assumes "run_dead R i s" "fst (judge_authenticate R (Some cookie) now s) = Inr p"
  shows "id_run p \<noteq> Some i"
proof -
  have "judge_authenticate R (Some cookie) now s = (Inr p, snd (judge_authenticate R (Some cookie) now s))"
    using assms(2) by (metis prod.collapse)
  from judge_authenticate_Inr [OF this] assms(1) show ?thesis
    by (auto simp: run_dead_def session_principal_def)
qed

lemma reset_ends_authority:
  assumes "\<forall>c \<in> snd ` set later. \<not> revives i c" "pg_sessions_inv s" "reset_accepted pg_session_repo i now s"
    and "fst (judge_authenticate pg_session_repo (Some cookie) at_time
      (snd (session_run pg_session_repo later (snd (sr_reset_run pg_session_repo i now s))))) = Inr p"
  shows "id_run p \<noteq> Some i"
  using dead_run_unauthenticated [OF pg_reset_dead [OF assms(1-3)] assms(4)] .

end
