(* ===== verification/Incident_Api.thy ===== *)
theory Incident_Api
  imports Provenance Auth Coordinator
begin

text \<open>
  The incident routes of \<^verbatim>\<open>src/recallops/api.py\<close> in the in-memory deployment: each handler checks the caller, reads,
  and then runs one transaction over the incident service and the workflow coordinator under the authority
  lock. A transaction that fails keeps what it had already done: nothing is rolled back in memory. What the
  store records an incident with and the state of its workflow are related by an invariant of every run.
\<close>

section \<open>Requests, errors and the two components\<close>

record api_state =
  ax_store :: mem_store
  ax_coord :: "(mem_workflows, mem_ledger) coordinator"

record api_settings =
  se_judge :: bool
  se_origin :: string
  se_service :: service_config
  se_providers :: providers
  se_externals :: externals
  se_observer :: observation_provider

record api_request =
  rx_identity :: principal
  rx_epoch :: "int option"
  rx_channel :: "string option"
  rx_origin :: "string option"
  rx_csrf :: "string option"

text \<open>The clock readings and the fresh event identifier of one transition.\<close>

record stamp =
  sp_now :: time
  sp_event :: uuid
  sp_recorded :: time

datatype tx_error =
    TxService service_error
  | TxCoord coord_error
  | TxDigest digest_error
  | TxSandbox sandbox_error
  | TxAuth auth_error
  | TxLookup string
  | TxPermission string
  | TxApprovalUnbound
  | TxStateUnavailable
  | TxReviewTarget
  | TxKeyBound
  | TxHttp int string
  | TxRuntime string

text \<open>
  \<open>TxReviewTarget\<close> is a governance error and \<open>TxKeyBound\<close> a workflow conflict of the judge routes; \<open>TxHttp\<close> is a response
  raised inside a transaction and \<open>TxRuntime\<close> a failure of the server, which no clause catches.
\<close>

text \<open>\<open>Refused\<close> has a detail of its own, \<open>Rejected\<close> the text of the exception; the others are not handled.\<close>

datatype api_error =
    Refused int string
  | Rejected int tx_error
  | Unhandled tx_error

fun workflow_conflict :: "coord_error \<Rightarrow> bool" where
  "workflow_conflict (CoordLedger e) \<longleftrightarrow> False"
| "workflow_conflict (CoordFault stage) \<longleftrightarrow> False"
| "workflow_conflict _ \<longleftrightarrow> True"

fun governance_conflict :: "store_error \<Rightarrow> bool" where
  "governance_conflict (StoreRetrieval e) \<longleftrightarrow> False"
| "governance_conflict OutcomeNeedsIncident \<longleftrightarrow> False"
| "governance_conflict StoreKeyError \<longleftrightarrow> False"
| "governance_conflict StoreInvalidEvent \<longleftrightarrow> False"
| "governance_conflict _ \<longleftrightarrow> True"

fun incident_conflict :: "service_error \<Rightarrow> bool" where
  "incident_conflict (ServiceStore e) \<longleftrightarrow> False"
| "incident_conflict (ServiceRetrieval e) \<longleftrightarrow> False"
| "incident_conflict (ServiceDigest e) \<longleftrightarrow> False"
| "incident_conflict RecordInvalid \<longleftrightarrow> False"
| "incident_conflict (Unavailable d) \<longleftrightarrow> False"
| "incident_conflict _ \<longleftrightarrow> True"

fun is_lookup :: "tx_error \<Rightarrow> bool" where
  "is_lookup (TxLookup m) \<longleftrightarrow> True"
| "is_lookup (TxService (ServiceStore StoreKeyError)) \<longleftrightarrow> True"
| "is_lookup _ \<longleftrightarrow> False"

text \<open>The \<open>except\<close> clauses of a handler, by the exceptions they name.\<close>

datatype caught = ByIncident | ByGovernance | ByWorkflow | ByLookup | ByPermission

fun catches :: "tx_error \<Rightarrow> caught \<Rightarrow> bool" where
  "catches e ByIncident \<longleftrightarrow> (case e of TxService s \<Rightarrow> incident_conflict s | TxApprovalUnbound \<Rightarrow> True | _ \<Rightarrow> False)"
| "catches e ByGovernance \<longleftrightarrow> (case e of TxService (ServiceStore s) \<Rightarrow> governance_conflict s | TxReviewTarget \<Rightarrow> True | _ \<Rightarrow> False)"
| "catches e ByWorkflow \<longleftrightarrow> (case e of TxCoord c \<Rightarrow> workflow_conflict c | TxStateUnavailable \<Rightarrow> True | TxKeyBound \<Rightarrow> True | _ \<Rightarrow> False)"
| "catches e ByLookup \<longleftrightarrow> is_lookup e"
| "catches e ByPermission \<longleftrightarrow> (case e of TxPermission m \<Rightarrow> True | _ \<Rightarrow> False)"

fun caught_status :: "caught \<Rightarrow> int" where
  "caught_status ByLookup = 404"
| "caught_status ByPermission = 428"
| "caught_status _ = 409"

definition respond :: "caught list \<Rightarrow> tx_error \<Rightarrow> api_error" where
  "respond clauses e = (case e of
     TxHttp status detail \<Rightarrow> Refused status detail
   | _ \<Rightarrow> (case List.find (catches e) clauses of None \<Rightarrow> Unhandled e | Some c \<Rightarrow> Rejected (caught_status c) e))"

definition with_store :: "(mem_store, service_error, 'a) sx \<Rightarrow> (api_state, tx_error, 'a) sx" where
  "with_store m = (\<lambda>s. case m (ax_store s) of
     (Inl e, w) \<Rightarrow> (Inl (TxService e), s\<lparr>ax_store := w\<rparr>) | (Inr a, w) \<Rightarrow> (Inr a, s\<lparr>ax_store := w\<rparr>))"

definition with_coord :: "((mem_workflows, mem_ledger) coordinator, coord_error, 'a) sx \<Rightarrow> (api_state, tx_error, 'a) sx" where
  "with_coord m = (\<lambda>s. case m (ax_coord s) of
     (Inl e, c) \<Rightarrow> (Inl (TxCoord e), s\<lparr>ax_coord := c\<rparr>) | (Inr a, c) \<Rightarrow> (Inr a, s\<lparr>ax_coord := c\<rparr>))"

definition tx_read :: "(api_state \<Rightarrow> tx_error + 'a) \<Rightarrow> (api_state, tx_error, 'a) sx" where
  "tx_read f = (\<lambda>s. (f s, s))"

text \<open>\<open>authority_transaction\<close>: in memory the operation runs as it is, under the lock.\<close>

definition authority_transaction :: "caught list \<Rightarrow> (api_state, tx_error, 'a) sx \<Rightarrow> (api_state, api_error, 'a) sx" where
  "authority_transaction clauses m = (\<lambda>s. case m s of
     (Inl e, s') \<Rightarrow> (Inl (respond clauses e), s') | (Inr a, s') \<Rightarrow> (Inr a, s'))"

definition api_workflow :: "api_state \<Rightarrow> uuid \<Rightarrow> string \<Rightarrow> workflow_snapshot option" where
  "api_workflow s i t = mem_get (co_workflows (ax_coord s)) i t"

definition tx_validate :: "transition_request \<Rightarrow> (api_state, tx_error, workflow_snapshot) sx" where
  "tx_validate q = tx_read (\<lambda>s. case validate_transition mem_repo q (co_workflows (ax_coord s)) of
     Inl e \<Rightarrow> Inl (TxCoord e) | Inr w \<Rightarrow> Inr w)"

definition tx_transition :: "externals \<Rightarrow> transition_request \<Rightarrow> stamp \<Rightarrow> (api_state, tx_error, workflow_snapshot) sx" where
  "tx_transition x q st = with_coord (coord_transition mem_repo (Some (mem_led x (\<lambda>_. False))) (\<lambda>_. False) q
     (sp_now st) (sp_event st) (sp_recorded st))"

definition tx_digest :: "digest_error + string \<Rightarrow> (api_state, tx_error, string) sx" where
  "tx_digest r = tx_read (\<lambda>_. case r of Inl e \<Rightarrow> Inl (TxDigest e) | Inr d \<Rightarrow> Inr d)"

section \<open>Who is asking\<close>

definition require_role :: "principal \<Rightarrow> string \<Rightarrow> api_error + unit" where
  "require_role p role = (case require p role of
     Inl (NotAuthorized m) \<Rightarrow> Inl (Refused 403 m) | Inl e \<Rightarrow> Inl (Unhandled (TxAuth e)) | Inr _ \<Rightarrow> Inr ())"

definition protected_request :: "api_settings \<Rightarrow> api_request \<Rightarrow> api_error + unit" where
  "protected_request cfg r =
    (if \<not> se_judge cfg then Inr ()
     else if rx_origin r \<noteq> Some (se_origin cfg) then Inl (Refused 403 ''trusted Origin required'')
     else (case validate_csrf (rx_identity r) (rx_csrf r) of
        Inl (NotAuthorized m) \<Rightarrow> Inl (Refused 403 m) | Inl e \<Rightarrow> Inl (Unhandled (TxAuth e)) | Inr _ \<Rightarrow> Inr ()))"

definition channel_of :: "string option \<Rightarrow> api_error + request_channel" where
  "channel_of v = (case py_or v (Some (channel_value UI)) of
     None \<Rightarrow> Inr UI
   | Some c \<Rightarrow> (case List.find (\<lambda>k. channel_value k = c) [WEBMCP, UI, SYSTEM] of
       None \<Rightarrow> Inl (Refused 400 ''invalid request channel'') | Some k \<Rightarrow> Inr k))"

text \<open>The checks the protected routes share: session, role, the payload's actor, and the channel.\<close>

definition guard_ui :: "api_settings \<Rightarrow> api_request \<Rightarrow> string \<Rightarrow> string \<Rightarrow> string \<Rightarrow> api_error + unit" where
  "guard_ui cfg r role tenant actor =
     bind_r (protected_request cfg r) (\<lambda>_.
     bind_r (require_role (rx_identity r) role) (\<lambda>_.
     bind_r (check_r (tenant = id_tenant (rx_identity r) \<and> actor = id_subject (rx_identity r))
               (Refused 403 ''identity and payload actor differ'')) (\<lambda>_.
     bind_r (channel_of (rx_channel r)) (\<lambda>ch.
     check_r (ch = UI) (Refused 403 ''protected transition is not authorized through WebMCP'')))))"

definition presented_epoch :: "api_request \<Rightarrow> api_error + int" where
  "presented_epoch r = (case rx_epoch r of None \<Rightarrow> Inl (Refused 428 ''X-Workflow-Epoch required'') | Some e \<Rightarrow> Inr e)"

definition lift_api :: "api_error + 'a \<Rightarrow> (api_state, api_error, 'a) sx" where
  "lift_api r = (\<lambda>s. (r, s))"

definition move ::
  "uuid \<Rightarrow> string \<Rightarrow> int \<Rightarrow> workflow_state \<Rightarrow> workflow_state \<Rightarrow> request_channel \<Rightarrow> string \<Rightarrow> string \<Rightarrow> transition_request" where
  "move i t ep expected target ch actor role = \<lparr>tq_id = i, tq_tenant = t, tq_epoch = ep, tq_expected = expected,
     tq_target = target, tq_channel = ch, tq_actor = actor, tq_role = role, tq_reason = ''STATE_TRANSITION_ACCEPTED'',
     tq_object_type = None, tq_object_id = None, tq_object_digest = None, tq_legacy = False\<rparr>"

definition about :: "string \<Rightarrow> string \<Rightarrow> string \<Rightarrow> string \<Rightarrow> transition_request \<Rightarrow> transition_request" where
  "about reason kind oid digest q = q\<lparr>tq_reason := reason, tq_object_type := Some kind, tq_object_id := Some oid,
     tq_object_digest := Some digest\<rparr>"

section \<open>Analysis and approval\<close>

definition persist_proposal ::
  "incident \<Rightarrow> string \<Rightarrow> analysis \<Rightarrow> time \<Rightarrow> (api_state, tx_error, analysis) sx" where
  "persist_proposal i tenant prepared now = bind_s (with_store (persist_analysis i prepared)) (\<lambda>a.
     bind_s (with_coord (\<lambda>c. case ensure_for_analysis mem_repo tenant (an_incident a) (pa_hash (an_action a))
         (pa_requires_approval (an_action a)) now c of
         (Inl e, c') \<Rightarrow> (Inl (CoordWorkflow e), c') | (Inr w, c') \<Rightarrow> (Inr w, c'))) (\<lambda>_.
     return_s a))"

definition analyze :: "api_settings \<Rightarrow> api_request \<Rightarrow> incident \<Rightarrow> uuid \<Rightarrow> time \<Rightarrow> (api_state, api_error, analysis) sx" where
  "analyze cfg r i aid now =
     (if in_tenant i \<noteq> id_tenant (rx_identity r) then raise_s (Refused 403 ''identity and payload tenant differ'')
      else bind_s (lift_api (channel_of (rx_channel r))) (\<lambda>ch.
        if ch = WEBMCP \<and> ''agent'' \<notin> id_roles (rx_identity r) then raise_s (Refused 403 ''agent role required for WebMCP'')
        else (\<lambda>s. case prepare_analysis (se_service cfg) (se_providers cfg) (ax_store s) i aid now of
            Inl e \<Rightarrow> (Inl (Unhandled (TxService e)), s)
          | Inr prepared \<Rightarrow>
              authority_transaction [] (persist_proposal i (id_tenant (rx_identity r)) prepared now) s)))"

definition approve_atomically ::
  "api_settings \<Rightarrow> string \<Rightarrow> string \<Rightarrow> int \<Rightarrow> uuid \<Rightarrow> approval_request \<Rightarrow> stamp \<Rightarrow> (api_state, tx_error, workflow_snapshot) sx" where
  "approve_atomically cfg tenant subject ep i q st =
     bind_s (tx_validate (move i tenant ep AWAITING_OPERATOR_APPROVAL AWAITING_OPERATOR_APPROVAL UI subject ''operator'')) (\<lambda>_.
     bind_s (with_store (decide_approval i q (sp_now st))) (\<lambda>recorded.
     bind_s (check_s recorded (TxLookup ''incident not found or already decided'')) (\<lambda>_.
     tx_transition (se_externals cfg)
       (about (if aq_approved q then ''PROPOSAL_APPROVED'' else ''PROPOSAL_REJECTED'') ''proposal'' i (aq_hash q)
         (move i tenant ep AWAITING_OPERATOR_APPROVAL
           (if aq_approved q then APPROVED_AWAITING_EXECUTION else INVESTIGATING) UI subject ''operator'')) st)))"

definition approve ::
  "api_settings \<Rightarrow> api_request \<Rightarrow> uuid \<Rightarrow> approval_request \<Rightarrow> stamp \<Rightarrow> (api_state, api_error, workflow_snapshot) sx" where
  "approve cfg r i q st = bind_s (lift_api (guard_ui cfg r ''operator'' (aq_tenant q) (aq_actor q))) (\<lambda>_. \<lambda>s.
     if api_workflow s i (id_tenant (rx_identity r)) = None then (Inl (Refused 404 ''incident or workflow not found''), s)
     else bind_s (lift_api (presented_epoch r)) (\<lambda>ep.
       authority_transaction [ByIncident, ByWorkflow, ByLookup]
         (approve_atomically cfg (id_tenant (rx_identity r)) (id_subject (rx_identity r)) ep i q st)) s)"

section \<open>Sandbox execution and post-check\<close>

definition execute_sandbox_atomically ::
  "api_settings \<Rightarrow> string \<Rightarrow> string \<Rightarrow> int \<Rightarrow> uuid \<Rightarrow> sandbox_request \<Rightarrow> sandbox_execution \<Rightarrow> stamp
     \<Rightarrow> (api_state, tx_error, sandbox_execution \<times> workflow_snapshot) sx" where
  "execute_sandbox_atomically cfg tenant subject ep i q prepared st =
     bind_s (tx_validate (move i tenant ep APPROVED_AWAITING_EXECUTION OBSERVING_POSTCHECK UI subject ''operator'')) (\<lambda>current.
     bind_s (tx_read (\<lambda>s. Inr (get_approval (ax_store s) i tenant))) (\<lambda>approval.
     bind_s (check_s (wf_proposal_hash current = Some (sq_proposal q) \<and>
               (case approval of None \<Rightarrow> False | Some p \<Rightarrow> ap_approved p \<and> ap_hash p = sq_proposal q))
             TxApprovalUnbound) (\<lambda>_.
     bind_s (with_store (in_store (record_sandbox_execution prepared))) (\<lambda>x.
     bind_s (tx_digest (content_digest (pr_jcs (se_providers cfg)) ''recallops-execution-binding-v1''
               (JObj [(''execution'', JStr (sx_digest x)), (''proposal'', JStr (sx_proposal x))]))) (\<lambda>digest.
     bind_s (tx_transition (se_externals cfg)
               (about ''SANDBOX_EXECUTION_APPLIED'' ''execution_binding'' (sx_id x) digest
                 (move i tenant ep APPROVED_AWAITING_EXECUTION OBSERVING_POSTCHECK UI subject ''operator'')) st) (\<lambda>w.
     return_s (x, w)))))))"

text \<open>
  The handler up to its first commit: the analysis is read, the execution prepared and recorded. What it
  returns, the execution and the workflow that observes it, the rest of the handler works with.
\<close>

definition apply_begin ::
  "api_settings \<Rightarrow> api_request \<Rightarrow> uuid \<Rightarrow> sandbox_request \<Rightarrow> uuid \<Rightarrow> stamp
     \<Rightarrow> (api_state, api_error, sandbox_execution \<times> workflow_snapshot) sx" where
  "apply_begin cfg r i q xid st = bind_s (lift_api (guard_ui cfg r ''operator'' (sq_tenant q) (sq_actor q))) (\<lambda>_.
     bind_s (lift_api (presented_epoch r)) (\<lambda>ep. \<lambda>s.
     (case get_analysis (ax_store s) i (id_tenant (rx_identity r)) of
        None \<Rightarrow> (Inl (Refused 404 ''incident not found''), s)
      | Some a \<Rightarrow> (case prepare_execution (pr_float (se_providers cfg)) i a q xid (sp_now st) of
          Inl e \<Rightarrow> (Inl (Rejected 409 (TxSandbox e)), s)
        | Inr prepared \<Rightarrow> authority_transaction [ByIncident, ByGovernance, ByWorkflow]
            (execute_sandbox_atomically cfg (id_tenant (rx_identity r)) (id_subject (rx_identity r)) ep i q prepared st) s))))"

definition observer :: string where
  "observer = ''recallops-observer''"

definition record_observation_atomically ::
  "api_settings \<Rightarrow> string \<Rightarrow> int \<Rightarrow> uuid \<Rightarrow> postcheck_observation \<Rightarrow> policy_verdict \<Rightarrow> stamp
     \<Rightarrow> (api_state, tx_error, postcheck_observation \<times> policy_verdict \<times> workflow_snapshot) sx" where
  "record_observation_atomically cfg tenant ep i obs verdict st =
     bind_s (tx_validate (move i tenant ep OBSERVING_POSTCHECK POSTCHECK_READY SYSTEM observer ''system'')) (\<lambda>_.
     bind_s (with_store (in_store (record_postcheck (obs, verdict)))) (\<lambda>(recorded, policy).
     bind_s (tx_digest (policy_verdict_digest (pr_jcs (se_providers cfg)) policy)) (\<lambda>verdict_digest.
     bind_s (tx_digest (content_digest (pr_jcs (se_providers cfg)) ''recallops-observation-binding-v1'' (JObj
         [(''execution'', JStr (po_execution_digest recorded)), (''observation'', JStr (po_digest recorded)),
          (''policy_verdict'', JStr verdict_digest)]))) (\<lambda>digest.
     bind_s (tx_transition (se_externals cfg)
         (about ''VERIFIED_OBSERVATION_RECORDED'' ''observation_binding'' (po_id recorded) digest
           (move i tenant ep OBSERVING_POSTCHECK POSTCHECK_READY SYSTEM observer ''system'')) st) (\<lambda>w.
     return_s (recorded, policy, w))))))"

definition mark_unavailable :: "api_settings \<Rightarrow> string \<Rightarrow> int \<Rightarrow> uuid \<Rightarrow> stamp \<Rightarrow> (api_state, tx_error, workflow_snapshot) sx" where
  "mark_unavailable cfg tenant ep i st = tx_transition (se_externals cfg)
     (move i tenant ep OBSERVING_POSTCHECK POSTCHECK_UNAVAILABLE SYSTEM observer ''system'') st"

definition observe ::
  "api_settings \<Rightarrow> string \<Rightarrow> uuid \<Rightarrow> sandbox_execution \<times> workflow_snapshot \<Rightarrow> uuid \<Rightarrow> time \<Rightarrow> time \<Rightarrow> stamp
     \<Rightarrow> (api_state, api_error, postcheck_observation \<times> policy_verdict \<times> workflow_snapshot) sx" where
  "observe cfg tenant i begun oid seen_at computed st = (case begun of (x, observing) \<Rightarrow>
     (case provider_collect (pr_float (se_providers cfg)) (se_observer cfg) x oid seen_at of
        Inl e \<Rightarrow> bind_s (authority_transaction [ByWorkflow] (mark_unavailable cfg tenant (wf_epoch observing) i st)) (\<lambda>_.
          raise_s (Refused 503 ''sandbox_observation_provider unavailable; no observation or memory was created''))
      | Inr obs \<Rightarrow> authority_transaction [ByGovernance, ByWorkflow]
          (record_observation_atomically cfg tenant (wf_epoch observing) i obs (evaluate_observation obs computed) st)))"

definition apply_sandbox_mitigation ::
  "api_settings \<Rightarrow> api_request \<Rightarrow> uuid \<Rightarrow> sandbox_request \<Rightarrow> uuid \<Rightarrow> stamp \<Rightarrow> uuid \<Rightarrow> time \<Rightarrow> time \<Rightarrow> stamp
     \<Rightarrow> (api_state, api_error, sandbox_execution \<times> postcheck_observation \<times> policy_verdict \<times> workflow_snapshot) sx" where
  "apply_sandbox_mitigation cfg r i q xid st oid seen_at computed later =
     bind_s (apply_begin cfg r i q xid st) (\<lambda>begun.
     bind_s (observe cfg (id_tenant (rx_identity r)) i begun oid seen_at computed later) (\<lambda>seen.
     return_s (fst begun, seen)))"

record retry_request =
  yq_tenant :: string
  yq_actor :: string

definition start_retry_atomically ::
  "api_settings \<Rightarrow> string \<Rightarrow> string \<Rightarrow> int \<Rightarrow> uuid \<Rightarrow> stamp \<Rightarrow> (api_state, tx_error, sandbox_execution \<times> workflow_snapshot) sx" where
  "start_retry_atomically cfg tenant subject ep i st =
     bind_s (tx_validate (move i tenant ep POSTCHECK_UNAVAILABLE OBSERVING_POSTCHECK UI subject ''operator'')) (\<lambda>_.
     bind_s (tx_read (\<lambda>s. case get_sandbox_execution (ax_store s) i tenant of
         None \<Rightarrow> Inl (TxLookup ''sandbox execution not found'') | Some x \<Rightarrow> Inr x)) (\<lambda>x.
     bind_s (tx_transition (se_externals cfg)
         (move i tenant ep POSTCHECK_UNAVAILABLE OBSERVING_POSTCHECK UI subject ''operator'') st) (\<lambda>w.
     return_s (x, w))))"

definition retry_begin ::
  "api_settings \<Rightarrow> api_request \<Rightarrow> uuid \<Rightarrow> retry_request \<Rightarrow> stamp
     \<Rightarrow> (api_state, api_error, sandbox_execution \<times> workflow_snapshot) sx" where
  "retry_begin cfg r i q st = bind_s (lift_api (guard_ui cfg r ''operator'' (yq_tenant q) (yq_actor q))) (\<lambda>_.
     bind_s (lift_api (presented_epoch r)) (\<lambda>ep.
     authority_transaction [ByWorkflow, ByLookup]
       (start_retry_atomically cfg (id_tenant (rx_identity r)) (id_subject (rx_identity r)) ep i st)))"

definition retry_postcheck ::
  "api_settings \<Rightarrow> api_request \<Rightarrow> uuid \<Rightarrow> retry_request \<Rightarrow> stamp \<Rightarrow> uuid \<Rightarrow> time \<Rightarrow> time \<Rightarrow> stamp
     \<Rightarrow> (api_state, api_error, sandbox_execution \<times> postcheck_observation \<times> policy_verdict \<times> workflow_snapshot) sx" where
  "retry_postcheck cfg r i q st oid seen_at computed later = bind_s (retry_begin cfg r i q st) (\<lambda>begun.
     bind_s (observe cfg (id_tenant (rx_identity r)) i begun oid seen_at computed later) (\<lambda>seen.
     return_s (fst begun, seen)))"

section \<open>Assessment\<close>

record assessment_request =
  eq_observation :: uuid
  eq_class :: postcheck_class
  eq_rationale :: string

definition assess_atomically ::
  "api_settings \<Rightarrow> string \<Rightarrow> string \<Rightarrow> int \<Rightarrow> uuid \<Rightarrow> postcheck_assessment \<Rightarrow> memory \<Rightarrow> stamp
     \<Rightarrow> (api_state, tx_error, postcheck_assessment \<times> memory \<times> workflow_snapshot) sx" where
  "assess_atomically cfg tenant subject ep i a m st =
     bind_s (tx_validate (move i tenant ep POSTCHECK_READY PENDING_REVIEW WEBMCP subject ''agent'')) (\<lambda>_.
     bind_s (with_store (persist_verified_outcome a m)) (\<lambda>(recorded, saved).
     bind_s (tx_transition (se_externals cfg) (move i tenant ep POSTCHECK_READY PENDING_REVIEW WEBMCP subject ''agent'') st) (\<lambda>w.
     return_s (recorded, saved, w))))"

definition valid_assessment :: "postcheck_assessment \<Rightarrow> bool" where
  "valid_assessment a \<longleftrightarrow> sized 1 200 (pt_agent a) \<and> sized 3 1000 (pt_rationale a) \<and> hex64 (pt_digest a)"

definition assess_recorded ::
  "api_settings \<Rightarrow> api_request \<Rightarrow> uuid \<Rightarrow> assessment_request \<Rightarrow> uuid \<Rightarrow> uuid \<Rightarrow> stamp \<Rightarrow> int
     \<Rightarrow> (api_state, api_error, postcheck_assessment \<times> memory \<times> workflow_snapshot) sx" where
  "assess_recorded cfg r i q aid mid st ep = (\<lambda>s. case get_postcheck (ax_store s) i (id_tenant (rx_identity r)) of
        None \<Rightarrow> (Inl (Refused 404 ''postcheck not found''), s)
      | Some (obs, verdict) \<Rightarrow>
        if eq_observation q \<noteq> po_id obs then (Inl (Refused 409 ''stale or mismatched observation''), s)
        else let a = \<lparr>pt_id = aid, pt_observation = po_id obs, pt_incident = i, pt_tenant = id_tenant (rx_identity r),
               pt_agent = id_subject (rx_identity r), pt_class = eq_class q, pt_rationale = eq_rationale q,
               pt_digest = po_digest obs, pt_created = sp_now st\<rparr>
        in if \<not> valid_assessment a then (Inl (Unhandled (TxService RecordInvalid)), s)
        else (case prepare_verified_outcome (se_service cfg) (se_providers cfg) (ax_store s) i obs verdict a mid (sp_now st) of
            Inl (Unavailable d) \<Rightarrow> (Inl (Refused 503 (d @ '' unavailable; assessment and memory were not persisted'')), s)
          | Inl e \<Rightarrow> (Inl (respond [ByIncident] (TxService e)), s)
          | Inr None \<Rightarrow> (Inl (Refused 404 ''incident not found''), s)
          | Inr (Some m) \<Rightarrow> authority_transaction [ByIncident, ByGovernance, ByWorkflow]
              (assess_atomically cfg (id_tenant (rx_identity r)) (id_subject (rx_identity r)) ep i a m st) s))"

definition record_postcheck_assessment_route ::
  "api_settings \<Rightarrow> api_request \<Rightarrow> uuid \<Rightarrow> assessment_request \<Rightarrow> uuid \<Rightarrow> uuid \<Rightarrow> stamp
     \<Rightarrow> (api_state, api_error, postcheck_assessment \<times> memory \<times> workflow_snapshot) sx" where
  "record_postcheck_assessment_route cfg r i q aid mid st =
     bind_s (lift_api (require_role (rx_identity r) ''agent'')) (\<lambda>_.
     bind_s (lift_api (channel_of (rx_channel r))) (\<lambda>ch.
     bind_s (lift_api (check_r (ch = WEBMCP) (Refused 403 ''postcheck assessment is authorized only through WebMCP''))) (\<lambda>_.
     bind_s (lift_api (presented_epoch r)) (assess_recorded cfg r i q aid mid st))))"

section \<open>Manual attestation, outcomes, governance and reset\<close>

definition legacy :: "transition_request \<Rightarrow> transition_request" where
  "legacy q = q\<lparr>tq_legacy := True\<rparr>"

definition execute_atomically ::
  "api_settings \<Rightarrow> string \<Rightarrow> string \<Rightarrow> int \<Rightarrow> uuid \<Rightarrow> attestation \<Rightarrow> stamp \<Rightarrow> (api_state, tx_error, attestation) sx" where
  "execute_atomically cfg tenant subject ep i prepared st =
     bind_s (tx_read (\<lambda>s. case api_workflow s i tenant of
         None \<Rightarrow> Inl (TxLookup ''incident not found'')
       | Some w \<Rightarrow> if wf_state w \<noteq> INVESTIGATING \<and> wf_state w \<noteq> APPROVED_AWAITING_EXECUTION
           then Inl TxStateUnavailable else Inr (wf_state w))) (\<lambda>current.
     bind_s (tx_validate (legacy (move i tenant ep current OBSERVING_POSTCHECK UI subject ''operator''))) (\<lambda>_.
     bind_s (with_store (persist_execution prepared)) (\<lambda>x.
     bind_s (tx_transition (se_externals cfg) (legacy (move i tenant ep current OBSERVING_POSTCHECK UI subject ''operator'')) st) (\<lambda>_.
     return_s x))))"

definition not_in_judge :: "api_settings \<Rightarrow> string \<Rightarrow> api_error + unit" where
  "not_in_judge cfg detail = check_r (\<not> se_judge cfg) (Refused 410 detail)"

definition attest_execution ::
  "api_settings \<Rightarrow> api_request \<Rightarrow> uuid \<Rightarrow> execution_request \<Rightarrow> stamp \<Rightarrow> (api_state, api_error, attestation) sx" where
  "attest_execution cfg r i q st =
     bind_s (lift_api (not_in_judge cfg ''manual execution attestation is disabled in the judge workflow'')) (\<lambda>_.
     bind_s (lift_api (guard_ui cfg r ''operator'' (xq_tenant q) (xq_actor q))) (\<lambda>_.
     bind_s (lift_api (presented_epoch r)) (\<lambda>ep. \<lambda>s.
     (case prepare_attestation (se_providers cfg) (ax_store s) i q (sp_now st) of
        Inl (Unavailable d) \<Rightarrow> (Inl (Refused 503 (d @ '' unavailable; execution was not attested'')), s)
      | Inl e \<Rightarrow> (Inl (respond [ByIncident] (TxService e)), s)
      | Inr None \<Rightarrow> (Inl (Refused 404 ''incident not found''), s)
      | Inr (Some x) \<Rightarrow> authority_transaction [ByIncident, ByWorkflow, ByLookup]
          (execute_atomically cfg (id_tenant (rx_identity r)) (id_subject (rx_identity r)) ep i x st) s))))"

definition legacy_observer :: string where
  "legacy_observer = ''recallops-legacy-observer''"

definition outcome_atomically ::
  "api_settings \<Rightarrow> string \<Rightarrow> int \<Rightarrow> uuid \<Rightarrow> memory \<Rightarrow> stamp \<Rightarrow> (api_state, tx_error, memory) sx" where
  "outcome_atomically cfg tenant ep i m st =
     bind_s (tx_validate (move i tenant ep OBSERVING_POSTCHECK PENDING_REVIEW SYSTEM legacy_observer ''system'')) (\<lambda>_.
     bind_s (with_store (persist_outcome m)) (\<lambda>saved.
     bind_s (tx_transition (se_externals cfg)
         (move i tenant ep OBSERVING_POSTCHECK PENDING_REVIEW SYSTEM legacy_observer ''system'') st) (\<lambda>_.
     return_s saved)))"

definition observe_outcome ::
  "api_settings \<Rightarrow> api_request \<Rightarrow> uuid \<Rightarrow> outcome_observation \<Rightarrow> uuid \<Rightarrow> stamp \<Rightarrow> (api_state, api_error, memory) sx" where
  "observe_outcome cfg r i ob mid st =
     bind_s (lift_api (not_in_judge cfg ''operator-supplied outcomes are disabled in the judge workflow'')) (\<lambda>_.
     bind_s (lift_api (guard_ui cfg r ''operator'' (oo_tenant ob) (oo_actor ob))) (\<lambda>_. \<lambda>s.
     if api_workflow s i (id_tenant (rx_identity r)) = None then (Inl (Refused 404 ''incident or workflow not found''), s)
     else bind_s (lift_api (presented_epoch r)) (\<lambda>ep. \<lambda>s.
     (case prepare_outcome (se_service cfg) (se_providers cfg) (ax_store s) i ob mid (sp_now st) of
        Inl (Unavailable d) \<Rightarrow> (Inl (Refused 503 (d @ '' unavailable; outcome was not persisted'')), s)
      | Inl e \<Rightarrow> (Inl (respond [ByIncident] (TxService e)), s)
      | Inr None \<Rightarrow> (Inl (Refused 404 ''incident not found''), s)
      | Inr (Some m) \<Rightarrow> authority_transaction [ByIncident, ByWorkflow, ByLookup]
          (outcome_atomically cfg (id_tenant (rx_identity r)) ep i m st) s)) s))"

definition govern_atomically ::
  "api_settings \<Rightarrow> string \<Rightarrow> string \<Rightarrow> int option \<Rightarrow> uuid \<Rightarrow> governance_request \<Rightarrow> uuid \<Rightarrow> stamp
     \<Rightarrow> (api_state, tx_error, memory) sx" where
  "govern_atomically cfg tenant subject epoch mid q eid st =
     bind_s (tx_read (\<lambda>s. Inr (case get_memory (ax_store s) mid tenant of
         None \<Rightarrow> None
       | Some m \<Rightarrow> (case mm_source_incident m of None \<Rightarrow> None
           | Some i \<Rightarrow> if api_workflow s i tenant = None then None else Some i)))) (\<lambda>managed.
     bind_s (case managed of None \<Rightarrow> return_s ()
       | Some i \<Rightarrow> (case epoch of None \<Rightarrow> raise_s (TxPermission ''X-Workflow-Epoch required'')
           | Some ep \<Rightarrow> bind_s (tx_validate (move i tenant ep PENDING_REVIEW REVIEWED UI subject ''reviewer'')) (\<lambda>_. return_s ()))) (\<lambda>_.
     bind_s (with_store (in_store (govern_memory mid q eid (sp_now st)))) (\<lambda>governed.
     (case governed of None \<Rightarrow> raise_s (TxLookup ''memory not found'')
      | Some m \<Rightarrow>
        bind_s (case (managed, epoch) of
            (Some i, Some ep) \<Rightarrow> bind_s (tx_transition (se_externals cfg)
              (move i tenant ep PENDING_REVIEW REVIEWED UI subject ''reviewer'') st) (\<lambda>_. return_s ())
          | _ \<Rightarrow> return_s ()) (\<lambda>_. return_s m)))))"

definition govern_memory_route ::
  "api_settings \<Rightarrow> api_request \<Rightarrow> uuid \<Rightarrow> governance_request \<Rightarrow> uuid \<Rightarrow> stamp \<Rightarrow> (api_state, api_error, memory) sx" where
  "govern_memory_route cfg r mid q eid st =
     bind_s (lift_api (not_in_judge cfg ''legacy memory governance is disabled in the judge workflow'')) (\<lambda>_.
     bind_s (lift_api (guard_ui cfg r ''reviewer'' (gr_tenant q) (gr_actor q))) (\<lambda>_.
     authority_transaction [ByGovernance, ByWorkflow, ByPermission, ByLookup]
       (govern_atomically cfg (id_tenant (rx_identity r)) (id_subject (rx_identity r)) (rx_epoch r) mid q eid st)))"

definition reset_workflow :: "api_settings \<Rightarrow> api_request \<Rightarrow> uuid \<Rightarrow> int \<Rightarrow> stamp \<Rightarrow> (api_state, api_error, workflow_snapshot) sx" where
  "reset_workflow cfg r i ep st =
     bind_s (lift_api (protected_request cfg r)) (\<lambda>_.
     bind_s (lift_api (require_role (rx_identity r) ''operator'')) (\<lambda>_.
     bind_s (lift_api (channel_of (rx_channel r))) (\<lambda>ch.
     if ch \<noteq> UI then raise_s (Refused 403 ''reset is not authorized through WebMCP'')
     else authority_transaction [ByWorkflow] (with_coord (coord_invalidate mem_repo (Some (mem_led (se_externals cfg) (\<lambda>_. False)))
       (\<lambda>_. False) i (id_tenant (rx_identity r)) ep ch ''operator'' (id_subject (rx_identity r))
       (sp_now st) (sp_event st) (sp_recorded st))))))"

section \<open>Runs of requests\<close>

text \<open>
  Requests are served concurrently: each operation is one handler up to its end or, where a handler commits twice, up
  to its first commit and from there. The identifier of a new analysis is fresh.
\<close>

record api_run =
  zr_state :: api_state
  zr_begun :: "(string \<times> uuid \<times> sandbox_execution \<times> workflow_snapshot) list"

datatype api_op =
    Analyze api_request incident uuid time
  | Approve api_request uuid approval_request stamp
  | ApplyBegin api_request uuid sandbox_request uuid stamp
  | RetryBegin api_request uuid retry_request stamp
  | Observe "string \<times> uuid \<times> sandbox_execution \<times> workflow_snapshot" uuid time time stamp
  | Assess api_request uuid assessment_request uuid uuid stamp
  | Attest api_request uuid execution_request stamp
  | LearnOutcome api_request uuid outcome_observation uuid stamp
  | GovernMemory api_request uuid governance_request uuid stamp
  | ResetWorkflow api_request uuid int stamp

definition acting :: "(api_state, api_error, 'a) sx \<Rightarrow> api_run \<Rightarrow> api_run" where
  "acting m r = r\<lparr>zr_state := snd (m (zr_state r))\<rparr>"

definition beginning ::
  "api_request \<Rightarrow> uuid \<Rightarrow> (api_state, api_error, sandbox_execution \<times> workflow_snapshot) sx \<Rightarrow> api_run \<Rightarrow> api_run" where
  "beginning q i m r = (case m (zr_state r) of
     (Inl e, s) \<Rightarrow> r\<lparr>zr_state := s\<rparr>
   | (Inr (x, w), s) \<Rightarrow> r\<lparr>zr_state := s, zr_begun := (id_tenant (rx_identity q), i, x, w) # zr_begun r\<rparr>)"

fun request_of :: "api_op \<Rightarrow> api_request option" where
  "request_of (Analyze q i aid now) = Some q"
| "request_of (Approve q i a st) = Some q"
| "request_of (ApplyBegin q i a xid st) = Some q"
| "request_of (RetryBegin q i a st) = Some q"
| "request_of (Observe b oid t1 t2 st) = None"
| "request_of (Assess q i a aid mid st) = Some q"
| "request_of (Attest q i a st) = Some q"
| "request_of (LearnOutcome q i ob mid st) = Some q"
| "request_of (GovernMemory q mid g eid st) = Some q"
| "request_of (ResetWorkflow q i ep st) = Some q"

fun serve :: "api_settings \<Rightarrow> api_op \<Rightarrow> api_run \<Rightarrow> api_run" where
  "serve cfg (Analyze q i aid now) r =
     (if ms_analyses (ax_store (zr_state r)) (in_tenant i, aid) = None then acting (analyze cfg q i aid now) r else r)"
| "serve cfg (Approve q i a st) r = acting (approve cfg q i a st) r"
| "serve cfg (ApplyBegin q i a xid st) r = beginning q i (apply_begin cfg q i a xid st) r"
| "serve cfg (RetryBegin q i a st) r = beginning q i (retry_begin cfg q i a st) r"
| "serve cfg (Observe (t, i, x, w) oid t1 t2 st) r =
     (if (t, i, x, w) \<in> set (zr_begun r) then acting (observe cfg t i (x, w) oid t1 t2 st) r else r)"
| "serve cfg (Assess q i a aid mid st) r = acting (record_postcheck_assessment_route cfg q i a aid mid st) r"
| "serve cfg (Attest q i a st) r = acting (attest_execution cfg q i a st) r"
| "serve cfg (LearnOutcome q i ob mid st) r = acting (observe_outcome cfg q i ob mid st) r"
| "serve cfg (GovernMemory q mid g eid st) r = acting (govern_memory_route cfg q mid g eid st) r"
| "serve cfg (ResetWorkflow q i ep st) r = acting (reset_workflow cfg q i ep st) r"

text \<open>
  A principal is a validated record: its subject is not empty. A run starts from a store of fixture memories,
  without a source incident, and from any ledger.
\<close>

definition api_step :: "api_settings \<Rightarrow> api_op \<Rightarrow> api_run \<Rightarrow> api_run" where
  "api_step cfg op r = (case request_of op of
     None \<Rightarrow> serve cfg op r
   | Some q \<Rightarrow> if valid_principal (rx_identity q) then serve cfg op r else r)"

definition fixture :: "memory \<Rightarrow> memory" where
  "fixture m = m\<lparr>mm_source_incident := None, mm_observed_by := None\<rparr>"

definition new_api :: "memory list \<Rightarrow> mem_ledger \<Rightarrow> api_run" where
  "new_api fixtures ledger = \<lparr>zr_state = \<lparr>ax_store = new_store (map fixture fixtures), ax_coord = \<lparr>co_workflows = Map.empty, co_ledger = ledger\<rparr>\<rparr>, zr_begun = []\<rparr>"

section \<open>What the state of a workflow rests on\<close>

definition was_approved :: "mem_store \<Rightarrow> string \<times> uuid \<Rightarrow> bool" where
  "was_approved s k \<longleftrightarrow> (\<exists>p. ms_approvals s k = Some p \<and> ap_approved p)"

definition was_executed :: "mem_store \<Rightarrow> string \<times> uuid \<Rightarrow> bool" where
  "was_executed s k \<longleftrightarrow> ms_sandbox s k \<noteq> None \<or> ms_executions s k \<noteq> None"

definition rests_on :: "mem_store \<Rightarrow> string \<times> uuid \<Rightarrow> workflow_snapshot \<Rightarrow> bool" where
  "rests_on s k w \<longleftrightarrow> (case wf_state w of
     INVESTIGATING \<Rightarrow> True
   | AWAITING_OPERATOR_APPROVAL \<Rightarrow> True
   | APPROVED_AWAITING_EXECUTION \<Rightarrow> was_approved s k
   | OBSERVING_POSTCHECK \<Rightarrow> was_executed s k
   | POSTCHECK_UNAVAILABLE \<Rightarrow> was_executed s k
   | POSTCHECK_READY \<Rightarrow> was_executed s k \<and> ms_postchecks s k \<noteq> None
   | PENDING_REVIEW \<Rightarrow> was_executed s k \<and> ms_outcomes s k \<noteq> None
   | REVIEWED \<Rightarrow> was_executed s k \<and> ms_outcomes s k \<noteq> None \<and> wf_reviewer w \<noteq> None \<and> wf_reviewer w \<noteq> wf_operator w)"

definition permitted :: "mem_store \<Rightarrow> sandbox_execution \<Rightarrow> bool" where
  "permitted s x \<longleftrightarrow> (\<exists>a p. ms_analyses s (sx_tenant x, sx_incident x) = Some a \<and>
     pa_hash (an_action a) = Some (sx_proposal x) \<and> pa_command (an_action a) = sandbox_action_command \<and>
     ms_approvals s (sx_tenant x, sx_incident x) = Some p \<and> ap_approved p \<and> ap_hash p = sx_proposal x)"

definition sandbox_inv :: "mem_store \<Rightarrow> bool" where
  "sandbox_inv s \<longleftrightarrow> (\<forall>k x. ms_sandbox s k = Some x \<longrightarrow> k = (sx_tenant x, sx_incident x) \<and> permitted s x)"

lemma permitted_updates [simp]:
  "permitted (s\<lparr>ms_sandbox := m\<rparr>) x = permitted s x" "permitted (s\<lparr>ms_postchecks := c\<rparr>) x = permitted s x"
  by (simp_all add: permitted_def)

lemma permitted_grows: "grows s s' \<Longrightarrow> permitted s x \<Longrightarrow> permitted s' x"
  unfolding permitted_def by (meson growsD(1,3))

definition observed :: "mem_store \<Rightarrow> string \<times> uuid \<Rightarrow> postcheck_observation \<times> policy_verdict \<Rightarrow> bool" where
  "observed s k ov \<longleftrightarrow> k = (po_tenant (fst ov), po_incident (fst ov)) \<and> (\<exists>x t. ms_sandbox s k = Some x \<and> po_execution (fst ov) = sx_id x \<and>
     po_proposal (fst ov) = sx_proposal x \<and> po_execution_digest (fst ov) = sx_digest x \<and>
     snd ov = evaluate_observation (fst ov) t)"

lemma observed_postchecks [simp]: "observed (s\<lparr>ms_postchecks := c\<rparr>) k ov = observed s k ov"
  by (simp add: observed_def)

definition api_inv :: "api_state \<Rightarrow> bool" where
  "api_inv s \<longleftrightarrow> store_inv (ax_store s) \<and> sandbox_inv (ax_store s) \<and>
     (\<forall>k ov. ms_postchecks (ax_store s) k = Some ov \<longrightarrow> observed (ax_store s) k ov) \<and>
     mem_keyed (co_workflows (ax_coord s)) \<and>
     (\<forall>i t w. api_workflow s i t = Some w \<longrightarrow> rests_on (ax_store s) (t, i) w)"

text \<open>
  \<open>sure P m Q\<close>: started under \<open>P\<close> and the invariant, \<open>m\<close> ends under the invariant whatever its result, and
  if it succeeds also under \<open>Q\<close> of its value.
\<close>

definition sure :: "(api_state \<Rightarrow> bool) \<Rightarrow> (api_state, 'e, 'a) sx \<Rightarrow> ('a \<Rightarrow> api_state \<Rightarrow> bool) \<Rightarrow> bool" where
  "sure P m Q \<longleftrightarrow> (\<forall>s r s'. api_inv s \<longrightarrow> P s \<longrightarrow> m s = (r, s') \<longrightarrow>
     api_inv s' \<and> grows (ax_store s) (ax_store s') \<and> (\<forall>a. r = Inr a \<longrightarrow> Q a s'))"

named_theorems sure_rules \<open>rules for the sequencing of transactions\<close>

lemma sure_bind [sure_rules]:
  assumes "sure P m Q" and "\<And>a. sure (Q a) (f a) R"
  shows "sure P (bind_s m f) R"
  unfolding sure_def
proof (intro allI impI)
  fix s r s' assume *: "api_inv s" "P s" "bind_s m f s = (r, s')"
  obtain r1 s1 where m: "m s = (r1, s1)" by (metis prod.exhaust)
  have one: "api_inv s1" "grows (ax_store s) (ax_store s1)" "\<And>a. r1 = Inr a \<Longrightarrow> Q a s1"
    using assms(1) *(1,2) m unfolding sure_def by blast+
  show "api_inv s' \<and> grows (ax_store s) (ax_store s') \<and> (\<forall>a. r = Inr a \<longrightarrow> R a s')"
  proof (cases r1)
    case (Inl e)
    then show ?thesis using *(3) m one by (auto simp: bind_s_def)
  next
    case (Inr a)
    then have "f a s1 = (r, s')" using *(3) m by (simp add: bind_s_def)
    then have "api_inv s' \<and> grows (ax_store s1) (ax_store s') \<and> (\<forall>b. r = Inr b \<longrightarrow> R b s')"
      using assms(2) [of a] one(1) one(3) [OF Inr] unfolding sure_def by blast
    then show ?thesis using grows_trans [OF one(2)] by blast
  qed
qed

lemma sure_return [sure_rules]: "(\<And>s. api_inv s \<Longrightarrow> P s \<Longrightarrow> Q a s) \<Longrightarrow> sure P (return_s a) Q"
  by (simp add: sure_def return_s_def)

lemma sure_raise [sure_rules]: "sure P (raise_s e) Q"
  by (simp add: sure_def raise_s_def)

lemma sure_check [sure_rules]: "(\<And>s. api_inv s \<Longrightarrow> P s \<Longrightarrow> b \<Longrightarrow> Q () s) \<Longrightarrow> sure P (check_s b e) Q"
  by (auto simp: sure_def check_s_def)

lemma sure_read [sure_rules]: "(\<And>s a. api_inv s \<Longrightarrow> P s \<Longrightarrow> f s = Inr a \<Longrightarrow> Q a s) \<Longrightarrow> sure P (tx_read f) Q"
  by (auto simp: sure_def tx_read_def)

lemma sure_lift [sure_rules]: "(\<And>s a. api_inv s \<Longrightarrow> P s \<Longrightarrow> r = Inr a \<Longrightarrow> Q a s) \<Longrightarrow> sure P (lift_api r) Q"
  by (auto simp: sure_def lift_api_def)

lemma sure_transaction [sure_rules]: "sure P m Q \<Longrightarrow> sure P (authority_transaction clauses m) Q"
  unfolding sure_def authority_transaction_def by (fastforce split: prod.splits sum.splits)

lemma sure_pre: "sure P m Q \<Longrightarrow> (\<And>s. api_inv s \<Longrightarrow> P' s \<Longrightarrow> P s) \<Longrightarrow> sure P' m Q"
  unfolding sure_def by blast

lemma sure_case: "(\<And>s. api_inv s \<Longrightarrow> P s \<Longrightarrow> sure (\<lambda>u. u = s) (m s) Q) \<Longrightarrow> sure P (\<lambda>s. m s s) Q"
  unfolding sure_def by blast

text \<open>Transitions: what the workflow comes to must rest on the store before the move.\<close>

lemma api_workflow_store [simp]: "api_workflow (s\<lparr>ax_store := w\<rparr>) = api_workflow s"
  by (simp add: api_workflow_def fun_eq_iff)

lemma view_api: "mem_coord.view (ax_coord s) = api_workflow s"
  by (intro ext) (simp add: mem_coord.view_def api_workflow_def, simp add: mem_repo_def)

lemma sure_transition:
  assumes actor: "tq_actor q \<noteq> []"
    and rest: "\<And>s b. api_inv s \<Longrightarrow> P s \<Longrightarrow> api_workflow s (tq_id q) (tq_tenant q) = Some b \<Longrightarrow> request_current q b \<Longrightarrow>
      rests_on (ax_store s) (tq_tenant q, tq_id q) (apply_request q (sp_now st) b)"
    and frame: "\<And>s c w. api_inv s \<Longrightarrow> P s \<Longrightarrow> Q w (s\<lparr>ax_coord := c\<rparr>)"
  shows "sure P (tx_transition x q st) Q"
  unfolding sure_def
proof (intro allI impI)
  fix s r s' assume *: "api_inv s" "P s" "tx_transition x q st s = (r, s')"
  obtain r0 c' where run: "coord_transition mem_repo (Some (mem_led x (\<lambda>_. False))) (\<lambda>_. False) q (sp_now st) (sp_event st)
      (sp_recorded st) (ax_coord s) = (r0, c')" by (metis prod.exhaust)
  have s': "s' = s\<lparr>ax_coord := c'\<rparr>" using *(3) run by (auto simp: tx_transition_def with_coord_def split: sum.splits)
  have sound: "mem_coord.sound (ax_coord s)" using *(1) by (simp add: mem_coord.sound_def api_inv_def)
  from mem_coord.transition_step [OF sound actor run] have
    after: "mem_coord.sound c'" "mem_coord.transition_outcome x (\<lambda>_. False) q (sp_now st) (sp_event st) (sp_recorded st) (ax_coord s) r0 c'"
    by simp_all
  have keep: "rests_on (ax_store s) (t, i) w" if "api_workflow s' i t = Some w" for i t w
  proof (cases "c' = ax_coord s")
    case True
    then show ?thesis using that *(1) by (simp add: s' api_inv_def)
  next
    case False
    then obtain b where b: "api_workflow s (tq_id q) (tq_tenant q) = Some b" "request_current q b"
      "mem_coord.moved (ax_coord s) c' b (apply_request q (sp_now st) b)"
      using after(2) by (auto simp: mem_coord.transition_outcome_def view_api)
    have key: "wf_id b = tq_id q" "wf_tenant b = tq_tenant q"
      using mem_coord.view_key [OF sound] b(1) view_api by metis+
    have "api_workflow s' = mem_coord.view c'" unfolding s' view_api [symmetric] by simp
    then have "api_workflow s' i t = (if i = tq_id q \<and> t = tq_tenant q then Some (apply_request q (sp_now st) b) else api_workflow s i t)"
      using b(3) by (simp add: mem_coord.moved_def key view_api)
    then show ?thesis using that rest [OF *(1,2) b(1,2)] *(1) by (auto simp: api_inv_def split: if_splits)
  qed
  have "api_inv s'" using *(1) keep after(1) by (simp add: api_inv_def s' mem_coord.sound_def)
  then show "api_inv s' \<and> grows (ax_store s) (ax_store s') \<and> (\<forall>a. r = Inr a \<longrightarrow> Q a s')" using frame [OF *(1,2)] s' by simp
qed

text \<open>Store operations keep the store's part of the invariant and only add evidence.\<close>

definition store_kept :: "mem_store \<Rightarrow> mem_store \<Rightarrow> bool" where
  "store_kept s s' \<longleftrightarrow> store_inv s' \<and> grows s s' \<and> ms_postchecks s \<subseteq>\<^sub>m ms_postchecks s' \<and>
     dom (ms_outcomes s) \<subseteq> dom (ms_outcomes s') \<and> sandbox_inv s' \<and>
     (\<forall>k ov. ms_postchecks s' k = Some ov \<longrightarrow> observed s' k ov)"

lemma rests_on_kept: "store_kept s s' \<Longrightarrow> rests_on s k w \<Longrightarrow> rests_on s' k w"
proof -
  assume kept: "store_kept s s'"
  have g: "grows s s'" using kept by (simp add: store_kept_def)
  have "was_approved s k \<Longrightarrow> was_approved s' k" using growsD(3) [OF g] unfolding was_approved_def by blast
  moreover have "was_executed s k \<Longrightarrow> was_executed s' k" using growsD(4,5) [OF g] unfolding was_executed_def by blast
  moreover have "ms_postchecks s k \<noteq> None \<Longrightarrow> ms_postchecks s' k \<noteq> None"
    using kept unfolding store_kept_def map_le_def by (metis domIff)
  moreover have "ms_outcomes s k \<noteq> None \<Longrightarrow> ms_outcomes s' k \<noteq> None" using kept unfolding store_kept_def by blast
  ultimately show "rests_on s k w \<Longrightarrow> rests_on s' k w"
    by (cases "wf_state w") (auto simp: rests_on_def)
qed

lemma sure_store:
  assumes "\<And>s. api_inv s \<Longrightarrow> P s \<Longrightarrow> store_kept (ax_store s) (snd (m (ax_store s)))"
    and "\<And>s a w. api_inv s \<Longrightarrow> P s \<Longrightarrow> m (ax_store s) = (Inr a, w) \<Longrightarrow> Q a (s\<lparr>ax_store := w\<rparr>)"
  shows "sure P (with_store m) Q"
  unfolding sure_def
proof (intro allI impI)
  fix s r s' assume *: "api_inv s" "P s" "with_store m s = (r, s')"
  obtain r0 w where m: "m (ax_store s) = (r0, w)" by (metis prod.exhaust)
  have s': "s' = s\<lparr>ax_store := w\<rparr>" and r: "r = Inr a \<Longrightarrow> r0 = Inr a" for a
    using *(3) m by (auto simp: with_store_def split: sum.splits)
  have kept: "store_kept (ax_store s) w" using assms(1) [OF *(1,2)] m by simp
  have "api_inv s'" using *(1) kept rests_on_kept [OF kept] by (simp add: api_inv_def s' store_kept_def)
  moreover have "grows (ax_store s) (ax_store s')" using kept by (simp add: s' store_kept_def)
  ultimately show "api_inv s' \<and> grows (ax_store s) (ax_store s') \<and> (\<forall>a. r = Inr a \<longrightarrow> Q a s')"
    using assms(2) [OF *(1,2)] m s' r by blast
qed

lemma store_keptI:
  assumes "api_inv s" "store_inv w \<and> grows (ax_store s) w" "ms_sandbox w = ms_sandbox (ax_store s)"
    "ms_postchecks w = ms_postchecks (ax_store s)" "dom (ms_outcomes (ax_store s)) \<subseteq> dom (ms_outcomes w)"
  shows "store_kept (ax_store s) w"
proof -
  have "sandbox_inv w"
    using assms(1,3) permitted_grows [OF assms(2) [THEN conjunct2]] unfolding api_inv_def sandbox_inv_def by simp
  moreover have "observed w k ov" if "ms_postchecks w k = Some ov" for k ov
    using assms(1) that unfolding api_inv_def observed_def assms(3) [symmetric] assms(4) [symmetric] by blast
  ultimately show ?thesis using assms by (simp add: store_kept_def)
qed

text \<open>Each store operation of the routes.\<close>

lemma api_store_inv: "api_inv s \<Longrightarrow> store_inv (ax_store s)"
  by (simp add: api_inv_def)

lemma kept_refl: "api_inv s \<Longrightarrow> store_kept (ax_store s) (ax_store s)"
  by (rule store_keptI) (simp_all add: api_store_inv)

lemma kept_analysis:
  assumes "api_inv s" "ms_analyses (ax_store s) (in_tenant i, an_incident a) = None"
  shows "store_kept (ax_store s) (snd (persist_analysis i a (ax_store s)))"
  by (rule store_keptI [OF assms(1) persist_analysis_effect [OF api_store_inv [OF assms(1)] assms(2)]])
    (simp_all add: persist_analysis_def save_analysis_def split: option.splits)

lemma kept_decide:
  assumes "api_inv s"
  shows "store_kept (ax_store s) (snd (decide_approval i q now (ax_store s)))"
  by (rule store_keptI [OF assms decide_approval_effect [OF api_store_inv [OF assms]]])
    (simp_all add: decide_approval_def record_approval_def split: option.splits)

lemma kept_execution:
  assumes "api_inv s" "attested (ax_store s) x"
  shows "store_kept (ax_store s) (snd (persist_execution x (ax_store s)))"
  by (rule store_keptI [OF assms(1) persist_execution_effect [OF api_store_inv [OF assms(1)] assms(2)]])
    (simp_all add: persist_execution_def record_execution_def split: option.splits)

lemma kept_outcome:
  assumes "api_inv s" "learned (ax_store s) m \<and> mm_state m = MPendingReview"
  shows "store_kept (ax_store s) (snd (persist_outcome m (ax_store s)))"
  by (rule store_keptI [OF assms(1)])
    (use outcome_effect [OF api_store_inv [OF assms(1)] assms(2)] in
      \<open>auto simp: persist_outcome_def save_outcome_memory_def split: option.splits\<close>)

lemma kept_verified:
  assumes "api_inv s" "learned (ax_store s) m \<and> mm_state m = MPendingReview"
  shows "store_kept (ax_store s) (snd (persist_verified_outcome a m (ax_store s)))"
  by (rule store_keptI [OF assms(1) persist_verified_effect [OF api_store_inv [OF assms(1)] assms(2)]])
    (auto simp: persist_verified_outcome_def bind_s_def in_store_def return_s_def record_postcheck_assessment_def
      save_outcome_memory_def split: option.splits prod.splits sum.splits)

lemma kept_govern:
  assumes "api_inv s"
  shows "store_kept (ax_store s) (snd (in_store (govern_memory i q eid now) (ax_store s)))"
  by (rule store_keptI [OF assms])
    (use plain_effect(5) [OF api_store_inv [OF assms]] in
      \<open>auto simp: govern_memory_def Let_def split: option.splits sum.splits\<close>)

lemma kept_sandbox:
  assumes "api_inv s" "permitted (ax_store s) x"
  shows "store_kept (ax_store s) (snd (in_store (record_sandbox_execution x) (ax_store s)))"
proof (cases "ms_sandbox (ax_store s) (sx_tenant x, sx_incident x)")
  case (Some e)
  then show ?thesis using kept_refl [OF assms(1)] by (simp add: record_sandbox_execution_def)
next
  case None
  let ?w = "(ax_store s)\<lparr>ms_sandbox := (ms_sandbox (ax_store s))((sx_tenant x, sx_incident x) \<mapsto> x)\<rparr>"
  have w: "snd (in_store (record_sandbox_execution x) (ax_store s)) = ?w" using None by (simp add: record_sandbox_execution_def)
  have "store_inv ?w" "grows (ax_store s) ?w"
    using plain_effect(2) [OF api_store_inv [OF assms(1)], of x] w by simp_all
  moreover have "sandbox_inv ?w"
    using assms unfolding api_inv_def sandbox_inv_def by simp
  moreover have "observed ?w k ov" if "ms_postchecks (ax_store s) k = Some ov" for k ov
  proof -
    have "observed (ax_store s) k ov" using assms(1) that unfolding api_inv_def by blast
    then show ?thesis using None by (auto simp: observed_def)
  qed
  ultimately show ?thesis unfolding w by (simp add: store_kept_def)
qed

lemma kept_postcheck:
  assumes "api_inv s" "observed (ax_store s) (po_tenant obs, po_incident obs) (obs, v)"
  shows "store_kept (ax_store s) (snd (in_store (record_postcheck (obs, v)) (ax_store s)))"
proof (cases "ms_postchecks (ax_store s) (po_tenant obs, po_incident obs) = None \<and> pv_digest v = po_digest obs")
  case False
  then show ?thesis using kept_refl [OF assms(1)] by (auto simp: record_postcheck_def split: option.splits)
next
  case True
  let ?w = "(ax_store s)\<lparr>ms_postchecks := (ms_postchecks (ax_store s))((po_tenant obs, po_incident obs) \<mapsto> (obs, v))\<rparr>"
  have w: "snd (in_store (record_postcheck (obs, v)) (ax_store s)) = ?w" using True by (simp add: record_postcheck_def)
  have "store_inv ?w" "grows (ax_store s) ?w"
    using plain_effect(3) [OF api_store_inv [OF assms(1)], of "(obs, v)"] w by simp_all
  moreover have "sandbox_inv ?w" using assms(1) unfolding api_inv_def sandbox_inv_def by simp
  moreover have "observed ?w k ov" if "ms_postchecks ?w k = Some ov" for k ov
  proof -
    have "observed (ax_store s) k ov"
      using that assms(2) assms(1) [unfolded api_inv_def, THEN conjunct2, THEN conjunct2, THEN conjunct1]
      by (cases "k = (po_tenant obs, po_incident obs)") (simp_all del: split_paired_All)
    then show ?thesis by simp
  qed
  ultimately show ?thesis unfolding w using True by (auto simp: store_kept_def map_le_def)
qed

section \<open>The transactions\<close>

lemma sure_weaken: "sure P m Q \<Longrightarrow> (\<And>a s. api_inv s \<Longrightarrow> Q a s \<Longrightarrow> Q' a s) \<Longrightarrow> sure P m Q'"
  unfolding sure_def by blast

lemma move_simps [simp]:
  "tq_id (move i t ep ex tg ch ac ro) = i" "tq_tenant (move i t ep ex tg ch ac ro) = t" "tq_epoch (move i t ep ex tg ch ac ro) = ep"
  "tq_expected (move i t ep ex tg ch ac ro) = ex" "tq_target (move i t ep ex tg ch ac ro) = tg"
  "tq_actor (move i t ep ex tg ch ac ro) = ac" "tq_role (move i t ep ex tg ch ac ro) = ro"
  "tq_channel (move i t ep ex tg ch ac ro) = ch" "tq_legacy (move i t ep ex tg ch ac ro) = False"
  by (simp_all add: move_def)

lemma about_simps [simp]:
  "tq_id (about a b c d q) = tq_id q" "tq_tenant (about a b c d q) = tq_tenant q" "tq_epoch (about a b c d q) = tq_epoch q"
  "tq_expected (about a b c d q) = tq_expected q" "tq_target (about a b c d q) = tq_target q"
  "tq_actor (about a b c d q) = tq_actor q" "tq_role (about a b c d q) = tq_role q"
  "tq_channel (about a b c d q) = tq_channel q" "tq_legacy (about a b c d q) = tq_legacy q"
  by (simp_all add: about_def)

lemma legacy_simps [simp]:
  "tq_id (legacy q) = tq_id q" "tq_tenant (legacy q) = tq_tenant q" "tq_epoch (legacy q) = tq_epoch q"
  "tq_expected (legacy q) = tq_expected q" "tq_target (legacy q) = tq_target q"
  "tq_actor (legacy q) = tq_actor q" "tq_role (legacy q) = tq_role q" "tq_channel (legacy q) = tq_channel q"
  by (simp_all add: legacy_def)

text \<open>The workflow a request is current for is in the state it expects, which rests on the store.\<close>

lemma rests_before:
  "api_inv s \<Longrightarrow> api_workflow s i t = Some b \<Longrightarrow> request_current q b \<Longrightarrow> rests_on (ax_store s) (t, i) b \<and> wf_state b = tq_expected q"
  by (simp add: api_inv_def request_current_def current_at_def)

lemma apply_request_fields [simp]:
  "wf_state (apply_request q now b) = tq_target q"
  "tq_role q \<noteq> ''reviewer'' \<Longrightarrow> wf_reviewer (apply_request q now b) = wf_reviewer b"
  by (simp_all add: apply_request_def)

text \<open>What holds of the store holds on: transitions do not change it.\<close>

abbreviation of_store :: "(mem_store \<Rightarrow> bool) \<Rightarrow> api_state \<Rightarrow> bool" where
  "of_store A s \<equiv> A (ax_store s)"

lemma sure_move:
  assumes "actor \<noteq> []" and q: "tq_id q = i" "tq_tenant q = t" "tq_actor q = actor"
    and rest: "\<And>s b. api_inv s \<Longrightarrow> A (ax_store s) \<Longrightarrow> rests_on (ax_store s) (t, i) b \<Longrightarrow> wf_state b = tq_expected q \<Longrightarrow>
      request_current q b \<Longrightarrow> rests_on (ax_store s) (t, i) (apply_request q (sp_now st) b)"
    and frame: "\<And>s w. api_inv s \<Longrightarrow> A (ax_store s) \<Longrightarrow> B w (ax_store s)"
  shows "sure (of_store A) (tx_transition x q st) (\<lambda>w. of_store (B w))"
proof (rule sure_transition)
  show "tq_actor q \<noteq> []" using assms by simp
  show "rests_on (ax_store s) (tq_tenant q, tq_id q) (apply_request q (sp_now st) b)"
    if "api_inv s" "A (ax_store s)" "api_workflow s (tq_id q) (tq_tenant q) = Some b" "request_current q b" for s b
    using rest [OF that(1,2)] rests_before [OF that(1,3,4)] that(4) by (simp add: q)
  show "B w (ax_store (s\<lparr>ax_coord := c\<rparr>))" if "api_inv s" "A (ax_store s)" for s c w
    using frame [OF that] by simp
qed

text \<open>Reads and checks do not change the store either.\<close>

lemma sure_validate: "sure P (tx_validate q) (\<lambda>w. P)"
  unfolding tx_validate_def by (rule sure_read) simp

lemma sure_digest: "sure P (tx_digest r) (\<lambda>d. P)"
  unfolding tx_digest_def by (rule sure_read) simp

lemma sure_of_store:
  assumes "\<And>s. api_inv s \<Longrightarrow> A (ax_store s) \<Longrightarrow> store_kept (ax_store s) (snd (m (ax_store s)))"
    and "\<And>s a w. api_inv s \<Longrightarrow> A (ax_store s) \<Longrightarrow> m (ax_store s) = (Inr a, w) \<Longrightarrow> B a w"
  shows "sure (of_store A) (with_store m) (\<lambda>a. of_store (B a))"
  by (rule sure_store) (use assms in auto)

lemma sure_approve:
  assumes "subject \<noteq> []" "aq_tenant q = t"
  shows "sure (of_store (\<lambda>s. True)) (approve_atomically cfg t subject ep i q st) (\<lambda>w. of_store (\<lambda>s. True))"
  unfolding approve_atomically_def
proof (intro sure_bind)
  let ?B = "\<lambda>recorded s. recorded \<longrightarrow> (\<exists>p. ms_approvals s (t, i) = Some p \<and> ap_approved p = aq_approved q)"
  show "sure (of_store (\<lambda>s. True)) (with_store (decide_approval i q (sp_now st))) (\<lambda>recorded. of_store (?B recorded))"
    by (rule sure_of_store [OF kept_decide])
      (auto simp: decide_approval_def record_approval_def in_store_def get_analysis_def assms(2) split: option.splits if_splits)
  show "sure (of_store (?B recorded)) (check_s recorded (TxLookup ''incident not found or already decided'')) (\<lambda>_. of_store (?B True))"
    for recorded by (rule sure_check) simp
  show "sure (of_store (?B True)) (tx_transition (se_externals cfg)
       (about (if aq_approved q then ''PROPOSAL_APPROVED'' else ''PROPOSAL_REJECTED'') ''proposal'' i (aq_hash q)
         (move i t ep AWAITING_OPERATOR_APPROVAL
           (if aq_approved q then APPROVED_AWAITING_EXECUTION else INVESTIGATING) UI subject ''operator'')) st) (\<lambda>w. of_store (\<lambda>s. True))"
    by (rule sure_move [OF assms(1)]) (auto simp: rests_on_def was_approved_def)
qed (rule sure_validate)

lemma sure_execute_sandbox:
  assumes "subject \<noteq> []" and x: "sx_tenant x = t" "sx_incident x = i" "sx_proposal x = sq_proposal q"
  shows "sure (of_store (\<lambda>s. \<exists>a. ms_analyses s (t, i) = Some a \<and> pa_hash (an_action a) = Some (sq_proposal q) \<and>
      pa_command (an_action a) = sandbox_action_command))
    (execute_sandbox_atomically cfg t subject ep i q x st) (\<lambda>(y, w). of_store (\<lambda>s. ms_sandbox s (t, i) = Some y))"
    (is "sure (of_store ?A) _ _")
  unfolding execute_sandbox_atomically_def
proof (intro sure_bind)
  let ?ap = "\<lambda>p s. ?A s \<and> get_approval s i t = p"
  show "sure (of_store ?A) (tx_read (\<lambda>s. Inr (get_approval (ax_store s) i t))) (\<lambda>p. of_store (?ap p))"
    by (rule sure_read) auto
  show "sure (of_store (?ap p)) (check_s (wf_proposal_hash w = Some (sq_proposal q) \<and>
       (case p of None \<Rightarrow> False | Some p \<Rightarrow> ap_approved p \<and> ap_hash p = sq_proposal q)) TxApprovalUnbound)
     (\<lambda>_. of_store (\<lambda>s. permitted s x))" for p w
    by (rule sure_check) (auto simp: permitted_def x get_approval_def split: option.splits)
  show "sure (of_store (\<lambda>s. permitted s x)) (with_store (in_store (record_sandbox_execution x)))
     (\<lambda>y. of_store (\<lambda>s. ms_sandbox s (t, i) = Some y))"
    by (rule sure_of_store [OF kept_sandbox])
      (auto simp: in_store_def record_sandbox_execution_def x split: option.splits if_splits)
  show "sure (of_store (\<lambda>s. ms_sandbox s (t, i) = Some y)) (tx_digest r) (\<lambda>d. of_store (\<lambda>s. ms_sandbox s (t, i) = Some y))" for y r
    by (rule sure_digest)
  show "sure (of_store (\<lambda>s. ms_sandbox s (t, i) = Some y)) (tx_transition (se_externals cfg)
       (about ''SANDBOX_EXECUTION_APPLIED'' ''execution_binding'' (sx_id y) d
         (move i t ep APPROVED_AWAITING_EXECUTION OBSERVING_POSTCHECK UI subject ''operator'')) st)
     (\<lambda>w. of_store (\<lambda>s. ms_sandbox s (t, i) = Some y))" for y d
    by (rule sure_move [OF assms(1)]) (auto simp: rests_on_def was_executed_def)
  show "sure (of_store (\<lambda>s. ms_sandbox s (t, i) = Some y)) (return_s (y, w)) (\<lambda>(y, w). of_store (\<lambda>s. ms_sandbox s (t, i) = Some y))" for y w
    by (rule sure_return) simp
qed (rule sure_validate)

lemma sure_record_observation:
  assumes "po_tenant obs = t" "po_incident obs = i"
  shows "sure (of_store (\<lambda>s. observed s (t, i) (obs, v)))
    (record_observation_atomically cfg t ep i obs v st) (\<lambda>_. of_store (\<lambda>s. True))"
  unfolding record_observation_atomically_def
proof (intro sure_bind)
  let ?C = "\<lambda>s. ms_sandbox s (t, i) \<noteq> None \<and> ms_postchecks s (t, i) \<noteq> None"
  show "sure (of_store (\<lambda>s. observed s (t, i) (obs, v))) (with_store (in_store (record_postcheck (obs, v)))) (\<lambda>_. of_store ?C)"
    by (rule sure_of_store [OF kept_postcheck])
      (auto simp: assms observed_def in_store_def record_postcheck_def split: option.splits if_splits)
  fix a :: "postcheck_observation \<times> policy_verdict"
  obtain recorded policy where a: "a = (recorded, policy)" by (cases a)
  show "sure (of_store ?C) (case a of (recorded, policy) \<Rightarrow>
     bind_s (tx_digest (policy_verdict_digest (pr_jcs (se_providers cfg)) policy)) (\<lambda>verdict_digest.
     bind_s (tx_digest (content_digest (pr_jcs (se_providers cfg)) ''recallops-observation-binding-v1'' (JObj
         [(''execution'', JStr (po_execution_digest recorded)), (''observation'', JStr (po_digest recorded)),
          (''policy_verdict'', JStr verdict_digest)]))) (\<lambda>digest.
     bind_s (tx_transition (se_externals cfg)
         (about ''VERIFIED_OBSERVATION_RECORDED'' ''observation_binding'' (po_id recorded) digest
           (move i t ep OBSERVING_POSTCHECK POSTCHECK_READY SYSTEM observer ''system'')) st) (\<lambda>w.
     return_s (recorded, policy, w))))) (\<lambda>_. of_store (\<lambda>s. True))"
    unfolding a prod.case
    by (intro sure_bind [OF sure_digest] sure_bind [OF sure_move [where A = ?C and B = "\<lambda>_ s. True"]] sure_return)
      (auto simp: rests_on_def was_executed_def observer_def)
qed (rule sure_validate)

lemma sure_unavailable:
  "sure (of_store (\<lambda>s. True)) (mark_unavailable cfg t ep i st) (\<lambda>w. of_store (\<lambda>s. True))"
  unfolding mark_unavailable_def by (rule sure_move) (auto simp: rests_on_def observer_def)

lemma sure_retry:
  assumes "subject \<noteq> []"
  shows "sure (of_store (\<lambda>s. True)) (start_retry_atomically cfg t subject ep i st) (\<lambda>(x, w). of_store (\<lambda>s. ms_sandbox s (t, i) = Some x))"
  unfolding start_retry_atomically_def
proof (intro sure_bind)
  show "sure (of_store (\<lambda>s. True)) (tx_read (\<lambda>s. case get_sandbox_execution (ax_store s) i t of
         None \<Rightarrow> Inl (TxLookup ''sandbox execution not found'') | Some x \<Rightarrow> Inr x)) (\<lambda>x. of_store (\<lambda>s. ms_sandbox s (t, i) = Some x))"
    by (rule sure_read) (auto simp: get_sandbox_execution_def split: option.splits)
  show "sure (of_store (\<lambda>s. ms_sandbox s (t, i) = Some x)) (tx_transition (se_externals cfg)
         (move i t ep POSTCHECK_UNAVAILABLE OBSERVING_POSTCHECK UI subject ''operator'') st)
     (\<lambda>w. of_store (\<lambda>s. ms_sandbox s (t, i) = Some x))" for x
    by (rule sure_move [OF assms]) (auto simp: rests_on_def)
  show "sure (of_store (\<lambda>s. ms_sandbox s (t, i) = Some x)) (return_s (x, w)) (\<lambda>(x, w). of_store (\<lambda>s. ms_sandbox s (t, i) = Some x))" for x w
    by (rule sure_return) simp
qed (rule sure_validate)

definition learned_now :: "memory \<Rightarrow> string \<Rightarrow> uuid \<Rightarrow> mem_store \<Rightarrow> bool" where
  "learned_now m t i s \<longleftrightarrow> learned s m \<and> mm_state m = MPendingReview \<and> mm_tenant m = t \<and> mm_source_incident m = Some i"

lemma outcome_stored:
  assumes "mm_tenant m = t" "mm_source_incident m = Some i"
  shows "ms_outcomes (snd (save_outcome_memory m s)) (t, i) \<noteq> None"
  using assms by (simp add: save_outcome_memory_def split: option.splits)

lemma persist_verified_run:
  assumes "persist_verified_outcome a m s = (Inr b, w)"
  shows "\<exists>s1. w = snd (save_outcome_memory m s1)"
proof -
  note run = assms [unfolded persist_verified_outcome_def bind_s_Inr_iff return_s_def]
  from run obtain s1 saved where "in_store (save_outcome_memory m) s1 = (Inr saved, w)"
    by (elim exE conjE) auto
  then show ?thesis by (metis snd_in_store snd_conv)
qed

lemma sure_persist_outcome:
  "sure (of_store (learned_now m t i)) (with_store (persist_verified_outcome a m)) (\<lambda>_. of_store (\<lambda>s. ms_outcomes s (t, i) \<noteq> None))"
proof (rule sure_of_store)
  show "store_kept (ax_store s) (snd (persist_verified_outcome a m (ax_store s)))" if "api_inv s" "learned_now m t i (ax_store s)" for s
    using kept_verified [OF that(1)] that(2) by (simp add: learned_now_def)
  show "ms_outcomes w (t, i) \<noteq> None"
    if learned: "learned_now m t i (ax_store s)" and run: "persist_verified_outcome a m (ax_store s) = (Inr b, w)" for s b w
  proof -
    obtain s1 where "w = snd (save_outcome_memory m s1)" using persist_verified_run [OF run] by blast
    then show ?thesis using outcome_stored learned by (simp add: learned_now_def)
  qed
qed

lemma sure_assess:
  assumes "subject \<noteq> []"
  shows "sure (of_store (learned_now m t i)) (assess_atomically cfg t subject ep i a m st) (\<lambda>_. of_store (\<lambda>s. True))"
  unfolding assess_atomically_def
proof (intro sure_bind)
  let ?B = "\<lambda>s. ms_outcomes s (t, i) \<noteq> None"
  show "sure (of_store (learned_now m t i)) (with_store (persist_verified_outcome a m)) (\<lambda>_. of_store ?B)"
    by (rule sure_persist_outcome)
  fix b :: "postcheck_assessment \<times> memory"
  obtain recorded saved where b: "b = (recorded, saved)" by (cases b)
  show "sure (of_store ?B) (case b of (recorded, saved) \<Rightarrow>
     bind_s (tx_transition (se_externals cfg) (move i t ep POSTCHECK_READY PENDING_REVIEW WEBMCP subject ''agent'') st) (\<lambda>w.
     return_s (recorded, saved, w))) (\<lambda>_. of_store (\<lambda>s. True))"
    unfolding b prod.case
    by (intro sure_bind [OF sure_move [OF assms, where A = ?B and B = "\<lambda>_ s. True"]] sure_return)
      (auto simp: rests_on_def)
qed (rule sure_validate)

lemma sure_attest:
  assumes "subject \<noteq> []" "at_tenant x = t" "at_incident x = i"
  shows "sure (of_store (\<lambda>s. attested s x)) (execute_atomically cfg t subject ep i x st) (\<lambda>_. of_store (\<lambda>s. True))"
  unfolding execute_atomically_def
proof (intro sure_bind)
  let ?B = "\<lambda>s. ms_executions s (t, i) \<noteq> None"
  show "sure (of_store (\<lambda>s. attested s x)) (tx_read (\<lambda>s. case api_workflow s i t of
         None \<Rightarrow> Inl (TxLookup ''incident not found'')
       | Some w \<Rightarrow> if wf_state w \<noteq> INVESTIGATING \<and> wf_state w \<noteq> APPROVED_AWAITING_EXECUTION
           then Inl TxStateUnavailable else Inr (wf_state w))) (\<lambda>_. of_store (\<lambda>s. attested s x))"
    by (rule sure_read) simp
  show "sure (of_store (\<lambda>s. attested s x)) (with_store (persist_execution x)) (\<lambda>_. of_store ?B)"
    by (rule sure_of_store [OF kept_execution])
      (auto simp: persist_execution_def in_store_def record_execution_def assms split: option.splits if_splits)
  show "sure (of_store ?B) (tx_transition (se_externals cfg) (legacy (move i t ep current OBSERVING_POSTCHECK UI subject ''operator'')) st)
     (\<lambda>w. of_store (\<lambda>s. True))" for current
    by (rule sure_move [OF assms(1)]) (auto simp: rests_on_def was_executed_def)
  show "sure (of_store (\<lambda>s. True)) (return_s y) (\<lambda>_. of_store (\<lambda>s. True))" for y :: attestation by (rule sure_return) simp
qed (rule sure_validate)

lemma sure_outcome:
  "sure (of_store (learned_now m t i)) (outcome_atomically cfg t ep i m st) (\<lambda>_. of_store (\<lambda>s. True))"
  unfolding outcome_atomically_def
proof (intro sure_bind)
  let ?B = "\<lambda>s. ms_outcomes s (t, i) \<noteq> None"
  show "sure (of_store (learned_now m t i)) (with_store (persist_outcome m)) (\<lambda>_. of_store ?B)"
  proof (rule sure_of_store)
    show "store_kept (ax_store s) (snd (persist_outcome m (ax_store s)))" if "api_inv s" "learned_now m t i (ax_store s)" for s
      using kept_outcome [OF that(1)] that(2) by (simp add: learned_now_def)
    show "?B w" if "learned_now m t i (ax_store s)" "persist_outcome m (ax_store s) = (Inr b, w)" for s b w
    proof -
      have "w = snd (save_outcome_memory m (ax_store s))"
        using that(2) by (metis persist_outcome_def snd_in_store snd_conv)
      then show ?thesis using outcome_stored that(1) by (simp add: learned_now_def)
    qed
  qed
  show "sure (of_store ?B) (tx_transition (se_externals cfg)
         (move i t ep OBSERVING_POSTCHECK PENDING_REVIEW SYSTEM legacy_observer ''system'') st) (\<lambda>w. of_store (\<lambda>s. True))"
    by (rule sure_move) (auto simp: rests_on_def legacy_observer_def)
  show "sure (of_store (\<lambda>s. True)) (return_s y) (\<lambda>_. of_store (\<lambda>s. True))" for y :: memory by (rule sure_return) simp
qed (rule sure_validate)

lemma sure_option: "(c = None \<Longrightarrow> sure P m Q) \<Longrightarrow> (\<And>a. c = Some a \<Longrightarrow> sure P (f a) Q) \<Longrightarrow>
    sure P (case c of None \<Rightarrow> m | Some a \<Rightarrow> f a) Q"
  by (cases c) simp_all

lemma sure_unit: "(\<And>s. api_inv s \<Longrightarrow> P s \<Longrightarrow> Q () s) \<Longrightarrow> sure P (return_s ()) Q"
  by (rule sure_return)

lemma sure_govern:
  assumes "subject \<noteq> []"
  shows "sure (of_store (\<lambda>s. True)) (govern_atomically cfg t subject epoch mid q eid st) (\<lambda>_. of_store (\<lambda>s. True))"
  unfolding govern_atomically_def
proof (rule sure_bind [where Q = "\<lambda>_. of_store (\<lambda>s. True)"], rule sure_read, simp, rule sure_bind [where Q = "\<lambda>_. of_store (\<lambda>s. True)"])
  fix managed :: "uuid option"
  show "sure (of_store (\<lambda>s. True)) (case managed of None \<Rightarrow> return_s ()
       | Some i \<Rightarrow> (case epoch of None \<Rightarrow> raise_s (TxPermission ''X-Workflow-Epoch required'')
           | Some ep \<Rightarrow> bind_s (tx_validate (move i t ep PENDING_REVIEW REVIEWED UI subject ''reviewer'')) (\<lambda>_. return_s ())))
     (\<lambda>_. of_store (\<lambda>s. True))"
    by (intro sure_option sure_unit sure_raise sure_bind [OF sure_validate]) simp_all
  have step: "sure (of_store (\<lambda>s. True)) (tx_transition (se_externals cfg) (move i t ep PENDING_REVIEW REVIEWED UI subject ''reviewer'') st)
      (\<lambda>w. of_store (\<lambda>s. True))" for i ep
    by (rule sure_move [OF assms(1)])
      (use assms in \<open>auto simp: rests_on_def apply_request_def request_current_def current_at_def\<close>)
  show "sure (of_store (\<lambda>s. True)) (bind_s (with_store (in_store (govern_memory mid q eid (sp_now st)))) (\<lambda>governed.
     (case governed of None \<Rightarrow> raise_s (TxLookup ''memory not found'')
      | Some m \<Rightarrow>
        bind_s (case (managed, epoch) of
            (Some i, Some ep) \<Rightarrow> bind_s (tx_transition (se_externals cfg)
              (move i t ep PENDING_REVIEW REVIEWED UI subject ''reviewer'') st) (\<lambda>_. return_s ())
          | _ \<Rightarrow> return_s ()) (\<lambda>_. return_s m)))) (\<lambda>_. of_store (\<lambda>s. True))"
    unfolding prod.case
    by (intro sure_bind [OF sure_of_store [OF kept_govern, where A = "\<lambda>s. True" and B = "\<lambda>_ s. True"]] sure_option sure_raise
        sure_bind [where Q = "\<lambda>_. of_store (\<lambda>s. True)"] step sure_return) simp_all
qed

section \<open>The handlers\<close>

definition ends_well :: "api_state \<Rightarrow> ('e + 'a) \<times> api_state \<Rightarrow> ('a \<Rightarrow> api_state \<Rightarrow> bool) \<Rightarrow> bool" where
  "ends_well s rs Q \<longleftrightarrow> api_inv (snd rs) \<and> grows (ax_store s) (ax_store (snd rs)) \<and> (\<forall>a. fst rs = Inr a \<longrightarrow> Q a (snd rs))"

lemma sureI: "(\<And>s. api_inv s \<Longrightarrow> P s \<Longrightarrow> ends_well s (m s) Q) \<Longrightarrow> sure P m Q"
  unfolding sure_def ends_well_def by (metis fst_conv snd_conv)

lemma ends_error [simp]: "api_inv s \<Longrightarrow> ends_well s (Inl e, s) Q"
  by (simp add: ends_well_def)

lemma ends_run: "sure P m Q \<Longrightarrow> api_inv s \<Longrightarrow> P s \<Longrightarrow> ends_well s (m s) Q"
  unfolding sure_def ends_well_def by (metis prod.collapse)

abbreviation anywhere :: "api_state \<Rightarrow> bool" where
  "anywhere \<equiv> of_store (\<lambda>s. True)"

abbreviation kept_by :: "(api_state, 'e, 'a) sx \<Rightarrow> bool" where
  "kept_by m \<equiv> sure anywhere m (\<lambda>_. anywhere)"

lemma guard_ui_actor:
  "guard_ui cfg r role tenant actor = Inr u \<Longrightarrow> tenant = id_tenant (rx_identity r) \<and> actor = id_subject (rx_identity r)"
  by (auto simp: guard_ui_def bind_r_Inr split: if_splits)

lemma valid_subject: "valid_principal p \<Longrightarrow> id_subject p \<noteq> []"
  by (auto simp: valid_principal_def sized_def ulen_def)

lemma sure_guarded:
  assumes "\<And>u. r = Inr u \<Longrightarrow> sure P (f u) Q"
  shows "sure P (bind_s (lift_api r) f) Q"
  using assms by (cases r) (auto simp: sure_def bind_s_def lift_api_def)

lemma kept_approve: "valid_principal (rx_identity r) \<Longrightarrow> kept_by (approve cfg r i q st)"
  unfolding approve_def
proof (rule sure_guarded, rule sureI)
  fix u s assume valid: "valid_principal (rx_identity r)" and guard: "guard_ui cfg r ''operator'' (aq_tenant q) (aq_actor q) = Inr u"
    and inv: "api_inv s"
  have "kept_by (bind_s (lift_api (presented_epoch r)) (\<lambda>ep. authority_transaction [ByIncident, ByWorkflow, ByLookup]
         (approve_atomically cfg (id_tenant (rx_identity r)) (id_subject (rx_identity r)) ep i q st)))"
    using sure_approve [OF valid_subject [OF valid] guard_ui_actor [OF guard, THEN conjunct1]]
    by (intro sure_guarded sure_transaction)
  from ends_run [OF this inv] inv
  show "ends_well s (if api_workflow s i (id_tenant (rx_identity r)) = None then (Inl (Refused 404 ''incident or workflow not found''), s)
     else bind_s (lift_api (presented_epoch r)) (\<lambda>ep.
       authority_transaction [ByIncident, ByWorkflow, ByLookup]
         (approve_atomically cfg (id_tenant (rx_identity r)) (id_subject (rx_identity r)) ep i q st)) s) (\<lambda>_. anywhere)"
    by simp
qed

lemma sure_apply_begin:
  assumes "valid_principal (rx_identity r)"
  shows "sure anywhere (apply_begin cfg r i q xid st) (\<lambda>(x, w). of_store (\<lambda>s. ms_sandbox s (id_tenant (rx_identity r), i) = Some x))"
  unfolding apply_begin_def
proof (intro sure_guarded sureI)
  fix u ep s assume guard: "guard_ui cfg r ''operator'' (sq_tenant q) (sq_actor q) = Inr u" and inv: "api_inv s"
  let ?t = "id_tenant (rx_identity r)"
  have tx: "ends_well s (authority_transaction [ByIncident, ByGovernance, ByWorkflow]
      (execute_sandbox_atomically cfg ?t (id_subject (rx_identity r)) ep i q x st) s)
      (\<lambda>(x, w). of_store (\<lambda>s. ms_sandbox s (?t, i) = Some x))"
    if "get_analysis (ax_store s) i ?t = Some a" "prepare_execution f i a q xid now = Inr x" for a f now x
  proof -
    have x: "sx_tenant x = ?t" "sx_incident x = i" "sx_proposal x = sq_proposal q" "pa_hash (an_action a) = Some (sq_proposal q)"
      "pa_command (an_action a) = sandbox_action_command"
      using that(2) guard_ui_actor [OF guard] by (auto simp: prepare_execution_def Let_def split: if_splits)
    show ?thesis
      by (rule ends_run [OF sure_transaction [OF sure_execute_sandbox [OF valid_subject [OF assms] x(1-3)]] inv])
        (use that(1) x in \<open>auto simp: get_analysis_def\<close>)
  qed
  show "ends_well s (case get_analysis (ax_store s) i ?t of
        None \<Rightarrow> (Inl (Refused 404 ''incident not found''), s)
      | Some a \<Rightarrow> (case prepare_execution (pr_float (se_providers cfg)) i a q xid (sp_now st) of
          Inl e \<Rightarrow> (Inl (Rejected 409 (TxSandbox e)), s)
        | Inr prepared \<Rightarrow> authority_transaction [ByIncident, ByGovernance, ByWorkflow]
            (execute_sandbox_atomically cfg ?t (id_subject (rx_identity r)) ep i q prepared st) s))
     (\<lambda>(x, w). of_store (\<lambda>s. ms_sandbox s (?t, i) = Some x))"
    using tx inv by (auto split: option.split sum.split)
qed

lemma sure_retry_begin:
  assumes "valid_principal (rx_identity r)"
  shows "sure anywhere (retry_begin cfg r i q st) (\<lambda>(x, w). of_store (\<lambda>s. ms_sandbox s (id_tenant (rx_identity r), i) = Some x))"
  unfolding retry_begin_def by (intro sure_guarded sure_transaction sure_retry valid_subject assms)

lemma sure_observe:
  "sure (of_store (\<lambda>s. ms_sandbox s (t, i) = Some x)) (observe cfg t i (x, w) oid seen_at computed st) (\<lambda>_. anywhere)"
proof (cases "provider_collect (pr_float (se_providers cfg)) (se_observer cfg) x oid seen_at")
  case (Inl e)
  have "sure (of_store (\<lambda>s. ms_sandbox s (t, i) = Some x)) (authority_transaction [ByWorkflow] (mark_unavailable cfg t (wf_epoch w) i st)) (\<lambda>_. anywhere)"
    by (rule sure_transaction, rule sure_pre [OF sure_unavailable]) simp
  then show ?thesis unfolding observe_def prod.case Inl sum.case by (rule sure_bind) (rule sure_raise)
next
  case (Inr obs)
  have obs: "obs = collect (pr_float (se_providers cfg)) x oid seen_at" using Inr by (cases "se_observer cfg") simp_all
  have fields: "po_tenant obs = sx_tenant x" "po_incident obs = sx_incident x" "po_execution obs = sx_id x" "po_proposal obs = sx_proposal x"
    "po_execution_digest obs = sx_digest x"
    by (simp_all add: obs collect_def)
  show ?thesis
  proof (cases "t = sx_tenant x \<and> i = sx_incident x")
    case True
    then have key: "po_tenant obs = t" "po_incident obs = i" by (simp_all add: fields)
    show ?thesis unfolding observe_def prod.case Inr sum.case
      by (rule sure_transaction, rule sure_pre [OF sure_record_observation [OF key]])
        (use True in \<open>auto simp: observed_def fields\<close>)
  next
    case False
    then have "\<not> (api_inv s \<and> ms_sandbox (ax_store s) (t, i) = Some x)" for s
      by (auto simp: api_inv_def sandbox_inv_def)
    then show ?thesis unfolding sure_def by blast
  qed
qed

lemma kept_assess:
  assumes "valid_principal (rx_identity r)"
  shows "kept_by (record_postcheck_assessment_route cfg r i q aid mid st)"
proof -
  let ?t = "id_tenant (rx_identity r)"
  have body: "ends_well s (case prepare_verified_outcome sc pr (ax_store s) i obs v a mid now of
            Inl (Unavailable d) \<Rightarrow> (Inl (Refused 503 (d @ detail)), s)
          | Inl e \<Rightarrow> (Inl (respond [ByIncident] (TxService e)), s)
          | Inr None \<Rightarrow> (Inl (Refused 404 ''incident not found''), s)
          | Inr (Some m) \<Rightarrow> authority_transaction clauses (assess_atomically cfg ?t (id_subject (rx_identity r)) ep i a m st) s)
        (\<lambda>_. anywhere)"
    if inv: "api_inv s" and ob: "po_tenant obs = ?t" for s sc pr obs v a now detail clauses ep
  proof (cases "\<exists>m. prepare_verified_outcome sc pr (ax_store s) i obs v a mid now = Inr (Some m)")
    case True
    then obtain m where m: "prepare_verified_outcome sc pr (ax_store s) i obs v a mid now = Inr (Some m)" ..
    have "mm_tenant m = ?t \<and> mm_source_incident m = Some i"
      using prepare_verified_key [OF api_store_inv [OF inv] m] ob by simp
    then have "learned_now m ?t i (ax_store s)"
      using prepare_verified_learned [OF api_store_inv [OF inv] m] by (simp add: learned_now_def)
    then show ?thesis unfolding m sum.case option.case
      by (intro ends_run [OF sure_transaction [OF sure_assess [OF valid_subject [OF assms]]] inv])
  next
    case False
    then show ?thesis using inv by (auto split: sum.split option.split service_error.split)
  qed
  have "kept_by (assess_recorded cfg r i q aid mid st ep)" for ep
    unfolding assess_recorded_def
  proof (rule sureI)
    fix s assume inv: "api_inv s"
    show "ends_well s (case get_postcheck (ax_store s) i ?t of
        None \<Rightarrow> (Inl (Refused 404 ''postcheck not found''), s)
      | Some (obs, verdict) \<Rightarrow>
        if eq_observation q \<noteq> po_id obs then (Inl (Refused 409 ''stale or mismatched observation''), s)
        else let a = \<lparr>pt_id = aid, pt_observation = po_id obs, pt_incident = i, pt_tenant = ?t,
               pt_agent = id_subject (rx_identity r), pt_class = eq_class q, pt_rationale = eq_rationale q,
               pt_digest = po_digest obs, pt_created = sp_now st\<rparr>
        in if \<not> valid_assessment a then (Inl (Unhandled (TxService RecordInvalid)), s)
        else (case prepare_verified_outcome (se_service cfg) (se_providers cfg) (ax_store s) i obs verdict a mid (sp_now st) of
            Inl (Unavailable d) \<Rightarrow> (Inl (Refused 503 (d @ '' unavailable; assessment and memory were not persisted'')), s)
          | Inl e \<Rightarrow> (Inl (respond [ByIncident] (TxService e)), s)
          | Inr None \<Rightarrow> (Inl (Refused 404 ''incident not found''), s)
          | Inr (Some m) \<Rightarrow> authority_transaction [ByIncident, ByGovernance, ByWorkflow]
              (assess_atomically cfg ?t (id_subject (rx_identity r)) ep i a m st) s)) (\<lambda>_. anywhere)"
    proof (cases "get_postcheck (ax_store s) i ?t")
      case (Some ov)
      obtain obs verdict where ov: "ov = (obs, verdict)" by (cases ov)
      have "observed (ax_store s) (?t, i) (obs, verdict)"
        using inv Some ov unfolding api_inv_def get_postcheck_def by blast
      then have "po_tenant obs = ?t" by (simp add: observed_def)
      from body [OF inv this] inv show ?thesis
        unfolding Some ov option.case prod.case Let_def by simp
    qed (use inv in simp)
  qed
  then show ?thesis
    unfolding record_postcheck_assessment_route_def by (intro sure_guarded)
qed

lemma kept_attest:
  assumes "valid_principal (rx_identity r)"
  shows "kept_by (attest_execution cfg r i q st)"
  unfolding attest_execution_def
proof (intro sure_guarded sureI)
  fix u v ep s assume guard: "guard_ui cfg r ''operator'' (xq_tenant q) (xq_actor q) = Inr v" and inv: "api_inv s"
  let ?t = "id_tenant (rx_identity r)"
  have tx: "ends_well s (authority_transaction clauses (execute_atomically cfg ?t (id_subject (rx_identity r)) ep i x st) s) (\<lambda>_. anywhere)"
    if "prepare_attestation pr (ax_store s) i q now = Inr (Some x)" for pr now x clauses
  proof -
    have "at_tenant x = ?t" "at_incident x = i"
      using that guard_ui_actor [OF guard]
      by (auto simp: prepare_attestation_def Let_def bind_r_Inr split: option.splits if_splits)
    from ends_run [OF sure_transaction [OF sure_attest [OF valid_subject [OF assms] this]] inv]
    show ?thesis using prepare_attestation_attested [OF api_store_inv [OF inv] that] by simp
  qed
  show "ends_well s (case prepare_attestation (se_providers cfg) (ax_store s) i q (sp_now st) of
        Inl (Unavailable d) \<Rightarrow> (Inl (Refused 503 (d @ '' unavailable; execution was not attested'')), s)
      | Inl e \<Rightarrow> (Inl (respond [ByIncident] (TxService e)), s)
      | Inr None \<Rightarrow> (Inl (Refused 404 ''incident not found''), s)
      | Inr (Some x) \<Rightarrow> authority_transaction [ByIncident, ByWorkflow, ByLookup]
          (execute_atomically cfg ?t (id_subject (rx_identity r)) ep i x st) s) (\<lambda>_. anywhere)"
    using tx inv by (auto split: sum.split option.split service_error.split)
qed

lemma sure_if_error:
  assumes "sure P m Q"
  shows "sure P (\<lambda>s. if c s then (Inl e, s) else m s) Q"
  using assms unfolding sure_def by auto

lemma kept_outcome_route:
  assumes "valid_principal (rx_identity r)"
  shows "kept_by (observe_outcome cfg r i ob mid st)"
  unfolding observe_outcome_def
proof (intro sure_guarded sure_if_error sureI)
  fix u v ep s assume guard: "guard_ui cfg r ''operator'' (oo_tenant ob) (oo_actor ob) = Inr v" and inv: "api_inv s"
  let ?t = "id_tenant (rx_identity r)"
  have tx: "ends_well s (authority_transaction clauses (outcome_atomically cfg ?t ep i m st) s) (\<lambda>_. anywhere)"
    if "prepare_outcome sc pr (ax_store s) i ob mid now = Inr (Some m)" for sc pr now m clauses
  proof -
    have "learned_now m ?t i (ax_store s)"
      using prepare_outcome_learned [OF api_store_inv [OF inv] that] prepare_outcome_key [OF api_store_inv [OF inv] that]
        guard_ui_actor [OF guard] by (simp add: learned_now_def)
    then show ?thesis by (intro ends_run [OF sure_transaction [OF sure_outcome] inv])
  qed
  show "ends_well s (case prepare_outcome (se_service cfg) (se_providers cfg) (ax_store s) i ob mid (sp_now st) of
        Inl (Unavailable d) \<Rightarrow> (Inl (Refused 503 (d @ '' unavailable; outcome was not persisted'')), s)
      | Inl e \<Rightarrow> (Inl (respond [ByIncident] (TxService e)), s)
      | Inr None \<Rightarrow> (Inl (Refused 404 ''incident not found''), s)
      | Inr (Some m) \<Rightarrow> authority_transaction [ByIncident, ByWorkflow, ByLookup]
          (outcome_atomically cfg ?t ep i m st) s) (\<lambda>_. anywhere)"
    using tx inv by (auto split: sum.split option.split service_error.split)
qed

lemma kept_govern_route: "valid_principal (rx_identity r) \<Longrightarrow> kept_by (govern_memory_route cfg r mid q eid st)"
  unfolding govern_memory_route_def by (intro sure_guarded sure_transaction sure_govern valid_subject)

lemma kept_invalidate:
  "kept_by (with_coord (coord_invalidate mem_repo (Some (mem_led x fault)) hook i t ep ch role actor now eid recorded))"
  unfolding sure_def
proof (intro allI impI)
  fix s s' and r :: "tx_error + workflow_snapshot"
  assume inv: "api_inv s"
    and run: "with_coord (coord_invalidate mem_repo (Some (mem_led x fault)) hook i t ep ch role actor now eid recorded) s = (r, s')"
  obtain r0 c' where c: "coord_invalidate mem_repo (Some (mem_led x fault)) hook i t ep ch role actor now eid recorded (ax_coord s) = (r0, c')"
    by (metis prod.exhaust)
  have s': "s' = s\<lparr>ax_coord := c'\<rparr>" using run c by (auto simp: with_coord_def split: sum.splits)
  have sound: "mem_coord.sound (ax_coord s)" using inv by (simp add: mem_coord.sound_def api_inv_def)
  from mem_coord.invalidate_step [OF sound c] have
    after: "mem_coord.sound c'" "mem_coord.invalidate_outcome x fault i t ep ch role actor now eid recorded (ax_coord s) r0 c'" by simp_all
  have "rests_on (ax_store s) (u, j) w" if w: "api_workflow s' j u = Some w" for j u w
  proof (cases "c' = ax_coord s")
    case True
    then show ?thesis using w inv by (simp add: s' api_inv_def)
  next
    case False
    then obtain b where b: "api_workflow s i t = Some b" "mem_coord.moved (ax_coord s) c' b (close_snapshot now b)"
      using after(2) by (auto simp: mem_coord.invalidate_outcome_def view_api)
    have key: "wf_id b = i" "wf_tenant b = t" using mem_coord.view_key [OF sound] b(1) view_api by metis+
    have "api_workflow s' = mem_coord.view c'" unfolding s' view_api [symmetric] by simp
    then have "api_workflow s' j u = (if j = i \<and> u = t then Some (close_snapshot now b) else api_workflow s j u)"
      using b(2) by (simp add: mem_coord.moved_def key view_api)
    moreover have "rests_on (ax_store s) (t, i) (close_snapshot now b) = rests_on (ax_store s) (t, i) b"
      by (simp only: rests_on_def close_snapshot_fields)
    ultimately show ?thesis using w b(1) inv by (auto simp: api_inv_def split: if_splits)
  qed
  then have "api_inv s'" using inv after(1) by (simp add: api_inv_def s' mem_coord.sound_def)
  then show "api_inv s' \<and> grows (ax_store s) (ax_store s') \<and> (\<forall>a. r = Inr a \<longrightarrow> True)" by (simp add: s')
qed

lemma kept_reset: "kept_by (reset_workflow cfg r i ep st)"
  unfolding reset_workflow_def
proof (intro sure_guarded)
  fix ch
  show "kept_by (if ch \<noteq> UI then raise_s (Refused 403 ''reset is not authorized through WebMCP'')
     else authority_transaction [ByWorkflow] (with_coord (coord_invalidate mem_repo (Some (mem_led (se_externals cfg) (\<lambda>_. False)))
       (\<lambda>_. False) i (id_tenant (rx_identity r)) ep ch ''operator'' (id_subject (rx_identity r))
       (sp_now st) (sp_event st) (sp_recorded st))))"
    using sure_transaction [OF kept_invalidate] sure_raise by (cases "ch = UI") auto
qed

lemma kept_ensure:
  "kept_by (with_coord (\<lambda>c. case ensure_for_analysis mem_repo t i h mutating now c of
         (Inl e, c') \<Rightarrow> (Inl (CoordWorkflow e), c') | (Inr w, c') \<Rightarrow> (Inr w, c')))"
  unfolding sure_def
proof (intro allI impI)
  fix s s' and r :: "tx_error + workflow_snapshot"
  assume inv: "api_inv s" and run: "with_coord (\<lambda>c. case ensure_for_analysis mem_repo t i h mutating now c of
         (Inl e, c') \<Rightarrow> (Inl (CoordWorkflow e), c') | (Inr w, c') \<Rightarrow> (Inr w, c')) s = (r, s')"
  obtain r0 c' where c: "ensure_for_analysis mem_repo t i h mutating now (ax_coord s) = (r0, c')" by (metis prod.exhaust)
  have s': "s' = s\<lparr>ax_coord := c'\<rparr>" using run c by (auto simp: with_coord_def split: sum.splits)
  have sound: "mem_coord.sound (ax_coord s)" using inv by (simp add: mem_coord.sound_def api_inv_def)
  obtain w where w: "mem_coord.sound c'" "wf_state w \<in> {INVESTIGATING, AWAITING_OPERATOR_APPROVAL}"
    "\<And>j u. api_workflow s' j u = (if j = i \<and> u = t \<and> api_workflow s i t = None then Some w else api_workflow s j u)"
  proof -
    have v: "mem_coord.view (ax_coord s) = api_workflow s" "mem_coord.view c' = api_workflow s'"
      using view_api [of s] view_api [of s'] by (simp_all add: s')
    show thesis using mem_coord.ensure_step [OF sound c] that unfolding v by blast
  qed
  have "rests_on (ax_store s) (u, j) v" if "api_workflow s' j u = Some v" for j u v
    using that inv w(2) by (auto simp: w(3) api_inv_def rests_on_def split: if_splits)
  then have "api_inv s'" using inv w(1) by (simp add: api_inv_def s' mem_coord.sound_def)
  then show "api_inv s' \<and> grows (ax_store s) (ax_store s') \<and> (\<forall>a. r = Inr a \<longrightarrow> True)" by (simp add: s')
qed

lemma sure_analyze:
  "sure (of_store (\<lambda>s. ms_analyses s (in_tenant i, aid) = None)) (analyze cfg r i aid now) (\<lambda>_. anywhere)"
proof -
  have persist: "sure (of_store (\<lambda>s. ms_analyses s (in_tenant i, aid) = None)) (persist_proposal i t a now) (\<lambda>_. anywhere)"
    if "an_incident a = aid" for t a
    unfolding persist_proposal_def
    by (intro sure_bind [OF sure_of_store [where B = "\<lambda>_ s. True"]] sure_bind [OF kept_ensure] sure_return kept_analysis)
      (simp_all add: that)
  show ?thesis
  proof (rule sureI)
    fix s assume inv: "api_inv s" and new: "ms_analyses (ax_store s) (in_tenant i, aid) = None"
    have tx: "ends_well s (authority_transaction [] (persist_proposal i t a now) s) (\<lambda>_. anywhere)"
      if "prepare_analysis c p (ax_store s) i aid now = Inr a" for c p a t
      using ends_run [OF sure_transaction [OF persist] inv] new prepare_analysis_Inr [OF that] by metis
    show "ends_well s (analyze cfg r i aid now s) (\<lambda>_. anywhere)"
      using tx inv by (auto simp: analyze_def bind_s_def lift_api_def raise_s_def split: sum.split prod.split)
  qed
qed

section \<open>The invariant of a run\<close>

definition run_inv_api :: "api_run \<Rightarrow> bool" where
  "run_inv_api r \<longleftrightarrow> api_inv (zr_state r) \<and>
     list_all (\<lambda>(t, i, x, w). ms_sandbox (ax_store (zr_state r)) (t, i) = Some x) (zr_begun r)"

lemma acting_keeps:
  assumes "run_inv_api r" "sure P m (\<lambda>_. anywhere)" "P (zr_state r)"
  shows "run_inv_api (acting m r)"
proof -
  have inv: "api_inv (zr_state r)" using assms(1) by (simp add: run_inv_api_def)
  have "ends_well (zr_state r) (m (zr_state r)) (\<lambda>_. anywhere)" by (rule ends_run [OF assms(2) inv assms(3)])
  then have "api_inv (snd (m (zr_state r)))" "grows (ax_store (zr_state r)) (ax_store (snd (m (zr_state r))))"
    by (simp_all add: ends_well_def)
  then show ?thesis using assms(1) growsD(5) by (auto simp: run_inv_api_def acting_def list_all_iff)
qed

lemma beginning_keeps:
  assumes "run_inv_api r"
    and "sure anywhere m (\<lambda>(x, w). of_store (\<lambda>s. ms_sandbox s (id_tenant (rx_identity q), i) = Some x))"
  shows "run_inv_api (beginning q i m r)"
proof -
  have inv: "api_inv (zr_state r)" using assms(1) by (simp add: run_inv_api_def)
  obtain res s where run: "m (zr_state r) = (res, s)" by (metis prod.exhaust)
  have end_s: "api_inv s" "grows (ax_store (zr_state r)) (ax_store s)"
    "\<And>x w. res = Inr (x, w) \<Longrightarrow> ms_sandbox (ax_store s) (id_tenant (rx_identity q), i) = Some x"
    using ends_run [OF assms(2) inv TrueI] by (auto simp: ends_well_def run)
  show ?thesis
    using assms(1) end_s growsD(5) [OF end_s(2)]
    by (auto simp: run_inv_api_def beginning_def run list_all_iff split: sum.splits)
qed

lemma api_step_keeps:
  assumes "run_inv_api r"
  shows "run_inv_api (api_step cfg op r)"
proof -
  have valid: "run_inv_api (serve cfg op r)" if "\<And>q. request_of op = Some q \<Longrightarrow> valid_principal (rx_identity q)"
  proof (cases op)
    case (Analyze q i aid now)
    show ?thesis
      using acting_keeps [OF assms sure_analyze] assms by (simp add: Analyze)
  next
    case (Observe b oid t1 t2 st)
    obtain t i x w where b: "b = (t, i, x, w)" by (metis prod_cases4)
    show ?thesis
    proof (cases "b \<in> set (zr_begun r)")
      case True
      then have "ms_sandbox (ax_store (zr_state r)) (t, i) = Some x" using assms by (auto simp: run_inv_api_def list_all_iff b)
      with acting_keeps [OF assms sure_observe, of t i x] True show ?thesis by (simp add: Observe b)
    qed (use assms in \<open>simp add: Observe b\<close>)
  qed (use that acting_keeps [OF assms kept_approve] acting_keeps [OF assms kept_assess] acting_keeps [OF assms kept_attest]
        acting_keeps [OF assms kept_outcome_route] acting_keeps [OF assms kept_govern_route] acting_keeps [OF assms kept_reset]
        beginning_keeps [OF assms sure_apply_begin] beginning_keeps [OF assms sure_retry_begin] in simp_all)
  show ?thesis using valid assms by (cases "request_of op") (auto simp: api_step_def)
qed

lemma run_inv_new: "run_inv_api (new_api fixtures ledger)"
proof -
  have "store_inv (new_store (map fixture fixtures))" by (auto simp: store_inv_def new_store_def fixture_def)
  then show ?thesis
    by (simp add: run_inv_api_def new_api_def api_inv_def sandbox_inv_def new_store_def mem_keyed_def api_workflow_def mem_get_def)
qed

lemma run_inv_fold: "run_inv_api r \<Longrightarrow> run_inv_api (fold (api_step cfg) ops r)"
  by (induction ops arbitrary: r) (simp_all add: api_step_keeps)

text \<open>
  C2. Evidence before state. In every run of the incident routes, with any interleaving of the requests, the
  post-checks and their failures: a sandbox execution is recorded only for the analysed and allow-listed proposal,
  approved under its hash; a post-check is bound to that execution and carries the policy's own verdict on it;
  and the state a workflow shows rests on the store: approved only with the approval, observing only what was
  executed, ready only with a post-check, in review only with a learned outcome, and reviewed only by
  somebody other than the operator who last acted on it.
\<close>

theorem evidence_before_state:
  "let r = fold (api_step cfg) ops (new_api fixtures ledger); s = ax_store (zr_state r); k = (t, i) in
   (case ms_sandbox s k of None \<Rightarrow> True
    | Some x \<Rightarrow> \<exists>a p. ms_analyses s k = Some a \<and> pa_hash (an_action a) = Some (sx_proposal x) \<and>
        pa_command (an_action a) = sandbox_action_command \<and> ms_approvals s k = Some p \<and> ap_approved p \<and> ap_hash p = sx_proposal x) \<and>
   (case ms_postchecks s k of None \<Rightarrow> True
    | Some (obs, v) \<Rightarrow> \<exists>x at_time. ms_sandbox s k = Some x \<and> po_execution obs = sx_id x \<and> po_proposal obs = sx_proposal x \<and>
        po_execution_digest obs = sx_digest x \<and> v = evaluate_observation obs at_time) \<and>
   (case api_workflow (zr_state r) i t of None \<Rightarrow> True
    | Some w \<Rightarrow> (case wf_state w of
        INVESTIGATING \<Rightarrow> True
      | AWAITING_OPERATOR_APPROVAL \<Rightarrow> True
      | APPROVED_AWAITING_EXECUTION \<Rightarrow> (\<exists>p. ms_approvals s k = Some p \<and> ap_approved p)
      | OBSERVING_POSTCHECK \<Rightarrow> k \<in> dom (ms_sandbox s) \<union> dom (ms_executions s)
      | POSTCHECK_UNAVAILABLE \<Rightarrow> k \<in> dom (ms_sandbox s) \<union> dom (ms_executions s)
      | POSTCHECK_READY \<Rightarrow> (k \<in> dom (ms_sandbox s) \<union> dom (ms_executions s)) \<and> ms_postchecks s k \<noteq> None
      | PENDING_REVIEW \<Rightarrow> (k \<in> dom (ms_sandbox s) \<union> dom (ms_executions s)) \<and> ms_outcomes s k \<noteq> None
      | REVIEWED \<Rightarrow> (k \<in> dom (ms_sandbox s) \<union> dom (ms_executions s)) \<and> ms_outcomes s k \<noteq> None \<and>
          wf_reviewer w \<noteq> None \<and> wf_reviewer w \<noteq> wf_operator w))"
proof -
  define r where "r = fold (api_step cfg) ops (new_api fixtures ledger)"
  have inv: "api_inv (zr_state r)" using run_inv_fold [OF run_inv_new] by (simp add: r_def run_inv_api_def)
  have one: "permitted (ax_store (zr_state r)) x \<and> (t, i) = (sx_tenant x, sx_incident x)"
    if "ms_sandbox (ax_store (zr_state r)) (t, i) = Some x" for x
    using inv that unfolding api_inv_def sandbox_inv_def by blast
  have two: "observed (ax_store (zr_state r)) (t, i) ov" if "ms_postchecks (ax_store (zr_state r)) (t, i) = Some ov" for ov
    using inv that unfolding api_inv_def by blast
  have three: "rests_on (ax_store (zr_state r)) (t, i) w" if "api_workflow (zr_state r) i t = Some w" for w
    using inv that unfolding api_inv_def by blast
  show ?thesis
    unfolding r_def [symmetric] Let_def
  proof (intro conjI)
    show "case ms_sandbox (ax_store (zr_state r)) (t, i) of None \<Rightarrow> True
    | Some x \<Rightarrow> \<exists>a p. ms_analyses (ax_store (zr_state r)) (t, i) = Some a \<and> pa_hash (an_action a) = Some (sx_proposal x) \<and>
        pa_command (an_action a) = sandbox_action_command \<and> ms_approvals (ax_store (zr_state r)) (t, i) = Some p \<and>
        ap_approved p \<and> ap_hash p = sx_proposal x"
      using one by (auto simp: permitted_def split: option.split)
    show "case ms_postchecks (ax_store (zr_state r)) (t, i) of None \<Rightarrow> True
    | Some (obs, v) \<Rightarrow> \<exists>x at_time. ms_sandbox (ax_store (zr_state r)) (t, i) = Some x \<and> po_execution obs = sx_id x \<and>
        po_proposal obs = sx_proposal x \<and> po_execution_digest obs = sx_digest x \<and> v = evaluate_observation obs at_time"
      using two by (auto simp: observed_def split: option.split)
  qed (use three in \<open>auto simp: rests_on_def was_approved_def was_executed_def split: option.split workflow_state.split\<close>)
qed

text \<open>A run that gets to a verified observation: analysis, approval, execution, post-check.\<close>

definition at_state :: "mem_store \<Rightarrow> workflow_snapshot \<Rightarrow> api_state" where
  "at_state st b = \<lparr>ax_store = st, ax_coord = \<lparr>co_workflows = Map.empty((wf_tenant b, wf_id b) \<mapsto> b), co_ledger = mem_ledger_empty\<rparr>\<rparr>"

lemma at_state_simps [simp]:
  "ax_store (at_state st b) = st" "api_workflow (at_state st b) (wf_id b) (wf_tenant b) = Some b"
  "(at_state st b)\<lparr>ax_store := st'\<rparr> = at_state st' b"
  by (simp_all add: at_state_def api_workflow_def mem_get_def)

lemma tx_validate_at:
  assumes "request_current q b" "tq_id q = wf_id b" "tq_tenant q = wf_tenant b"
  shows "tx_validate q (at_state st b) = (Inr b, at_state st b)"
proof -
  have "validate_transition mem_repo q (co_workflows (ax_coord (at_state st b))) = Inr b"
    unfolding validate_transition_iff using assms by (simp add: at_state_def) (simp add: mem_repo_def mem_get_def)
  then show ?thesis by (simp add: tx_validate_def tx_read_def)
qed

lemma tx_transition_at:
  assumes "request_current q b" "tq_id q = wf_id b" "tq_tenant q = wf_tenant b"
  shows "tx_transition x q stp (at_state st b) = (Inr (apply_request q (sp_now stp) b), at_state st (apply_request q (sp_now stp) b))"
proof -
  have val: "validate_transition mem_repo q (Map.empty((wf_tenant b, wf_id b) \<mapsto> b)) = Inr b"
    unfolding validate_transition_iff using assms by (simp add: mem_repo_def mem_get_def)
  have cur: "wf_active b" "wf_epoch b = tq_epoch q" "wf_state b = tq_expected q"
    using assms(1) by (simp_all add: request_current_def current_at_def)
  have "mem_transition (wf_id b) (wf_tenant b) (tq_epoch q) (tq_expected q) (tq_target q)
       (if tq_role q = ''operator'' then Some (tq_actor q) else None)
       (if tq_role q = ''reviewer'' then Some (tq_actor q) else None) (sp_now stp) (Map.empty((wf_tenant b, wf_id b) \<mapsto> b)) =
     (Inr (apply_request q (sp_now stp) b), Map.empty((wf_tenant b, wf_id b) \<mapsto> apply_request q (sp_now stp) b))"
    using cur by (simp add: mem_transition_def apply_request_def advance_def Let_def)
  then show ?thesis
    using val assms
    by (simp add: tx_transition_def with_coord_def at_state_def coord_transition_def mem_repo_def mem_get_def commit_event_def
        mem_led_def mem_append_def mem_ledger_empty_def) (simp add: apply_request_def)
qed

definition demo_memory :: memory where
  "demo_memory = fixture (sample_memory\<lparr>mm_action := sandbox_action_command\<rparr>)"

definition demo_settings :: api_settings where
  "demo_settings = \<lparr>se_judge = False, se_origin = ''https://recallops'', se_service = sample_config, se_providers = sample_providers,
     se_externals = \<lparr>x_jcs = \<lambda>_. ''{}'', x_iso = \<lambda>_. []\<rparr>, se_observer = DeterministicProvider\<rparr>"

definition demo_request :: "int option \<Rightarrow> api_request" where
  "demo_request ep = \<lparr>rx_identity = bare_principal ''op-1'' ''acme'' {''operator''}, rx_epoch = ep, rx_channel = None,
     rx_origin = None, rx_csrf = None\<rparr>"

definition demo_hash :: string where
  "demo_hash = action_hash sandbox_action_command"

definition demo_ops :: "sandbox_execution \<times> workflow_snapshot \<Rightarrow> api_op list" where
  "demo_ops begun = [Analyze (demo_request None) sample_incident ''i7'' 0,
     Approve (demo_request (Some 1)) ''i7'' \<lparr>aq_tenant = ''acme'', aq_approved = True, aq_actor = ''op-1'', aq_hash = demo_hash, aq_reason = ''ok''\<rparr>
       \<lparr>sp_now = 1, sp_event = ''e1'', sp_recorded = 1\<rparr>,
     ApplyBegin (demo_request (Some 2)) ''i7'' \<lparr>sq_tenant = ''acme'', sq_actor = ''op-1'', sq_proposal = demo_hash, sq_key = ''key-0001''\<rparr> ''x1''
       \<lparr>sp_now = 2, sp_event = ''e2'', sp_recorded = 2\<rparr>,
     Observe (''acme'', ''i7'', begun) ''o1'' 3 4 \<lparr>sp_now = 5, sp_event = ''e3'', sp_recorded = 5\<rparr>]"

lemma demo_best: "\<exists>r. retrieve sample_config sample_providers (new_store [demo_memory]) sample_incident 0 = Inr [r] \<and>
    best_of sample_config [r] = Some r \<and> mm_action (rm_memory r) = sandbox_action_command"
proof -
  let ?r = "rank_memory demo_memory 1 ''1.2.0'' 0"
  have emb: "mm_embedding demo_memory = [1, 0]" by (simp add: demo_memory_def fixture_def sample_memory_def)
  have "cosine_similarity (mm_embedding demo_memory) [1, 0] = Inr 1"
    by (simp add: emb cosine_similarity_def norm_l_def dot_def)
  then have ret: "retrieve sample_config sample_providers (new_store [demo_memory]) sample_incident 0 = Inr [?r]"
    by (simp add: retrieve_def sample_providers_def find_memories_def new_store_def find_in_def sample_config_def
        py_prefix_def sorted_desc_def retrievable_def bind_r_Inr)
      (simp add: demo_memory_def fixture_def sample_memory_def sample_incident_def)
  have f: "freshness (age_days 0 demo_memory) = 1" by (simp add: freshness_def age_days_def demo_memory_def fixture_def sample_memory_def)
  have pos: "positive ?r" by (simp add: positive_def) (simp add: demo_memory_def fixture_def sample_memory_def)
  have "threshold_reasons sample_config ?r = []"
    unfolding threshold_reasons_Nil rank_memory_def f Let_def
    by (simp add: sample_config_def demo_memory_def fixture_def sample_memory_def version_compatibility_def memory_rank_score_def)
  then have "best_of sample_config [?r] = Some ?r"
    using pos by (simp add: best_of_def best_index_def retrieval_abstention_def abstention_reasons_def top_candidates_conflict_def)
  moreover have "mm_action (rm_memory ?r) = sandbox_action_command"
    by (simp add: rank_memory_def Let_def) (simp add: demo_memory_def fixture_def)
  ultimately show ?thesis using ret by blast
qed

abbreviation demo_workflow :: "workflow_state \<Rightarrow> int \<Rightarrow> string option \<Rightarrow> time \<Rightarrow> workflow_snapshot" where
  "demo_workflow st ep op now \<equiv> \<lparr>wf_id = ''i7'', wf_tenant = ''acme'', wf_state = st, wf_epoch = ep, wf_active = True,
     wf_proposal_hash = Some demo_hash, wf_operator = op, wf_reviewer = None, wf_created = 0, wf_updated = now\<rparr>"

lemma demo_settings_simps [simp]:
  "se_judge demo_settings = False" "se_service demo_settings = sample_config" "se_providers demo_settings = sample_providers"
  "se_observer demo_settings = DeterministicProvider" "pr_jcs sample_providers = (\<lambda>_. ''{}'')"
  by (simp_all add: demo_settings_def sample_providers_def)

lemma demo_request_simps [simp]:
  "id_tenant (rx_identity (demo_request ep)) = ''acme''" "id_subject (rx_identity (demo_request ep)) = ''op-1''"
  "rx_epoch (demo_request ep) = ep" "channel_of (rx_channel (demo_request ep)) = Inr UI"
  "valid_principal (rx_identity (demo_request ep))" "protected_request demo_settings r = Inr ()"
  "require_role (rx_identity (demo_request ep)) ''operator'' = Inr ()"
  by (simp_all add: demo_request_def bare_principal_def channel_of_def valid_principal_def sized_def ulen_def
      protected_request_def require_role_def require_def check_r_def slug_def slug_char_def)

lemma demo_guard [simp]: "guard_ui demo_settings (demo_request ep) ''operator'' ''acme'' ''op-1'' = Inr ()"
  by (simp add: guard_ui_def check_r_def)

lemma demo_domains:
  "content_digest j ''recallops-execution-binding-v1'' v = Inr (domain_hash j ''recallops-execution-binding-v1'' v)"
  "content_digest j ''recallops-observation-binding-v1'' v = Inr (domain_hash j ''recallops-observation-binding-v1'' v)"
  "content_digest j ''recallops-verdict-v1'' v = Inr (domain_hash j ''recallops-verdict-v1'' v)"
proof -
  have nul: "nul = CHR 0x00" by (simp add: nul_def char_of_def)
  show "content_digest j ''recallops-execution-binding-v1'' v = Inr (domain_hash j ''recallops-execution-binding-v1'' v)"
    "content_digest j ''recallops-observation-binding-v1'' v = Inr (domain_hash j ''recallops-observation-binding-v1'' v)"
    "content_digest j ''recallops-verdict-v1'' v = Inr (domain_hash j ''recallops-verdict-v1'' v)"
    by (simp_all add: content_digest_def ascii_char_def nul)
qed

lemma demo_analyzed:
  obtains a st where "pa_command (an_action a) = sandbox_action_command" "pa_requires_approval (an_action a)"
    "pa_hash (an_action a) = Some demo_hash"
    "st = snd (save_analysis sample_incident a (new_store [demo_memory]))" "an_incident a = ''i7''"
    "api_step demo_settings (Analyze (demo_request None) sample_incident ''i7'' 0)
       (new_api [sample_memory\<lparr>mm_action := sandbox_action_command\<rparr>] mem_ledger_empty) =
     \<lparr>zr_state = at_state st (demo_workflow AWAITING_OPERATOR_APPROVAL 1 None 0), zr_begun = []\<rparr>"
proof -
  obtain r where r: "retrieve sample_config sample_providers (new_store [demo_memory]) sample_incident 0 = Inr [r]"
    "best_of sample_config [r] = Some r" "mm_action (rm_memory r) = sandbox_action_command" using demo_best by blast
  have pr: "pr_embed sample_providers x = Inr [1, 0]" "pr_tools sample_providers = None"
    "pr_diagnosis sample_providers i e = Inr ''diagnosed''" for x i e
    by (simp_all add: sample_providers_def)
  obtain a where a: "prepare_analysis sample_config sample_providers (new_store [demo_memory]) sample_incident ''i7'' 0 = Inr a"
    "an_action a = propose sample_incident (best_of sample_config [r])"
    by (rule sample_prepared [OF pr r(1)])
  note act = a(2) [unfolded r(2)]
  have inc: "in_tenant sample_incident = ''acme''" by (simp add: sample_incident_def)
  have id: "an_incident a = ''i7''" using prepare_analysis_Inr [OF a(1)] by simp
  have act_simps: "pa_command (an_action a) = sandbox_action_command" "pa_requires_approval (an_action a)" "pa_hash (an_action a) = Some demo_hash"
    by (simp_all add: act propose_def r(3) demo_hash_def)
  define st where "st = snd (save_analysis sample_incident a (new_store [demo_memory]))"
  have saved: "save_analysis sample_incident a (new_store [demo_memory]) = (Inr a, st)"
    by (simp add: st_def save_analysis_def new_store_def)
  have new: "new_api [sample_memory\<lparr>mm_action := sandbox_action_command\<rparr>] mem_ledger_empty =
      \<lparr>zr_state = \<lparr>ax_store = new_store [demo_memory], ax_coord = \<lparr>co_workflows = Map.empty, co_ledger = mem_ledger_empty\<rparr>\<rparr>, zr_begun = []\<rparr>"
    by (simp add: new_api_def demo_memory_def)
  have pers: "persist_proposal sample_incident ''acme'' a 0 (zr_state (new_api [sample_memory\<lparr>mm_action := sandbox_action_command\<rparr>] mem_ledger_empty)) =
      (Inr a, at_state st (demo_workflow AWAITING_OPERATOR_APPROVAL 1 None 0))"
    by (simp add: new persist_proposal_def bind_s_def return_s_def with_store_def with_coord_def persist_analysis_def in_store_def saved
        ensure_for_analysis_def mem_repo_def mem_ensure_def at_state_def act_simps id)
  have "api_step demo_settings (Analyze (demo_request None) sample_incident ''i7'' 0)
       (new_api [sample_memory\<lparr>mm_action := sandbox_action_command\<rparr>] mem_ledger_empty) =
     \<lparr>zr_state = at_state st (demo_workflow AWAITING_OPERATOR_APPROVAL 1 None 0), zr_begun = []\<rparr>"
    using pers
    by (simp add: new api_step_def acting_def analyze_def inc lift_api_def bind_s_def authority_transaction_def a(1)) (simp add: new_store_def)
  then show thesis by (rule that [OF act_simps st_def id])
qed

lemma move_fields [simp]:
  "tq_id (move i t ep ex tg ch ac ro) = i" "tq_tenant (move i t ep ex tg ch ac ro) = t" "tq_id (about a b c d q) = tq_id q"
  "tq_tenant (about a b c d q) = tq_tenant q" "request_current (about a b c d q) w = request_current q w"
  "apply_request (about a b c d q) = apply_request q"
  by (simp_all add: move_def about_def request_current_def apply_request_def fun_eq_iff)

lemma demo_approved:
  assumes a: "ms_analyses st (''acme'', ''i7'') = Some a" "pa_requires_approval (an_action a)" "pa_hash (an_action a) = Some demo_hash"
    and new: "ms_approvals st (''acme'', ''i7'') = None"
  shows "snd (approve demo_settings (demo_request (Some 1)) ''i7''
       \<lparr>aq_tenant = ''acme'', aq_approved = True, aq_actor = ''op-1'', aq_hash = demo_hash, aq_reason = ''ok''\<rparr>
       \<lparr>sp_now = 1, sp_event = ''e1'', sp_recorded = 1\<rparr> (at_state st (demo_workflow AWAITING_OPERATOR_APPROVAL 1 None 0))) =
     at_state (st\<lparr>ms_approvals := (ms_approvals st)((''acme'', ''i7'') \<mapsto> \<lparr>ap_incident = ''i7'', ap_tenant = ''acme'',
         ap_actor = ''op-1'', ap_approved = True, ap_hash = demo_hash, ap_reason = ''ok'', ap_created = 1\<rparr>)\<rparr>)
       (demo_workflow APPROVED_AWAITING_EXECUTION 2 (Some ''op-1'') 1)"
proof -
  let ?w = "demo_workflow AWAITING_OPERATOR_APPROVAL 1 None 0"
  have cur: "request_current (move ''i7'' ''acme'' 1 AWAITING_OPERATOR_APPROVAL tg UI ''op-1'' ''operator'') ?w" for tg
    by (simp add: request_current_def current_at_def move_def)
  have got: "api_workflow (at_state st ?w) ''i7'' ''acme'' = Some ?w" using at_state_simps(2) [of st ?w] by simp
  have next_w: "apply_request (move ''i7'' ''acme'' 1 AWAITING_OPERATOR_APPROVAL APPROVED_AWAITING_EXECUTION UI ''op-1'' ''operator'') 1 ?w =
      demo_workflow APPROVED_AWAITING_EXECUTION 2 (Some ''op-1'') 1"
    by (simp add: apply_request_def move_def advance_def)
  show ?thesis
    by (simp add: approve_def bind_s_def lift_api_def got presented_epoch_def authority_transaction_def approve_atomically_def
        tx_validate_at cur tx_transition_at with_store_def decide_approval_def get_analysis_def a in_store_def record_approval_def new
        check_s_def next_w return_s_def)
qed

definition demo_execution :: "sandbox_execution \<Rightarrow> bool" where
  "demo_execution x \<longleftrightarrow> sx_tenant x = ''acme'' \<and> sx_incident x = ''i7'' \<and> sx_proposal x = demo_hash"

lemma demo_applied:
  assumes a: "ms_analyses st (''acme'', ''i7'') = Some a" "pa_command (an_action a) = sandbox_action_command" "pa_hash (an_action a) = Some demo_hash"
    and p: "ms_approvals st (''acme'', ''i7'') = Some p" "ap_approved p" "ap_hash p = demo_hash"
    and new: "ms_sandbox st (''acme'', ''i7'') = None"
  obtains x where "demo_execution x" "apply_begin demo_settings (demo_request (Some 2)) ''i7''
       \<lparr>sq_tenant = ''acme'', sq_actor = ''op-1'', sq_proposal = demo_hash, sq_key = ''key-0001''\<rparr> ''x1''
       \<lparr>sp_now = 2, sp_event = ''e2'', sp_recorded = 2\<rparr> (at_state st (demo_workflow APPROVED_AWAITING_EXECUTION 2 (Some ''op-1'') 1)) =
     (Inr (x, demo_workflow OBSERVING_POSTCHECK 3 (Some ''op-1'') 2),
      at_state (st\<lparr>ms_sandbox := (ms_sandbox st)((''acme'', ''i7'') \<mapsto> x)\<rparr>) (demo_workflow OBSERVING_POSTCHECK 3 (Some ''op-1'') 2))"
proof -
  let ?w = "demo_workflow APPROVED_AWAITING_EXECUTION 2 (Some ''op-1'') 1"
  let ?m = "move ''i7'' ''acme'' 2 APPROVED_AWAITING_EXECUTION OBSERVING_POSTCHECK UI ''op-1'' ''operator''"
  have cur: "request_current ?m ?w" by (simp add: request_current_def current_at_def move_def)
  have next_w: "apply_request ?m 2 ?w = demo_workflow OBSERVING_POSTCHECK 3 (Some ''op-1'') 2"
    by (simp add: apply_request_def move_def advance_def)
  obtain x where x: "prepare_execution (pr_float sample_providers) ''i7'' a
      \<lparr>sq_tenant = ''acme'', sq_actor = ''op-1'', sq_proposal = demo_hash, sq_key = ''key-0001''\<rparr> ''x1'' 2 = Inr x"
    "sx_tenant x = ''acme''" "sx_incident x = ''i7''" "sx_proposal x = demo_hash"
    by (simp add: prepare_execution_def a Let_def)
  show thesis
  proof (rule that)
    show "demo_execution x" by (simp add: demo_execution_def x)
    show "apply_begin demo_settings (demo_request (Some 2)) ''i7''
       \<lparr>sq_tenant = ''acme'', sq_actor = ''op-1'', sq_proposal = demo_hash, sq_key = ''key-0001''\<rparr> ''x1''
       \<lparr>sp_now = 2, sp_event = ''e2'', sp_recorded = 2\<rparr> (at_state st ?w) =
     (Inr (x, demo_workflow OBSERVING_POSTCHECK 3 (Some ''op-1'') 2),
      at_state (st\<lparr>ms_sandbox := (ms_sandbox st)((''acme'', ''i7'') \<mapsto> x)\<rparr>) (demo_workflow OBSERVING_POSTCHECK 3 (Some ''op-1'') 2))"
      by (simp add: apply_begin_def bind_s_def lift_api_def presented_epoch_def get_analysis_def a(1) x authority_transaction_def
          execute_sandbox_atomically_def tx_validate_at cur tx_transition_at with_store_def in_store_def record_sandbox_execution_def new
          check_s_def tx_read_def get_approval_def p tx_digest_def demo_domains next_w return_s_def)
  qed
qed

lemma demo_observed:
  assumes x: "demo_execution x" and new: "ms_postchecks st (''acme'', ''i7'') = None"
  shows "snd (observe demo_settings ''acme'' ''i7'' (x, demo_workflow OBSERVING_POSTCHECK 3 (Some ''op-1'') 2) ''o1'' 3 4
       \<lparr>sp_now = 5, sp_event = ''e3'', sp_recorded = 5\<rparr> (at_state st (demo_workflow OBSERVING_POSTCHECK 3 (Some ''op-1'') 2))) =
     at_state (st\<lparr>ms_postchecks := (ms_postchecks st)((''acme'', ''i7'') \<mapsto> (collect (pr_float sample_providers) x ''o1'' 3,
         evaluate_observation (collect (pr_float sample_providers) x ''o1'' 3) 4))\<rparr>) (demo_workflow POSTCHECK_READY 4 (Some ''op-1'') 5)"
proof -
  let ?w = "demo_workflow OBSERVING_POSTCHECK 3 (Some ''op-1'') 2"
  let ?m = "move ''i7'' ''acme'' 3 OBSERVING_POSTCHECK POSTCHECK_READY SYSTEM observer ''system''"
  have cur: "request_current ?m ?w" by (simp add: request_current_def current_at_def move_def)
  have next_w: "apply_request ?m 5 ?w = demo_workflow POSTCHECK_READY 4 (Some ''op-1'') 5"
    by (simp add: apply_request_def move_def advance_def)
  define obs where "obs = collect (pr_float sample_providers) x ''o1'' 3"
  have obs: "po_tenant obs = ''acme''" "po_incident obs = ''i7''"
    using x by (simp_all add: obs_def collect_def demo_execution_def)
  have bound: "pv_digest (evaluate_observation obs 4) = po_digest obs" by (simp add: evaluate_observation_def Let_def)
  show ?thesis
    unfolding obs_def [symmetric]
    by (simp add: observe_def obs_def [symmetric] authority_transaction_def record_observation_atomically_def bind_s_def return_s_def
        tx_validate_at cur tx_transition_at with_store_def in_store_def record_postcheck_def obs new bound
        tx_read_def tx_digest_def demo_domains policy_verdict_digest_def next_w)
qed

lemma demo_run:
  obtains begun x where "ms_sandbox (ax_store (zr_state (fold (api_step demo_settings) (demo_ops begun)
       (new_api [sample_memory\<lparr>mm_action := sandbox_action_command\<rparr>] mem_ledger_empty)))) (''acme'', ''i7'') = Some x"
    "api_workflow (zr_state (fold (api_step demo_settings) (demo_ops begun)
       (new_api [sample_memory\<lparr>mm_action := sandbox_action_command\<rparr>] mem_ledger_empty))) ''i7'' ''acme'' =
     Some (demo_workflow POSTCHECK_READY 4 (Some ''op-1'') 5)"
proof -
  obtain a st where a: "pa_command (an_action a) = sandbox_action_command" "pa_requires_approval (an_action a)"
    "pa_hash (an_action a) = Some demo_hash" and st: "st = snd (save_analysis sample_incident a (new_store [demo_memory]))" and id: "an_incident a = ''i7''"
    and one: "api_step demo_settings (Analyze (demo_request None) sample_incident ''i7'' 0)
       (new_api [sample_memory\<lparr>mm_action := sandbox_action_command\<rparr>] mem_ledger_empty) =
     \<lparr>zr_state = at_state st (demo_workflow AWAITING_OPERATOR_APPROVAL 1 None 0), zr_begun = []\<rparr>" by (rule demo_analyzed)
  have s: "ms_analyses st (''acme'', ''i7'') = Some a" "ms_approvals st = Map.empty" "ms_sandbox st = Map.empty" "ms_postchecks st = Map.empty"
    unfolding st by (simp_all add: save_analysis_def new_store_def sample_incident_def id)
  define p where "p = \<lparr>ap_incident = ''i7'', ap_tenant = ''acme'', ap_actor = ''op-1'', ap_approved = True, ap_hash = demo_hash,
      ap_reason = ''ok'', ap_created = 1\<rparr>"
  define s2 where "s2 = st\<lparr>ms_approvals := (ms_approvals st)((''acme'', ''i7'') \<mapsto> p)\<rparr>"
  have s2: "ms_analyses s2 (''acme'', ''i7'') = Some a" "ms_approvals s2 (''acme'', ''i7'') = Some p" "ap_approved p" "ap_hash p = demo_hash"
    "ms_sandbox s2 (''acme'', ''i7'') = None" "ms_postchecks s2 (''acme'', ''i7'') = None"
    using s by (simp_all add: s2_def p_def)
  have two: "snd (approve demo_settings (demo_request (Some 1)) ''i7''
       \<lparr>aq_tenant = ''acme'', aq_approved = True, aq_actor = ''op-1'', aq_hash = demo_hash, aq_reason = ''ok''\<rparr>
       \<lparr>sp_now = 1, sp_event = ''e1'', sp_recorded = 1\<rparr> (at_state st (demo_workflow AWAITING_OPERATOR_APPROVAL 1 None 0))) =
     at_state s2 (demo_workflow APPROVED_AWAITING_EXECUTION 2 (Some ''op-1'') 1)"
    unfolding s2_def p_def by (rule demo_approved [OF s(1) a(2,3)]) (simp add: s)
  obtain x where x: "demo_execution x" and three: "apply_begin demo_settings (demo_request (Some 2)) ''i7''
       \<lparr>sq_tenant = ''acme'', sq_actor = ''op-1'', sq_proposal = demo_hash, sq_key = ''key-0001''\<rparr> ''x1''
       \<lparr>sp_now = 2, sp_event = ''e2'', sp_recorded = 2\<rparr> (at_state s2 (demo_workflow APPROVED_AWAITING_EXECUTION 2 (Some ''op-1'') 1)) =
     (Inr (x, demo_workflow OBSERVING_POSTCHECK 3 (Some ''op-1'') 2),
      at_state (s2\<lparr>ms_sandbox := (ms_sandbox s2)((''acme'', ''i7'') \<mapsto> x)\<rparr>) (demo_workflow OBSERVING_POSTCHECK 3 (Some ''op-1'') 2))"
    by (rule demo_applied [OF s2(1) a(1,3) s2(2-5)])
  define s3 where "s3 = s2\<lparr>ms_sandbox := (ms_sandbox s2)((''acme'', ''i7'') \<mapsto> x)\<rparr>"
  have s3: "ms_postchecks s3 (''acme'', ''i7'') = None" "ms_sandbox s3 (''acme'', ''i7'') = Some x" using s2(6) by (simp_all add: s3_def)
  let ?begun = "(x, demo_workflow OBSERVING_POSTCHECK 3 (Some ''op-1'') 2)"
  obtain s4 where four: "zr_state (fold (api_step demo_settings) (demo_ops ?begun)
       (new_api [sample_memory\<lparr>mm_action := sandbox_action_command\<rparr>] mem_ledger_empty)) = at_state s4 (demo_workflow POSTCHECK_READY 4 (Some ''op-1'') 5)"
    "ms_sandbox s4 (''acme'', ''i7'') = Some x"
    using demo_observed [OF x s3(1)] s3(2)
    by (simp add: demo_ops_def one) (simp add: api_step_def acting_def two beginning_def three s3_def)
  show thesis
    using four at_state_simps(2) [of s4 "demo_workflow POSTCHECK_READY 4 (Some ''op-1'') 5"]
    by (intro that [of ?begun x]) simp_all
qed

text \<open>The run reaches a verified observation, and by the theorem it rests on an approval of the executed proposal.\<close>

theorem evidence_before_state_witness:
  "\<exists>begun. let r = fold (api_step demo_settings) (demo_ops begun)
       (new_api [sample_memory\<lparr>mm_action := sandbox_action_command\<rparr>] mem_ledger_empty) in
     (\<exists>w. api_workflow (zr_state r) ''i7'' ''acme'' = Some w \<and> wf_state w = POSTCHECK_READY) \<and>
     (\<exists>x p. ms_sandbox (ax_store (zr_state r)) (''acme'', ''i7'') = Some x \<and>
        ms_approvals (ax_store (zr_state r)) (''acme'', ''i7'') = Some p \<and> ap_approved p \<and> ap_hash p = sx_proposal x) \<and>
     ms_postchecks (ax_store (zr_state r)) (''acme'', ''i7'') \<noteq> None"
proof (rule demo_run)
  fix begun x
  let ?r = "fold (api_step demo_settings) (demo_ops begun) (new_api [sample_memory\<lparr>mm_action := sandbox_action_command\<rparr>] mem_ledger_empty)"
  assume run: "ms_sandbox (ax_store (zr_state ?r)) (''acme'', ''i7'') = Some x"
    "api_workflow (zr_state ?r) ''i7'' ''acme'' = Some (demo_workflow POSTCHECK_READY 4 (Some ''op-1'') 5)"
  define r where "r = ?r"
  note claim = evidence_before_state [of demo_settings "demo_ops begun" "[sample_memory\<lparr>mm_action := sandbox_action_command\<rparr>]"
      mem_ledger_empty "''acme''" "''i7''", unfolded Let_def, folded r_def]
  note run = run [folded r_def]
  from claim [THEN conjunct1] obtain p where p: "ms_approvals (ax_store (zr_state r)) (''acme'', ''i7'') = Some p" "ap_approved p" "ap_hash p = sx_proposal x"
    unfolding run(1) option.case by blast
  from claim [THEN conjunct2, THEN conjunct2] have "ms_postchecks (ax_store (zr_state r)) (''acme'', ''i7'') \<noteq> None"
    unfolding run(2) option.case workflow_snapshot.select_convs workflow_state.case by blast
  then show ?thesis unfolding Let_def
    by (intro exI [of _ begun], fold r_def) (simp add: run p)
qed

end
