(* ===== verification/Judge_Api.thy ===== *)
theory Judge_Api
  imports Outbox Incident_Api
begin

text \<open>
  The routes of the judge deployment in \<^verbatim>\<open>src/recallops/api.py\<close> over the in-memory components: allocation of a
  judge run, the WebMCP tools of the agent with their manifest and idempotency keys, reviewer handoffs, and the
  disposition and revocation of evidence by a reviewer. A request reads the clock once; tokens, codes,
  nonces and identifiers are arguments. What each accepted call stood on is stated and proved route by route.
\<close>

section \<open>State, settings and requests\<close>

datatype tool_reply =
    StagedReply uuid string string string string action_risk time int
  | AssessedReply postcheck_assessment policy_verdict bool uuid "string option" memory_state int

record judge_state =
  jz_api :: api_state
  jz_judges :: mem_sessions
  jz_replies :: "uuid \<times> string \<times> string \<Rightarrow> (string \<times> tool_reply) option"

record judge_settings =
  jt_api :: api_settings
  jt_auth :: judge_config
  jt_run_limit :: int
  jt_launch_limit :: int
  jt_run_ttl :: int
  jt_handoff_ttl :: int
  jt_scenario :: string
  jt_build :: string
  jt_policy :: string
  jt_receipt :: receipt_args

record judge_request =
  tr_base :: api_request
  tr_if_match :: "string option"
  tr_key :: "string option"
  tr_content :: "string option"
  tr_client :: string

type_synonym 'a judge_route = "(judge_state, api_error, 'a) sx"

abbreviation identity :: "judge_request \<Rightarrow> principal" where
  "identity r \<equiv> rx_identity (tr_base r)"

abbreviation judge_store :: "judge_state \<Rightarrow> mem_store" where
  "judge_store z \<equiv> ax_store (jz_api z)"

definition on_api :: "(api_state, api_error, 'a) sx \<Rightarrow> 'a judge_route" where
  "on_api m = (\<lambda>z. case m (jz_api z) of (r, s) \<Rightarrow> (r, z\<lparr>jz_api := s\<rparr>))"

definition on_judges :: "(mem_sessions, session_error, 'a) sx \<Rightarrow> 'a judge_route" where
  "on_judges m = (\<lambda>z. case m (jz_judges z) of
     (Inl e, j) \<Rightarrow> (Inl (Unhandled (TxAuth (AuthRepository e))), z\<lparr>jz_judges := j\<rparr>)
   | (Inr a, j) \<Rightarrow> (Inr a, z\<lparr>jz_judges := j\<rparr>))"

definition on_sessions :: "(mem_sessions, auth_error, 'a) sx \<Rightarrow> 'a judge_route" where
  "on_sessions m = (\<lambda>z. case m (jz_judges z) of
     (Inl e, j) \<Rightarrow> (Inl (Unhandled (TxAuth e)), z\<lparr>jz_judges := j\<rparr>)
   | (Inr a, j) \<Rightarrow> (Inr a, z\<lparr>jz_judges := j\<rparr>))"

definition now_or :: "(judge_state \<Rightarrow> api_error + 'a) \<Rightarrow> 'a judge_route" where
  "now_or f = (\<lambda>z. (f z, z))"

definition refuse :: "int \<Rightarrow> string \<Rightarrow> 'a judge_route" where
  "refuse status detail = raise_s (Refused status detail)"

definition demand :: "bool \<Rightarrow> int \<Rightarrow> string \<Rightarrow> unit judge_route" where
  "demand b status detail = check_s b (Refused status detail)"

definition same_text :: "string \<Rightarrow> string \<Rightarrow> bool judge_route" where
  "same_text a b = now_or (\<lambda>_. case compare_digest a b of Inl e \<Rightarrow> Inl (Unhandled (TxAuth e)) | Inr c \<Rightarrow> Inr c)"

definition judge_digest :: "judge_settings \<Rightarrow> string \<Rightarrow> json \<Rightarrow> string judge_route" where
  "judge_digest cfg dm v = now_or (\<lambda>_. case content_digest (pr_jcs (se_providers (jt_api cfg))) dm v of
     Inl e \<Rightarrow> Inl (Unhandled (TxDigest e)) | Inr d \<Rightarrow> Inr d)"

section \<open>Runs\<close>

definition current_run :: "judge_settings \<Rightarrow> principal \<Rightarrow> time \<Rightarrow> judge_run judge_route" where
  "current_run cfg p now =
     bind_s (demand (se_judge (jt_api cfg)) 404 ''judge runs are not enabled'') (\<lambda>_.
     (case id_run p of
        None \<Rightarrow> refuse 409 ''session is not bound to a judge run''
      | Some i \<Rightarrow> bind_s (on_judges (mem_get_run i now)) (\<lambda>r. case r of
            None \<Rightarrow> refuse 409 ''judge run is no longer active''
          | Some run \<Rightarrow>
              if jn_tenant run \<noteq> id_tenant p \<or> Some (jn_generation run) \<noteq> id_generation p \<or> jn_status run \<noteq> RunActive
              then refuse 409 ''judge run is no longer active'' else return_s run)))"

definition run_memory :: "mem_store \<Rightarrow> judge_run \<Rightarrow> memory option" where
  "run_memory s run = ms_outcomes s (jn_tenant run, jn_incident run)"

definition run_workflow :: "judge_state \<Rightarrow> judge_run \<Rightarrow> workflow_snapshot option" where
  "run_workflow z run = api_workflow (jz_api z) (jn_incident run) (jn_tenant run)"

definition uuid_hex :: "uuid \<Rightarrow> string" where
  "uuid_hex i = filter (\<lambda>c. c \<noteq> CHR ''-'') i"

definition webmcp_agent_subject :: "judge_run \<Rightarrow> string" where
  "webmcp_agent_subject run = ''webmcp_agent_'' @ uuid_hex (jn_id run)"

section \<open>Allocation of a run\<close>

text \<open>
  A fixture memory lies at a chosen cosine similarity to the incident: its embedding is built from the incident's
  unit vector and the part of a seed orthogonal to it. \<open>zip(strict=True)\<close> refuses vectors of different lengths.
\<close>

definition unit_of :: "real list \<Rightarrow> tx_error + real list" where
  "unit_of v = (if norm_l v = 0 then Inl (TxRuntime ''judge incident embedding has zero magnitude'')
     else Inr (map (\<lambda>x. x / norm_l v) v))"

definition fixture_embedding :: "providers \<Rightarrow> uuid \<Rightarrow> real list \<Rightarrow> real \<Rightarrow> string \<Rightarrow> tx_error + real list" where
  "fixture_embedding pr run unit similarity label = (case pr_embed pr (label @ '':'' @ run) of
     Inl d \<Rightarrow> Inl (TxService (Unavailable d))
   | Inr seed \<Rightarrow>
       if length seed \<noteq> length unit then Inl (TxRuntime ''zip() argument 2 is shorter than argument 1'')
       else (let projection = dot unit seed;
                 orthogonal = map2 (\<lambda>v b. v - projection * b) seed unit;
                 norm = norm_l orthogonal
             in if norm = 0 then Inl (TxRuntime ''judge similarity fixture is degenerate'')
                else let residual = sqrt (1 - similarity * similarity) in
                  Inr (map2 (\<lambda>b v. similarity * b + residual * v / norm) unit orthogonal)))"

definition scenario_incident :: "uuid \<Rightarrow> incident" where
  "scenario_incident run = \<lparr>in_tenant = ''judge_'' @ take 24 (uuid_hex run), in_service = ''checkout'',
     in_version = ''v2.4.1'', in_symptom = ''checkout-latency-42: p95 latency and error rate exceed the sandbox SLO'',
     in_key = ''scenario-'' @ uuid_hex run\<rparr>"

definition fixture_memory ::
  "judge_settings \<Rightarrow> uuid \<Rightarrow> string \<Rightarrow> string \<Rightarrow> string \<Rightarrow> string \<Rightarrow> real \<Rightarrow> real \<Rightarrow> int \<Rightarrow> real list \<Rightarrow> time
     \<Rightarrow> tx_error + memory" where
  "fixture_memory cfg run label version action outcome score confidence age embedding now =
     (case make_memory (pr_jcs (se_providers (jt_api cfg)))
        \<lparr>mm_id = uuid5 namespace_url (''recallops:'' @ run @ '':'' @ label), mm_tenant = in_tenant (scenario_incident run),
         mm_service = ''checkout'', mm_version = version, mm_policy = ExactVersion, mm_policy_version = ''semver-v1'',
         mm_symptom = in_symptom (scenario_incident run), mm_action = action, mm_outcome = outcome, mm_score = score,
         mm_semantics = None, mm_confidence = confidence, mm_valid = True, mm_state = MActive, mm_superseded_by = None,
         mm_source_incident = None, mm_observed_by = None, mm_verification = ManualAttestation, mm_evidence_refs = [],
         mm_window = None, mm_postconditions = [], mm_reviewed_by = Some ''fixture-reviewer'',
         mm_reviewed_at = Some (now - seconds (86400 * age)), mm_observation_digest = None, mm_assessment_digest = None,
         mm_verdict_digest = None, mm_digest = None, mm_governance_policy = ''memory-governance-v1'',
         mm_governance_version = 1, mm_expires_at = Some (now + seconds (86400 * sv_ttl_days (se_service (jt_api cfg)))),
         mm_superseded_at = None, mm_revoked_at = None, mm_space = pr_space (se_providers (jt_api cfg)),
         mm_embedding = embedding, mm_created = now - seconds (86400 * age)\<rparr> of
       Inl e \<Rightarrow> Inl (TxService RecordInvalid) | Inr m \<Rightarrow> Inr m)"

definition fixture_memories :: "judge_settings \<Rightarrow> uuid \<Rightarrow> time \<Rightarrow> tx_error + memory list" where
  "fixture_memories cfg run now =
     (let pr = se_providers (jt_api cfg); i = scenario_incident run in
      bind_r (case pr_embed pr (''checkout '' @ in_symptom i) of
          Inl d \<Rightarrow> Inl (TxService (Unavailable d)) | Inr v \<Rightarrow> unit_of v) (\<lambda>unit.
      bind_r (fixture_embedding pr run unit 0.94 ''known-failure'') (\<lambda>e1.
      bind_r (fixture_memory cfg run ''known-failure'' ''v1.9.8'' ''restart checkout workers without reducing concurrency''
        ''known failure: saturation immediately recurred'' (- 1) 0.99 14 e1 now) (\<lambda>m1.
      bind_r (fixture_embedding pr run unit 0.81 ''compatible-success'') (\<lambda>e2.
      bind_r (fixture_memory cfg run ''compatible-success'' (in_version i) sandbox_action_command
        ''reviewed recovery without recurrence'' 1 0.96 21 e2 now) (\<lambda>m2.
      Inr [m1, m2]))))))"

definition build_run :: "judge_settings \<Rightarrow> uuid \<Rightarrow> int \<Rightarrow> uuid \<Rightarrow> string \<Rightarrow> time \<Rightarrow> judge_run" where
  "build_run cfg run generation incident operator now = \<lparr>jn_id = run, jn_tenant = in_tenant (scenario_incident run),
     jn_generation = generation, jn_scenario = jt_scenario cfg, jn_incident = incident, jn_status = RunActive,
     jn_operator = operator, jn_build = jt_build cfg, jn_policy = jt_policy cfg, jn_created = now,
     jn_expires = now + seconds (jt_run_ttl cfg), jn_finalized = None, jn_reset = None\<rparr>"

text \<open>What a run starts with: its identifier, the operator's nonce, the identifier of its analysis, its tokens.\<close>

record run_seed =
  wz_run :: uuid
  wz_nonce :: string
  wz_analysis :: uuid
  wz_token :: string
  wz_csrf :: string

definition add_memories :: "memory list \<Rightarrow> mem_store \<Rightarrow> mem_store" where
  "add_memories ms s = fold (\<lambda>m s. snd (add_memory m s)) ms s"

definition bind_run :: "judge_run \<Rightarrow> uuid \<Rightarrow> (api_state, tx_error, unit) sx" where
  "bind_run run incident = (\<lambda>s. (Inr (), s\<lparr>ax_coord := (ax_coord s)\<lparr>co_ledger :=
     mem_bind_run (jn_tenant run) incident (jn_id run) (jn_build run) (jn_policy run) (co_ledger (ax_coord s))\<rparr>\<rparr>))"

definition append_genesis :: "externals \<Rightarrow> workflow_snapshot \<Rightarrow> stamp \<Rightarrow> (api_state, tx_error, unit) sx" where
  "append_genesis x w st = with_coord (\<lambda>c. case led_genesis (mem_led x (\<lambda>_. False)) w (sp_event st) (sp_recorded st) (co_ledger c) of
     (Inl e, l) \<Rightarrow> (Inl (CoordLedger e), c\<lparr>co_ledger := l\<rparr>) | (Inr e, l) \<Rightarrow> (Inr (), c\<lparr>co_ledger := l\<rparr>))"

definition ensure_run_workflow ::
  "string \<Rightarrow> analysis \<Rightarrow> time \<Rightarrow> (api_state, tx_error, workflow_snapshot) sx" where
  "ensure_run_workflow tenant saved now = with_coord (\<lambda>c. case ensure_for_analysis mem_repo tenant (an_incident saved)
       (pa_hash (an_action saved)) False now c of
     (Inl e, c') \<Rightarrow> (Inl (CoordWorkflow e), c') | (Inr w, c') \<Rightarrow> (Inr w, c'))"

definition allocate_stored ::
  "judge_settings \<Rightarrow> int \<Rightarrow> run_seed \<Rightarrow> memory list \<Rightarrow> stamp \<Rightarrow> judge_run judge_route" where
  "allocate_stored cfg generation seed memories st =
     (let i = scenario_incident (wz_run seed) in
      bind_s (on_judges (mem_active_run_count (sp_now st))) (\<lambda>n.
      bind_s (if jt_run_limit cfg \<le> n then raise_s (Unhandled (TxAuth (AuthRepository CapacityReached))) else return_s ()) (\<lambda>_.
      bind_s (\<lambda>z. (Inr (), z\<lparr>jz_api := (jz_api z)\<lparr>ax_store := add_memories memories (judge_store z)\<rparr>\<rparr>)) (\<lambda>_.
      bind_s (now_or (\<lambda>z. case prepare_analysis (se_service (jt_api cfg)) (se_providers (jt_api cfg)) (judge_store z) i
          (wz_analysis seed) (sp_now st) of Inl e \<Rightarrow> Inl (Unhandled (TxService e)) | Inr a \<Rightarrow> Inr a)) (\<lambda>prepared.
      (let run = build_run cfg (wz_run seed) generation (an_incident prepared) (''operator_'' @ wz_nonce seed) (sp_now st) in
       bind_s (on_api (authority_transaction [] (with_store (persist_analysis i prepared)))) (\<lambda>saved.
       bind_s (on_judges (mem_save_run run (jt_run_limit cfg) (sp_now st))) (\<lambda>_.
       bind_s (on_api (authority_transaction [] (bind_s (bind_run run (an_incident saved)) (\<lambda>_.
         bind_s (ensure_run_workflow (jn_tenant run) saved (sp_now st)) (\<lambda>w.
         append_genesis (se_externals (jt_api cfg)) w st))))) (\<lambda>_.
       return_s run)))))))))"

definition allocate_run ::
  "judge_settings \<Rightarrow> int \<Rightarrow> run_seed \<Rightarrow> stamp \<Rightarrow> (judge_run \<times> string \<times> string \<times> principal) judge_route" where
  "allocate_run cfg generation seed st =
     bind_s (now_or (\<lambda>_. case fixture_memories cfg (wz_run seed) (sp_now st) of
        Inl e \<Rightarrow> Inl (Unhandled e) | Inr ms \<Rightarrow> Inr ms)) (\<lambda>memories.
     bind_s (allocate_stored cfg generation seed memories st) (\<lambda>run.
     bind_s (on_sessions (create_session (jt_auth cfg) mem_session_repo ''operator'' (jn_id run) (jn_tenant run)
       (jn_generation run) (jn_operator run) None (wz_token seed) (wz_csrf seed) (sp_now st))) (\<lambda>opened.
     return_s (run, opened))))"

text \<open>\<open>create_judge_run\<close>: a browser of the public origin, an empty JSON body, and the launch limit of the client.\<close>

definition full_capacity :: "api_error \<Rightarrow> bool" where
  "full_capacity e \<longleftrightarrow> e = Unhandled (TxAuth (AuthRepository CapacityReached))"

definition require_webmcp_mutation :: "judge_settings \<Rightarrow> judge_request \<Rightarrow> unit judge_route" where
  "require_webmcp_mutation cfg r =
     bind_s (demand (rx_origin (tr_base r) = Some (se_origin (jt_api cfg))) 403 ''trusted Origin required'') (\<lambda>_.
     demand (takeWhile (\<lambda>c. c \<noteq> CHR '';'') (case tr_content r of None \<Rightarrow> [] | Some c \<Rightarrow> c) = ''application/json'')
       415 ''JSON required'')"

definition create_judge_run ::
  "judge_settings \<Rightarrow> judge_request \<Rightarrow> json \<Rightarrow> run_seed \<Rightarrow> stamp \<Rightarrow> (judge_run \<times> string \<times> string \<times> principal) judge_route" where
  "create_judge_run cfg r body seed st =
     bind_s (demand (se_judge (jt_api cfg)) 404 ''judge runs are not enabled'') (\<lambda>_.
     bind_s (require_webmcp_mutation cfg r) (\<lambda>_.
     bind_s (demand (body = JObj [] \<or> body = JNull) 400 ''judge run input must be empty'') (\<lambda>_.
     bind_s (on_judges (consume_launch (jt_auth cfg) mem_session_repo (tr_client r) (jt_launch_limit cfg) (sp_now st))) (\<lambda>allowed.
     bind_s (demand allowed 429 ''judge run launch rate limit exceeded'') (\<lambda>_. \<lambda>z.
     (case allocate_run cfg 1 seed st z of
        (Inl e, z') \<Rightarrow> (Inl (if full_capacity e
            then Refused 503 ''judge scenario capacity reached; retry after an active run expires'' else e), z')
      | done \<Rightarrow> done))))))"

text \<open>\<open>reset_operator_run\<close>: the run ends, its workflow is closed at the epoch read before, a new generation begins.\<close>

definition close_old_run :: "judge_settings \<Rightarrow> judge_run \<Rightarrow> workflow_snapshot \<Rightarrow> string \<Rightarrow> stamp \<Rightarrow> bool judge_route" where
  "close_old_run cfg old w actor st = bind_s (on_judges (mem_reset_run (jn_id old) (sp_now st))) (\<lambda>changed.
     if changed then bind_s (on_api (authority_transaction [] (with_coord
         (coord_invalidate mem_repo (Some (mem_led (se_externals (jt_api cfg)) (\<lambda>_. False))) (\<lambda>_. False)
           (jn_incident old) (jn_tenant old) (wf_epoch w) UI ''operator'' actor (sp_now st) (sp_event st) (sp_recorded st)))))
         (\<lambda>_. return_s True)
     else return_s False)"

definition reset_operator_run ::
  "judge_settings \<Rightarrow> judge_request \<Rightarrow> run_seed \<Rightarrow> stamp \<Rightarrow> stamp \<Rightarrow> (judge_run \<times> string \<times> string \<times> principal) judge_route" where
  "reset_operator_run cfg r seed st later =
     bind_s (now_or (\<lambda>_. protected_request (jt_api cfg) (tr_base r))) (\<lambda>_.
     bind_s (now_or (\<lambda>_. require_role (identity r) ''operator'')) (\<lambda>_.
     bind_s (current_run cfg (identity r) (sp_now st)) (\<lambda>old.
     bind_s (now_or (\<lambda>z. case run_workflow z old of
        None \<Rightarrow> Inl (Refused 409 ''judge workflow unavailable'') | Some w \<Rightarrow> Inr w)) (\<lambda>w.
     bind_s (close_old_run cfg old w (id_subject (identity r)) st) (\<lambda>changed.
     bind_s (demand changed 409 ''judge run reset already resolved'') (\<lambda>_.
     allocate_run cfg (jn_generation old + 1) seed later))))))"

definition logout_judge_session :: "judge_settings \<Rightarrow> judge_request \<Rightarrow> time \<Rightarrow> unit judge_route" where
  "logout_judge_session cfg r now =
     bind_s (demand (se_judge (jt_api cfg)) 404 ''judge sessions are not enabled'') (\<lambda>_.
     bind_s (now_or (\<lambda>_. protected_request (jt_api cfg) (tr_base r))) (\<lambda>_.
     on_judges (revoke_principal mem_session_repo (identity r) now)))"

section \<open>The manifest of the agent's tools\<close>

definition webmcp_tool_names :: "string list" where
  "webmcp_tool_names = [''inspect_incident'', ''propose_mitigation'', ''record_postcheck_assessment'', ''recall_reviewed_memory'']"

definition protected_operations :: "string list" where
  "protected_operations = [''approve_proposal'', ''reject_proposal'', ''apply_sandbox_mitigation'', ''retry_observation'',
     ''issue_reviewer_handoff'', ''certify_memory'', ''quarantine_memory'', ''reject_memory'', ''revoke_memory'',
     ''switch_role'', ''override_policy'', ''reset_demo'']"

definition withheld_reasons :: "string \<Rightarrow> string" where
  "withheld_reasons name = (if name = ''inspect_incident'' then ''WORKFLOW_INACTIVE''
     else if name = ''propose_mitigation'' then ''PROPOSAL_NOT_AVAILABLE_IN_CURRENT_STATE''
     else if name = ''record_postcheck_assessment'' then ''VERIFIED_OBSERVATION_NOT_READY''
     else ''CERTIFIED_COMPATIBLE_MEMORY_NOT_AVAILABLE'')"

definition recall_eligible :: "memory \<Rightarrow> time \<Rightarrow> bool" where
  "recall_eligible m now \<longleftrightarrow> mm_state m = MActive \<and> mm_valid m \<and> mm_service m = ''checkout'' \<and>
     version_compatibility (mm_version m) ''v2.4.1'' (mm_policy m) = 1 \<and>
     mm_semantics m \<noteq> Some OutcomeInconclusive \<and>
     (case mm_expires_at m of None \<Rightarrow> True | Some e \<Rightarrow> now < e) \<and>
     mm_superseded_at m = None \<and> mm_revoked_at m = None"

record webmcp_manifest =
  wm_run :: uuid
  wm_generation :: int
  wm_workflow :: uuid
  wm_state :: workflow_state
  wm_epoch :: int
  wm_owner :: string
  wm_available :: "string list"
  wm_withheld :: "(string \<times> string) list"
  wm_protected :: "string list"
  wm_version :: int
  wm_policy :: string
  wm_build :: string
  wm_etag :: string

definition offered_tools :: "memory option \<Rightarrow> workflow_snapshot \<Rightarrow> time \<Rightarrow> string list" where
  "offered_tools m w now =
     (let available = available_tools w;
          eligible = (case m of None \<Rightarrow> False | Some m \<Rightarrow> recall_eligible m now);
          offered = (if ''recall_reviewed_memory'' \<in> set available \<and> \<not> eligible
                     then remove1 ''recall_reviewed_memory'' available else available)
      in if \<not> wf_active w then [] else offered)"

definition make_webmcp_manifest ::
  "judge_settings \<Rightarrow> mem_store \<Rightarrow> judge_run \<Rightarrow> workflow_snapshot \<Rightarrow> time \<Rightarrow> webmcp_manifest judge_route" where
  "make_webmcp_manifest cfg s run w now =
     (let m = run_memory s run; version = (case m of None \<Rightarrow> 0 | Some m \<Rightarrow> mm_governance_version m);
          available = offered_tools m w now in
      bind_s (judge_digest cfg ''recallops-webmcp-manifest-v1'' (JObj
        [(''run_id'', JStr (jn_id run)), (''run_generation'', JStr (str_int (jn_generation run))),
         (''workflow_id'', JStr (wf_id w)), (''epoch'', JStr (str_int (wf_epoch w))),
         (''memory_governance_version'', JStr (str_int version)),
         (''capability_policy_version'', JStr (jn_policy run))])) (\<lambda>digest.
      return_s \<lparr>wm_run = jn_id run, wm_generation = jn_generation run, wm_workflow = wf_id w, wm_state = wf_state w,
        wm_epoch = wf_epoch w, wm_owner = (if wf_active w then authority_owner (wf_state w) else ''NONE''),
        wm_available = available,
        wm_withheld = map (\<lambda>n. (n, withheld_reasons n)) (filter (\<lambda>n. n \<notin> set available) webmcp_tool_names),
        wm_protected = protected_operations, wm_version = version, wm_policy = jn_policy run, wm_build = jn_build run,
        wm_etag = CHR 0x22 # digest @ [CHR 0x22]\<rparr>))"

text \<open>The answer is \<open>None\<close> when the client's copy is current (304).\<close>

definition webmcp_capabilities ::
  "judge_settings \<Rightarrow> judge_request \<Rightarrow> string option \<Rightarrow> time \<Rightarrow> webmcp_manifest option judge_route" where
  "webmcp_capabilities cfg r if_none_match now =
     bind_s (now_or (\<lambda>_. require_role (identity r) ''agent'')) (\<lambda>_.
     bind_s (current_run cfg (identity r) now) (\<lambda>run. \<lambda>z.
     (case run_workflow z run of
        None \<Rightarrow> refuse 404 ''workflow not found''
      | Some w \<Rightarrow> bind_s (make_webmcp_manifest cfg (judge_store z) run w now) (\<lambda>m.
          return_s (if if_none_match = Some (wm_etag m) then None else Some m))) z))"

section \<open>Mutations by the agent\<close>

definition require_idempotency_key :: "string option \<Rightarrow> string judge_route" where
  "require_idempotency_key key = (case key of
     None \<Rightarrow> refuse 428 ''Idempotency-Key required''
   | Some k \<Rightarrow> if sized 16 200 k then return_s k else refuse 428 ''Idempotency-Key required'')"

text \<open>
  \<open>idempotent_webmcp_mutation\<close>: the reply of the first success under a key is kept with the digest of its request
  and given again to the same request; another request under the key is a conflict.
\<close>

definition idempotent_mutation ::
  "caught list \<Rightarrow> uuid \<Rightarrow> string \<Rightarrow> string \<Rightarrow> string \<Rightarrow> (api_state, tx_error, tool_reply) sx \<Rightarrow> tool_reply judge_route" where
  "idempotent_mutation clauses run route key digest operation = (\<lambda>z. case jz_replies z (run, route, key) of
     Some (d, reply) \<Rightarrow> if d \<noteq> digest then (Inl (respond clauses TxKeyBound), z) else (Inr reply, z)
   | None \<Rightarrow> (case operation (jz_api z) of
        (Inl e, s) \<Rightarrow> (Inl (respond clauses e), z\<lparr>jz_api := s\<rparr>)
      | (Inr reply, s) \<Rightarrow>
          (Inr reply, z\<lparr>jz_api := s, jz_replies := (jz_replies z)((run, route, key) \<mapsto> (digest, reply))\<rparr>)))"

definition expected_match :: "judge_run \<Rightarrow> workflow_snapshot \<Rightarrow> string" where
  "expected_match run w = CHR 0x22 # str_int (jn_generation run) @ '':'' @ str_int (wf_epoch w) @ [CHR 0x22]"

definition if_match :: "judge_request \<Rightarrow> judge_run \<Rightarrow> workflow_snapshot \<Rightarrow> tx_error + unit" where
  "if_match r run w = (case tr_if_match r of
     None \<Rightarrow> Inl (TxHttp 428 ''If-Match required'')
   | Some supplied \<Rightarrow> (case compare_digest supplied (expected_match run w) of
       Inl e \<Rightarrow> Inl (TxAuth e)
     | Inr same \<Rightarrow> check_r same (TxHttp 412 ''stale workflow precondition'')))"

definition require_if_match :: "judge_request \<Rightarrow> judge_run \<Rightarrow> workflow_snapshot \<Rightarrow> unit judge_route" where
  "require_if_match r run w = now_or (\<lambda>_. case if_match r run w of Inl e \<Rightarrow> Inl (respond [] e) | Inr u \<Rightarrow> Inr u)"

record proposal_request =
  wp_service :: string
  wp_version :: string
  wp_symptom :: string
  wp_rationale :: "string option"

definition stage ::
  "judge_settings \<Rightarrow> judge_request \<Rightarrow> judge_run \<Rightarrow> workflow_snapshot \<Rightarrow> analysis \<Rightarrow> string \<Rightarrow> proposal_request \<Rightarrow> stamp
     \<Rightarrow> (api_state, tx_error, tool_reply) sx" where
  "stage cfg r run w a digest q st =
     bind_s (tx_read (\<lambda>_. if_match r run w)) (\<lambda>_.
     bind_s (tx_transition (se_externals (jt_api cfg))
       (about ''PROPOSAL_STAGED'' ''proposal'' (jn_incident run) digest
         (move (jn_incident run) (jn_tenant run) (wf_epoch w) INVESTIGATING AWAITING_OPERATOR_APPROVAL WEBMCP
           (webmcp_agent_subject run) ''agent'')) st) (\<lambda>staged.
     return_s (StagedReply (jn_incident run) digest (utake 500 (an_diagnosis a))
       (utake 500 (case py_or (wp_rationale q) None of None \<Rightarrow> pa_rationale (an_action a) | Some t \<Rightarrow> t))
       (utake 80 (pa_name (an_action a))) (pa_risk (an_action a)) (jn_expires run) (wf_epoch staged))))"

definition optional_text :: "string option \<Rightarrow> json" where
  "optional_text v = (case v of None \<Rightarrow> JNull | Some t \<Rightarrow> JStr t)"

definition request_binding :: "judge_run \<Rightarrow> judge_request \<Rightarrow> (string \<times> json) list" where
  "request_binding run r = [(''run_id'', JStr (jn_id run)), (''generation'', JStr (str_int (jn_generation run))),
     (''workflow_id'', JStr (jn_incident run)),
     (''precondition'', JStr (case tr_if_match r of None \<Rightarrow> [] | Some p \<Rightarrow> p))]"

definition propose_staged ::
  "judge_settings \<Rightarrow> judge_request \<Rightarrow> judge_run \<Rightarrow> workflow_snapshot \<Rightarrow> incident \<Rightarrow> analysis \<Rightarrow> proposal_request \<Rightarrow> stamp
     \<Rightarrow> tool_reply judge_route" where
  "propose_staged cfg r run w inc a q st =
     bind_s (require_idempotency_key (tr_key r)) (\<lambda>key.
     bind_s (judge_digest cfg ''recallops-webmcp-proposal-request-v1'' (JObj (request_binding run r @
        [(''service'', JStr (wp_service q)), (''service_version'', JStr (wp_version q)),
         (''symptom'', JStr (wp_symptom q)), (''rationale'', optional_text (wp_rationale q))]))) (\<lambda>digest.
     bind_s (demand (wp_service q = in_service inc \<and> wp_version q = in_version inc \<and> wp_symptom q = in_symptom inc)
        409 ''proposal input does not match run evidence'') (\<lambda>_.
     (case pa_hash (an_action a) of
        None \<Rightarrow> refuse 409 ''bounded proposal is unavailable''
      | Some h \<Rightarrow> if \<not> pa_requires_approval (an_action a) then refuse 409 ''bounded proposal is unavailable''
          else idempotent_mutation [ByWorkflow] (jn_id run) ''proposal'' key digest (stage cfg r run w a h q st)))))"

definition propose_webmcp_mitigation ::
  "judge_settings \<Rightarrow> judge_request \<Rightarrow> proposal_request \<Rightarrow> stamp \<Rightarrow> tool_reply judge_route" where
  "propose_webmcp_mitigation cfg r q st =
     bind_s (require_webmcp_mutation cfg r) (\<lambda>_.
     bind_s (now_or (\<lambda>_. require_role (identity r) ''agent'')) (\<lambda>_.
     bind_s (current_run cfg (identity r) (sp_now st)) (\<lambda>run. \<lambda>z.
     (case (run_workflow z run, get_incident (judge_store z) (jn_incident run) (jn_tenant run),
            get_analysis (judge_store z) (jn_incident run) (jn_tenant run)) of
        (Some w, Some inc, Some a) \<Rightarrow> propose_staged cfg r run w inc a q st
      | _ \<Rightarrow> refuse 404 ''incident not found'') z)))"

definition persist_assessment ::
  "judge_settings \<Rightarrow> judge_request \<Rightarrow> judge_run \<Rightarrow> workflow_snapshot \<Rightarrow> policy_verdict \<Rightarrow> postcheck_assessment \<Rightarrow> memory \<Rightarrow> stamp
     \<Rightarrow> (api_state, tx_error, tool_reply) sx" where
  "persist_assessment cfg r run w verdict a m st =
     bind_s (tx_read (\<lambda>_. if_match r run w)) (\<lambda>_.
     bind_s (with_store (persist_verified_outcome a m)) (\<lambda>(recorded, saved).
     bind_s (tx_digest (content_digest (pr_jcs (se_providers (jt_api cfg))) ''recallops-outcome-binding-v1'' (JObj
         [(''assessment'', optional_text (mm_assessment_digest saved)), (''memory'', optional_text (mm_digest saved)),
          (''observation'', optional_text (mm_observation_digest saved)),
          (''policy_verdict'', optional_text (mm_verdict_digest saved))]))) (\<lambda>digest.
     bind_s (tx_transition (se_externals (jt_api cfg))
       (about ''POSTCHECK_ASSESSMENT_RECORDED'' ''outcome_binding'' (mm_id saved) digest
         (move (jn_incident run) (jn_tenant run) (wf_epoch w) POSTCHECK_READY PENDING_REVIEW WEBMCP
           (webmcp_agent_subject run) ''agent'')) st) (\<lambda>completed.
     return_s (AssessedReply recorded verdict (pt_class recorded = pv_class verdict) (mm_id saved) (mm_digest saved)
       (mm_state saved) (wf_epoch completed))))))"

definition assess_prepared ::
  "judge_settings \<Rightarrow> judge_request \<Rightarrow> judge_run \<Rightarrow> workflow_snapshot \<Rightarrow> postcheck_observation \<Rightarrow> policy_verdict
     \<Rightarrow> assessment_request \<Rightarrow> uuid \<Rightarrow> uuid \<Rightarrow> stamp \<Rightarrow> tool_reply judge_route" where
  "assess_prepared cfg r run w obs verdict q aid mid st =
     bind_s (demand (eq_observation q = po_id obs) 409 ''stale or mismatched observation'') (\<lambda>_.
     bind_s (require_idempotency_key (tr_key r)) (\<lambda>key.
     bind_s (judge_digest cfg ''recallops-webmcp-assessment-request-v1'' (JObj (request_binding run r @
        [(''observation_id'', JStr (eq_observation q)), (''classification'', JStr (class_value (eq_class q))),
         (''rationale'', JStr (eq_rationale q))]))) (\<lambda>digest. \<lambda>z.
     (let a = \<lparr>pt_id = aid, pt_observation = po_id obs, pt_incident = jn_incident run, pt_tenant = jn_tenant run,
            pt_agent = webmcp_agent_subject run, pt_class = eq_class q, pt_rationale = eq_rationale q,
            pt_digest = po_digest obs, pt_created = sp_now st\<rparr>
      in if \<not> valid_assessment a then (Inl (Unhandled (TxService RecordInvalid)), z)
      else (case prepare_verified_outcome (se_service (jt_api cfg)) (se_providers (jt_api cfg)) (judge_store z)
            (jn_incident run) obs verdict a mid (sp_now st) of
          Inl e \<Rightarrow> (Inl (if incident_conflict e \<or> (\<exists>d. e = Unavailable d) then Rejected 503 (TxService e)
              else Unhandled (TxService e)), z)
        | Inr None \<Rightarrow> (Inl (Refused 404 ''incident not found''), z)
        | Inr (Some m) \<Rightarrow> if mm_digest m = None then (Inl (Refused 404 ''incident not found''), z)
            else idempotent_mutation [ByIncident, ByGovernance, ByWorkflow] (jn_id run) ''assessment'' key digest
              (persist_assessment cfg r run w verdict a m st) z)))))"

definition assess_webmcp_postcheck ::
  "judge_settings \<Rightarrow> judge_request \<Rightarrow> assessment_request \<Rightarrow> uuid \<Rightarrow> uuid \<Rightarrow> stamp \<Rightarrow> tool_reply judge_route" where
  "assess_webmcp_postcheck cfg r q aid mid st =
     bind_s (require_webmcp_mutation cfg r) (\<lambda>_.
     bind_s (now_or (\<lambda>_. require_role (identity r) ''agent'')) (\<lambda>_.
     bind_s (current_run cfg (identity r) (sp_now st)) (\<lambda>run. \<lambda>z.
     (case (run_workflow z run, get_postcheck (judge_store z) (jn_incident run) (jn_tenant run)) of
        (Some w, Some (obs, verdict)) \<Rightarrow> assess_prepared cfg r run w obs verdict q aid mid st
      | _ \<Rightarrow> refuse 404 ''verified postcheck not found'') z)))"

section \<open>Recall and supporting activity\<close>

text \<open>Activity is recorded beside the authority ledger; nothing depends on it.\<close>

definition add_activities :: "activity_observation list \<Rightarrow> judge_state \<Rightarrow> judge_state" where
  "add_activities acts z = z\<lparr>jz_api := (jz_api z)\<lparr>ax_coord := (ax_coord (jz_api z))\<lparr>co_ledger :=
     fold mem_add_activity acts (co_ledger (ax_coord (jz_api z)))\<rparr>\<rparr>\<rparr>"

definition server_activity :: "judge_run \<Rightarrow> string \<Rightarrow> string \<Rightarrow> stamp \<Rightarrow> activity_observation" where
  "server_activity run tool summary st = \<lparr>ac_id = sp_event st, ac_run = jn_id run, ac_tenant = jn_tenant run,
     ac_workflow = jn_incident run, ac_recorded = sp_recorded st, ac_source = ''webmcp'',
     ac_actor = webmcp_agent_subject run, ac_type = ''tool_invoked'', ac_tool = Some tool, ac_outcome = ''observed'',
     ac_summary = utake 240 summary, ac_event = None, ac_digest = None, ac_build = jn_build run, ac_client = None\<rparr>"

definition recurrence_incident :: "judge_run \<Rightarrow> incident" where
  "recurrence_incident run = \<lparr>in_tenant = jn_tenant run, in_service = ''checkout'', in_version = ''v2.4.1'',
     in_symptom = ''checkout-latency-43: compatible recurrence of elevated p95 latency'',
     in_key = ''recurrence-'' @ uuid_hex (jn_id run)\<rparr>"

definition recall_recurrence :: "judge_settings \<Rightarrow> judge_request \<Rightarrow> stamp \<Rightarrow> recurrence judge_route" where
  "recall_recurrence cfg r st =
     bind_s (now_or (\<lambda>_. require_role (identity r) ''agent'')) (\<lambda>_.
     bind_s (current_run cfg (identity r) (sp_now st)) (\<lambda>run. \<lambda>z.
     (case run_workflow z run of
        None \<Rightarrow> refuse 409 ''reviewed recurrence is unavailable''
      | Some w \<Rightarrow> bind_s (make_webmcp_manifest cfg (judge_store z) run w (sp_now st)) (\<lambda>m.
          if ''recall_reviewed_memory'' \<notin> set (wm_available m) then refuse 409 ''reviewed recurrence is unavailable''
          else bind_s (now_or (\<lambda>z. case recurrence_view (se_service (jt_api cfg)) (se_providers (jt_api cfg)) (judge_store z)
                (recurrence_incident run) (map_option mm_id (run_memory (judge_store z) run)) (sp_now st) of
              Inl e \<Rightarrow> Inl (Unhandled (TxService e)) | Inr v \<Rightarrow> Inr v)) (\<lambda>v. \<lambda>z.
            (Inr v, add_activities [server_activity run ''recall_reviewed_memory''
               ''Agent evaluated immutable compatible recurrence'' st] z)))) z))"

record activity_item =
  wa_type :: string
  wa_tool :: string
  wa_outcome :: string

definition spaced :: "string \<Rightarrow> string" where
  "spaced = map (\<lambda>c. if c = CHR ''_'' then CHR '' '' else c)"

definition browser_activity :: "judge_run \<Rightarrow> string \<Rightarrow> activity_item \<times> uuid \<times> time \<Rightarrow> activity_observation" where
  "browser_activity run client = (\<lambda>(i, aid, at_time). \<lparr>ac_id = aid, ac_run = jn_id run, ac_tenant = jn_tenant run,
     ac_workflow = jn_incident run, ac_recorded = at_time, ac_source = ''browser'', ac_actor = ''browser-client'',
     ac_type = wa_type i, ac_tool = Some (wa_tool i), ac_outcome = wa_outcome i,
     ac_summary = utake 240 (''Browser reports '' @ wa_tool i @ '' '' @ spaced (wa_type i)), ac_event = None,
     ac_digest = None, ac_build = jn_build run, ac_client = Some client\<rparr>)"

definition record_webmcp_activity ::
  "judge_settings \<Rightarrow> judge_request \<Rightarrow> string \<Rightarrow> (activity_item \<times> uuid \<times> time) list \<Rightarrow> time \<Rightarrow> nat judge_route" where
  "record_webmcp_activity cfg r client items now =
     bind_s (require_webmcp_mutation cfg r) (\<lambda>_.
     bind_s (now_or (\<lambda>_. require_role (identity r) ''agent'')) (\<lambda>_.
     bind_s (current_run cfg (identity r) now) (\<lambda>run.
     (let client_hash = sha256_hex client;
          limit_hash = sha256_hex (''activity:'' @ jn_id run @ '':'' @ client_hash) in
      bind_s (on_judges (mem_consume_attempt limit_hash 120 60 now)) (\<lambda>allowed.
      bind_s (demand allowed 429 ''activity rate limit exceeded'') (\<lambda>_. \<lambda>z.
        (Inr (length items), add_activities (map (browser_activity run client_hash) items) z)))))))"

section \<open>Reviewer handoffs\<close>

definition review_target :: "judge_state \<Rightarrow> judge_run \<Rightarrow> handoff_purpose \<Rightarrow> time \<Rightarrow> api_error + memory" where
  "review_target z run purpose now =
     (let refusal = Inl (Refused 409 ''no reviewable evidence is ready'');
          wanted = (if purpose = InitialReview then PENDING_REVIEW else REVIEWED);
          wanted_memory = (if purpose = InitialReview then MPendingReview else MActive) in
      case run_workflow z run of
        None \<Rightarrow> refusal
      | Some w \<Rightarrow> if \<not> wf_active w \<or> wf_state w \<noteq> wanted then refusal
          else (case run_memory (judge_store z) run of
            None \<Rightarrow> refusal
          | Some m \<Rightarrow>
              if mm_state m \<noteq> wanted_memory then refusal
              else if purpose = Revocation \<and> (\<not> mm_valid m \<or> (case mm_expires_at m of None \<Rightarrow> False | Some e \<Rightarrow> e \<le> now) \<or>
                  mm_superseded_at m \<noteq> None \<or> mm_revoked_at m \<noteq> None) then refusal
              else Inr m))"

text \<open>A digest is compared as a text; a memory without one would be a \<open>TypeError\<close>.\<close>

definition same_digest :: "string \<Rightarrow> string option \<Rightarrow> bool judge_route" where
  "same_digest a d = (case d of None \<Rightarrow> raise_s (Unhandled (TxAuth ComparedNonAscii)) | Some b \<Rightarrow> same_text a b)"

definition handoff_of :: "judge_settings \<Rightarrow> principal \<Rightarrow> judge_run \<Rightarrow> memory \<Rightarrow> handoff_purpose \<Rightarrow> string \<Rightarrow> string \<Rightarrow> time \<Rightarrow> review_handoff" where
  "handoff_of cfg p run m purpose digest code now = \<lparr>ho_code = sha256_hex code, ho_run = jn_id run, ho_tenant = jn_tenant run,
     ho_workflow = jn_incident run, ho_memory = mm_id m, ho_digest = digest, ho_purpose = purpose,
     ho_issuer = id_subject p, ho_expires = now + seconds (jt_handoff_ttl cfg), ho_consumed = None, ho_revoked = None\<rparr>"

definition create_reviewer_handoff ::
  "judge_settings \<Rightarrow> judge_request \<Rightarrow> handoff_purpose \<Rightarrow> string \<Rightarrow> string \<Rightarrow> time \<Rightarrow> review_handoff judge_route" where
  "create_reviewer_handoff cfg r purpose digest code now =
     bind_s (demand (se_judge (jt_api cfg)) 404 ''judge runs are not enabled'') (\<lambda>_.
     bind_s (now_or (\<lambda>_. protected_request (jt_api cfg) (tr_base r))) (\<lambda>_.
     bind_s (now_or (\<lambda>_. require_role (identity r) ''operator'')) (\<lambda>_.
     bind_s (current_run cfg (identity r) now) (\<lambda>run.
     bind_s (now_or (\<lambda>z. review_target z run purpose now)) (\<lambda>m.
     bind_s (same_digest digest (mm_digest m)) (\<lambda>same.
     bind_s (demand same 409 ''stale or mismatched memory digest'') (\<lambda>_.
     (let h = handoff_of cfg (identity r) run m purpose digest code now in
      bind_s (on_judges (mem_save_handoff h)) (\<lambda>_. return_s h)))))))))"

text \<open>The code of an exchange is read from a JSON object; its length is bounded before any state is touched.\<close>

definition presented_code :: "json \<Rightarrow> string option" where
  "presented_code body = (case body of
     JObj members \<Rightarrow> (case map_of (rev members) ''code'' of
        Some (JStr c) \<Rightarrow> if sized 32 128 c then Some c else None | _ \<Rightarrow> None)
   | _ \<Rightarrow> None)"

definition reviewer_named :: "string \<Rightarrow> string" where
  "reviewer_named nonce = ''reviewer_'' @ nonce"

definition open_review ::
  "judge_settings \<Rightarrow> review_handoff \<Rightarrow> string \<Rightarrow> string \<Rightarrow> string \<Rightarrow> time \<Rightarrow> (string \<times> string \<times> principal) judge_route" where
  "open_review cfg h nonce token csrf now =
     bind_s (on_judges (mem_get_run (ho_run h) now)) (\<lambda>found. case found of
        None \<Rightarrow> refuse 401 ''review handoff is invalid or expired''
      | Some run \<Rightarrow>
          if jn_status run \<noteq> RunActive then refuse 401 ''review handoff is invalid or expired''
          else if reviewer_named nonce \<in> {jn_operator run, ho_issuer h} then refuse 503 ''review identity unavailable''
          else on_sessions (create_session (jt_auth cfg) mem_session_repo ''reviewer'' (jn_id run) (jn_tenant run)
            (jn_generation run) (reviewer_named nonce) (Some (ho_code h)) token csrf now))"

definition exchange_reviewer_handoff ::
  "judge_settings \<Rightarrow> judge_request \<Rightarrow> json \<Rightarrow> string \<Rightarrow> string \<Rightarrow> string \<Rightarrow> time
     \<Rightarrow> (review_handoff \<times> string \<times> string \<times> principal) judge_route" where
  "exchange_reviewer_handoff cfg r body nonce token csrf now =
     bind_s (demand (se_judge (jt_api cfg)) 404 ''judge runs are not enabled'') (\<lambda>_.
     bind_s (require_webmcp_mutation cfg r) (\<lambda>_.
     (case presented_code body of
        None \<Rightarrow> refuse 401 ''review handoff is invalid or expired''
      | Some code \<Rightarrow>
          bind_s (on_judges (consume_handoff_attempt (jt_auth cfg) mem_session_repo (tr_client r) now)) (\<lambda>allowed.
          bind_s (demand allowed 429 ''review handoff exchange rate limit exceeded'') (\<lambda>_.
          bind_s (on_judges (mem_consume_handoff (sha256_hex code) now)) (\<lambda>handoff. case handoff of
             None \<Rightarrow> refuse 401 ''review handoff is invalid or expired''
           | Some h \<Rightarrow> bind_s (open_review cfg h nonce token csrf now) (\<lambda>opened. return_s (h, opened))))))))"

section \<open>The scope of a reviewer\<close>

definition handoff_valid :: "time \<Rightarrow> handoff_purpose option \<Rightarrow> review_handoff \<Rightarrow> bool" where
  "handoff_valid now purpose h \<longleftrightarrow> ho_consumed h \<noteq> None \<and> ho_revoked h = None \<and> now < ho_expires h \<and>
     (case purpose of None \<Rightarrow> True | Some p \<Rightarrow> ho_purpose h = p)"

definition scoped_memory :: "judge_run \<Rightarrow> review_handoff \<Rightarrow> memory judge_route" where
  "scoped_memory run h = (\<lambda>z. (case get_memory (judge_store z) (ho_memory h) (jn_tenant run) of
     None \<Rightarrow> refuse 404 ''review evidence not found''
   | Some m \<Rightarrow>
       if mm_source_incident m \<noteq> Some (ho_workflow h) \<or> mm_digest m = None then refuse 404 ''review evidence not found''
       else bind_s (same_digest (ho_digest h) (mm_digest m)) (\<lambda>same.
         if same then return_s m else refuse 404 ''review evidence not found'')) z)"

definition reviewer_scope ::
  "judge_settings \<Rightarrow> principal \<Rightarrow> handoff_purpose option \<Rightarrow> time \<Rightarrow> (judge_run \<times> review_handoff \<times> memory) judge_route" where
  "reviewer_scope cfg p purpose now =
     bind_s (now_or (\<lambda>_. require_role p ''reviewer'')) (\<lambda>_.
     (case id_handoff p of
        None \<Rightarrow> refuse 403 ''reviewer handoff authority required''
      | Some code \<Rightarrow>
          bind_s (now_or (\<lambda>z. Inr (mem_get_handoff (jz_judges z) code))) (\<lambda>found. case found of
             None \<Rightarrow> refuse 403 ''reviewer handoff is no longer valid''
           | Some h \<Rightarrow>
               bind_s (demand (handoff_valid now purpose h) 403 ''reviewer handoff is no longer valid'') (\<lambda>_.
               bind_s (current_run cfg p now) (\<lambda>run.
               bind_s (demand (ho_run h = jn_id run \<and> ho_tenant h = jn_tenant run) 404 ''review evidence not found'') (\<lambda>_.
               bind_s (scoped_memory run h) (\<lambda>m.
               bind_s (demand (id_subject p \<noteq> jn_operator run \<and> id_subject p \<noteq> ho_issuer h \<and> Some (id_subject p) \<noteq> mm_observed_by m)
                 403 ''independent reviewer required'') (\<lambda>_.
               return_s (run, h, m)))))))))"

section \<open>Disposition and revocation\<close>

fun review_reason_value :: "review_reason \<Rightarrow> string" where
  "review_reason_value EVIDENCE_ACCEPTED = ''EVIDENCE_ACCEPTED''"
| "review_reason_value NEEDS_INVESTIGATION = ''NEEDS_INVESTIGATION''"
| "review_reason_value INVALID_BINDING = ''INVALID_BINDING''"
| "review_reason_value INSUFFICIENT_EVIDENCE = ''INSUFFICIENT_EVIDENCE''"
| "review_reason_value POLICY_CONFLICT = ''POLICY_CONFLICT''"
| "review_reason_value NEW_CONTRADICTORY_EVIDENCE = ''NEW_CONTRADICTORY_EVIDENCE''"
| "review_reason_value POLICY_CHANGE = ''POLICY_CHANGE''"
| "review_reason_value COMPATIBILITY_INVALIDATED = ''COMPATIBILITY_INVALIDATED''"
| "review_reason_value DATA_QUALITY = ''DATA_QUALITY''"
| "review_reason_value OTHER_BOUNDED = ''OTHER_BOUNDED''"

fun decision_value :: "reviewer_decision \<Rightarrow> string" where
  "decision_value DecideCertify = ''certify''"
| "decision_value DecideQuarantine = ''quarantine''"
| "decision_value DecideReject = ''reject''"

fun decision_upper :: "reviewer_decision \<Rightarrow> string" where
  "decision_upper DecideCertify = ''CERTIFY''"
| "decision_upper DecideQuarantine = ''QUARANTINE''"
| "decision_upper DecideReject = ''REJECT''"

fun decision_action :: "reviewer_decision \<Rightarrow> governance_action" where
  "decision_action DecideCertify = GCertify"
| "decision_action DecideQuarantine = GQuarantine"
| "decision_action DecideReject = GReject"

text \<open>
  \<open>payload.note.strip() or payload.reason_code.value\<close>. The request model asks for at least three characters,
  so a note of one or two is a validation error no clause catches.
\<close>

definition review_governance ::
  "judge_run \<Rightarrow> principal \<Rightarrow> governance_action \<Rightarrow> string \<Rightarrow> review_reason \<Rightarrow> api_error + governance_request" where
  "review_governance run p action note code =
     (let q = \<lparr>gr_tenant = jn_tenant run, gr_actor = id_subject p, gr_action = action,
            gr_reason = (if py_strip note = [] then review_reason_value code else py_strip note), gr_code = code,
            gr_replacement = None\<rparr>
      in if valid_governance_request q then Inr q else Inl (Unhandled (TxService RecordInvalid)))"

definition review_subject :: "mem_store \<Rightarrow> judge_run \<Rightarrow> memory \<Rightarrow> string \<Rightarrow> tx_error + memory" where
  "review_subject s run scoped digest = (case get_memory s (mm_id scoped) (jn_tenant run) of
     None \<Rightarrow> Inl TxReviewTarget
   | Some m \<Rightarrow> (case mm_digest m of
       None \<Rightarrow> Inl TxReviewTarget
     | Some d \<Rightarrow> (case compare_digest d digest of
         Inl e \<Rightarrow> Inl (TxAuth e) | Inr same \<Rightarrow> if same then Inr m else Inl TxReviewTarget)))"

definition governed_or_stale :: "uuid \<Rightarrow> governance_request \<Rightarrow> uuid \<Rightarrow> time \<Rightarrow> (api_state, tx_error, memory) sx" where
  "governed_or_stale mid q eid now =
     bind_s (with_store (in_store (govern_memory mid q eid now))) (\<lambda>g. case g of
       None \<Rightarrow> raise_s TxReviewTarget | Some m \<Rightarrow> return_s m)"

definition disposition_atomically ::
  "judge_settings \<Rightarrow> judge_run \<Rightarrow> review_handoff \<Rightarrow> memory \<Rightarrow> workflow_snapshot \<Rightarrow> principal \<Rightarrow> disposition_request
     \<Rightarrow> governance_request \<Rightarrow> uuid \<Rightarrow> stamp \<Rightarrow> (api_state, tx_error, memory \<times> workflow_snapshot \<times> uuid) sx" where
  "disposition_atomically cfg run h scoped w p q g eid st =
     bind_s (tx_read (\<lambda>s. bind_r (review_subject (ax_store s) run scoped (dq_digest q)) (\<lambda>m.
        if mm_state m \<noteq> MPendingReview then Inl TxReviewTarget else Inr m))) (\<lambda>m.
     bind_s (tx_validate (move (ho_workflow h) (jn_tenant run) (wf_epoch w) PENDING_REVIEW REVIEWED UI (id_subject p) ''reviewer'')) (\<lambda>_.
     bind_s (governed_or_stale (mm_id m) g eid (sp_now st)) (\<lambda>gov.
     bind_s (tx_digest (content_digest (pr_jcs (se_providers (jt_api cfg))) ''recallops-review-decision-v1'' (JObj
         [(''run_id'', JStr (jn_id run)), (''generation'', JStr (str_int (jn_generation run))),
          (''workflow_id'', JStr (ho_workflow h)), (''memory'', JStr (dq_digest q)), (''reviewer'', JStr (id_subject p)),
          (''decision'', JStr (decision_value (dq_decision q))), (''reason_code'', JStr (review_reason_value (dq_reason q))),
          (''note'', JStr (dq_note q))]))) (\<lambda>review.
     bind_s (tx_digest (content_digest (pr_jcs (se_providers (jt_api cfg))) ''recallops-review-binding-v1'' (JObj
         [(''disposition'', JStr (sha256_hex (decision_value (dq_decision q)))), (''memory'', JStr (dq_digest q)),
          (''review'', JStr review)]))) (\<lambda>binding.
     bind_s (tx_transition (se_externals (jt_api cfg))
        (about (''MEMORY_'' @ decision_upper (dq_decision q)) ''review_binding'' review binding
          (move (ho_workflow h) (jn_tenant run) (wf_epoch w) PENDING_REVIEW REVIEWED UI (id_subject p) ''reviewer'')) st) (\<lambda>completed.
     bind_s (with_coord (coord_request_receipt (Some (mem_led (se_externals (jt_api cfg)) (\<lambda>_. False))) (jn_id run) (jn_tenant run)
        (jt_receipt cfg) (sp_now st))) (\<lambda>receipt.
     return_s (gov, completed, receipt))))))))"

definition disposition_reviewer_evidence ::
  "judge_settings \<Rightarrow> judge_request \<Rightarrow> disposition_request \<Rightarrow> uuid \<Rightarrow> stamp \<Rightarrow> (memory \<times> workflow_snapshot \<times> uuid) judge_route" where
  "disposition_reviewer_evidence cfg r q eid st =
     bind_s (now_or (\<lambda>_. protected_request (jt_api cfg) (tr_base r))) (\<lambda>_.
     bind_s (reviewer_scope cfg (identity r) (Some InitialReview) (sp_now st)) (\<lambda>(run, h, scoped).
     bind_s (same_text (dq_digest q) (ho_digest h)) (\<lambda>same.
     bind_s (demand same 409 ''stale or mismatched memory digest'') (\<lambda>_.
     bind_s (now_or (\<lambda>z. case api_workflow (jz_api z) (ho_workflow h) (jn_tenant run) of
        None \<Rightarrow> Inl (Refused 404 ''review workflow not found'') | Some w \<Rightarrow> Inr w)) (\<lambda>w.
     bind_s (require_if_match r run w) (\<lambda>_.
     bind_s (now_or (\<lambda>_. review_governance run (identity r) (decision_action (dq_decision q)) (dq_note q) (dq_reason q))) (\<lambda>g.
     on_api (authority_transaction [ByGovernance, ByWorkflow]
       (disposition_atomically cfg run h scoped w (identity r) q g eid st)))))))))"

definition revoke_atomically ::
  "judge_run \<Rightarrow> review_handoff \<Rightarrow> memory \<Rightarrow> workflow_snapshot \<Rightarrow> revocation_request \<Rightarrow> governance_request \<Rightarrow> uuid \<Rightarrow> time
     \<Rightarrow> (api_state, tx_error, memory \<times> workflow_snapshot) sx" where
  "revoke_atomically run h scoped w q g eid now =
     bind_s (tx_read (\<lambda>s. case api_workflow s (ho_workflow h) (jn_tenant run) of
        None \<Rightarrow> Inl (TxCoord (CoordWorkflow StaleWorkflow))
      | Some c \<Rightarrow> if \<not> wf_active c \<or> wf_state c \<noteq> REVIEWED \<or> wf_epoch c \<noteq> wf_epoch w
          then Inl (TxCoord (CoordWorkflow StaleWorkflow)) else Inr c)) (\<lambda>current.
     bind_s (tx_read (\<lambda>s. bind_r (review_subject (ax_store s) run scoped (vq_digest q)) (\<lambda>m.
        if mm_state m \<noteq> MActive \<or> \<not> mm_valid m \<or> (case mm_expires_at m of None \<Rightarrow> False | Some e \<Rightarrow> e \<le> now)
        then Inl TxReviewTarget else Inr m))) (\<lambda>m.
     bind_s (governed_or_stale (mm_id m) g eid now) (\<lambda>gov. return_s (gov, current))))"

definition revoke_reviewer_evidence ::
  "judge_settings \<Rightarrow> judge_request \<Rightarrow> revocation_request \<Rightarrow> uuid \<Rightarrow> stamp \<Rightarrow> (memory \<times> workflow_snapshot) judge_route" where
  "revoke_reviewer_evidence cfg r q eid st =
     bind_s (now_or (\<lambda>_. protected_request (jt_api cfg) (tr_base r))) (\<lambda>_.
     bind_s (reviewer_scope cfg (identity r) (Some Revocation) (sp_now st)) (\<lambda>(run, h, scoped).
     bind_s (same_text (vq_digest q) (ho_digest h)) (\<lambda>same.
     bind_s (demand same 409 ''stale or mismatched memory digest'') (\<lambda>_.
     bind_s (now_or (\<lambda>z. case api_workflow (jz_api z) (ho_workflow h) (jn_tenant run) of
        None \<Rightarrow> Inl (Refused 404 ''review workflow not found'') | Some w \<Rightarrow> Inr w)) (\<lambda>w.
     bind_s (require_if_match r run w) (\<lambda>_.
     bind_s (now_or (\<lambda>_. review_governance run (identity r) GRevoke (vq_note q) (vq_reason q))) (\<lambda>g.
     on_api (authority_transaction [ByGovernance, ByWorkflow]
       (revoke_atomically run h scoped w q g eid (sp_now st))))))))))"

end
