(* ===== verification/Review.thy ===== *)
theory Review
  imports Judge_Api
begin

text \<open>
  What the judge routes promise: what an accepted disposition of evidence stood on and did, that a reviewer session
  comes from one handoff consumed once, that a keyed mutation of the agent happens at most once, and what
  the manifest offers. The lemmas about accepted calls carry the proofs.
\<close>

section \<open>Accepted calls\<close>

lemma demand_Inr [simp]: "demand b n d z = (Inr u, z') \<longleftrightarrow> b \<and> z' = z"
  by (auto simp: demand_def check_s_def)

lemma refuse_Inr [simp]: "refuse n d z \<noteq> (Inr a, z')"
  by (simp add: refuse_def raise_s_def)

lemma now_or_Inr [simp]: "now_or f z = (Inr a, z') \<longleftrightarrow> f z = Inr a \<and> z' = z"
  by (auto simp: now_or_def)

lemma return_s_Inr [simp]: "return_s a z = (Inr b, z') \<longleftrightarrow> b = a \<and> z' = z"
  by (auto simp: return_s_def)

lemma raise_s_Inr [simp]: "raise_s e z \<noteq> (Inr b, z')"
  by (simp add: raise_s_def)

lemma on_judges_Inr: "on_judges m z = (Inr a, z') \<longleftrightarrow> (\<exists>j. m (jz_judges z) = (Inr a, j) \<and> z' = z\<lparr>jz_judges := j\<rparr>)"
  by (auto simp: on_judges_def split: prod.splits sum.splits)

lemma on_sessions_Inr: "on_sessions m z = (Inr a, z') \<longleftrightarrow> (\<exists>j. m (jz_judges z) = (Inr a, j) \<and> z' = z\<lparr>jz_judges := j\<rparr>)"
  by (auto simp: on_sessions_def split: prod.splits sum.splits)

lemma on_api_Inr: "on_api m z = (Inr a, z') \<longleftrightarrow> (\<exists>s. m (jz_api z) = (Inr a, s) \<and> z' = z\<lparr>jz_api := s\<rparr>)"
  by (auto simp: on_api_def split: prod.splits)

lemma transaction_Inr: "authority_transaction cs m s = (Inr a, s') \<longleftrightarrow> m s = (Inr a, s')"
  by (auto simp: authority_transaction_def split: prod.splits sum.splits)

lemma same_text_Inr: "same_text a b z = (Inr c, z') \<longleftrightarrow> compare_digest a b = Inr c \<and> z' = z"
  by (auto simp: same_text_def split: sum.splits)

lemma same_digest_Inr: "same_digest a d z = (Inr c, z') \<longleftrightarrow> (\<exists>b. d = Some b \<and> compare_digest a b = Inr c \<and> z' = z)"
  by (auto simp: same_digest_def same_text_Inr split: option.splits)

lemma require_role_Inr: "require_role p role = Inr u \<longleftrightarrow> role \<in> id_roles p"
  by (auto simp: require_role_def require_def check_r_def split: sum.splits auth_error.splits)

lemma judge_digest_Inr: "judge_digest cfg dm v z = (Inr d, z') \<Longrightarrow> z' = z"
  by (simp add: judge_digest_def)

lemma tx_read_Inr [simp]: "tx_read f s = (Inr a, s') \<longleftrightarrow> f s = Inr a \<and> s' = s"
  by (auto simp: tx_read_def)

lemma tx_digest_Inr: "tx_digest d s = (Inr a, s') \<longleftrightarrow> d = Inr a \<and> s' = s"
  by (auto simp: tx_digest_def split: sum.splits)

lemma tx_validate_Inr: "tx_validate q s = (Inr w, s') \<longleftrightarrow>
    api_workflow s (tq_id q) (tq_tenant q) = Some w \<and> request_current q w \<and> s' = s"
proof -
  have "(case v of Inl e \<Rightarrow> Inl (TxCoord e) | Inr w \<Rightarrow> Inr w) = Inr w \<longleftrightarrow> v = Inr w" for v :: "coord_error + workflow_snapshot"
    by (auto split: sum.splits)
  moreover have "repo_get mem_repo = mem_get" by (simp add: mem_repo_def)
  ultimately show ?thesis by (simp add: tx_validate_def api_workflow_def validate_transition_iff)
qed

lemma tx_transition_Inr:
  assumes "tx_transition x q st s = (Inr w', s')"
  obtains w where "api_workflow s (tq_id q) (tq_tenant q) = Some w" "request_current q w"
    "w' = apply_request q (sp_now st) w" "ax_store s' = ax_store s"
    "\<And>i t. api_workflow s' i t = (if i = tq_id q \<and> t = tq_tenant q then Some w' else api_workflow s i t)"
proof -
  obtain c where c: "coord_transition mem_repo (Some (mem_led x (\<lambda>_. False))) (\<lambda>_. False) q (sp_now st) (sp_event st)
      (sp_recorded st) (ax_coord s) = (Inr w', c)" and s': "s' = s\<lparr>ax_coord := c\<rparr>"
    using assms by (auto simp: tx_transition_def with_coord_def split: sum.splits prod.splits)
  obtain w where v: "validate_transition mem_repo q (co_workflows (ax_coord s)) = Inr w"
    using c by (auto simp: coord_transition_def split: sum.splits)
  then have w: "co_workflows (ax_coord s) (tq_tenant q, tq_id q) = Some w" "request_current q w"
    unfolding validate_transition_iff by (simp_all add: mem_repo_def mem_get_def)
  then have cur: "wf_active w" "wf_epoch w = tq_epoch q" "wf_state w = tq_expected q"
    by (simp_all add: request_current_def current_at_def)
  have step: "mem_transition (tq_id q) (tq_tenant q) (tq_epoch q) (tq_expected q) (tq_target q)
       (if tq_role q = ''operator'' then Some (tq_actor q) else None)
       (if tq_role q = ''reviewer'' then Some (tq_actor q) else None) (sp_now st) (co_workflows (ax_coord s)) =
     (Inr (apply_request q (sp_now st) w), (co_workflows (ax_coord s))((tq_tenant q, tq_id q) \<mapsto> apply_request q (sp_now st) w))"
    using w cur by (simp add: mem_transition_def apply_request_def advance_def Let_def)
  have "w' = apply_request q (sp_now st) w \<and>
      co_workflows c = (co_workflows (ax_coord s))((tq_tenant q, tq_id q) \<mapsto> apply_request q (sp_now st) w)"
    using c v step w(1) by (auto simp: coord_transition_def mem_repo_def mem_get_def commit_event_def split: sum.splits prod.splits)
  with w show thesis
    by (intro that [of w]) (auto simp: api_workflow_def mem_get_def s')
qed

lemma governed_Inr:
  assumes "governed_or_stale i q eid now s = (Inr m', s')"
  obtains m t where "get_memory (ax_store s) i (gr_tenant q) = Some m" "governance_target m q (ms_memories (ax_store s)) now = Inr t"
    "m' = governed t q now m" "ms_memories (ax_store s') = replace_first m m' (ms_memories (ax_store s))"
    "ax_coord s' = ax_coord s"
    "\<exists>e. ms_events (ax_store s') = ms_events (ax_store s) @ [e] \<and> me_memory e = mm_id m \<and> me_actor e = gr_actor q \<and> me_to e = t"
proof -
  obtain st where g: "govern_memory i q eid now (ax_store s) = (Inr (Some m'), st)" and s': "s' = s\<lparr>ax_store := st\<rparr>"
    using assms by (auto simp: governed_or_stale_def bind_s_Inr_iff with_store_def in_store_def split: sum.splits prod.splits option.splits)
  obtain m t where "get_memory (ax_store s) i (gr_tenant q) = Some m" "governance_target m q (ms_memories (ax_store s)) now = Inr t"
    "m' = governed t q now m"
    using g by (auto simp: govern_memory_def Let_def split: option.splits sum.splits if_splits)
  then show thesis using g
    by (intro that [of m t]) (auto simp: govern_memory_def Let_def s' governance_event_def split: option.splits if_splits)
qed

lemma current_run_Inr:
  assumes "current_run cfg p now z = (Inr run, z')"
  obtains i where "id_run p = Some i" "jn_tenant run = id_tenant p" "Some (jn_generation run) = id_generation p"
    "jn_status run = RunActive" "se_judge (jt_api cfg)" "map_of (mj_runs (jz_judges z)) i = Some run"
    "\<exists>runs. z' = z\<lparr>jz_judges := (jz_judges z)\<lparr>mj_runs := runs\<rparr>\<rparr>" "now < jn_expires run"
proof -
  obtain i found j where r: "se_judge (jt_api cfg)" "id_run p = Some i" "mem_get_run i now (jz_judges z) = (Inr found, j)"
    and f: "found = Some run" "jn_tenant run = id_tenant p" "Some (jn_generation run) = id_generation p" "jn_status run = RunActive"
      "z' = z\<lparr>jz_judges := j\<rparr>"
    using assms by (auto simp: current_run_def bind_s_Inr_iff on_judges_Inr split: option.splits if_splits)
  obtain r0 where r0: "map_of (mj_runs (jz_judges z)) i = Some r0" "run = expire_run now r0"
    and j: "j = (jz_judges z)\<lparr>mj_runs := AList.update i run (mj_runs (jz_judges z))\<rparr>"
    using r(3) f(1) by (auto simp: mem_get_run_def split: option.splits)
  have live: "r0 = run" "now < jn_expires run"
    using f(4) r0(2) by (auto simp: expire_run_def split: if_splits)
  have runs: "\<exists>runs. z' = z\<lparr>jz_judges := (jz_judges z)\<lparr>mj_runs := runs\<rparr>\<rparr>" using f(5) j by blast
  show thesis by (rule that [OF r(2) f(2-4) r(1) r0(1) [unfolded live] runs live(2)])
qed

section \<open>The scope of a reviewer\<close>

text \<open>The authority a reviewer session carries: its live run, its consumed handoff, and the memory that handoff names.\<close>

definition review_authority ::
  "judge_settings \<Rightarrow> judge_state \<Rightarrow> principal \<Rightarrow> handoff_purpose \<Rightarrow> time \<Rightarrow> judge_run \<Rightarrow> review_handoff \<Rightarrow> memory \<Rightarrow> bool" where
  "review_authority cfg z p purpose now run h m \<longleftrightarrow>
     ''reviewer'' \<in> id_roles p \<and>
     (\<exists>code. id_handoff p = Some code \<and> mj_handoffs (jz_judges z) code = Some h) \<and>
     ho_consumed h \<noteq> None \<and> ho_revoked h = None \<and> now < ho_expires h \<and> ho_purpose h = purpose \<and>
     (\<exists>i. id_run p = Some i \<and> map_of (mj_runs (jz_judges z)) i = Some run) \<and>
     jn_status run = RunActive \<and> now < jn_expires run \<and> jn_tenant run = id_tenant p \<and> Some (jn_generation run) = id_generation p \<and>
     ho_run h = jn_id run \<and> ho_tenant h = jn_tenant run \<and>
     get_memory (judge_store z) (ho_memory h) (jn_tenant run) = Some m \<and> mm_source_incident m = Some (ho_workflow h) \<and>
     mm_digest m = Some (ho_digest h) \<and>
     id_subject p \<noteq> jn_operator run \<and> id_subject p \<noteq> ho_issuer h \<and> mm_observed_by m \<noteq> Some (id_subject p)"

lemma scoped_memory_Inr:
  assumes "scoped_memory run h z = (Inr m, z')"
  shows "get_memory (judge_store z) (ho_memory h) (jn_tenant run) = Some m \<and> mm_source_incident m = Some (ho_workflow h) \<and>
    mm_digest m = Some (ho_digest h) \<and> z' = z"
  using assms
  by (auto simp: scoped_memory_def bind_s_Inr_iff same_digest_Inr compare_digest_Inr split: option.splits if_splits)

lemma reviewer_scope_Inr:
  assumes "reviewer_scope cfg p (Some purpose) now z = (Inr (run, h, m), z')"
  shows "review_authority cfg z p purpose now run h m \<and> jz_api z' = jz_api z"
proof -
  note run' = assms [unfolded reviewer_scope_def bind_s_Inr_iff]
  obtain code z1 where c: "''reviewer'' \<in> id_roles p" "id_handoff p = Some code" "mj_handoffs (jz_judges z) code = Some h"
    "handoff_valid now (Some purpose) h" and r: "current_run cfg p now z = (Inr run, z1)"
    and k: "ho_run h = jn_id run" "ho_tenant h = jn_tenant run" "scoped_memory run h z1 = (Inr m, z')"
    "id_subject p \<noteq> jn_operator run" "id_subject p \<noteq> ho_issuer h" "Some (id_subject p) \<noteq> mm_observed_by m"
    using run'
    by (auto simp: require_role_Inr bind_s_Inr_iff mem_get_handoff_def split: option.splits dest: scoped_memory_Inr)
  obtain i where i: "id_run p = Some i" "jn_tenant run = id_tenant p" "Some (jn_generation run) = id_generation p"
    "jn_status run = RunActive" "map_of (mj_runs (jz_judges z)) i = Some run" "jz_api z1 = jz_api z" "now < jn_expires run"
    using current_run_Inr [OF r] by (metis judge_state.select_convs(1) judge_state.surjective judge_state.update_convs(2))
  note m = scoped_memory_Inr [OF k(3)]
  show ?thesis
    unfolding review_authority_def using c i k m by (auto simp: handoff_valid_def)
qed

section \<open>What a disposition did\<close>

lemma review_governance_Inr:
  assumes "review_governance run p action note code = Inr q"
  shows "gr_tenant q = jn_tenant run \<and> gr_actor q = id_subject p \<and> gr_action q = action \<and> gr_code q = code \<and> id_subject p \<noteq> []"
  using assms by (auto simp: review_governance_def valid_governance_request_def sized_def ulen_def Let_def split: if_splits)

lemma review_subject_Inr:
  assumes "review_subject s run scoped digest = Inr m"
  shows "get_memory s (mm_id scoped) (jn_tenant run) = Some m \<and> mm_digest m = Some digest"
  using assms by (auto simp: review_subject_def compare_digest_Inr split: option.splits sum.splits if_splits)

lemma request_receipt_Inr:
  assumes "with_coord (coord_request_receipt (Some (mem_led x fault)) run t args now) s = (Inr rid, s')"
  shows "ax_store s' = ax_store s \<and> api_workflow s' = api_workflow s \<and>
    rid \<in> fst ` set (ml_requests (co_ledger (ax_coord s')))"
  using assms
  by (auto simp: with_coord_def coord_request_receipt_def Let_def mem_led_def mem_request_def api_workflow_def fun_eq_iff
      split: sum.splits prod.splits if_splits)

lemma if_match_Inr: "if_match r run w = Inr u \<Longrightarrow> tr_if_match r = Some (expected_match run w)"
  by (auto simp: if_match_def compare_digest_Inr split: option.splits sum.splits)

lemma require_if_match_Inr: "require_if_match r run w z = (Inr u, z') \<Longrightarrow> tr_if_match r = Some (expected_match run w) \<and> z' = z"
  by (auto simp: require_if_match_def dest: if_match_Inr split: sum.splits)

text \<open>The change of one memory under a permitted governance action, with its event.\<close>

definition governed_once :: "mem_store \<Rightarrow> mem_store \<Rightarrow> memory \<Rightarrow> memory \<Rightarrow> governance_action \<Rightarrow> string \<Rightarrow> bool" where
  "governed_once s s' m m' action actor \<longleftrightarrow>
     lifecycle_edge (mm_state m) (action_target action) \<and> mm_state m' = action_target action \<and> same_evidence m m' \<and>
     mm_reviewed_by m' = Some actor \<and> mm_governance_version m' = mm_governance_version m + 1 \<and>
     ms_memories s' = replace_first m m' (ms_memories s) \<and>
     (\<exists>e. ms_events s' = ms_events s @ [e] \<and> me_memory e = mm_id m \<and> me_actor e = actor \<and> me_to e = mm_state m')"

lemma governed_or_stale_once:
  assumes "governed_or_stale i q eid now s = (Inr m', s')"
  obtains m where "get_memory (ax_store s) i (gr_tenant q) = Some m"
    "governed_once (ax_store s) (ax_store s') m m' (gr_action q) (gr_actor q)" "ax_coord s' = ax_coord s"
    "gr_action q = GCertify \<Longrightarrow> mm_semantics m \<noteq> Some OutcomeInconclusive \<and> gr_code q = EVIDENCE_ACCEPTED"
proof -
  obtain m t where g: "get_memory (ax_store s) i (gr_tenant q) = Some m" "governance_target m q (ms_memories (ax_store s)) now = Inr t"
    "m' = governed t q now m" "ms_memories (ax_store s') = replace_first m m' (ms_memories (ax_store s))"
    "ax_coord s' = ax_coord s"
    "\<exists>e. ms_events (ax_store s') = ms_events (ax_store s) @ [e] \<and> me_memory e = mm_id m \<and> me_actor e = gr_actor q \<and> me_to e = t"
    using governed_Inr [OF assms] by metis
  have edge: "lifecycle_edge (mm_state m) t" "t = action_target (gr_action q)" using governance_target_edge [OF g(2)] by blast+
  have certified: "mm_semantics m \<noteq> Some OutcomeInconclusive \<and> gr_code q = EVIDENCE_ACCEPTED" if "gr_action q = GCertify"
    using g(2) that by (auto simp: governance_target_def Let_def split: if_splits)
  show thesis
  proof (rule that [OF g(1) _ g(5) certified])
    show "governed_once (ax_store s) (ax_store s') m m' (gr_action q) (gr_actor q)"
      unfolding governed_once_def
      using g(3,4,6) edge same_evidence_governed [of m t q now] by (simp add: governed_def)
  qed
qed

lemma disposition_atomically_Inr:
  assumes run: "disposition_atomically cfg run h scoped w p q g eid st s = (Inr (m', w', receipt), s')"
    and g: "gr_tenant g = jn_tenant run" "gr_actor g = id_subject p" "id_subject p \<noteq> []"
  obtains m where "get_memory (ax_store s) (mm_id scoped) (jn_tenant run) = Some m" "mm_digest m = Some (dq_digest q)"
    "mm_state m = MPendingReview" "governed_once (ax_store s) (ax_store s') m m' (gr_action g) (gr_actor g)"
    "gr_action g = GCertify \<Longrightarrow> mm_semantics m \<noteq> Some OutcomeInconclusive \<and> gr_code g = EVIDENCE_ACCEPTED"
    "\<exists>v. api_workflow s (ho_workflow h) (jn_tenant run) = Some v \<and> wf_active v \<and> wf_state v = PENDING_REVIEW \<and>
       wf_epoch v = wf_epoch w \<and> wf_operator v \<noteq> Some (id_subject p)"
    "wf_state w' = REVIEWED" "wf_reviewer w' = Some (id_subject p)" "wf_epoch w' = wf_epoch w + 1"
    "\<And>i t. api_workflow s' i t = (if i = ho_workflow h \<and> t = jn_tenant run then Some w' else api_workflow s i t)"
    "receipt \<in> fst ` set (ml_requests (co_ledger (ax_coord s')))"
proof -
  note run' = run [unfolded disposition_atomically_def bind_s_Inr_iff]
  obtain m v s1 s2 reason kind oid d where m: "review_subject (ax_store s) run scoped (dq_digest q) = Inr m" "mm_state m = MPendingReview"
    and v: "api_workflow s (ho_workflow h) (jn_tenant run) = Some v"
      "request_current (move (ho_workflow h) (jn_tenant run) (wf_epoch w) PENDING_REVIEW REVIEWED UI (id_subject p) ''reviewer'') v"
    and gov: "governed_or_stale (mm_id m) g eid (sp_now st) s = (Inr m', s1)"
    and tr: "tx_transition (se_externals (jt_api cfg)) (about reason kind oid d
       (move (ho_workflow h) (jn_tenant run) (wf_epoch w) PENDING_REVIEW REVIEWED UI (id_subject p) ''reviewer'')) st s1 = (Inr w', s2)"
    and rec: "with_coord (coord_request_receipt (Some (mem_led (se_externals (jt_api cfg)) (\<lambda>_. False))) (jn_id run) (jn_tenant run)
        (jt_receipt cfg) (sp_now st)) s2 = (Inr receipt, s')"
    using run' by (elim exE conjE) (auto simp: tx_validate_Inr tx_digest_Inr bind_r_Inr split: if_splits)
  obtain n where n: "get_memory (ax_store s) (mm_id m) (gr_tenant g) = Some n"
    "governed_once (ax_store s) (ax_store s1) n m' (gr_action g) (gr_actor g)" "ax_coord s1 = ax_coord s"
    "gr_action g = GCertify \<Longrightarrow> mm_semantics n \<noteq> Some OutcomeInconclusive \<and> gr_code g = EVIDENCE_ACCEPTED"
    using governed_or_stale_once [OF gov] by metis
  note sub = review_subject_Inr [OF m(1)]
  have "mm_id m = mm_id scoped"
    using sub find_Some_conj [of "\<lambda>x. mm_id x = mm_id scoped \<and> mm_tenant x = jn_tenant run"] by (simp add: get_memory_def find_Some_iff) blast
  then have nm: "n = m" using n(1) g(1) sub by simp
  have wf1: "api_workflow s1 = api_workflow s" using n(3) by (simp add: api_workflow_def fun_eq_iff)
  obtain u where u: "api_workflow s1 (ho_workflow h) (jn_tenant run) = Some u"
    "w' = apply_request (about reason kind oid d (move (ho_workflow h) (jn_tenant run) (wf_epoch w) PENDING_REVIEW REVIEWED UI (id_subject p) ''reviewer'')) (sp_now st) u"
    "ax_store s2 = ax_store s1"
    "\<And>i t. api_workflow s2 i t = (if i = ho_workflow h \<and> t = jn_tenant run then Some w' else api_workflow s1 i t)"
    by (rule tx_transition_Inr [OF tr]) simp_all
  have uv: "u = v" using u(1) v(1) wf1 by simp
  have cur: "wf_active v" "wf_state v = PENDING_REVIEW" "wf_epoch v = wf_epoch w" "wf_operator v \<noteq> Some (id_subject p)"
    using v(2) by (auto simp: request_current_def current_at_def move_def)
  have w': "wf_state w' = REVIEWED" "wf_reviewer w' = Some (id_subject p)" "wf_epoch w' = wf_epoch w + 1"
    using u(2) uv cur g(3) by (simp_all add: apply_request_def move_def advance_def py_or_def)
  note rec' = request_receipt_Inr [OF rec]
  show thesis
    using that [of m] sub m(2) n(2,4) nm v(1) cur w' u(3,4) wf1 rec' by simp
qed

text \<open>A protected request of the judge deployment comes from its origin with the CSRF token of its session.\<close>

definition from_session :: "judge_settings \<Rightarrow> judge_request \<Rightarrow> bool" where
  "from_session cfg r \<longleftrightarrow> se_judge (jt_api cfg) \<and> rx_origin (tr_base r) = Some (se_origin (jt_api cfg)) \<and>
     (\<exists>t. rx_csrf (tr_base r) = Some t \<and> id_csrf (identity r) = Some (sha256_hex t))"

lemma validate_csrf_Inr: "validate_csrf p token = Inr u \<Longrightarrow> \<exists>t. token = Some t \<and> id_csrf p = Some (sha256_hex t)"
  by (auto simp: validate_csrf_def compare_digest_def split: option.splits if_splits sum.splits)

lemma protected_Inr:
  assumes "protected_request (jt_api cfg) (tr_base r) = Inr u" "se_judge (jt_api cfg)"
  shows "from_session cfg r"
  using assms by (auto simp: protected_request_def from_session_def dest: validate_csrf_Inr split: if_splits sum.splits auth_error.splits)

lemma scope_judge: "reviewer_scope cfg p pu now z = (Inr rhm, z') \<Longrightarrow> se_judge (jt_api cfg)"
proof -
  assume scope: "reviewer_scope cfg p pu now z = (Inr rhm, z')"
  then obtain run z1 z2 where "current_run cfg p now z1 = (Inr run, z2)"
    unfolding reviewer_scope_def bind_s_Inr_iff
    by (auto simp: bind_s_Inr_iff split: option.splits)
  then show "se_judge (jt_api cfg)" by (rule current_run_Inr)
qed

lemma same_memory:
  assumes "review_authority cfg z p pu now run h m" "get_memory (judge_store z) (mm_id m) (jn_tenant run) = Some m'"
  shows "m' = m"
proof -
  have found: "List.find (\<lambda>x. mm_id x = ho_memory h \<and> mm_tenant x = jn_tenant run) (ms_memories (judge_store z)) = Some m"
    using assms(1) unfolding review_authority_def get_memory_def by blast
  then have "mm_id m = ho_memory h" by (auto simp: find_Some_iff)
  then show ?thesis using found assms(2) by (simp add: get_memory_def)
qed

text \<open>
  C4. Independent review. An accepted disposition came from the origin of the deployment with the CSRF token of its
  session, under a reviewer session of a live run whose handoff was consumed, unrevoked, unexpired and for an initial
  review; the reviewer is neither the operator of the run, nor who issued the handoff, nor who observed the outcome,
  nor the operator the workflow names. It presented the digest of exactly the memory the handoff binds, which was pending
  review, and the current generation and epoch; it changed that memory once, by an edge of the lifecycle and with its
  event, leaving the evidence as it was; certification needed conclusive evidence; and it moved exactly that workflow,
  from pending review to reviewed by that reviewer, with a receipt requested.
\<close>

theorem disposition_independent:
  assumes "disposition_reviewer_evidence cfg r q eid st z = (Inr (m', w', receipt), z')"
  shows "from_session cfg r \<and>
    (\<exists>run h m w. review_authority cfg z (identity r) InitialReview (sp_now st) run h m \<and> dq_digest q = ho_digest h \<and>
      mm_state m = MPendingReview \<and>
      governed_once (judge_store z) (judge_store z') m m' (decision_action (dq_decision q)) (id_subject (identity r)) \<and>
      (dq_decision q = DecideCertify \<longrightarrow> mm_semantics m \<noteq> Some OutcomeInconclusive \<and> dq_reason q = EVIDENCE_ACCEPTED) \<and>
      api_workflow (jz_api z) (ho_workflow h) (jn_tenant run) = Some w \<and> wf_active w \<and> wf_state w = PENDING_REVIEW \<and>
      wf_operator w \<noteq> Some (id_subject (identity r)) \<and> tr_if_match r = Some (expected_match run w) \<and>
      wf_state w' = REVIEWED \<and> wf_reviewer w' = Some (id_subject (identity r)) \<and> wf_epoch w' = wf_epoch w + 1 \<and>
      (\<forall>i t. api_workflow (jz_api z') i t =
        (if i = ho_workflow h \<and> t = jn_tenant run then Some w' else api_workflow (jz_api z) i t)) \<and>
      receipt \<in> fst ` set (ml_requests (co_ledger (ax_coord (jz_api z')))))"
proof -
  note run' = assms [unfolded disposition_reviewer_evidence_def bind_s_Inr_iff]
  obtain u run h scoped z1 w g s where prot: "protected_request (jt_api cfg) (tr_base r) = Inr u"
    and scope: "reviewer_scope cfg (identity r) (Some InitialReview) (sp_now st) z = (Inr (run, h, scoped), z1)"
    and dig: "dq_digest q = ho_digest h" and w: "api_workflow (jz_api z1) (ho_workflow h) (jn_tenant run) = Some w"
    and im: "tr_if_match r = Some (expected_match run w)"
    and g: "review_governance run (identity r) (decision_action (dq_decision q)) (dq_note q) (dq_reason q) = Inr g"
    and tx: "disposition_atomically cfg run h scoped w (identity r) q g eid st (jz_api z1) = (Inr (m', w', receipt), s)"
    and z': "z' = z1\<lparr>jz_api := s\<rparr>"
    using run' by (auto simp: bind_s_Inr_iff same_text_Inr compare_digest_Inr on_api_Inr transaction_Inr
      dest!: require_if_match_Inr split: option.splits)
  note auth = reviewer_scope_Inr [OF scope, THEN conjunct1]
  have api: "jz_api z1 = jz_api z" using reviewer_scope_Inr [OF scope] by blast
  note gr = review_governance_Inr [OF g]
  obtain m where m: "get_memory (judge_store z) (mm_id scoped) (jn_tenant run) = Some m"
    "mm_state m = MPendingReview" "governed_once (judge_store z) (ax_store s) m m' (gr_action g) (gr_actor g)"
    "gr_action g = GCertify \<Longrightarrow> mm_semantics m \<noteq> Some OutcomeInconclusive \<and> gr_code g = EVIDENCE_ACCEPTED"
    "\<exists>v. api_workflow (jz_api z) (ho_workflow h) (jn_tenant run) = Some v \<and> wf_active v \<and> wf_state v = PENDING_REVIEW \<and>
       wf_epoch v = wf_epoch w \<and> wf_operator v \<noteq> Some (id_subject (identity r))"
    "wf_state w' = REVIEWED" "wf_reviewer w' = Some (id_subject (identity r))" "wf_epoch w' = wf_epoch w + 1"
    "\<And>i t. api_workflow s i t = (if i = ho_workflow h \<and> t = jn_tenant run then Some w' else api_workflow (jz_api z) i t)"
    "receipt \<in> fst ` set (ml_requests (co_ledger (ax_coord s)))"
    by (rule disposition_atomically_Inr [OF tx, unfolded api]) (use gr in auto)
  have "m = scoped" by (rule same_memory [OF auth m(1)])
  then have auth: "review_authority cfg z (identity r) InitialReview (sp_now st) run h m" using auth by simp
  have "dq_decision q = DecideCertify \<Longrightarrow> mm_semantics m \<noteq> Some OutcomeInconclusive \<and> dq_reason q = EVIDENCE_ACCEPTED"
    using m(4) gr by simp
  with m auth dig w im gr show ?thesis
    by (intro conjI exI [of _ run] exI [of _ h] exI [of _ m] exI [of _ w] protected_Inr [OF prot scope_judge [OF scope]])
      (auto simp: z' api)
qed

section \<open>A review, concretely\<close>

definition rev_digest :: string where "rev_digest = replicate 64 (CHR ''a'')"

definition rev_memory :: memory where
  "rev_memory = sample_memory\<lparr>mm_state := MPendingReview, mm_valid := False, mm_digest := Some rev_digest\<rparr>"

definition rev_run :: judge_run where
  "rev_run = \<lparr>jn_id = ''r1'', jn_tenant = ''acme'', jn_generation = 1, jn_scenario = ''s1'', jn_incident = ''i1'', jn_status = RunActive,
     jn_operator = ''operator_a'', jn_build = ''b1'', jn_policy = ''p1'', jn_created = 0, jn_expires = 100, jn_finalized = None, jn_reset = None\<rparr>"

definition rev_handoff :: review_handoff where
  "rev_handoff = \<lparr>ho_code = ''c1'', ho_run = ''r1'', ho_tenant = ''acme'', ho_workflow = ''i1'', ho_memory = ''m1'', ho_digest = rev_digest,
     ho_purpose = InitialReview, ho_issuer = ''operator_a'', ho_expires = 100, ho_consumed = Some 1, ho_revoked = None\<rparr>"

definition rev_principal :: principal where
  "rev_principal = \<lparr>id_subject = ''reviewer_b'', id_tenant = ''acme'', id_roles = {''reviewer''}, id_method = ''judge_session'',
     id_session = Some ''h1'', id_csrf = Some (sha256_hex ''csrf''), id_run = Some ''r1'', id_generation = Some 1, id_handoff = Some ''c1''\<rparr>"

definition rev_workflow :: workflow_snapshot where
  "rev_workflow = \<lparr>wf_id = ''i1'', wf_tenant = ''acme'', wf_state = PENDING_REVIEW, wf_epoch = 7, wf_active = True,
     wf_proposal_hash = None, wf_operator = Some ''operator_a'', wf_reviewer = None, wf_created = 0, wf_updated = 0\<rparr>"

definition rev_api :: api_state where
  "rev_api = \<lparr>ax_store = new_store [rev_memory],
     ax_coord = \<lparr>co_workflows = Map.empty((''acme'', ''i1'') \<mapsto> rev_workflow),
       co_ledger = mem_bind_run ''acme'' ''i1'' ''r1'' ''b1'' ''p1'' mem_ledger_empty\<rparr>\<rparr>"

definition rev_state :: judge_state where
  "rev_state = \<lparr>jz_api = rev_api, jz_judges = \<lparr>mj_sessions = Map.empty, mj_attempts = Map.empty, mj_runs = [(''r1'', rev_run)],
     mj_handoffs = Map.empty(''c1'' \<mapsto> rev_handoff)\<rparr>, jz_replies = Map.empty\<rparr>"

definition rev_settings :: judge_settings where
  "rev_settings = \<lparr>jt_api = demo_settings\<lparr>se_judge := True\<rparr>, jt_auth = \<lparr>jc_ttl = 600, jc_attempts = 8, jc_window = 300, jc_rate_key = ''k''\<rparr>,
     jt_run_limit = 5, jt_launch_limit = 5, jt_run_ttl = 600, jt_handoff_ttl = 300, jt_scenario = ''s1'', jt_build = ''b1'', jt_policy = ''p1'',
     jt_receipt = \<lparr>rc_policy = ''receipt-v1'', rc_image = ''sha256:0'', rc_evaluation = ''v1'', rc_synthetic = True, rc_public = True\<rparr>\<rparr>"

definition rev_request :: judge_request where
  "rev_request = \<lparr>tr_base = \<lparr>rx_identity = rev_principal, rx_epoch = None, rx_channel = None, rx_origin = Some ''https://recallops'',
     rx_csrf = Some ''csrf''\<rparr>, tr_if_match = Some (expected_match rev_run rev_workflow), tr_key = None, tr_content = None, tr_client = ''c''\<rparr>"

definition rev_payload :: disposition_request where
  "rev_payload = \<lparr>dq_decision = DecideCertify, dq_digest = rev_digest, dq_reason = EVIDENCE_ACCEPTED, dq_note = []\<rparr>"

lemma rev_digest_facts: "hex64 rev_digest" "list_all ascii_char rev_digest" "compare_digest rev_digest rev_digest = Inr True"
proof -
  show "hex64 rev_digest" by (simp add: rev_digest_def hex64_def list_all_iff lower_hex_def)
  then show "list_all ascii_char rev_digest" by (rule ascii_hex)
  then show "compare_digest rev_digest rev_digest = Inr True" by (simp add: compare_digest_def)
qed

lemma rev_run_simps [simp]:
  "jn_id rev_run = ''r1''" "jn_tenant rev_run = ''acme''" "jn_generation rev_run = 1" "jn_status rev_run = RunActive"
  "jn_operator rev_run = ''operator_a''" "jn_incident rev_run = ''i1''" "expire_run 5 rev_run = rev_run"
  by (simp_all add: rev_run_def expire_run_def)

lemma rev_current: "current_run rev_settings rev_principal 5 rev_state = (Inr rev_run, rev_state)"
proof -
  have got: "on_judges (mem_get_run ''r1'' 5) rev_state = (Inr (Some rev_run), rev_state)"
    by (simp add: on_judges_def mem_get_run_def rev_state_def)
  have p: "id_run rev_principal = Some ''r1''" "id_tenant rev_principal = ''acme''" "id_generation rev_principal = Some 1"
    "se_judge (jt_api rev_settings)"
    by (simp_all add: rev_principal_def rev_settings_def)
  show ?thesis by (simp add: current_run_def bind_s_def demand_def check_s_def p got return_s_def)
qed

lemma rev_scope: "reviewer_scope rev_settings rev_principal (Some InitialReview) 5 rev_state = (Inr (rev_run, rev_handoff, rev_memory), rev_state)"
proof -
  have got: "get_memory (judge_store rev_state) (ho_memory rev_handoff) ''acme'' = Some rev_memory"
    by (simp add: get_memory_def rev_state_def rev_api_def new_store_def)
      (simp add: rev_memory_def sample_memory_def rev_handoff_def rev_run_def)
  have mem: "mm_source_incident rev_memory = Some (ho_workflow rev_handoff)" "mm_digest rev_memory = Some rev_digest"
    "mm_observed_by rev_memory = Some ''op-1''" "ho_digest rev_handoff = rev_digest"
    by (simp_all add: rev_memory_def rev_handoff_def) (simp_all add: sample_memory_def)
  have scoped: "scoped_memory rev_run rev_handoff rev_state = (Inr rev_memory, rev_state)"
    by (simp add: scoped_memory_def got mem same_digest_def same_text_def rev_digest_facts bind_s_def now_or_def return_s_def)
  have role: "require_role rev_principal ''reviewer'' = Inr ()" "id_handoff rev_principal = Some ''c1''"
    "mem_get_handoff (jz_judges rev_state) ''c1'' = Some rev_handoff"
    by (simp_all add: require_role_def require_def check_r_def rev_principal_def mem_get_handoff_def rev_state_def)
  have ok: "handoff_valid 5 (Some InitialReview) rev_handoff" "ho_run rev_handoff = jn_id rev_run" "ho_tenant rev_handoff = jn_tenant rev_run"
    "id_subject rev_principal = ''reviewer_b''" "jn_operator rev_run = ''operator_a''" "ho_issuer rev_handoff = ''operator_a''"
    by (simp_all add: handoff_valid_def rev_handoff_def rev_run_def rev_principal_def)
  show ?thesis
    by (simp add: reviewer_scope_def bind_s_def now_or_def role demand_def check_s_def ok rev_current scoped mem return_s_def)
qed

lemma tx_transition_run:
  assumes w: "co_workflows (ax_coord s) (tq_tenant q, tq_id q) = Some w" "request_current q w"
    and led: "mem_append x (\<lambda>_. False) w (apply_request q (sp_now st) w) (transition_note q) (sp_event st) (sp_recorded st)
      (co_ledger (ax_coord s)) = (Inr e, l)"
  shows "\<exists>s'. tx_transition x q st s = (Inr (apply_request q (sp_now st) w), s') \<and> co_ledger (ax_coord s') = l"
proof -
  have val: "validate_transition mem_repo q (co_workflows (ax_coord s)) = Inr w"
    unfolding validate_transition_iff using w by (simp add: mem_repo_def mem_get_def)
  have get: "repo_get mem_repo (co_workflows (ax_coord s)) (tq_id q) (tq_tenant q) = Some w" using w by (simp add: mem_repo_def mem_get_def)
  have cur: "wf_active w" "wf_epoch w = tq_epoch q" "wf_state w = tq_expected q"
    using w(2) by (simp_all add: request_current_def current_at_def)
  have step: "repo_transition mem_repo (tq_id q) (tq_tenant q) (tq_epoch q) (tq_expected q) (tq_target q)
       (if tq_role q = ''operator'' then Some (tq_actor q) else None)
       (if tq_role q = ''reviewer'' then Some (tq_actor q) else None) (sp_now st) (co_workflows (ax_coord s)) =
     (Inr (apply_request q (sp_now st) w), (co_workflows (ax_coord s))((tq_tenant q, tq_id q) \<mapsto> apply_request q (sp_now st) w))"
    using w cur by (simp add: mem_repo_def mem_transition_def apply_request_def advance_def Let_def)
  have "led_append (mem_led x (\<lambda>_. False)) = mem_append x (\<lambda>_. False)" by (simp add: mem_led_def)
  then show ?thesis
    using led by (simp add: tx_transition_def with_coord_def coord_transition_def val get step commit_event_def)
qed

lemma led_append_bound:
  assumes "ml_runs l (wf_tenant before, wf_id before) = Some (run, build, policy)" "ml_events l (wf_tenant before, run) = None"
    and "valid_event (event_draft run build policy 1 zero_event_hash before after nt eid now)"
  obtains e where "mem_append x (\<lambda>_. False) before after nt eid now l =
      (Inr (Some e), l\<lparr>ml_events := (ml_events l)((wf_tenant before, run) \<mapsto> [e])\<rparr>)"
    "ev_state_after e = state_value (wf_state after)" "ev_run e = run" "ev_tenant e = wf_tenant before"
proof -
  let ?d = "event_draft run build policy 1 zero_event_hash before after nt eid now"
  have "hex64 zero_event_hash" by simp
  then obtain h where "authority_event_hash x zero_event_hash (event_payload x ?d) = Inr h" using event_hash_ok by blast
  then obtain e where e: "make_event x run build policy 1 zero_event_hash before after nt eid now = Inr e"
    using assms(3) by (simp add: make_event_def Let_def)
  have "mem_append x (\<lambda>_. False) before after nt eid now l =
      (Inr (Some e), l\<lparr>ml_events := (ml_events l)((wf_tenant before, run) \<mapsto> [e])\<rparr>)"
    using assms(1,2) e by (simp add: mem_append_def Let_def)
  then show thesis using that make_event_facts [OF e] by blast
qed

lemma bind_s_run: "m s = (Inr a, s1) \<Longrightarrow> f a s1 = r \<Longrightarrow> bind_s m f s = r"
  by (simp add: bind_s_def)

lemma rev_disposed:
  assumes g: "review_governance rev_run rev_principal GCertify [] EVIDENCE_ACCEPTED = Inr g"
  shows "\<exists>m' w' receipt s. disposition_atomically rev_settings rev_run rev_handoff rev_memory rev_workflow rev_principal rev_payload g ''g1''
      \<lparr>sp_now = 5, sp_event = ''e1'', sp_recorded = 5\<rparr> rev_api = (Inr (m', w', receipt), s)"
proof -
  let ?mv = "move (ho_workflow rev_handoff) (jn_tenant rev_run) (wf_epoch rev_workflow) PENDING_REVIEW REVIEWED UI (id_subject rev_principal) ''reviewer''"
  have h: "ho_workflow rev_handoff = ''i1''" "wf_epoch rev_workflow = 7" "id_subject rev_principal = ''reviewer_b''"
    by (simp_all add: rev_handoff_def rev_workflow_def rev_principal_def)
  have m: "mm_id rev_memory = ''m1''" "mm_tenant rev_memory = ''acme''" "mm_state rev_memory = MPendingReview" "mm_digest rev_memory = Some rev_digest"
    "mm_semantics rev_memory = Some OutcomePositive" "mm_observed_by rev_memory = Some ''op-1''" "dq_digest rev_payload = rev_digest"
    by (simp_all add: rev_memory_def rev_payload_def) (simp_all add: sample_memory_def)
  have got: "get_memory (ax_store rev_api) ''m1'' ''acme'' = Some rev_memory"
    by (simp add: rev_api_def get_memory_def new_store_def m)
  have subject: "review_subject (ax_store rev_api) rev_run rev_memory rev_digest = Inr rev_memory"
    by (simp add: review_subject_def m got rev_digest_facts)
  have cur: "request_current ?mv rev_workflow"
    by (simp add: request_current_def current_at_def move_def h) (simp add: rev_workflow_def)
  have val: "tx_validate ?mv rev_api = (Inr rev_workflow, rev_api)"
    unfolding tx_validate_Inr using cur by (simp add: h) (simp add: api_workflow_def mem_get_def rev_api_def)
  have gs: "gr_tenant g = ''acme''" "gr_actor g = ''reviewer_b''" "gr_action g = GCertify" "gr_code g = EVIDENCE_ACCEPTED" "gr_replacement g = None"
    using g by (auto simp: review_governance_def h Let_def split: if_splits)
  have target: "governance_target rev_memory g (ms_memories (ax_store rev_api)) 5 = Inr MActive"
    by (simp add: governance_target_def gs m)
  define m' where "m' = governed MActive g 5 rev_memory"
  obtain st where "govern_memory ''m1'' g ''g1'' 5 (ax_store rev_api) = (Inr (Some m'), st)"
    by (simp add: govern_memory_def gs got target m'_def Let_def valid_memory_event_def governance_event_def m rev_digest_facts)
  then have gov: "governed_or_stale ''m1'' g ''g1'' 5 rev_api = (Inr m', rev_api\<lparr>ax_store := st\<rparr>)"
    by (simp add: governed_or_stale_def bind_s_def with_store_def in_store_def return_s_def)
  have doms: "content_digest j ''recallops-review-decision-v1'' v = Inr (domain_hash j ''recallops-review-decision-v1'' v)"
    "content_digest j ''recallops-review-binding-v1'' v = Inr (domain_hash j ''recallops-review-binding-v1'' v)" for j v
  proof -
    have nul: "nul = CHR 0x00" by (simp add: nul_def char_of_def)
    show "content_digest j ''recallops-review-decision-v1'' v = Inr (domain_hash j ''recallops-review-decision-v1'' v)"
      "content_digest j ''recallops-review-binding-v1'' v = Inr (domain_hash j ''recallops-review-binding-v1'' v)"
      by (simp_all add: content_digest_def ascii_char_def nul)
  qed
  define s1 where "s1 = rev_api\<lparr>ax_store := st\<rparr>"
  have s1: "co_workflows (ax_coord s1) = Map.empty((''acme'', ''i1'') \<mapsto> rev_workflow)"
    "co_ledger (ax_coord s1) = mem_bind_run ''acme'' ''i1'' ''r1'' ''b1'' ''p1'' mem_ledger_empty"
    by (simp_all add: s1_def rev_api_def)
  have "\<exists>w' s2 receipt s3. tx_transition x (about a b c d ?mv) \<lparr>sp_now = 5, sp_event = ''e1'', sp_recorded = 5\<rparr> s1 = (Inr w', s2) \<and>
      with_coord (coord_request_receipt (Some (mem_led x (\<lambda>_. False))) ''r1'' ''acme'' args 5) s2 = (Inr receipt, s3)"
    if "hex64 d" for x a b c d args
  proof -
    let ?q = "about a b c d ?mv"
    define w' where "w' = apply_request ?mv 5 rev_workflow"
    have w': "wf_state w' = REVIEWED" "wf_epoch w' = 8" "wf_tenant rev_workflow = ''acme''" "wf_id rev_workflow = ''i1''" "wf_state rev_workflow = PENDING_REVIEW"
      by (simp_all add: w'_def apply_request_def move_def advance_def h) (simp_all add: rev_workflow_def)
    have summary: "sized 1 240 (''Authority committed: '' @ state_value PENDING_REVIEW @ '' '' @ right_arrow @ '' '' @ state_value REVIEWED)"
      by code_simp
    have "valid_event (event_draft ''r1'' ''b1'' ''p1'' 1 zero_event_hash rev_workflow w' (transition_note ?q) ''e1'' 5)"
      using that summary
      by (simp add: valid_event_def event_draft_def transition_note_def about_def move_def or_else_def w' h)
    note valid = this
    have bound: "ml_runs (co_ledger (ax_coord s1)) (wf_tenant rev_workflow, wf_id rev_workflow) = Some (''r1'', ''b1'', ''p1'')"
      "ml_events (co_ledger (ax_coord s1)) (wf_tenant rev_workflow, ''r1'') = None"
      by (simp_all add: s1 w' mem_bind_run_def mem_ledger_empty_def)
    obtain e where e: "mem_append x (\<lambda>_. False) rev_workflow w' (transition_note ?q) ''e1'' 5 (co_ledger (ax_coord s1)) =
        (Inr (Some e), (co_ledger (ax_coord s1))\<lparr>ml_events := (ml_events (co_ledger (ax_coord s1)))((''acme'', ''r1'') \<mapsto> [e])\<rparr>)"
      "ev_state_after e = ''REVIEWED''" "ev_run e = ''r1''" "ev_tenant e = ''acme''"
      using led_append_bound [OF bound valid, of x] by (simp add: w') blast
    obtain s2 where t: "tx_transition x ?q \<lparr>sp_now = 5, sp_event = ''e1'', sp_recorded = 5\<rparr> s1 = (Inr w', s2)"
      and led: "co_ledger (ax_coord s2) = (co_ledger (ax_coord s1))\<lparr>ml_events := (ml_events (co_ledger (ax_coord s1)))((''acme'', ''r1'') \<mapsto> [e])\<rparr>"
      using tx_transition_run [where s = s1 and q = ?q and w = rev_workflow and x = x and
          st = "\<lparr>sp_now = 5, sp_event = ''e1'', sp_recorded = 5\<rparr>"] cur e(1)
      by (simp add: s1(1) h w'_def) blast
    have "\<exists>receipt s3. with_coord (coord_request_receipt (Some (mem_led x (\<lambda>_. False))) ''r1'' ''acme'' args 5) s2 = (Inr receipt, s3)"
      by (simp add: with_coord_def coord_request_receipt_def mem_led_def mem_list_events_def led mem_request_def e Let_def)
    with t show ?thesis by blast
  qed
  note tail = this
  have hex: "hex64 (domain_hash j dm v)" for j dm v by simp
  show ?thesis
  proof -
    define x where "x = se_externals (jt_api rev_settings)"
    define j where "j = pr_jcs (se_providers (jt_api rev_settings))"
    define review where "review = domain_hash j ''recallops-review-decision-v1'' (JObj
         [(''run_id'', JStr (jn_id rev_run)), (''generation'', JStr (str_int (jn_generation rev_run))),
          (''workflow_id'', JStr (ho_workflow rev_handoff)), (''memory'', JStr (dq_digest rev_payload)), (''reviewer'', JStr (id_subject rev_principal)),
          (''decision'', JStr (decision_value (dq_decision rev_payload))), (''reason_code'', JStr (review_reason_value (dq_reason rev_payload))),
          (''note'', JStr (dq_note rev_payload))])"
    define binding where "binding = domain_hash j ''recallops-review-binding-v1'' (JObj
         [(''disposition'', JStr (sha256_hex (decision_value (dq_decision rev_payload)))), (''memory'', JStr (dq_digest rev_payload)),
          (''review'', JStr review)])"
    obtain w' s2 receipt s3 where t: "tx_transition x (about (''MEMORY_'' @ decision_upper (dq_decision rev_payload)) ''review_binding'' review binding ?mv)
        \<lparr>sp_now = 5, sp_event = ''e1'', sp_recorded = 5\<rparr> s1 = (Inr w', s2)"
      "with_coord (coord_request_receipt (Some (mem_led x (\<lambda>_. False))) ''r1'' ''acme'' (jt_receipt rev_settings) 5) s2 = (Inr receipt, s3)"
      using tail [of binding] hex unfolding binding_def by blast
    let ?st = "\<lparr>sp_now = 5, sp_event = ''e1'', sp_recorded = 5\<rparr>"
    have a: "tx_read (\<lambda>s. bind_r (review_subject (ax_store s) rev_run rev_memory (dq_digest rev_payload)) (\<lambda>m.
        if mm_state m \<noteq> MPendingReview then Inl TxReviewTarget else Inr m)) rev_api = (Inr rev_memory, rev_api)"
      by (simp add: tx_read_def bind_r_def m subject)
    have b: "governed_or_stale (mm_id rev_memory) g ''g1'' (sp_now ?st) rev_api = (Inr m', s1)"
      using gov by (simp add: m s1_def)
    have c: "tx_digest (Inr v) s1 = (Inr v, s1)" for v by (simp add: tx_digest_def)
    have d: "with_coord (coord_request_receipt (Some (mem_led x (\<lambda>_. False))) (jn_id rev_run) (jn_tenant rev_run)
        (jt_receipt rev_settings) (sp_now ?st)) s2 = (Inr receipt, s3)"
      using t(2) by simp
    have "disposition_atomically rev_settings rev_run rev_handoff rev_memory rev_workflow rev_principal rev_payload g ''g1'' ?st rev_api
        = (Inr (m', w', receipt), s3)"
      unfolding disposition_atomically_def j_def [symmetric] x_def [symmetric] doms
      by (rule bind_s_run, rule a, rule bind_s_run, rule val, rule bind_s_run, rule b, rule bind_s_run, rule c, rule bind_s_run, rule c,
          rule bind_s_run, rule t(1) [unfolded binding_def review_def], rule bind_s_run, rule d) (simp add: return_s_def)
    then show ?thesis by blast
  qed
qed

lemma rev_accepted: "\<exists>m' w' receipt z'. disposition_reviewer_evidence rev_settings rev_request rev_payload ''g1''
    \<lparr>sp_now = 5, sp_event = ''e1'', sp_recorded = 5\<rparr> rev_state = (Inr (m', w', receipt), z')"
proof -
  let ?st = "\<lparr>sp_now = 5, sp_event = ''e1'', sp_recorded = 5\<rparr>"
  have base: "identity rev_request = rev_principal" "tr_if_match rev_request = Some (expected_match rev_run rev_workflow)"
    by (simp_all add: rev_request_def)
  have "valid_governance_request \<lparr>gr_tenant = ''acme'', gr_actor = ''reviewer_b'', gr_action = GCertify, gr_reason = ''EVIDENCE_ACCEPTED'',
      gr_code = EVIDENCE_ACCEPTED, gr_replacement = None\<rparr>"
    by (simp add: valid_governance_request_def sized_def ulen_def slug_def slug_char_def)
  then obtain g where g: "review_governance rev_run rev_principal GCertify [] EVIDENCE_ACCEPTED = Inr g"
    by (simp add: review_governance_def py_strip_def rev_principal_def)
  obtain m' w' receipt s where tx: "disposition_atomically rev_settings rev_run rev_handoff rev_memory rev_workflow rev_principal rev_payload g ''g1''
      ?st rev_api = (Inr (m', w', receipt), s)" using rev_disposed [OF g] by blast
  have a: "now_or (\<lambda>_. protected_request (jt_api rev_settings) (tr_base rev_request)) rev_state = (Inr (), rev_state)"
  proof -
    have "validate_csrf rev_principal (Some ''csrf'') = Inr ()"
      by (simp add: validate_csrf_def rev_principal_def compare_digest_def ascii_hex)
    then show ?thesis
      by (simp add: now_or_def protected_request_def rev_request_def rev_settings_def demo_settings_def)
  qed
  have b: "reviewer_scope rev_settings (identity rev_request) (Some InitialReview) (sp_now ?st) rev_state =
      (Inr (rev_run, rev_handoff, rev_memory), rev_state)" using rev_scope by (simp add: base)
  have c: "same_text (dq_digest rev_payload) (ho_digest rev_handoff) rev_state = (Inr True, rev_state)"
    by (simp add: same_text_def now_or_def rev_payload_def rev_handoff_def rev_digest_facts)
  have d: "demand True n t rev_state = (Inr (), rev_state)" for n t by (simp add: demand_def check_s_def)
  have e: "now_or (\<lambda>z. case api_workflow (jz_api z) (ho_workflow rev_handoff) (jn_tenant rev_run) of
        None \<Rightarrow> Inl (Refused 404 ''review workflow not found'') | Some w \<Rightarrow> Inr w) rev_state = (Inr rev_workflow, rev_state)"
    by (simp add: now_or_def api_workflow_def mem_get_def rev_state_def rev_api_def rev_handoff_def)
  have f: "require_if_match rev_request rev_run rev_workflow rev_state = (Inr (), rev_state)"
  proof -
    have "list_all ascii_char (expected_match rev_run rev_workflow)"
      unfolding rev_run_def rev_workflow_def by code_simp
    then show ?thesis by (simp add: require_if_match_def now_or_def if_match_def base compare_digest_def check_r_def)
  qed
  have h: "now_or (\<lambda>_. review_governance rev_run (identity rev_request) (decision_action (dq_decision rev_payload)) (dq_note rev_payload)
      (dq_reason rev_payload)) rev_state = (Inr g, rev_state)"
    using g by (simp add: now_or_def base rev_payload_def)
  have "jz_api rev_state = rev_api" by (simp add: rev_state_def)
  then have i: "on_api (authority_transaction cs (disposition_atomically rev_settings rev_run rev_handoff rev_memory rev_workflow
      (identity rev_request) rev_payload g ''g1'' ?st)) rev_state = (Inr (m', w', receipt), rev_state\<lparr>jz_api := s\<rparr>)" for cs
    using tx by (simp add: on_api_def authority_transaction_def base)
  have "disposition_reviewer_evidence rev_settings rev_request rev_payload ''g1'' ?st rev_state =
      (Inr (m', w', receipt), rev_state\<lparr>jz_api := s\<rparr>)"
    unfolding disposition_reviewer_evidence_def
    by (rule bind_s_run, rule a, rule bind_s_run, rule b, unfold prod.case, rule bind_s_run, rule c, rule bind_s_run, rule d,
        rule bind_s_run, rule e, rule bind_s_run, rule f, rule bind_s_run, rule h, rule i)
  then show ?thesis by blast
qed

text \<open>A run in which a reviewer certifies the quarantined memory of a judge run.\<close>

theorem disposition_independent_witness:
  "\<exists>m' w' receipt z'. disposition_reviewer_evidence rev_settings rev_request rev_payload ''g1''
      \<lparr>sp_now = 5, sp_event = ''e1'', sp_recorded = 5\<rparr> rev_state = (Inr (m', w', receipt), z') \<and>
    mm_state m' = MActive \<and> wf_state w' = REVIEWED \<and> wf_reviewer w' = Some ''reviewer_b''"
proof -
  obtain m' w' receipt z' where run: "disposition_reviewer_evidence rev_settings rev_request rev_payload ''g1''
      \<lparr>sp_now = 5, sp_event = ''e1'', sp_recorded = 5\<rparr> rev_state = (Inr (m', w', receipt), z')" using rev_accepted by blast
  have names: "id_subject (identity rev_request) = ''reviewer_b''" "decision_action (dq_decision rev_payload) = GCertify"
    by (simp_all add: rev_request_def rev_principal_def rev_payload_def)
  from disposition_independent [OF run] have "mm_state m' = MActive" "wf_state w' = REVIEWED" "wf_reviewer w' = Some ''reviewer_b''"
    unfolding governed_once_def names by auto
  with run show ?thesis by blast
qed

end
