(* ===== verification/Judge_Runs.thy ===== *)
theory Judge_Runs
  imports Review
begin

text \<open>
  Runs of the judge deployment: the judge routes and the incident routes over one state, each request with the
  principal its cookie authenticates at that moment. The rules of \<open>upheld\<close> carry the invariant of the incident routes
  through the judge routes, the replies kept under idempotency keys through everything, and show that whatever a route
  does to sessions, runs and handoffs is a sequence of calls of their repository, so that the facts about those apply.
\<close>

section \<open>Calls of the session repository\<close>

definition sessions_run :: "mem_sessions \<Rightarrow> mem_sessions \<Rightarrow> bool" where
  "sessions_run s t \<longleftrightarrow> (\<exists>cs. t = snd (session_run mem_session_repo cs s))"

lemma sessions_run_refl [simp]: "sessions_run s s"
  unfolding sessions_run_def by (rule exI [of _ "[]"]) simp

lemma session_run_append: "snd (session_run R (cs @ ds) s) = snd (session_run R ds (snd (session_run R cs s)))"
  by (induction cs arbitrary: s) (auto simp: split_beta)

lemma sessions_run_trans: "sessions_run s t \<Longrightarrow> sessions_run t u \<Longrightarrow> sessions_run s u"
  unfolding sessions_run_def by (metis session_run_append)

lemma sessions_run_step: "sessions_run s (snd (session_step mem_session_repo now c s))"
  unfolding sessions_run_def by (rule exI [of _ "[(now, c)]"]) (simp add: split_beta)

definition session_op :: "(mem_sessions, 'e, 'a) sx \<Rightarrow> bool" where
  "session_op m \<longleftrightarrow> (\<forall>s. sessions_run s (snd (m s)))"

named_theorems session_ops \<open>operations made of calls of the session repository\<close>

lemma session_op_calls [session_ops]:
  "session_op (sr_attempt mem_session_repo c l w now)" "session_op (sr_save mem_session_repo j)"
  "session_op (sr_revoke mem_session_repo h now)" "session_op (sr_save_run mem_session_repo r l now)"
  "session_op (sr_get_run mem_session_repo i now)" "session_op (sr_reset_run mem_session_repo i now)"
  "session_op (sr_run_current mem_session_repo i tn g now)" "session_op (sr_save_handoff mem_session_repo hf)"
  "session_op (sr_consume mem_session_repo code now)" "session_op (sr_count mem_session_repo now)"
  using sessions_run_step [of _ now "Attempt c l w"] sessions_run_step [of _ now "SaveSession j"]
    sessions_run_step [of _ now "RevokeSession h"] sessions_run_step [of _ now "SaveRun r l"]
    sessions_run_step [of _ now "GetRun i"] sessions_run_step [of _ now "session_call.ResetRun i"]
    sessions_run_step [of _ now "RunIsCurrent i tn g"] sessions_run_step [of _ now "SaveHandoff hf"]
    sessions_run_step [of _ now "ConsumeHandoff code"] sessions_run_step [of _ now ActiveRunCount]
  by (simp_all add: session_op_def)

lemmas session_op_mem [session_ops] = session_op_calls [unfolded mem_session_repo_def session_repo.select_convs]

lemma session_op_bind [session_ops]: "session_op m \<Longrightarrow> (\<And>a. session_op (f a)) \<Longrightarrow> session_op (bind_s m f)"
  unfolding session_op_def
proof
  fix s assume m: "\<forall>s. sessions_run s (snd (m s))" and f: "\<And>a. \<forall>s. sessions_run s (snd (f a s))"
  obtain r s1 where one: "m s = (r, s1)" by (metis prod.exhaust)
  then have "sessions_run s s1" using m by (metis snd_conv)
  then show "sessions_run s (snd (bind_s m f s))"
    using f sessions_run_trans by (auto simp: bind_s_def one split: sum.split)
qed

lemma session_op_auth [session_ops]: "session_op m \<Longrightarrow> session_op (auth_repo m)"
  unfolding session_op_def auth_repo_def by (auto split: prod.split sum.split) (metis snd_conv)+

lemma session_op_pure [session_ops]: "session_op (return_s a)" "session_op (raise_s e)" "session_op (check_s b e)" "session_op (lift_auth r)"
  by (simp_all add: session_op_def return_s_def raise_s_def check_s_def lift_auth_def)

lemma session_op_if [session_ops]: "session_op m \<Longrightarrow> session_op n \<Longrightarrow> session_op (if b then m else n)"
  by simp

lemma session_op_option [session_ops]: "session_op m \<Longrightarrow> (\<And>a. session_op (f a)) \<Longrightarrow> session_op (case c of None \<Rightarrow> m | Some a \<Rightarrow> f a)"
  by (cases c) simp_all

lemma session_op_auths [session_ops]:
  "session_op (create_session cfg mem_session_repo role run tenant gen subject handoff token csrf now)"
  "session_op (consume_launch cfg mem_session_repo client limit now)"
  "session_op (consume_handoff_attempt cfg mem_session_repo client now)"
  "session_op (revoke_principal mem_session_repo p now)"
  unfolding create_session_def check_session_def consume_launch_def consume_handoff_attempt_def revoke_principal_def Let_def
  by (intro session_ops)+

section \<open>What a route upholds\<close>

definition stands :: "(api_state \<Rightarrow> bool) \<Rightarrow> judge_state \<Rightarrow> (api_error + 'a) \<times> judge_state \<Rightarrow> ('a \<Rightarrow> api_state \<Rightarrow> bool) \<Rightarrow> bool" where
  "stands A z rz B \<longleftrightarrow> (jz_replies z \<subseteq>\<^sub>m jz_replies (snd rz) \<and> sessions_run (jz_judges z) (jz_judges (snd rz))) \<and>
     (api_inv (jz_api z) \<longrightarrow> A (jz_api z) \<longrightarrow> api_inv (jz_api (snd rz)) \<and>
       grows (judge_store z) (judge_store (snd rz)) \<and> (\<forall>a. fst rz = Inr a \<longrightarrow> B a (jz_api (snd rz))))"

definition upheld :: "(api_state \<Rightarrow> bool) \<Rightarrow> 'a judge_route \<Rightarrow> ('a \<Rightarrow> api_state \<Rightarrow> bool) \<Rightarrow> bool" where
  "upheld A m B \<longleftrightarrow> (\<forall>z. stands A z (m z) B)"

lemma upheld_iff: "upheld A m B \<longleftrightarrow> (\<forall>z r z'. m z = (r, z') \<longrightarrow> (jz_replies z \<subseteq>\<^sub>m jz_replies z' \<and> sessions_run (jz_judges z) (jz_judges z')) \<and>
     (api_inv (jz_api z) \<longrightarrow> A (jz_api z) \<longrightarrow>
       api_inv (jz_api z') \<and> grows (judge_store z) (judge_store z') \<and> (\<forall>a. r = Inr a \<longrightarrow> B a (jz_api z'))))"
  unfolding upheld_def stands_def by (metis fst_conv snd_conv prod.collapse)

lemma upheldI: "(\<And>z. stands A z (m z) B) \<Longrightarrow> upheld A m B"
  by (simp add: upheld_def)

lemma stands_run: "upheld A' m B \<Longrightarrow> (api_inv (jz_api z) \<Longrightarrow> A (jz_api z) \<Longrightarrow> A' (jz_api z)) \<Longrightarrow> stands A z (m z) B"
  by (auto simp: upheld_def stands_def)

lemma stands_error [simp]: "stands A z (Inl e, z) B"
  by (simp add: stands_def)

lemma stands_refuse [simp]: "stands A z (refuse n d z) B" "stands A z (raise_s e z) B"
  by (simp_all add: refuse_def raise_s_def)

abbreviation steady :: "'a judge_route \<Rightarrow> bool" where
  "steady m \<equiv> upheld (\<lambda>s. True) m (\<lambda>_ s. True)"

named_theorems up_rules \<open>rules for the sequencing of judge routes\<close>

lemmas session_op_rules [up_rules] = session_ops

lemma up_bind:
  assumes m: "upheld A m B" and f: "\<And>a. upheld (B a) (f a) C"
  shows "upheld A (bind_s m f) C"
  unfolding upheld_iff
proof (intro allI impI)
  fix z r z' assume run: "bind_s m f z = (r, z')"
  obtain r1 z1 where one: "m z = (r1, z1)" by (metis prod.exhaust)
  show "(jz_replies z \<subseteq>\<^sub>m jz_replies z' \<and> sessions_run (jz_judges z) (jz_judges z')) \<and> (api_inv (jz_api z) \<longrightarrow> A (jz_api z) \<longrightarrow>
       api_inv (jz_api z') \<and> grows (judge_store z) (judge_store z') \<and> (\<forall>a. r = Inr a \<longrightarrow> C a (jz_api z')))"
  proof (cases r1)
    case (Inl e)
    then show ?thesis using run one m unfolding upheld_iff bind_s_def by auto
  next
    case (Inr a)
    then have two: "f a z1 = (r, z')" using run one by (simp add: bind_s_def)
    have "jz_replies z \<subseteq>\<^sub>m jz_replies z1" "jz_replies z1 \<subseteq>\<^sub>m jz_replies z'"
      "sessions_run (jz_judges z) (jz_judges z1)" "sessions_run (jz_judges z1) (jz_judges z')"
      using m f [of a] one two unfolding upheld_iff by blast+
    moreover have "api_inv (jz_api z1) \<and> grows (judge_store z) (judge_store z1) \<and> B a (jz_api z1)"
      if "api_inv (jz_api z)" "A (jz_api z)" using m one that Inr unfolding upheld_iff by blast
    moreover have "api_inv (jz_api z') \<and> grows (judge_store z1) (judge_store z') \<and> (\<forall>b. r = Inr b \<longrightarrow> C b (jz_api z'))"
      if "api_inv (jz_api z1)" "B a (jz_api z1)" using f [of a] two that unfolding upheld_iff by blast
    ultimately show ?thesis using grows_trans map_le_trans sessions_run_trans by blast
  qed
qed

lemma up_then [up_rules]: "upheld A m (\<lambda>_. A) \<Longrightarrow> (\<And>a. upheld A (f a) C) \<Longrightarrow> upheld A (bind_s m f) C"
  by (rule up_bind)

lemma up_return [up_rules]: "(\<And>s. api_inv s \<Longrightarrow> A s \<Longrightarrow> B a s) \<Longrightarrow> upheld A (return_s a) B"
  by (auto simp: upheld_iff return_s_def)

lemma up_raise [up_rules]: "upheld A (raise_s e) B"
  by (simp add: upheld_iff raise_s_def)

lemma up_refuse [up_rules]: "upheld A (refuse n d) B"
  by (simp add: refuse_def up_raise)

lemma up_demand [up_rules]: "upheld A (demand b n d) (\<lambda>_. A)"
  by (simp add: upheld_iff demand_def check_s_def)

lemma up_now_or: "(\<And>z a. A (jz_api z) \<Longrightarrow> f z = Inr a \<Longrightarrow> B a (jz_api z)) \<Longrightarrow> upheld A (now_or f) B"
  by (auto simp: upheld_iff now_or_def)

lemma up_ask [up_rules]: "upheld A (now_or f) (\<lambda>_. A)"
  by (rule up_now_or)

lemma up_judges [up_rules]: "session_op m \<Longrightarrow> upheld A (on_judges m) (\<lambda>_. A)"
  by (auto simp: upheld_def stands_def on_judges_def session_op_def split: prod.split sum.split) (metis snd_conv)+

lemma up_sessions [up_rules]: "session_op m \<Longrightarrow> upheld A (on_sessions m) (\<lambda>_. A)"
  by (auto simp: upheld_def stands_def on_sessions_def session_op_def split: prod.split sum.split) (metis snd_conv)+

lemma up_api: "sure A m B \<Longrightarrow> upheld A (on_api m) B"
  unfolding upheld_iff on_api_def sure_def by (fastforce split: prod.splits)

text \<open>What a step does may depend on the state it starts in.\<close>

lemma up_case: "(\<And>z. upheld (\<lambda>s. s = jz_api z \<and> A s) (F z) B) \<Longrightarrow> upheld A (\<lambda>z. F z z) B"
  unfolding upheld_iff by blast

lemma up_pre: "upheld A m B \<Longrightarrow> (\<And>s. api_inv s \<Longrightarrow> A' s \<Longrightarrow> A s) \<Longrightarrow> upheld A' m B"
  unfolding upheld_iff by blast

lemma up_any: "steady m \<Longrightarrow> upheld A m (\<lambda>_ s. True)"
  by (rule up_pre) simp_all

lemma up_option: "upheld A m B \<Longrightarrow> (\<And>a. c = Some a \<Longrightarrow> upheld A (f a) B) \<Longrightarrow> upheld A (case c of None \<Rightarrow> m | Some a \<Rightarrow> f a) B"
  by (cases c) simp_all

lemma up_triple: "(\<And>a b c. upheld A (f a b c) B) \<Longrightarrow> upheld A (case x of (a, b, c) \<Rightarrow> f a b c) B"
  by (cases x) simp

lemma up_if: "(c \<Longrightarrow> upheld A m B) \<Longrightarrow> (\<not> c \<Longrightarrow> upheld A n B) \<Longrightarrow> upheld A (if c then m else n) B"
  by simp

lemma up_fail: "upheld A (\<lambda>z. (Inl (e z), z)) B"
  by (auto simp: upheld_iff)

lemma up_idempotent:
  assumes "sure A operation (\<lambda>_ s. True)"
  shows "upheld A (idempotent_mutation clauses run route key digest operation) (\<lambda>_ s. True)"
  unfolding upheld_iff
proof (intro allI impI)
  fix z r z' assume run: "idempotent_mutation clauses run route key digest operation z = (r, z')"
  show "(jz_replies z \<subseteq>\<^sub>m jz_replies z' \<and> sessions_run (jz_judges z) (jz_judges z')) \<and> (api_inv (jz_api z) \<longrightarrow> A (jz_api z) \<longrightarrow>
       api_inv (jz_api z') \<and> grows (judge_store z) (judge_store z') \<and> (\<forall>a. r = Inr a \<longrightarrow> True))"
  proof (cases "jz_replies z (run, route, key)")
    case None
    obtain r0 s where op: "operation (jz_api z) = (r0, s)" by (metis prod.exhaust)
    have "jz_api z' = s \<and> jz_judges z' = jz_judges z \<and> jz_replies z \<subseteq>\<^sub>m jz_replies z'"
      using run None by (auto simp: idempotent_mutation_def op map_le_def split: sum.splits)
    then show ?thesis using assms op unfolding sure_def by (metis sessions_run_refl)
  qed (use run in \<open>auto simp: idempotent_mutation_def split: if_splits\<close>)
qed

section \<open>The judge routes\<close>

lemma steady_current_run [up_rules]: "upheld A (current_run cfg p now) (\<lambda>_. A)"
  unfolding current_run_def by (auto intro!: up_rules up_option up_if split: option.split)

lemma steady_browser [up_rules]: "upheld A (require_webmcp_mutation cfg r) (\<lambda>_. A)"
  unfolding require_webmcp_mutation_def by (intro up_rules)

lemma up_require_key [up_rules]: "upheld A (require_idempotency_key k) (\<lambda>_. A)"
  unfolding require_idempotency_key_def by (auto intro!: up_rules split: option.split)

lemma up_digest [up_rules]: "upheld A (judge_digest cfg dm v) (\<lambda>_. A)"
  unfolding judge_digest_def by (rule up_ask)

lemma up_same_text [up_rules]: "upheld A (same_text a b) (\<lambda>_. A)"
  unfolding same_text_def by (rule up_ask)

lemma up_same_digest [up_rules]: "upheld A (same_digest a d) (\<lambda>_. A)"
  unfolding same_digest_def by (auto intro!: up_rules split: option.split)

lemma up_require_if_match [up_rules]: "upheld A (require_if_match r run w) (\<lambda>_. A)"
  unfolding require_if_match_def by (rule up_ask)

lemma up_manifest [up_rules]: "upheld A (make_webmcp_manifest cfg s run w now) (\<lambda>_. A)"
  unfolding make_webmcp_manifest_def Let_def by (intro up_rules)

lemma steady_capabilities: "steady (webmcp_capabilities cfg r etag now)"
  unfolding webmcp_capabilities_def
proof (intro up_rules)
  fix run
  show "steady (\<lambda>z. (case run_workflow z run of
        None \<Rightarrow> refuse 404 ''workflow not found''
      | Some w \<Rightarrow> bind_s (make_webmcp_manifest cfg (judge_store z) run w now) (\<lambda>m.
          return_s (if etag = Some (wm_etag m) then None else Some m))) z)"
    by (rule up_case, intro up_option up_rules) simp
qed

lemma up_scope [up_rules]: "upheld A (reviewer_scope cfg p purpose now) (\<lambda>_. A)"
proof -
  have scoped: "upheld A (scoped_memory run h) (\<lambda>_. A)" for run h
    unfolding scoped_memory_def by (rule up_case, intro up_option up_if up_then up_rules) (simp_all add: up_pre [OF up_same_digest])
  show ?thesis
    unfolding reviewer_scope_def by (intro up_rules up_option up_if scoped) auto
qed

lemma steady_logout: "steady (logout_judge_session cfg r now)"
  unfolding logout_judge_session_def by (intro up_rules up_any) 

lemma steady_handoff: "steady (create_reviewer_handoff cfg r purpose digest code now)"
  unfolding create_reviewer_handoff_def Let_def by (intro up_rules) simp

lemma steady_exchange: "steady (exchange_reviewer_handoff cfg r body nonce token csrf now)"
proof -
  have opened: "steady (open_review cfg h nonce token csrf now)" for h
    unfolding open_review_def by (intro up_rules up_option up_if)
  show ?thesis
    unfolding exchange_reviewer_handoff_def by (intro up_rules up_option opened) simp
qed

text \<open>The authority ledger is no part of the invariant, so what is written to it alone is upheld.\<close>

lemma api_inv_ledger [simp]: "api_inv (s\<lparr>ax_coord := (ax_coord s)\<lparr>co_ledger := l\<rparr>\<rparr>) = api_inv s"
  by (simp add: api_inv_def api_workflow_def)

lemma up_activities: "upheld A (\<lambda>z. (Inr v, add_activities acts z)) (\<lambda>_ s. True)"
  by (auto simp: upheld_iff add_activities_def)

lemma steady_recall: "steady (recall_recurrence cfg r st)"
  unfolding recall_recurrence_def
proof (intro up_rules)
  fix run
  show "steady (\<lambda>z. (case run_workflow z run of
        None \<Rightarrow> refuse 409 ''reviewed recurrence is unavailable''
      | Some w \<Rightarrow> bind_s (make_webmcp_manifest cfg (judge_store z) run w (sp_now st)) (\<lambda>m.
          if ''recall_reviewed_memory'' \<notin> set (wm_available m) then refuse 409 ''reviewed recurrence is unavailable''
          else bind_s (now_or (\<lambda>z. case recurrence_view (se_service (jt_api cfg)) (se_providers (jt_api cfg)) (judge_store z)
                (recurrence_incident run) (map_option mm_id (run_memory (judge_store z) run)) (sp_now st) of
              Inl e \<Rightarrow> Inl (Unhandled (TxService e)) | Inr v \<Rightarrow> Inr v)) (\<lambda>v. \<lambda>z.
            (Inr v, add_activities [server_activity run ''recall_reviewed_memory''
               ''Agent evaluated immutable compatible recurrence'' st] z)))) z)"
    by (rule up_case, intro up_option up_rules up_if up_activities)
qed

lemma steady_activity: "steady (record_webmcp_activity cfg r client items now)"
  unfolding record_webmcp_activity_def Let_def by (intro up_rules up_activities)

text \<open>The agent stages a proposal, which waits for a human.\<close>

lemma agent_named [simp]: "webmcp_agent_subject run \<noteq> []"
  by (simp add: webmcp_agent_subject_def)

lemma sure_stage: "sure (\<lambda>s. True) (stage cfg r run w a digest q st) (\<lambda>_ s. True)"
  unfolding stage_def
  by (intro sure_bind [where Q = "\<lambda>_. anywhere"] sure_read sure_move sure_return) (simp_all add: rests_on_def)

lemma steady_propose: "steady (propose_webmcp_mitigation cfg r q st)"
proof -
  have staged: "steady (propose_staged cfg r run w inc a q st)" for run w inc a
    unfolding propose_staged_def
    by (intro up_rules up_option up_if up_idempotent sure_stage)
  show ?thesis
    unfolding propose_webmcp_mitigation_def
  proof (intro up_rules)
    fix run
    show "steady (\<lambda>z. (case (run_workflow z run, get_incident (judge_store z) (jn_incident run) (jn_tenant run),
            get_analysis (judge_store z) (jn_incident run) (jn_tenant run)) of
        (Some w, Some inc, Some a) \<Rightarrow> propose_staged cfg r run w inc a q st
      | _ \<Rightarrow> refuse 404 ''incident not found'') z)"
      by (rule up_case) (auto intro: up_pre [OF staged] up_refuse split: option.split)
  qed
qed

text \<open>Its assessment is recorded only with the outcome of the post-check found before.\<close>

lemma sure_persist_assessment:
  "sure (of_store (learned_now m (jn_tenant run) (jn_incident run))) (persist_assessment cfg r run w verdict a m st) (\<lambda>_ s. True)"
  unfolding persist_assessment_def
proof (intro sure_bind)
  let ?A = "learned_now m (jn_tenant run) (jn_incident run)"
  let ?B = "\<lambda>s. ms_outcomes s (jn_tenant run, jn_incident run) \<noteq> None"
  show "sure (of_store ?A) (tx_read (\<lambda>_. if_match r run w)) (\<lambda>_. of_store ?A)" by (rule sure_read)
  show "sure (of_store ?A) (with_store (persist_verified_outcome a m)) (\<lambda>_. of_store ?B)" by (rule sure_persist_outcome)
  fix b :: "postcheck_assessment \<times> memory"
  obtain recorded saved where b: "b = (recorded, saved)" by (cases b)
  show "sure (of_store ?B) (case b of (recorded, saved) \<Rightarrow>
     bind_s (tx_digest (content_digest (pr_jcs (se_providers (jt_api cfg))) ''recallops-outcome-binding-v1'' (JObj
         [(''assessment'', optional_text (mm_assessment_digest saved)), (''memory'', optional_text (mm_digest saved)),
          (''observation'', optional_text (mm_observation_digest saved)),
          (''policy_verdict'', optional_text (mm_verdict_digest saved))]))) (\<lambda>digest.
     bind_s (tx_transition (se_externals (jt_api cfg))
       (about ''POSTCHECK_ASSESSMENT_RECORDED'' ''outcome_binding'' (mm_id saved) digest
         (move (jn_incident run) (jn_tenant run) (wf_epoch w) POSTCHECK_READY PENDING_REVIEW WEBMCP
           (webmcp_agent_subject run) ''agent'')) st) (\<lambda>completed.
     return_s (AssessedReply recorded verdict (pt_class recorded = pv_class verdict) (mm_id saved) (mm_digest saved)
       (mm_state saved) (wf_epoch completed))))) (\<lambda>_ s. True)"
    unfolding b prod.case
    by (intro sure_bind [OF sure_digest] sure_bind [OF sure_move [where A = ?B and B = "\<lambda>_ s. True"]] sure_return)
      (auto simp: rests_on_def)
qed

lemma stands_assessment:
  assumes "prepare_verified_outcome cfg pr (judge_store z) (jn_incident run) obs verdict a mid now = Inr (Some m)"
  shows "stands (\<lambda>s. get_postcheck (ax_store s) (jn_incident run) (jn_tenant run) = Some (obs, verdict)) z
    (idempotent_mutation clauses (jn_id run) ''assessment'' key digest (persist_assessment jcfg r run w verdict a m st) z) (\<lambda>_ s. True)"
proof (rule stands_run [OF up_idempotent [OF sure_persist_assessment]])
  assume inv: "api_inv (jz_api z)" and A: "get_postcheck (judge_store z) (jn_incident run) (jn_tenant run) = Some (obs, verdict)"
  have "observed (judge_store z) (jn_tenant run, jn_incident run) (obs, verdict)"
    using inv A unfolding api_inv_def get_postcheck_def by blast
  then have "po_tenant obs = jn_tenant run" by (simp add: observed_def)
  then show "learned_now m (jn_tenant run) (jn_incident run) (judge_store z)"
    using prepare_verified_key [OF api_store_inv [OF inv] assms] prepare_verified_learned [OF api_store_inv [OF inv] assms]
    by (auto simp: learned_now_def)
qed

lemma steady_assess: "steady (assess_webmcp_postcheck cfg r q aid mid st)"
proof -
  have prepared: "upheld (\<lambda>s. get_postcheck (ax_store s) (jn_incident run) (jn_tenant run) = Some (obs, verdict))
      (assess_prepared cfg r run w obs verdict q aid mid st) (\<lambda>_ s. True)" for run w obs verdict
    unfolding assess_prepared_def
    by (intro up_then up_demand up_require_key up_digest upheldI)
      (auto simp: Let_def stands_assessment split: sum.split option.split)
  show ?thesis
    unfolding assess_webmcp_postcheck_def
  proof (intro up_rules upheldI)
    fix run z
    show "stands (\<lambda>s. True) z ((case (run_workflow z run, get_postcheck (judge_store z) (jn_incident run) (jn_tenant run)) of
        (Some w, Some (obs, verdict)) \<Rightarrow> assess_prepared cfg r run w obs verdict q aid mid st
      | _ \<Rightarrow> refuse 404 ''verified postcheck not found'') z) (\<lambda>_ s. True)"
      by (auto intro!: stands_run [OF prepared] split: option.split)
  qed
qed

text \<open>A reviewer who is accepted finishes the workflow independently of its operator.\<close>

lemma sure_governed_or_stale: "sure anywhere (governed_or_stale mid g eid now) (\<lambda>_. anywhere)"
  unfolding governed_or_stale_def
  by (intro sure_bind [OF sure_of_store [OF kept_govern, where A = "\<lambda>s. True" and B = "\<lambda>_ s. True"]] sure_option sure_raise sure_return)
    simp_all

lemma kept_ledger_write:
  assumes "\<And>c. \<exists>l. snd (f c) = c\<lparr>co_ledger := l\<rparr>"
  shows "sure anywhere (with_coord f) (\<lambda>_. anywhere)"
  unfolding sure_def
proof (intro allI impI)
  fix s s' and r :: "tx_error + 'a"
  assume inv: "api_inv s" and run: "with_coord f s = (r, s')"
  obtain l where "snd (f (ax_coord s)) = (ax_coord s)\<lparr>co_ledger := l\<rparr>" using assms by blast
  then have "s' = s\<lparr>ax_coord := (ax_coord s)\<lparr>co_ledger := l\<rparr>\<rparr>"
    using run by (auto simp: with_coord_def split: prod.splits sum.splits)
  then show "api_inv s' \<and> grows (ax_store s) (ax_store s') \<and> (\<forall>a. r = Inr a \<longrightarrow> True)" using inv by simp
qed

lemma sure_disposition:
  assumes "id_subject p \<noteq> []"
  shows "sure anywhere (disposition_atomically cfg run h scoped w p q g eid st) (\<lambda>_. anywhere)"
proof -
  have finish: "sure anywhere (tx_transition x (about a b c d (move i t ep PENDING_REVIEW REVIEWED UI (id_subject p) ''reviewer'')) st)
      (\<lambda>w. anywhere)" for x a b c d i t ep
    by (rule sure_move [OF assms]) (use assms in \<open>auto simp: rests_on_def apply_request_def request_current_def current_at_def\<close>)
  have receipt: "sure anywhere (with_coord (coord_request_receipt led run t args now)) (\<lambda>_. anywhere)" for led run t args now
  proof (rule kept_ledger_write)
    fix c
    show "\<exists>l. snd (coord_request_receipt led run t args now c) = c\<lparr>co_ledger := l\<rparr>"
    proof (cases "snd (coord_request_receipt led run t args now c) = c")
      case True
      then show ?thesis by (intro exI [of _ "co_ledger c"]) simp
    qed (auto simp: coord_request_receipt_def Let_def split: option.splits sum.splits prod.splits if_splits)
  qed
  show ?thesis
    unfolding disposition_atomically_def
    by (intro sure_bind [where Q = "\<lambda>_. anywhere"] sure_read sure_validate sure_governed_or_stale sure_digest finish receipt sure_return)
      simp_all
qed

lemma sure_revocation: "sure anywhere (revoke_atomically run h scoped w q g eid now) (\<lambda>_. anywhere)"
  unfolding revoke_atomically_def
  by (intro sure_bind [where Q = "\<lambda>_. anywhere"] sure_read sure_governed_or_stale sure_return) simp_all

lemma steady_dispose:
  assumes "id_subject (identity r) \<noteq> []"
  shows "steady (disposition_reviewer_evidence cfg r q eid st)"
  unfolding disposition_reviewer_evidence_def
  by (intro up_then up_ask up_scope up_triple up_same_text up_demand up_require_if_match up_api sure_transaction sure_disposition assms)

lemma steady_revoke: "steady (revoke_reviewer_evidence cfg r q eid st)"
  unfolding revoke_reviewer_evidence_def
  by (intro up_then up_ask up_scope up_triple up_same_text up_demand up_require_if_match up_api sure_transaction sure_revocation)

text \<open>A run is closed, or allocated with fixture memories and an analysis under a fresh identifier.\<close>

lemma sure_coord_store: "kept_by (with_coord m) \<Longrightarrow> sure (of_store A) (with_coord m) (\<lambda>_. of_store A)"
proof -
  assume kept: "kept_by (with_coord m)"
  show ?thesis
    unfolding sure_def
  proof (intro allI impI)
    fix s s' r assume s: "api_inv s" "A (ax_store s)" and run: "with_coord m s = (r, s')"
    have "ax_store (snd (with_coord m s)) = ax_store s"
      by (simp add: with_coord_def split: prod.split sum.split)
    then have "ax_store s' = ax_store s" using run by simp
    moreover have "api_inv s'" using kept [unfolded sure_def, rule_format, OF s(1) TrueI run] by simp
    ultimately show "api_inv s' \<and> grows (ax_store s) (ax_store s') \<and> (\<forall>a. r = Inr a \<longrightarrow> A (ax_store s'))" using s(2) by simp
  qed
qed

lemma up_close: "upheld (of_store A) (close_old_run cfg old w actor st) (\<lambda>_. of_store A)"
  unfolding close_old_run_def
  by (intro up_then up_judges session_ops up_if up_api sure_transaction sure_coord_store [OF kept_invalidate] up_return)

definition plain :: "memory \<Rightarrow> bool" where
  "plain m \<longleftrightarrow> mm_source_incident m = None \<and> mm_observed_by m = None"

lemma make_memory_plain: "make_memory jcs m = Inr m' \<Longrightarrow> plain m' = plain m"
  by (subst make_memory_fields, assumption) (simp add: plain_def)

lemma fixture_memory_plain: "fixture_memory cfg run label version action outcome score confidence age e now = Inr m \<Longrightarrow> plain m"
  unfolding fixture_memory_def by (auto dest!: make_memory_plain simp: plain_def split: sum.splits)

lemma fixture_memories_plain:
  assumes "fixture_memories cfg run now = Inr ms"
  shows "list_all plain ms"
proof -
  obtain m1 m2 label1 version1 action1 outcome1 score1 confidence1 age1 e1 label2 version2 action2 outcome2 score2 confidence2 age2 e2
    where "fixture_memory cfg run label1 version1 action1 outcome1 score1 confidence1 age1 e1 now = Inr m1"
      "fixture_memory cfg run label2 version2 action2 outcome2 score2 confidence2 age2 e2 now = Inr m2" "ms = [m1, m2]"
    using assms unfolding fixture_memories_def Let_def bind_r_Inr by blast
  then show ?thesis by (simp add: fixture_memory_plain)
qed

lemma add_memories_kept:
  "api_inv s \<Longrightarrow> list_all plain ms \<Longrightarrow> api_inv (s\<lparr>ax_store := add_memories ms (ax_store s)\<rparr>) \<and>
     grows (ax_store s) (add_memories ms (ax_store s)) \<and> ms_analyses (add_memories ms (ax_store s)) = ms_analyses (ax_store s)"
proof (induction ms arbitrary: s)
  case Nil
  then show ?case by (simp add: add_memories_def)
next
  case (Cons m ms)
  let ?s = "s\<lparr>ax_store := snd (add_memory m (ax_store s))\<rparr>"
  have m: "m = m\<lparr>mm_source_incident := None, mm_observed_by := None\<rparr>" using Cons.prems(2) by (cases m) (simp add: plain_def)
  have kept: "store_kept (ax_store s) (snd (add_memory m (ax_store s)))"
    using plain_effect(1) [OF api_store_inv [OF Cons.prems(1)], of m] unfolding m [symmetric]
    by (intro store_keptI [OF Cons.prems(1)]) (simp_all add: add_memory_def)
  then have "api_inv ?s" using Cons.prems(1) rests_on_kept [OF kept] by (simp add: api_inv_def store_kept_def)
  moreover have "grows (ax_store s) (ax_store ?s)" "ms_analyses (ax_store ?s) = ms_analyses (ax_store s)"
    using kept by (simp_all add: store_kept_def add_memory_def)
  ultimately show ?case
    using Cons.IH [of ?s] Cons.prems(2) grows_trans by (auto simp: add_memories_def)
qed

definition fresh_seed :: "run_seed \<Rightarrow> mem_store \<Rightarrow> bool" where
  "fresh_seed seed s \<longleftrightarrow> ms_analyses s (in_tenant (scenario_incident (wz_run seed)), wz_analysis seed) = None"

lemma up_allocate_stored:
  "upheld (of_store (\<lambda>s. list_all plain memories \<and> fresh_seed seed s)) (allocate_stored cfg generation seed memories st) (\<lambda>_ s. True)"
proof -
  let ?i = "scenario_incident (wz_run seed)" and ?fresh = "of_store (\<lambda>s. list_all plain memories \<and> fresh_seed seed s)"
  have added: "upheld ?fresh (\<lambda>z. (Inr (), z\<lparr>jz_api := (jz_api z)\<lparr>ax_store := add_memories memories (judge_store z)\<rparr>\<rparr>)) (\<lambda>_. ?fresh)"
    using add_memories_kept by (auto simp: upheld_iff fresh_seed_def)
  have prepared: "upheld ?fresh (now_or (\<lambda>z. case prepare_analysis (se_service (jt_api cfg)) (se_providers (jt_api cfg)) (judge_store z) ?i
          (wz_analysis seed) (sp_now st) of Inl e \<Rightarrow> Inl (Unhandled (TxService e)) | Inr a \<Rightarrow> Inr a))
        (\<lambda>a s. an_incident a = wz_analysis seed \<and> ?fresh s)"
    by (rule up_now_or) (auto elim: prepare_analysis_Inr split: sum.splits)
  have saved: "upheld (\<lambda>s. an_incident a = wz_analysis seed \<and> ?fresh s) (on_api (authority_transaction [] (with_store (persist_analysis ?i a)))) (\<lambda>_ s. True)" for a
    by (intro up_api sure_transaction sure_store) (auto simp: fresh_seed_def intro: kept_analysis)
  have bound: "sure anywhere (bind_run run j) (\<lambda>_. anywhere)" for run j
    by (auto simp: sure_def bind_run_def)
  have ensured: "sure anywhere (ensure_run_workflow t a now) (\<lambda>_. anywhere)" for t a now
    unfolding ensure_run_workflow_def by (rule kept_ensure)
  have genesis: "sure anywhere (append_genesis x w st) (\<lambda>_. anywhere)" for x w
    unfolding append_genesis_def
  proof (rule kept_ledger_write)
    show "\<exists>l. snd (case led_genesis (mem_led x (\<lambda>_. False)) w (sp_event st) (sp_recorded st) (co_ledger c) of
       (Inl e, l) \<Rightarrow> (Inl (CoordLedger e), c\<lparr>co_ledger := l\<rparr>) | (Inr e, l) \<Rightarrow> (Inr (), c\<lparr>co_ledger := l\<rparr>)) = c\<lparr>co_ledger := l\<rparr>" for c
      by (auto split: prod.split sum.split)
  qed
  have limited: "upheld ?fresh (if b then raise_s e else return_s ()) (\<lambda>_. ?fresh)" for b e
    by (auto intro: up_raise up_return)
  have bound_run: "steady (on_api (authority_transaction [] (bind_s (bind_run run j) (\<lambda>_.
         bind_s (ensure_run_workflow t a now) (\<lambda>w. append_genesis x w st)))))" for run j t a now x
    by (intro up_api sure_transaction sure_bind [OF bound] sure_bind [OF ensured] genesis)
  show ?thesis
    unfolding allocate_stored_def Let_def
    by (rule up_then [OF up_judges [OF session_op_mem(10)]], rule up_then [OF limited], rule up_then [OF added], rule up_bind [OF prepared], rule up_bind [OF saved],
        rule up_then [OF up_judges [OF session_op_mem(4)]], rule up_then [OF bound_run], rule up_return) simp
qed

lemma up_allocate: "upheld (of_store (fresh_seed seed)) (allocate_run cfg generation seed st) (\<lambda>_ s. True)"
proof -
  have fixtures: "upheld (of_store A) (now_or (\<lambda>_. case fixture_memories cfg (wz_run seed) (sp_now st) of
        Inl e \<Rightarrow> Inl (Unhandled e) | Inr ms \<Rightarrow> Inr ms)) (\<lambda>ms. of_store (\<lambda>s. list_all plain ms \<and> A s))" for A
    by (rule up_now_or) (auto dest: fixture_memories_plain split: sum.splits)
  show ?thesis
    unfolding allocate_run_def
    by (rule up_bind [OF fixtures], rule up_bind [OF up_allocate_stored], rule up_then [OF up_sessions [OF session_op_auths(1)]], rule up_return) simp
qed

lemma up_launch: "upheld (of_store (fresh_seed seed)) (create_judge_run cfg r body seed st) (\<lambda>_ s. True)"
proof -
  have renamed: "upheld A (\<lambda>z. case m z of (Inl e, z') \<Rightarrow> (Inl (f e), z') | done \<Rightarrow> done) B" if "upheld A m B"
    for A f B and m :: "'a judge_route"
    using that unfolding upheld_def stands_def by (simp split: prod.split sum.split) (metis fst_conv snd_conv)
  show ?thesis
    unfolding create_judge_run_def by (intro up_then up_demand steady_browser up_judges session_ops renamed up_allocate)
qed

lemma up_reset: "upheld (of_store (fresh_seed seed)) (reset_operator_run cfg r seed st later) (\<lambda>_ s. True)"
  unfolding reset_operator_run_def by (intro up_then up_ask steady_current_run up_close up_demand up_allocate)

section \<open>The deployment\<close>

text \<open>
  What a browser may ask for. A launch and an exchange need no session; every other call runs with the
  principal that the cookie of its path authenticates, at the moment it is served. \<open>Finish\<close> is the rest of a
  sandbox execution whose first transaction has committed. The identifiers of a new run are fresh.
\<close>

datatype judge_call =
    Logout judge_request time
  | ResetOperatorRun judge_request run_seed stamp stamp
  | Capabilities judge_request "string option" time
  | Propose judge_request proposal_request stamp
  | AssessOutcome judge_request assessment_request uuid uuid stamp
  | Recall judge_request stamp
  | RecordActivity judge_request string "(activity_item \<times> uuid \<times> time) list" time
  | HandOff judge_request handoff_purpose string string time
  | Dispose judge_request disposition_request uuid stamp
  | RevokeEvidence judge_request revocation_request uuid stamp

datatype judge_op =
    Launch judge_request json run_seed stamp
  | Exchange judge_request json string string string time
  | Call auth_headers time judge_call
  | IncidentCall auth_headers time api_op
  | Finish "string \<times> uuid \<times> sandbox_execution \<times> workflow_snapshot" uuid time time stamp

record judge_world =
  jw_state :: judge_state
  jw_begun :: "(string \<times> uuid \<times> sandbox_execution \<times> workflow_snapshot) list"

abbreviation as_principal :: "principal \<Rightarrow> judge_request \<Rightarrow> judge_request" where
  "as_principal p r \<equiv> r\<lparr>tr_base := (tr_base r)\<lparr>rx_identity := p\<rparr>\<rparr>"

fun reviewer_path :: "judge_call \<Rightarrow> bool" where
  "reviewer_path (Dispose r q eid st) = True"
| "reviewer_path (RevokeEvidence r q eid st) = True"
| "reviewer_path _ = False"

fun answer :: "judge_settings \<Rightarrow> principal \<Rightarrow> judge_call \<Rightarrow> judge_state \<Rightarrow> judge_state" where
  "answer cfg p (Logout r now) z = snd (logout_judge_session cfg (as_principal p r) now z)"
| "answer cfg p (ResetOperatorRun r seed st later) z =
     (if fresh_seed seed (judge_store z) then snd (reset_operator_run cfg (as_principal p r) seed st later z) else z)"
| "answer cfg p (Capabilities r etag now) z = snd (webmcp_capabilities cfg (as_principal p r) etag now z)"
| "answer cfg p (Propose r q st) z = snd (propose_webmcp_mitigation cfg (as_principal p r) q st z)"
| "answer cfg p (AssessOutcome r q aid mid st) z = snd (assess_webmcp_postcheck cfg (as_principal p r) q aid mid st z)"
| "answer cfg p (Recall r st) z = snd (recall_recurrence cfg (as_principal p r) st z)"
| "answer cfg p (RecordActivity r client items now) z = snd (record_webmcp_activity cfg (as_principal p r) client items now z)"
| "answer cfg p (HandOff r purpose digest code now) z = snd (create_reviewer_handoff cfg (as_principal p r) purpose digest code now z)"
| "answer cfg p (Dispose r q eid st) z = snd (disposition_reviewer_evidence cfg (as_principal p r) q eid st z)"
| "answer cfg p (RevokeEvidence r q eid st) z = snd (revoke_reviewer_evidence cfg (as_principal p r) q eid st z)"

definition incident_step :: "judge_settings \<Rightarrow> api_op \<Rightarrow> judge_world \<Rightarrow> judge_world" where
  "incident_step cfg op w =
     (let r = api_step (jt_api cfg) op \<lparr>zr_state = jz_api (jw_state w), zr_begun = jw_begun w\<rparr>
      in \<lparr>jw_state = (jw_state w)\<lparr>jz_api := zr_state r\<rparr>, jw_begun = zr_begun r\<rparr>)"

fun with_principal :: "principal \<Rightarrow> api_op \<Rightarrow> api_op" where
  "with_principal p (Analyze q i aid now) = Analyze (q\<lparr>rx_identity := p\<rparr>) i aid now"
| "with_principal p (Approve q i a st) = Approve (q\<lparr>rx_identity := p\<rparr>) i a st"
| "with_principal p (ApplyBegin q i a xid st) = ApplyBegin (q\<lparr>rx_identity := p\<rparr>) i a xid st"
| "with_principal p (RetryBegin q i a st) = RetryBegin (q\<lparr>rx_identity := p\<rparr>) i a st"
| "with_principal p (Observe b oid t1 t2 st) = Observe b oid t1 t2 st"
| "with_principal p (Assess q i a aid mid st) = Assess (q\<lparr>rx_identity := p\<rparr>) i a aid mid st"
| "with_principal p (Attest q i a st) = Attest (q\<lparr>rx_identity := p\<rparr>) i a st"
| "with_principal p (LearnOutcome q i ob mid st) = LearnOutcome (q\<lparr>rx_identity := p\<rparr>) i ob mid st"
| "with_principal p (GovernMemory q mid g eid st) = GovernMemory (q\<lparr>rx_identity := p\<rparr>) mid g eid st"
| "with_principal p (ResetWorkflow q i ep st) = ResetWorkflow (q\<lparr>rx_identity := p\<rparr>) i ep st"

definition authenticated ::
  "judge_settings \<Rightarrow> bool \<Rightarrow> auth_headers \<Rightarrow> time \<Rightarrow> (principal \<Rightarrow> judge_world \<Rightarrow> judge_world) \<Rightarrow> judge_world \<Rightarrow> judge_world" where
  "authenticated cfg reviewer h now k w =
     (case request_principal (Judge (jt_auth cfg)) mem_session_repo reviewer h now (jz_judges (jw_state w)) of
        (Inl e, j) \<Rightarrow> w\<lparr>jw_state := (jw_state w)\<lparr>jz_judges := j\<rparr>\<rparr>
      | (Inr p, j) \<Rightarrow> k p (w\<lparr>jw_state := (jw_state w)\<lparr>jz_judges := j\<rparr>\<rparr>))"

fun judge_step :: "judge_settings \<Rightarrow> judge_op \<Rightarrow> judge_world \<Rightarrow> judge_world" where
  "judge_step cfg (Launch r body seed st) w =
     (if fresh_seed seed (judge_store (jw_state w)) then w\<lparr>jw_state := snd (create_judge_run cfg r body seed st (jw_state w))\<rparr> else w)"
| "judge_step cfg (Exchange r body nonce token csrf now) w =
     w\<lparr>jw_state := snd (exchange_reviewer_handoff cfg r body nonce token csrf now (jw_state w))\<rparr>"
| "judge_step cfg (Call h now c) w =
     authenticated cfg (reviewer_path c) h now (\<lambda>p w. w\<lparr>jw_state := answer cfg p c (jw_state w)\<rparr>) w"
| "judge_step cfg (IncidentCall h now op) w = authenticated cfg False h now (\<lambda>p. incident_step cfg (with_principal p op)) w"
| "judge_step cfg (Finish b oid t1 t2 st) w = incident_step cfg (Observe b oid t1 t2 st) w"

definition new_judges :: "memory list \<Rightarrow> mem_ledger \<Rightarrow> judge_world" where
  "new_judges fixtures ledger = \<lparr>jw_state = \<lparr>jz_api = zr_state (new_api fixtures ledger), jz_judges = mem_sessions_empty,
     jz_replies = Map.empty\<rparr>, jw_begun = []\<rparr>"

section \<open>What every run upholds\<close>

definition named_runs :: "mem_sessions \<Rightarrow> bool" where
  "named_runs s \<longleftrightarrow> mem_sessions_inv s \<and> (\<forall>i r. Sessions.mem_run_of s i = Some r \<longrightarrow> jn_id r = i)"

lemma expire_run_id [simp]: "jn_id (expire_run now r) = jn_id r"
  by (simp add: expire_run_def)

lemma named_runs_step: "named_runs s \<Longrightarrow> named_runs (snd (session_step mem_session_repo now c s))"
proof -
  assume s: "named_runs s"
  have inv: "mem_sessions_inv s" using s by (simp add: named_runs_def)
  have keep: "\<forall>i r. Sessions.mem_run_of u i = Some r \<longrightarrow> jn_id r = i" if "only_expires n s u" for u n
  proof (intro allI impI)
    fix i r assume "Sessions.mem_run_of u i = Some r"
    moreover have "Sessions.mem_run_of u i = Sessions.mem_run_of s i \<or> Sessions.mem_run_of u i = map_option (expire_run n) (Sessions.mem_run_of s i)"
      using that by (simp add: only_expires_def)
    ultimately obtain r0 where "Sessions.mem_run_of s i = Some r0" "jn_id r = jn_id r0"
      by (cases "Sessions.mem_run_of s i") auto
    then show "jn_id r = i" using s by (simp add: named_runs_def)
  qed
  have "\<forall>i r. Sessions.mem_run_of (snd (session_step mem_session_repo now c s)) i = Some r \<longrightarrow> jn_id r = i"
    using mem_step_effect [OF inv, of now c]
  proof cases
    case (reset i r r' x y)
    then show ?thesis using s by (simp add: named_runs_def)
  next
    case (saved_run r l s1)
    then show ?thesis using keep [OF saved_run(3)] by (simp add: Sessions.mem_run_of_def update_conv')
  qed (use s keep in \<open>simp_all add: named_runs_def Sessions.mem_run_of_def\<close>)
  then show ?thesis using mem_sessions.step_inv [OF inv] by (simp add: named_runs_def)
qed

lemma named_runs_run: "sessions_run s t \<Longrightarrow> named_runs s \<Longrightarrow> named_runs t"
proof -
  have "named_runs (snd (session_run mem_session_repo cs s))" if "named_runs s" for cs
    using that by (induction cs arbitrary: s) (auto simp: split_beta named_runs_step)
  then show "sessions_run s t \<Longrightarrow> named_runs s \<Longrightarrow> named_runs t" by (auto simp: sessions_run_def)
qed

abbreviation incident_run :: "judge_world \<Rightarrow> api_run" where
  "incident_run w \<equiv> \<lparr>zr_state = jz_api (jw_state w), zr_begun = jw_begun w\<rparr>"

definition judge_inv :: "judge_world \<Rightarrow> bool" where
  "judge_inv w \<longleftrightarrow> run_inv_api (incident_run w) \<and> named_runs (jz_judges (jw_state w))"

definition onward :: "judge_world \<Rightarrow> judge_world \<Rightarrow> bool" where
  "onward w v \<longleftrightarrow> jz_replies (jw_state w) \<subseteq>\<^sub>m jz_replies (jw_state v) \<and> sessions_run (jz_judges (jw_state w)) (jz_judges (jw_state v)) \<and>
     (judge_inv w \<longrightarrow> judge_inv v)"

lemma onward_refl [simp]: "onward w w"
  by (simp add: onward_def)

lemma onward_trans: "onward w v \<Longrightarrow> onward v u \<Longrightarrow> onward w u"
  unfolding onward_def using map_le_trans sessions_run_trans by blast

lemma onward_route:
  assumes "upheld A m (\<lambda>_ s. True)" "A (jz_api (jw_state w))"
  shows "onward w (w\<lparr>jw_state := snd (m (jw_state w))\<rparr>)"
proof -
  have stands: "stands A (jw_state w) (m (jw_state w)) (\<lambda>_ s. True)" using assms(1) by (simp add: upheld_def)
  then have basic: "jz_replies (jw_state w) \<subseteq>\<^sub>m jz_replies (snd (m (jw_state w)))"
    "sessions_run (jz_judges (jw_state w)) (jz_judges (snd (m (jw_state w))))" by (simp_all add: stands_def)
  have "judge_inv (w\<lparr>jw_state := snd (m (jw_state w))\<rparr>)" if "judge_inv w"
  proof -
    have inv: "api_inv (jz_api (jw_state w))" using that by (simp add: judge_inv_def run_inv_api_def)
    then have "api_inv (jz_api (snd (m (jw_state w))))" "grows (judge_store (jw_state w)) (judge_store (snd (m (jw_state w))))"
      using stands assms(2) by (simp_all add: stands_def)
    then show ?thesis
      using that growsD(5) named_runs_run [OF basic(2)] by (auto simp: judge_inv_def run_inv_api_def list_all_iff)
  qed
  with basic show ?thesis by (simp add: onward_def)
qed

lemma onward_incident: "onward w (incident_step cfg op w)"
proof -
  let ?r = "api_step (jt_api cfg) op (incident_run w)"
  have "run_inv_api ?r" if "run_inv_api (incident_run w)" by (rule api_step_keeps [OF that])
  moreover have "incident_run (incident_step cfg op w) = ?r" "jz_judges (jw_state (incident_step cfg op w)) = jz_judges (jw_state w)"
    "jz_replies (jw_state (incident_step cfg op w)) = jz_replies (jw_state w)"
    by (simp_all add: incident_step_def Let_def)
  ultimately show ?thesis by (simp add: onward_def judge_inv_def)
qed

lemma onward_sessions:
  assumes "sessions_run (jz_judges (jw_state w)) j"
  shows "onward w (w\<lparr>jw_state := (jw_state w)\<lparr>jz_judges := j\<rparr>\<rparr>)"
  using assms named_runs_run [OF assms] by (simp add: onward_def judge_inv_def)

lemma principal_sessions: "session_op (request_principal (Judge cfg) mem_session_repo reviewer h now)"
proof -
  have "session_op (judge_authenticate mem_session_repo cookie now)" for cookie
    unfolding judge_authenticate_def
  proof (rule session_op_option, rule session_op_pure)
    fix c
    have found: "session_op (bind_s (auth_repo (sr_run_current mem_session_repo (js_run j) (js_tenant j) (js_generation j) now)) (\<lambda>current.
           if current then lift_auth (make_principal (session_principal j))
           else raise_s (NotAuthenticated ''judge session is invalid or expired'')))" for j
      by (intro session_ops)
    show "session_op (\<lambda>s. case sr_get mem_session_repo s (sha256_hex c) of
       None \<Rightarrow> (Inl (NotAuthenticated ''judge session is invalid or expired''), s)
     | Some j \<Rightarrow>
         if js_revoked j \<noteq> None \<or> js_expires j \<le> now
         then (Inl (NotAuthenticated ''judge session is invalid or expired''), s)
         else bind_s (auth_repo (sr_run_current mem_session_repo (js_run j) (js_tenant j) (js_generation j) now)) (\<lambda>current.
           if current then lift_auth (make_principal (session_principal j))
           else raise_s (NotAuthenticated ''judge session is invalid or expired'')) s)"
      using found by (auto simp: session_op_def split: option.split)
  qed
  then show ?thesis by simp
qed

lemma principal_valid: "request_principal (Judge cfg) mem_session_repo reviewer h now s = (Inr p, t) \<Longrightarrow> valid_principal p"
  by (auto simp: judge_authenticate_def bind_s_def auth_repo_def lift_auth_def raise_s_def make_principal_Inr
      split: option.splits if_splits prod.splits sum.splits)

lemma onward_authenticated:
  assumes "\<And>p v. valid_principal p \<Longrightarrow> onward v (k p v)"
  shows "onward w (authenticated cfg reviewer h now k w)"
proof -
  obtain res j where run: "request_principal (Judge (jt_auth cfg)) mem_session_repo reviewer h now (jz_judges (jw_state w)) = (res, j)"
    by (metis prod.exhaust)
  then have "sessions_run (jz_judges (jw_state w)) j"
    using principal_sessions unfolding session_op_def by (metis snd_conv)
  note first = onward_sessions [OF this]
  show ?thesis
  proof (cases res)
    case (Inl e)
    then show ?thesis using first run by (simp add: authenticated_def del: request_principal.simps)
  next
    case (Inr p)
    then show ?thesis using onward_trans [OF first assms [OF principal_valid]] run
      by (auto simp: authenticated_def simp del: request_principal.simps)
  qed
qed

lemma onward_answer:
  assumes "valid_principal p"
  shows "onward w (w\<lparr>jw_state := answer cfg p c (jw_state w)\<rparr>)"
proof (cases c)
  case (ResetOperatorRun r seed st later)
  then show ?thesis using onward_route [OF up_reset] by simp
next
  case (Dispose r q eid st)
  then show ?thesis using onward_route [OF steady_dispose TrueI] valid_subject [OF assms] by simp
qed (simp_all add: onward_route [OF steady_logout TrueI] onward_route [OF steady_capabilities TrueI] onward_route [OF steady_propose TrueI]
    onward_route [OF steady_assess TrueI] onward_route [OF steady_recall TrueI] onward_route [OF steady_activity TrueI]
    onward_route [OF steady_handoff TrueI] onward_route [OF steady_revoke TrueI])

lemma onward_step: "onward w (judge_step cfg op w)"
proof (cases op)
  case (Launch r body seed st)
  then show ?thesis using onward_route [OF up_launch] by simp
next
  case (Call h now c)
  then show ?thesis using onward_authenticated [OF onward_answer] by simp
next
  case (IncidentCall h now i)
  then show ?thesis using onward_authenticated [OF onward_incident] by simp
qed (simp_all add: onward_route [OF steady_exchange TrueI] onward_incident)

lemma onward_run: "onward w (fold (judge_step cfg) ops w)"
  by (induction ops arbitrary: w) (auto intro: onward_trans [OF onward_step])

lemma new_judges_inv: "judge_inv (new_judges fixtures ledger)"
proof -
  have "zr_begun (new_api fixtures ledger) = []" by (simp add: new_api_def)
  then have "new_api fixtures ledger = \<lparr>zr_state = zr_state (new_api fixtures ledger), zr_begun = []\<rparr>" by (cases "new_api fixtures ledger") simp
  then have "run_inv_api (incident_run (new_judges fixtures ledger))" using run_inv_new by (simp add: new_judges_def)
  then show ?thesis by (simp add: judge_inv_def new_judges_def named_runs_def Sessions.mem_run_of_def) (simp add: mem_sessions_empty_def)
qed

lemma judge_inv_run: "judge_inv (fold (judge_step cfg) ops (new_judges fixtures ledger))"
  using onward_run new_judges_inv unfolding onward_def by blast

text \<open>
  C3. Evidence behind authority, in the whole judge deployment. Take any sequence of launches, exchanges of handoffs,
  calls of the agent, the operator and the reviewer with whatever cookies they present, incident routes and background
  post-checks. Afterwards a sandbox execution is only there with the approval of exactly its allow-listed proposal, a
  post-check only with its execution and the verdict of the policy, every workflow shows only a state that rests on
  what the store has recorded (a review by somebody other than the operator included), and a memory learned from an
  incident rests on it and is active only if it was reviewed by somebody other than its observer.
\<close>

theorem judge_deployment_evidence:
  "let z = jw_state (fold (judge_step cfg) ops (new_judges fixtures ledger)); s = judge_store z; k = (t, i) in
   (case ms_sandbox s k of None \<Rightarrow> True | Some x \<Rightarrow> k = (sx_tenant x, sx_incident x) \<and> permitted s x) \<and>
   (case ms_postchecks s k of None \<Rightarrow> True | Some ov \<Rightarrow> observed s k ov) \<and>
   (case api_workflow (jz_api z) i t of None \<Rightarrow> True | Some w \<Rightarrow> rests_on s k w) \<and>
   list_all (\<lambda>m. case mm_source_incident m of None \<Rightarrow> True
     | Some _ \<Rightarrow> learned s m \<and> (if mm_state m = MActive then reviewed m else True)) (ms_memories s)"
proof -
  define z where "z = jw_state (fold (judge_step cfg) ops (new_judges fixtures ledger))"
  have inv: "api_inv (jz_api z)" using judge_inv_run by (simp add: judge_inv_def run_inv_api_def z_def)
  then have "store_inv (judge_store z)" by (rule api_store_inv)
  then have memories: "list_all (\<lambda>m. case mm_source_incident m of None \<Rightarrow> True
     | Some _ \<Rightarrow> learned (judge_store z) m \<and> (if mm_state m = MActive then reviewed m else True)) (ms_memories (judge_store z))"
    by (auto simp: store_inv_def list_all_iff split: option.split)
  show ?thesis
    unfolding z_def [symmetric] Let_def
    using inv memories by (auto simp: api_inv_def sandbox_inv_def split: option.split)
qed

end
