(* ===== verification/Agent_Tools.thy ===== *)
theory Agent_Tools
  imports Judge_Runs
begin

text \<open>
  The agent's side of the judge routes: a session of a reviewer comes from one handoff that is consumed by it, a
  mutation under an idempotency key happens at most once, and the tools a manifest offers.
\<close>

section \<open>From a handoff to a reviewer\<close>

lemma mem_consume_Inr:
  assumes "mem_consume_handoff c now s = (Inr (Some h), t)"
  obtains g where "mj_handoffs s c = Some g" "ho_consumed g = None" "ho_revoked g = None" "now < ho_expires g"
    "h = g\<lparr>ho_consumed := Some now\<rparr>" "mj_handoffs t c = Some h"
  using assms by (auto simp: mem_consume_handoff_def Let_def split: option.splits if_splits sum.splits prod.splits)

lemma consumed_not_again:
  "mj_handoffs s c = Some h \<Longrightarrow> ho_consumed h \<noteq> None \<Longrightarrow> mem_consume_handoff c now s = (Inr None, s)"
  by (simp add: mem_consume_handoff_def)

lemma session_keeps_handoffs:
  assumes "create_session cfg mem_session_repo role run tenant gen subject handoff token csrf now s = (res, s')"
  shows "mj_handoffs s' = mj_handoffs s"
proof -
  have "mj_handoffs (snd (check_session mem_session_repo role run tenant gen subject handoff now s)) = mj_handoffs s"
    by (auto simp: check_session_def bind_s_def auth_repo_def lift_auth_def raise_s_def check_s_def return_s_def mem_session_repo_def
        mem_get_run_def split: option.splits if_splits prod.splits sum.splits)
  then show ?thesis
    using assms by (auto simp: create_session_def bind_s_def Let_def auth_repo_def lift_auth_def return_s_def mem_session_repo_def
        mem_save_session_def split: prod.splits sum.splits)
qed

lemma attempt_keeps_handoffs:
  "consume_handoff_attempt cfg mem_session_repo client now s = (res, t) \<Longrightarrow> mj_handoffs t = mj_handoffs s"
  by (auto simp: consume_handoff_attempt_def mem_session_repo_def mem_consume_attempt_def Let_def
      split: option.splits prod.splits if_splits)

lemma consumed_refused:
  assumes "presented_code body = Some code" "mj_handoffs (jz_judges z) (sha256_hex code) = Some h" "ho_consumed h \<noteq> None"
  shows "\<not> ok (fst (exchange_reviewer_handoff cfg r body nonce token csrf now z))"
proof
  assume "ok (fst (exchange_reviewer_handoff cfg r body nonce token csrf now z))"
  then obtain x z3 where "exchange_reviewer_handoff cfg r body nonce token csrf now z = (Inr x, z3)"
    by (metis ok_iff prod.collapse)
  then obtain j3 j4 h2 where att: "consume_handoff_attempt (jt_auth cfg) mem_session_repo (tr_client r) now (jz_judges z) = (Inr True, j3)"
    and "mem_consume_handoff (sha256_hex code) now j3 = (Inr (Some h2), j4)"
    unfolding exchange_reviewer_handoff_def
    by (auto simp: require_webmcp_mutation_def bind_s_Inr_iff on_judges_Inr assms(1) split: option.splits)
  then show False
    using consumed_not_again [of j3 "sha256_hex code" h now] attempt_keeps_handoffs [OF att] assms(2,3) by simp
qed

text \<open>A used handoff stays used, whatever calls of the repository follow.\<close>

lemma consumed_stays:
  assumes "sessions_run s t" "mem_sessions_inv s" "mj_handoffs s code = Some h" "ho_consumed h \<noteq> None"
  shows "mj_handoffs t code = Some h"
proof -
  have get: "sr_get_handoff mem_session_repo u code = mj_handoffs u code" for u
    by (simp add: mem_session_repo_def mem_get_handoff_def)
  have "mj_handoffs (snd (session_run mem_session_repo cs s)) code = Some h" for cs
    using assms(2-4)
  proof (induction cs arbitrary: s)
    case (Cons nc cs)
    obtain n c where nc: "nc = (n, c)" by (cases nc)
    have "mj_handoffs (snd (session_step mem_session_repo n c s)) code = Some h"
      using mem_sessions.used_stays [OF Cons.prems(1), of code h n c] Cons.prems(2,3) unfolding get by blast
    then show ?case using Cons.IH [OF mem_sessions.step_inv [OF Cons.prems(1)]] Cons.prems(3) by (simp add: nc split_beta)
  qed simp
  then show ?thesis using assms(1) by (auto simp: sessions_run_def)
qed

definition fresh_session ::
  "judge_settings \<Rightarrow> review_handoff \<Rightarrow> judge_run \<Rightarrow> string \<Rightarrow> string \<Rightarrow> time \<Rightarrow> principal \<Rightarrow> judge_state \<Rightarrow> bool" where
  "fresh_session cfg h run token csrf now p z' \<longleftrightarrow>
     id_roles p = {''reviewer''} \<and> id_tenant p = jn_tenant run \<and> id_run p = Some (jn_id run) \<and> id_handoff p = Some (ho_code h) \<and>
     id_subject p \<noteq> jn_operator run \<and> id_subject p \<noteq> ho_issuer h \<and>
     (\<forall>later. fst (judge_authenticate mem_session_repo (Some token) later (jz_judges z')) = Inr p \<longleftrightarrow>
        later < now + seconds (jc_ttl (jt_auth cfg)) \<and>
        fst (mem_run_is_current (jn_id run) (jn_tenant run) (jn_generation run) later (jz_judges z')) = Inr True)"

lemma open_review_Inr:
  assumes "open_review cfg h nonce token csrf now z = (Inr (tk, cs, p), z')" "token \<noteq> []"
  obtains run where "jn_status run = RunActive" "fresh_session cfg h run token csrf now p z'"
    "mj_handoffs (jz_judges z') = mj_handoffs (jz_judges z)" "tk = token" "cs = csrf"
proof -
  obtain run j1 j2 where got: "mem_get_run (ho_run h) now (jz_judges z) = (Inr (Some run), j1)" and act: "jn_status run = RunActive"
    and names: "reviewer_named nonce \<noteq> jn_operator run" "reviewer_named nonce \<noteq> ho_issuer h"
    and cr: "create_session (jt_auth cfg) mem_session_repo ''reviewer'' (jn_id run) (jn_tenant run) (jn_generation run)
        (reviewer_named nonce) (Some (ho_code h)) token csrf now j1 = (Inr (tk, cs, p), j2)"
    and z': "z' = z\<lparr>jz_judges := j2\<rparr>"
    using assms(1) by (auto simp: open_review_def bind_s_Inr_iff on_judges_Inr on_sessions_Inr split: option.splits if_splits)
  have out: "tk = token" "cs = csrf"
    using cr by (auto simp: create_session_def Let_def bind_s_Inr_iff)
  have sound: "issued_soundly (jt_auth cfg) mem_session_repo ''reviewer'' (jn_id run) (jn_tenant run) (jn_generation run)
      (reviewer_named nonce) (Some (ho_code h)) token csrf now j1 p j2"
    by (rule create_session_sound [OF finds_saved_repos(1) assms(2) cr [unfolded out]])
  have cur: "sr_run_current mem_session_repo = mem_run_is_current" by (simp add: mem_session_repo_def)
  have "fresh_session cfg h run token csrf now p z'"
    using sound names by (auto simp: issued_soundly_def fresh_session_def z' cur)
  moreover have "mj_handoffs j1 = mj_handoffs (jz_judges z)"
    using got by (auto simp: mem_get_run_def split: option.splits)
  ultimately show thesis
    using that [OF act] out session_keeps_handoffs [OF cr] by (simp add: z')
qed


text \<open>A fresh handoff, exchanged by a browser of the public origin.\<close>

definition handed_code :: string where "handed_code = replicate 32 (CHR ''k'')"

definition handed :: review_handoff where
  "handed = rev_handoff\<lparr>ho_code := sha256_hex handed_code, ho_consumed := None\<rparr>"

definition handed_state :: judge_state where
  "handed_state = rev_state\<lparr>jz_judges := (jz_judges rev_state)\<lparr>mj_handoffs := Map.empty(sha256_hex handed_code \<mapsto> handed)\<rparr>\<rparr>"

definition handed_request :: judge_request where
  "handed_request = rev_request\<lparr>tr_content := Some ''application/json''\<rparr>"

lemma handed_exchange:
  "\<exists>h p z'. exchange_reviewer_handoff rev_settings handed_request (JObj [(''code'', JStr handed_code)]) ''n'' ''tok'' ''csrf'' 5 handed_state
     = (Inr (h, ''tok'', ''csrf'', p), z')"
proof -
  have judge: "demand (se_judge (jt_api rev_settings)) n d handed_state = (Inr (), handed_state)" for n d
    by (simp add: demand_def check_s_def rev_settings_def)
  have browser: "require_webmcp_mutation rev_settings handed_request handed_state = (Inr (), handed_state)"
    by (simp add: require_webmcp_mutation_def bind_s_def demand_def check_s_def rev_settings_def handed_request_def rev_request_def
        demo_settings_def)
  have code: "presented_code (JObj [(''code'', JStr handed_code)]) = Some handed_code"
  proof -
    have "sized 32 128 handed_code" by code_simp
    then show ?thesis by (simp add: presented_code_def)
  qed
  obtain j1 where a: "consume_handoff_attempt (jt_auth rev_settings) mem_session_repo (tr_client handed_request) 5 (jz_judges handed_state)
      = (Inr True, j1)" and j1: "mj_runs j1 = [(''r1'', rev_run)]" "mj_handoffs j1 = Map.empty(sha256_hex handed_code \<mapsto> handed)"
    by (simp add: consume_handoff_attempt_def mem_session_repo_def mem_consume_attempt_def handed_state_def rev_state_def rev_settings_def Let_def)
  define h where "h = handed\<lparr>ho_consumed := Some 5\<rparr>"
  have hs: "ho_run handed = ''r1''" "ho_tenant handed = ''acme''" "ho_expires handed = 100" "ho_consumed handed = None" "ho_revoked handed = None"
     "ho_issuer handed = ''operator_a''"
    by (simp_all add: handed_def rev_handoff_def)
  have ex: "jn_expires rev_run = 100" by (simp add: rev_run_def)
  obtain j2 where b: "mem_consume_handoff (sha256_hex handed_code) 5 j1 = (Inr (Some h), j2)" and j2: "mj_runs j2 = [(''r1'', rev_run)]"
    by (simp add: mem_consume_handoff_def j1 hs mem_get_run_def ex h_def Let_def)
  have named: "reviewer_named ''n'' = ''reviewer_n''" by (simp add: reviewer_named_def)
  have asc: "compare_digest ''operator_a'' ''reviewer_n'' = Inr False" by code_simp
  have got: "\<exists>s. mem_get_run ''r1'' 5 s' = (Inr (Some rev_run), s) \<and> mj_runs s = [(''r1'', rev_run)]" if "mj_runs s' = [(''r1'', rev_run)]" for s'
    using that by (simp add: mem_get_run_def)
  obtain j3 where c: "mem_get_run ''r1'' 5 j2 = (Inr (Some rev_run), j3)" "mj_runs j3 = [(''r1'', rev_run)]" using got [OF j2] by blast
  obtain j4 where "mem_get_run ''r1'' 5 j3 = (Inr (Some rev_run), j4)" using got [OF c(2)] by blast
  then have "check_session mem_session_repo ''reviewer'' ''r1'' ''acme'' 1 ''reviewer_n'' (Some (ho_code h)) 5 j3 = (Inr (), j4)"
    by (simp add: check_session_def bind_s_def auth_repo_def lift_auth_def asc check_s_def mem_session_repo_def)
  moreover have "valid_principal (session_principal \<lparr>js_hash = hh, js_csrf = cc, js_tenant = ''acme'', js_subject = ''reviewer_n'',
      js_role = r, js_run = i, js_generation = g, js_handoff = o1, js_expires = ee, js_revoked = None\<rparr>)" for hh cc r i g o1 ee
    by (simp add: valid_principal_def session_principal_def sized_def ulen_def slug_def slug_char_def)
  moreover have "sr_save mem_session_repo j s = (Inr (), s\<lparr>mj_sessions := (mj_sessions s)(js_hash j \<mapsto> j)\<rparr>)" for j s
    by (simp add: mem_session_repo_def mem_save_session_def)
  ultimately obtain p j5 where d: "create_session (jt_auth rev_settings) mem_session_repo ''reviewer'' ''r1'' ''acme'' 1 ''reviewer_n''
      (Some (ho_code h)) ''tok'' ''csrf'' 5 j3 = (Inr (''tok'', ''csrf'', p), j5)"
    by (simp add: create_session_def bind_s_def Let_def auth_repo_def lift_auth_def make_principal_def return_s_def)
  have e: "open_review rev_settings h ''n'' ''tok'' ''csrf'' 5 (handed_state\<lparr>jz_judges := j2\<rparr>) =
      (Inr (''tok'', ''csrf'', p), handed_state\<lparr>jz_judges := j5\<rparr>)"
    using c(1) d by (simp add: open_review_def bind_s_def on_judges_def on_sessions_def h_def hs named)
  have f: "on_judges (consume_handoff_attempt (jt_auth rev_settings) mem_session_repo (tr_client handed_request) 5) handed_state =
      (Inr True, handed_state\<lparr>jz_judges := j1\<rparr>)" using a by (simp add: on_judges_def)
  have g: "demand True n t s = (Inr (), s)" for n t s by (simp add: demand_def check_s_def)
  have i: "on_judges (mem_consume_handoff (sha256_hex handed_code) 5) (handed_state\<lparr>jz_judges := j1\<rparr>) =
      (Inr (Some h), handed_state\<lparr>jz_judges := j2\<rparr>)" using b by (simp add: on_judges_def)
  have "exchange_reviewer_handoff rev_settings handed_request (JObj [(''code'', JStr handed_code)]) ''n'' ''tok'' ''csrf'' 5 handed_state
     = (Inr (h, ''tok'', ''csrf'', p), handed_state\<lparr>jz_judges := j5\<rparr>)"
    unfolding exchange_reviewer_handoff_def
    by (rule bind_s_run, rule judge, rule bind_s_run, rule browser, unfold code option.case, rule bind_s_run, rule f,
        rule bind_s_run, rule g, rule bind_s_run, rule i, unfold option.case, rule bind_s_run, rule e) (simp only: return_s_def)
  then show ?thesis by blast
qed


section \<open>A mutation happens once\<close>

definition proposal_fields :: "proposal_request \<Rightarrow> (string \<times> json) list" where
  "proposal_fields q = [(''service'', JStr (wp_service q)), (''service_version'', JStr (wp_version q)),
     (''symptom'', JStr (wp_symptom q)), (''rationale'', optional_text (wp_rationale q))]"

definition assessment_fields :: "assessment_request \<Rightarrow> (string \<times> json) list" where
  "assessment_fields q = [(''observation_id'', JStr (eq_observation q)), (''classification'', JStr (class_value (eq_class q))),
     (''rationale'', JStr (eq_rationale q))]"

definition tool_domain :: "string \<Rightarrow> string" where
  "tool_domain route = ''recallops-webmcp-'' @ route @ ''-request-v1''"

text \<open>An accepted call of a mutating tool, with what the digest of its request is taken of.\<close>

definition tool_call ::
  "judge_settings \<Rightarrow> string \<Rightarrow> judge_request \<Rightarrow> json \<Rightarrow> judge_state \<Rightarrow> tool_reply \<Rightarrow> judge_state \<Rightarrow> bool" where
  "tool_call cfg route r v z reply z' \<longleftrightarrow> (\<exists>i run. id_run (identity r) = Some i \<and> map_of (mj_runs (jz_judges z)) i = Some run \<and>
     (route = ''proposal'' \<and> (\<exists>q st. v = JObj (request_binding run r @ proposal_fields q) \<and>
        propose_webmcp_mitigation cfg r q st z = (Inr reply, z')) \<or>
      route = ''assessment'' \<and> (\<exists>q aid mid st. v = JObj (request_binding run r @ assessment_fields q) \<and>
        assess_webmcp_postcheck cfg r q aid mid st z = (Inr reply, z'))))"

lemma judge_digest_run: "judge_digest cfg dm v z = (Inr d, z') \<longleftrightarrow>
    content_digest (pr_jcs (se_providers (jt_api cfg))) dm v = Inr d \<and> z' = z"
  by (auto simp: judge_digest_def split: sum.splits)

lemma require_key_Inr: "require_idempotency_key k z = (Inr key, z') \<longleftrightarrow> k = Some key \<and> sized 16 200 key \<and> z' = z"
  by (auto simp: require_idempotency_key_def split: option.splits)

lemma propose_stages:
  assumes "propose_webmcp_mitigation cfg r q st z = (Inr reply, z')"
  obtains run z1 w inc a where "current_run cfg (identity r) (sp_now st) z = (Inr run, z1)"
    "propose_staged cfg r run w inc a q st z1 = (Inr reply, z')"
proof -
  obtain run z1 where run: "current_run cfg (identity r) (sp_now st) z = (Inr run, z1)"
    and rest: "(case (run_workflow z1 run, get_incident (judge_store z1) (jn_incident run) (jn_tenant run),
            get_analysis (judge_store z1) (jn_incident run) (jn_tenant run)) of
        (Some w, Some inc, Some a) \<Rightarrow> propose_staged cfg r run w inc a q st
      | _ \<Rightarrow> refuse 404 ''incident not found'') z1 = (Inr reply, z')"
    using assms unfolding propose_webmcp_mitigation_def bind_s_Inr_iff require_webmcp_mutation_def by (elim exE conjE) simp
  from rest show thesis
    by (cases "run_workflow z1 run"; cases "get_incident (judge_store z1) (jn_incident run) (jn_tenant run)";
        cases "get_analysis (judge_store z1) (jn_incident run) (jn_tenant run)") (simp_all add: that [OF run])
qed

lemma assess_prepares:
  assumes "assess_webmcp_postcheck cfg r q aid mid st z = (Inr reply, z')"
  obtains run z1 w obs verdict where "current_run cfg (identity r) (sp_now st) z = (Inr run, z1)"
    "assess_prepared cfg r run w obs verdict q aid mid st z1 = (Inr reply, z')"
proof -
  obtain run z1 where run: "current_run cfg (identity r) (sp_now st) z = (Inr run, z1)"
    and rest: "(case (run_workflow z1 run, get_postcheck (judge_store z1) (jn_incident run) (jn_tenant run)) of
        (Some w, Some (obs, verdict)) \<Rightarrow> assess_prepared cfg r run w obs verdict q aid mid st
      | _ \<Rightarrow> refuse 404 ''verified postcheck not found'') z1 = (Inr reply, z')"
    using assms unfolding assess_webmcp_postcheck_def bind_s_Inr_iff require_webmcp_mutation_def by (elim exE conjE) simp
  show thesis
  proof (cases "run_workflow z1 run"; cases "get_postcheck (judge_store z1) (jn_incident run) (jn_tenant run)")
    fix w ov assume "run_workflow z1 run = Some w" "get_postcheck (judge_store z1) (jn_incident run) (jn_tenant run) = Some ov"
    then show thesis using rest that [OF run] by (cases ov) simp
  qed (use rest in simp_all)
qed

lemma tool_call_Inr:
  assumes "tool_call cfg route r v z reply z'" "named_runs (jz_judges z)"
  obtains i key d clauses operation runs where "id_run (identity r) = Some i" "tr_key r = Some key"
    "content_digest (pr_jcs (se_providers (jt_api cfg))) (tool_domain route) v = Inr d"
    "idempotent_mutation clauses i route key d operation (z\<lparr>jz_judges := (jz_judges z)\<lparr>mj_runs := runs\<rparr>\<rparr>) = (Inr reply, z')"
proof -
  obtain i run where i: "id_run (identity r) = Some i" "map_of (mj_runs (jz_judges z)) i = Some run"
    and call: "route = ''proposal'' \<and> (\<exists>q st. v = JObj (request_binding run r @ proposal_fields q) \<and>
        propose_webmcp_mitigation cfg r q st z = (Inr reply, z')) \<or>
      route = ''assessment'' \<and> (\<exists>q aid mid st. v = JObj (request_binding run r @ assessment_fields q) \<and>
        assess_webmcp_postcheck cfg r q aid mid st z = (Inr reply, z'))"
    using assms(1) unfolding tool_call_def by blast
  have name: "jn_id run = i" using assms(2) i(2) by (simp add: named_runs_def Sessions.mem_run_of_def)
  have found: "run' = run \<and> (\<exists>runs. z1 = z\<lparr>jz_judges := (jz_judges z)\<lparr>mj_runs := runs\<rparr>\<rparr>)"
    if "current_run cfg (identity r) now z = (Inr run', z1)" for run' z1 now
    by (rule current_run_Inr [OF that]) (use i in auto)
  from call show thesis
  proof (elim disjE conjE exE)
    fix q st assume route: "route = ''proposal''" and v: "v = JObj (request_binding run r @ proposal_fields q)"
      and c: "propose_webmcp_mitigation cfg r q st z = (Inr reply, z')"
    obtain run' z1 w inc a where "current_run cfg (identity r) (sp_now st) z = (Inr run', z1)" "propose_staged cfg r run' w inc a q st z1 = (Inr reply, z')"
      using propose_stages [OF c] by blast
    with found obtain runs where s: "propose_staged cfg r run w inc a q st (z\<lparr>jz_judges := (jz_judges z)\<lparr>mj_runs := runs\<rparr>\<rparr>) = (Inr reply, z')"
      by blast
    have domain: "tool_domain route = ''recallops-webmcp-proposal-request-v1''" by (simp add: route tool_domain_def)
    from s show thesis
      using that [OF i(1)] unfolding propose_staged_def bind_s_Inr_iff judge_digest_run require_key_Inr v domain proposal_fields_def [symmetric]
      by (auto simp: name route split: option.splits if_splits)
  next
    fix q aid mid st assume route: "route = ''assessment''" and v: "v = JObj (request_binding run r @ assessment_fields q)"
      and c: "assess_webmcp_postcheck cfg r q aid mid st z = (Inr reply, z')"
    obtain run' z1 w obs verdict where "current_run cfg (identity r) (sp_now st) z = (Inr run', z1)"
      "assess_prepared cfg r run' w obs verdict q aid mid st z1 = (Inr reply, z')"
      using assess_prepares [OF c] by blast
    with found obtain runs where s: "assess_prepared cfg r run w obs verdict q aid mid st (z\<lparr>jz_judges := (jz_judges z)\<lparr>mj_runs := runs\<rparr>\<rparr>) = (Inr reply, z')"
      by blast
    have domain: "tool_domain route = ''recallops-webmcp-assessment-request-v1''" by (simp add: route tool_domain_def)
    from s show thesis
      using that [OF i(1)] unfolding assess_prepared_def bind_s_Inr_iff judge_digest_run require_key_Inr v domain assessment_fields_def [symmetric] Let_def
      by (auto simp: name route split: option.splits if_splits sum.splits)
  qed
qed

lemma idempotent_Inr:
  assumes "idempotent_mutation clauses run route key digest operation z = (Inr reply, z')"
  shows "jz_replies z' (run, route, key) = Some (digest, reply)"
    "jz_replies z (run, route, key) = Some (d0, reply0) \<Longrightarrow> d0 = digest \<and> reply0 = reply \<and> z' = z"
  using assms by (auto simp: idempotent_mutation_def split: option.splits sum.splits prod.splits if_splits)

lemma tool_call_onward: "tool_call cfg route r v (jw_state w) reply z' \<Longrightarrow> onward w (w\<lparr>jw_state := z'\<rparr>)"
  using onward_route [OF steady_propose TrueI, of w] onward_route [OF steady_assess TrueI, of w]
  unfolding tool_call_def by (metis snd_conv)

text \<open>
  C5. A mutation of the agent happens once. If a proposal or an assessment was accepted under an idempotency key, then
  whatever requests of anybody are served afterwards, a later accepted call of the same tool in the same run with the
  same key gives the same reply, changes no incident, workflow or memory, and was made with a request of the same
  digest: a different request under the key is refused.
\<close>

theorem tool_mutation_once:
  assumes first: "tool_call cfg route r v (jw_state w) reply z1"
    and second: "tool_call cfg route r2 v2 (jw_state (fold (judge_step cfg) ops (w\<lparr>jw_state := z1\<rparr>))) reply2 z3"
    and same: "id_run (identity r2) = id_run (identity r)" "tr_key r2 = tr_key r"
    and named: "named_runs (jz_judges (jw_state w))"
  shows "reply2 = reply \<and> jz_api z3 = jz_api (jw_state (fold (judge_step cfg) ops (w\<lparr>jw_state := z1\<rparr>))) \<and>
    content_digest (pr_jcs (se_providers (jt_api cfg))) (tool_domain route) v2 =
    content_digest (pr_jcs (se_providers (jt_api cfg))) (tool_domain route) v"
proof -
  let ?w1 = "w\<lparr>jw_state := z1\<rparr>"
  let ?w2 = "fold (judge_step cfg) ops ?w1"
  have one: "onward w ?w1" by (rule tool_call_onward [OF first])
  have two: "onward ?w1 ?w2" by (rule onward_run)
  obtain i key d clauses operation runs where a: "id_run (identity r) = Some i" "tr_key r = Some key"
    "content_digest (pr_jcs (se_providers (jt_api cfg))) (tool_domain route) v = Inr d"
    "idempotent_mutation clauses i route key d operation ((jw_state w)\<lparr>jz_judges := (jz_judges (jw_state w))\<lparr>mj_runs := runs\<rparr>\<rparr>) = (Inr reply, z1)"
    by (rule tool_call_Inr [OF first named])
  have "named_runs (jz_judges (jw_state ?w2))"
    using onward_trans [OF one two] named_runs_run named unfolding onward_def by blast
  from tool_call_Inr [OF second this] obtain d2 clauses2 operation2 runs2 where
    b: "content_digest (pr_jcs (se_providers (jt_api cfg))) (tool_domain route) v2 = Inr d2"
      "idempotent_mutation clauses2 i route key d2 operation2 ((jw_state ?w2)\<lparr>jz_judges := (jz_judges (jw_state ?w2))\<lparr>mj_runs := runs2\<rparr>\<rparr>) = (Inr reply2, z3)"
    using a(1,2) same by (metis option.inject)
  have "jz_replies z1 (i, route, key) = Some (d, reply)" by (rule idempotent_Inr(1) [OF a(4)])
  moreover have "jz_replies z1 \<subseteq>\<^sub>m jz_replies (jw_state ?w2)" using two by (simp add: onward_def)
  ultimately have "jz_replies (jw_state ?w2) (i, route, key) = Some (d, reply)" by (metis domI map_le_def)
  then show ?thesis using idempotent_Inr(2) [OF b(2)] a(3) b(1) by auto
qed

text \<open>A proposal staged under a key, and asked for again with the same request.\<close>

definition staging_workflow :: workflow_snapshot where
  "staging_workflow = rev_workflow\<lparr>wf_state := INVESTIGATING, wf_operator := None\<rparr>"

definition staging_analysis :: analysis where
  "staging_analysis = \<lparr>an_incident = ''i1'', an_status = IncidentOpen, an_diagnosis = ''latency'', an_confidence = 1 / 2, an_memories = [],
     an_action = \<lparr>pa_name = ''reduce'', pa_command = sandbox_action_command, pa_risk = MUTATING, pa_rationale = ''reviewed'',
       pa_requires_approval = True, pa_hash = Some demo_hash\<rparr>,
     an_trace = [], an_plan = [], an_candidates = [], an_abstention = [], an_degraded = [], an_policy = ''p'', an_created = 0\<rparr>"

definition staging_store :: mem_store where
  "staging_store = (new_store [])\<lparr>ms_incidents := Map.empty((''acme'', ''i1'') \<mapsto> sample_incident),
     ms_analyses := Map.empty((''acme'', ''i1'') \<mapsto> staging_analysis)\<rparr>"

definition staging_judges :: mem_sessions where
  "staging_judges = \<lparr>mj_sessions = Map.empty, mj_attempts = Map.empty, mj_runs = [(''r1'', rev_run)], mj_handoffs = Map.empty\<rparr>"

definition staging_state :: judge_state where
  "staging_state = \<lparr>jz_api = at_state staging_store staging_workflow, jz_judges = staging_judges, jz_replies = Map.empty\<rparr>"

definition staging_key :: string where "staging_key = replicate 16 (CHR ''k'')"

definition staging_request :: judge_request where
  "staging_request = rev_request\<lparr>tr_base := (tr_base rev_request)\<lparr>rx_identity := rev_principal\<lparr>id_subject := ''operator_a'',
     id_roles := {''operator'', ''agent''}, id_handoff := None\<rparr>\<rparr>, tr_key := Some staging_key, tr_content := Some ''application/json'',
     tr_if_match := Some (expected_match rev_run staging_workflow)\<rparr>"

definition staging_proposal :: proposal_request where
  "staging_proposal = \<lparr>wp_service = ''checkout'', wp_version = ''1.2.0'', wp_symptom = ''latency'', wp_rationale = None\<rparr>"

abbreviation staging_stamp :: stamp where
  "staging_stamp \<equiv> \<lparr>sp_now = 5, sp_event = ''e1'', sp_recorded = 5\<rparr>"

definition staging_binding :: json where
  "staging_binding = JObj (request_binding rev_run staging_request @ proposal_fields staging_proposal)"

definition staging_digest :: string where
  "staging_digest = domain_hash (pr_jcs (se_providers (jt_api rev_settings))) ''recallops-webmcp-proposal-request-v1'' staging_binding"

lemma staging_domain:
  "content_digest j ''recallops-webmcp-proposal-request-v1'' v = Inr (domain_hash j ''recallops-webmcp-proposal-request-v1'' v)"
proof -
  have nul: "nul = CHR 0x00" by (simp add: nul_def char_of_def)
  show ?thesis by (simp add: content_digest_def ascii_char_def nul)
qed

lemma staging_call:
  assumes z: "jz_api z = at_state staging_store b" "jz_judges z = staging_judges" and b: "wf_id b = ''i1''" "wf_tenant b = ''acme''"
  shows "propose_webmcp_mitigation rev_settings staging_request staging_proposal staging_stamp z =
    idempotent_mutation [ByWorkflow] ''r1'' ''proposal'' staging_key staging_digest
      (stage rev_settings staging_request rev_run b staging_analysis demo_hash staging_proposal staging_stamp) z"
proof -
  have browser: "require_webmcp_mutation rev_settings staging_request z = (Inr (), z)"
    by (simp add: require_webmcp_mutation_def bind_s_def demand_def check_s_def rev_settings_def staging_request_def rev_request_def
        demo_settings_def)
  have p: "id_run (identity staging_request) = Some ''r1''" "id_tenant (identity staging_request) = ''acme''"
    "id_generation (identity staging_request) = Some 1" "tr_key staging_request = Some staging_key" "se_judge (jt_api rev_settings)"
    by (simp_all add: staging_request_def rev_request_def rev_principal_def rev_settings_def)
  have role: "now_or (\<lambda>_. require_role (identity staging_request) ''agent'') z = (Inr (), z)"
    using require_role_Inr [of "identity staging_request" "''agent''" "()"] by (simp add: now_or_def) (simp add: staging_request_def)
  have got: "on_judges (mem_get_run ''r1'' 5) z = (Inr (Some rev_run), z)"
    by (simp add: on_judges_def mem_get_run_def z staging_judges_def)
  have run: "current_run rev_settings (identity staging_request) (sp_now staging_stamp) z = (Inr rev_run, z)"
    by (simp add: current_run_def bind_s_def demand_def check_s_def p got return_s_def)
  have key: "require_idempotency_key (tr_key staging_request) z = (Inr staging_key, z)"
  proof -
    have "sized 16 200 staging_key" by code_simp
    then show ?thesis by (simp add: require_key_Inr p)
  qed
  have digest: "judge_digest rev_settings ''recallops-webmcp-proposal-request-v1'' (JObj (request_binding rev_run staging_request @
        [(''service'', JStr (wp_service staging_proposal)), (''service_version'', JStr (wp_version staging_proposal)),
         (''symptom'', JStr (wp_symptom staging_proposal)), (''rationale'', optional_text (wp_rationale staging_proposal))])) z = (Inr staging_digest, z)"
    unfolding judge_digest_run staging_digest_def staging_binding_def proposal_fields_def by (intro conjI staging_domain refl)
  have found: "run_workflow z rev_run = Some b" "get_incident (judge_store z) (jn_incident rev_run) (jn_tenant rev_run) = Some sample_incident"
    "get_analysis (judge_store z) (jn_incident rev_run) (jn_tenant rev_run) = Some staging_analysis"
    using at_state_simps(2) [of staging_store b] by (simp_all add: run_workflow_def z b get_incident_def get_analysis_def staging_store_def)
  have match: "demand (wp_service staging_proposal = in_service sample_incident \<and> wp_version staging_proposal = in_version sample_incident \<and>
      wp_symptom staging_proposal = in_symptom sample_incident) 409 ''proposal input does not match run evidence'' z = (Inr (), z)"
    by (simp add: demand_def check_s_def staging_proposal_def sample_incident_def)
  have action: "pa_hash (an_action staging_analysis) = Some demo_hash" "pa_requires_approval (an_action staging_analysis)"
    by (simp_all add: staging_analysis_def)
  have staged: "propose_staged rev_settings staging_request rev_run b sample_incident staging_analysis staging_proposal staging_stamp z =
    idempotent_mutation [ByWorkflow] ''r1'' ''proposal'' staging_key staging_digest
      (stage rev_settings staging_request rev_run b staging_analysis demo_hash staging_proposal staging_stamp) z"
    unfolding propose_staged_def
    by (rule bind_s_run, rule key, rule bind_s_run, rule digest, rule bind_s_run, rule match) (simp add: action)
  show ?thesis
    unfolding propose_webmcp_mitigation_def
    by (rule bind_s_run, rule browser, rule bind_s_run, rule role, rule bind_s_run, rule run) (simp only: found option.case prod.case staged)
qed

lemma staging_staged:
  "\<exists>reply b. stage rev_settings staging_request rev_run staging_workflow staging_analysis demo_hash staging_proposal staging_stamp
      (at_state staging_store staging_workflow) = (Inr reply, at_state staging_store b) \<and> wf_id b = ''i1'' \<and> wf_tenant b = ''acme''"
proof -
  let ?q = "about ''PROPOSAL_STAGED'' ''proposal'' (jn_incident rev_run) demo_hash
         (move (jn_incident rev_run) (jn_tenant rev_run) (wf_epoch staging_workflow) INVESTIGATING AWAITING_OPERATOR_APPROVAL WEBMCP
           (webmcp_agent_subject rev_run) ''agent'')"
  let ?s = "at_state staging_store staging_workflow"
  have w: "wf_id staging_workflow = ''i1''" "wf_tenant staging_workflow = ''acme''"
    by (simp_all add: staging_workflow_def rev_workflow_def)
  have "list_all ascii_char (expected_match rev_run staging_workflow)"
    unfolding rev_run_def staging_workflow_def rev_workflow_def by code_simp
  then have "if_match staging_request rev_run staging_workflow = Inr ()"
    by (simp add: if_match_def staging_request_def compare_digest_def check_r_def)
  then have a: "tx_read (\<lambda>_. if_match staging_request rev_run staging_workflow) ?s = (Inr (), ?s)" by (simp add: tx_read_def)
  have cur: "request_current ?q staging_workflow"
    by (simp add: request_current_def current_at_def) (simp add: staging_workflow_def rev_workflow_def)
  define b where "b = apply_request ?q (sp_now staging_stamp) staging_workflow"
  have t: "tx_transition (se_externals (jt_api rev_settings)) ?q staging_stamp ?s = (Inr b, at_state staging_store b)"
    unfolding b_def by (rule tx_transition_at [OF cur]) (simp_all add: w)
  have "wf_id b = ''i1''" "wf_tenant b = ''acme''"
    using w by (simp_all add: b_def apply_request_def advance_def)
  moreover have "\<exists>reply. stage rev_settings staging_request rev_run staging_workflow staging_analysis demo_hash staging_proposal staging_stamp ?s =
      (Inr reply, at_state staging_store b)"
    unfolding stage_def by (intro exI, rule bind_s_run, rule a, rule bind_s_run, rule t) (simp add: return_s_def)
  ultimately show ?thesis by blast
qed

theorem tool_mutation_once_witness:
  "\<exists>reply z1 reply2 z3. tool_call rev_settings ''proposal'' staging_request staging_binding staging_state reply z1 \<and>
     jz_replies staging_state = Map.empty \<and> tool_call rev_settings ''proposal'' staging_request staging_binding z1 reply2 z3 \<and>
     reply2 = reply \<and> jz_api z3 = jz_api z1"
proof -
  let ?w = "\<lparr>jw_state = staging_state, jw_begun = []\<rparr>"
  have s: "jz_api staging_state = at_state staging_store staging_workflow" "jz_judges staging_state = staging_judges" "jz_replies staging_state = Map.empty"
    by (simp_all add: staging_state_def)
  have b: "wf_id staging_workflow = ''i1''" "wf_tenant staging_workflow = ''acme''"
    by (simp_all add: staging_workflow_def rev_workflow_def)
  obtain reply b' where staged: "stage rev_settings staging_request rev_run staging_workflow staging_analysis demo_hash staging_proposal staging_stamp
      (at_state staging_store staging_workflow) = (Inr reply, at_state staging_store b')" and b': "wf_id b' = ''i1''" "wf_tenant b' = ''acme''"
    using staging_staged by blast
  define z1 where "z1 = staging_state\<lparr>jz_api := at_state staging_store b', jz_replies := Map.empty((''r1'', ''proposal'', staging_key) \<mapsto> (staging_digest, reply))\<rparr>"
  have z1: "jz_api z1 = at_state staging_store b'" "jz_judges z1 = staging_judges"
    "jz_replies z1 (''r1'', ''proposal'', staging_key) = Some (staging_digest, reply)"
    by (simp_all add: z1_def s)
  have one: "propose_webmcp_mitigation rev_settings staging_request staging_proposal staging_stamp staging_state = (Inr reply, z1)"
    unfolding staging_call [OF s(1,2) b] idempotent_mutation_def s(1,3) staged by (simp add: z1_def)
  have two: "propose_webmcp_mitigation rev_settings staging_request staging_proposal staging_stamp z1 = (Inr reply, z1)"
    unfolding staging_call [OF z1(1,2) b'] idempotent_mutation_def z1(3) by simp
  have ids: "id_run (identity staging_request) = Some ''r1''" "map_of (mj_runs staging_judges) ''r1'' = Some rev_run"
    by (simp_all add: staging_request_def rev_request_def rev_principal_def staging_judges_def)
  have call: "tool_call rev_settings ''proposal'' staging_request staging_binding z reply z1"
    if "propose_webmcp_mitigation rev_settings staging_request staging_proposal staging_stamp z = (Inr reply, z1)" "jz_judges z = staging_judges" for z
    unfolding tool_call_def staging_binding_def that(2)
    by (rule exI [of _ "''r1''"], rule exI [of _ rev_run], intro conjI disjI1 refl exI [of _ staging_proposal] exI [of _ staging_stamp] ids that(1))
  have named: "named_runs (jz_judges (jw_state ?w))"
    by (simp add: named_runs_def mem_sessions_inv_def Sessions.mem_run_of_def s staging_judges_def)
  have first: "tool_call rev_settings ''proposal'' staging_request staging_binding (jw_state ?w) reply z1" using call [OF one s(2)] by simp
  have again: "tool_call rev_settings ''proposal'' staging_request staging_binding
      (jw_state (fold (judge_step rev_settings) [] (?w\<lparr>jw_state := z1\<rparr>))) reply z1"
    using call [OF two z1(2)] by simp
  from tool_mutation_once [OF first again refl refl named]
  have "jz_api z1 = jz_api (jw_state (fold (judge_step rev_settings) [] (?w\<lparr>jw_state := z1\<rparr>)))" by blast
  with first again s(3) show ?thesis by auto
qed

section \<open>The manifest and what the tools do\<close>

lemma offered_tools_iff:
  "''inspect_incident'' \<in> set (offered_tools m w now) \<longleftrightarrow> wf_active w"
  "''propose_mitigation'' \<in> set (offered_tools m w now) \<longleftrightarrow> wf_active w \<and> wf_state w = INVESTIGATING"
  "''record_postcheck_assessment'' \<in> set (offered_tools m w now) \<longleftrightarrow> wf_active w \<and> wf_state w = POSTCHECK_READY"
  "''recall_reviewed_memory'' \<in> set (offered_tools m w now) \<longleftrightarrow> wf_active w \<and> wf_state w = REVIEWED \<and>
     (\<exists>x. m = Some x \<and> recall_eligible x now)"
  by (cases "wf_state w"; cases m; force simp: offered_tools_def available_tools_def Let_def)+

lemma offered_tools_known: "set (offered_tools m w now) \<subseteq> set webmcp_tool_names"
proof -
  have "set (available_tools w) \<subseteq> set webmcp_tool_names"
    by (cases "wf_state w") (auto simp: available_tools_def webmcp_tool_names_def)
  moreover have "set (offered_tools m w now) \<subseteq> set (available_tools w)"
    by (simp add: offered_tools_def Let_def set_remove1_subset del: set_remove1_eq)
  ultimately show ?thesis by blast
qed

lemma make_manifest_Inr:
  assumes "make_webmcp_manifest cfg s run w now z = (Inr m, z')"
  shows "wm_available m = offered_tools (run_memory s run) w now" "wm_protected m = protected_operations"
    "wm_withheld m = map (\<lambda>n. (n, withheld_reasons n)) (filter (\<lambda>n. n \<notin> set (wm_available m)) webmcp_tool_names)" "z' = z"
  using assms by (auto simp: make_webmcp_manifest_def Let_def bind_s_Inr_iff judge_digest_run)

text \<open>What an accepted recall and an accepted, first proposal found.\<close>

lemma recall_Inr:
  assumes "recall_recurrence cfg r st z = (Inr v, z')"
  shows "\<exists>run z1 w x. current_run cfg (identity r) (sp_now st) z = (Inr run, z1) \<and> run_workflow z1 run = Some w \<and> wf_active w \<and>
    wf_state w = REVIEWED \<and> run_memory (judge_store z1) run = Some x \<and> recall_eligible x (sp_now st)"
proof -
  obtain run z1 where run: "current_run cfg (identity r) (sp_now st) z = (Inr run, z1)"
    and rest: "(case run_workflow z1 run of
        None \<Rightarrow> refuse 409 ''reviewed recurrence is unavailable''
      | Some w \<Rightarrow> bind_s (make_webmcp_manifest cfg (judge_store z1) run w (sp_now st)) (\<lambda>m.
          if ''recall_reviewed_memory'' \<notin> set (wm_available m) then refuse 409 ''reviewed recurrence is unavailable''
          else bind_s (now_or (\<lambda>z. case recurrence_view (se_service (jt_api cfg)) (se_providers (jt_api cfg)) (judge_store z)
                (recurrence_incident run) (map_option mm_id (run_memory (judge_store z) run)) (sp_now st) of
              Inl e \<Rightarrow> Inl (Unhandled (TxService e)) | Inr v \<Rightarrow> Inr v)) (\<lambda>v. \<lambda>z.
            (Inr v, add_activities [server_activity run ''recall_reviewed_memory''
               ''Agent evaluated immutable compatible recurrence'' st] z)))) z1 = (Inr v, z')"
    using assms unfolding recall_recurrence_def bind_s_Inr_iff by (elim exE conjE) simp
  obtain w where w: "run_workflow z1 run = Some w" using rest by (cases "run_workflow z1 run") simp_all
  then obtain m z2 where m: "make_webmcp_manifest cfg (judge_store z1) run w (sp_now st) z1 = (Inr m, z2)"
    and "''recall_reviewed_memory'' \<in> set (wm_available m)"
    using rest by (auto simp: bind_s_Inr_iff split: if_splits)
  then have "''recall_reviewed_memory'' \<in> set (offered_tools (run_memory (judge_store z1) run) w (sp_now st))"
    using make_manifest_Inr(1) [OF m] by simp
  with run w show ?thesis unfolding offered_tools_iff by blast
qed

lemma propose_Inr:
  assumes "propose_webmcp_mitigation cfg r q st z = (Inr reply, z')"
  shows "\<exists>run z1 key. current_run cfg (identity r) (sp_now st) z = (Inr run, z1) \<and> tr_key r = Some key \<and>
    ((\<exists>d. jz_replies z1 (jn_id run, ''proposal'', key) = Some (d, reply)) \<or>
     (\<exists>w. run_workflow z1 run = Some w \<and> wf_active w \<and> wf_state w = INVESTIGATING))"
proof -
  obtain run z1 b inc a where run: "current_run cfg (identity r) (sp_now st) z = (Inr run, z1)"
    and staged: "propose_staged cfg r run b inc a q st z1 = (Inr reply, z')" by (rule propose_stages [OF assms])
  obtain key d h where key: "tr_key r = Some key"
    and i: "idempotent_mutation [ByWorkflow] (jn_id run) ''proposal'' key d (stage cfg r run b a h q st) z1 = (Inr reply, z')"
    using staged by (auto simp: propose_staged_def bind_s_Inr_iff judge_digest_run require_key_Inr split: option.splits if_splits)
  have "\<exists>w. run_workflow z1 run = Some w \<and> wf_active w \<and> wf_state w = INVESTIGATING"
    if none: "jz_replies z1 (jn_id run, ''proposal'', key) = None"
  proof -
    obtain s where "stage cfg r run b a h q st (jz_api z1) = (Inr reply, s)"
      using i none by (auto simp: idempotent_mutation_def split: prod.splits sum.splits)
    then obtain w' s1 where "tx_transition (se_externals (jt_api cfg)) (about ''PROPOSAL_STAGED'' ''proposal'' (jn_incident run) h
         (move (jn_incident run) (jn_tenant run) (wf_epoch b) INVESTIGATING AWAITING_OPERATOR_APPROVAL WEBMCP
           (webmcp_agent_subject run) ''agent'')) st (jz_api z1) = (Inr w', s1)"
      by (auto simp: stage_def bind_s_Inr_iff)
    then obtain w where "api_workflow (jz_api z1) (jn_incident run) (jn_tenant run) = Some w" "wf_active w" "wf_state w = INVESTIGATING"
      by (rule tx_transition_Inr) (simp add: request_current_def current_at_def)
    then show ?thesis by (auto simp: run_workflow_def)
  qed
  moreover have "\<exists>d. jz_replies z1 (jn_id run, ''proposal'', key) = Some (d, reply)"
    if "jz_replies z1 (jn_id run, ''proposal'', key) \<noteq> None"
    using i that by (auto simp: idempotent_mutation_def split: if_splits)
  ultimately show ?thesis using run key by blast
qed


end
